(* ===== verification/Prelude.thy ===== *)
theory Prelude
  imports Complex_Main "HOL-Library.Word" "HOL-Library.AList" "HOL-Library.Char_ord"
    "HOL-Library.List_Lexorder" "HOL-Library.Product_Lexorder"
begin

text \<open>
  What every component theory shares: the types the model uses for the values of the
  Python code, insertion-ordered dictionaries with their laws, the result type of code
  that can raise, and the fact collections the component proofs refer to.

  A Python \<open>int\<close> is an \<open>int\<close> (or \<open>nat\<close> where the code can only make it
  non-negative), a \<open>float\<close> is a rational number (rounding of binary floats is not
  modelled), \<open>bytes\<close> is a list of 8-bit words, \<open>str\<close> is a list of characters with
  code points below 256: what only other characters do (U+2028 and U+2029 end a line for \<open>splitlines\<close>,
  a lone surrogate cannot be written to a file) is outside the model. A \<open>dict\<close> is an association list with distinct keys in
  insertion order, so that code that iterates over one sees the order Python gives it.
\<close>

section \<open>Types\<close>

type_synonym bytes = "8 word list"
type_synonym pyfloat = rat
type_synonym ('k, 'v) dict = "('k \<times> 'v) list"

text \<open>The exceptions the modelled code can raise, and the result of code that may raise.\<close>

datatype py_error = ValueError | TypeError | KeyError | AttributeError | UnicodeEncodeError
  | OverflowError | JSONDecodeError | OSError | UnicodeDecodeError | IndexError

type_synonym 'a res = "py_error + 'a"

named_theorems dict_laws \<open>laws of insertion-ordered dictionaries\<close>
named_theorems frame_rules \<open>what an operation leaves unchanged\<close>
named_theorems inv_rules \<open>preservation of component invariants\<close>

section \<open>Results\<close>

text \<open>Sequencing of code that may raise: the first exception ends the computation.\<close>

definition bind_res :: "'a res \<Rightarrow> ('a \<Rightarrow> 'b res) \<Rightarrow> 'b res" where
  "bind_res r f = (case r of Inl e \<Rightarrow> Inl e | Inr a \<Rightarrow> f a)"

text \<open>A value is returned and it satisfies \<open>P\<close>.\<close>

definition gives :: "('a \<Rightarrow> bool) \<Rightarrow> 'a res \<Rightarrow> bool" where
  "gives P r = (case r of Inl _ \<Rightarrow> False | Inr x \<Rightarrow> P x)"

lemma gives_simps [simp]: "\<not> gives P (Inl e)" "gives P (Inr x) = P x"
  by (simp_all add: gives_def)

lemma bind_res_simps [simp]:
  "bind_res (Inl e) f = Inl e"
  "bind_res (Inr a) f = f a"
  by (simp_all add: bind_res_def)

lemma bind_res_eq_Inr: "bind_res r f = Inr b \<longleftrightarrow> (\<exists>a. r = Inr a \<and> f a = Inr b)"
  by (cases r) auto

text \<open>A loop whose body may raise.\<close>

fun fold_res :: "('a \<Rightarrow> 's \<Rightarrow> 's res) \<Rightarrow> 'a list \<Rightarrow> 's \<Rightarrow> 's res" where
  "fold_res f [] s = Inr s"
| "fold_res f (x # xs) s = bind_res (f x s) (fold_res f xs)"

text \<open>An invariant of the body is one of the loop.\<close>

lemma fold_res_inv:
  "(\<And>x s s'. x \<in> set xs \<Longrightarrow> I s \<Longrightarrow> f x s = Inr s' \<Longrightarrow> I s') \<Longrightarrow> I s \<Longrightarrow> fold_res f xs s = Inr s' \<Longrightarrow> I s'"
proof (induction xs arbitrary: s)
  case (Cons x xs)
  from Cons.prems(3) obtain s1 where s1: "f x s = Inr s1" "fold_res f xs s1 = Inr s'"
    by (auto simp: bind_res_eq_Inr)
  have i1: "I s1" using Cons.prems(1) [OF _ Cons.prems(2) s1(1)] by simp
  show ?case by (rule Cons.IH [OF _ i1 s1(2)]) (rule Cons.prems(1), auto)
qed simp

section \<open>Insertion-ordered dictionaries\<close>

text \<open>
  \<open>d[k] = v\<close> keeps the position of an existing key and appends a new one, which is
  what the library's \<open>AList.update\<close> does; \<open>d.get(k)\<close> is \<open>map_of d k\<close>.
\<close>

definition dict_put :: "'k \<Rightarrow> 'v \<Rightarrow> ('k, 'v) dict \<Rightarrow> ('k, 'v) dict" where
  "dict_put k v d = AList.update k v d"

definition dict_get :: "('k, 'v) dict \<Rightarrow> 'k \<Rightarrow> 'v option" where
  "dict_get d k = map_of d k"

definition dict_keys :: "('k, 'v) dict \<Rightarrow> 'k list" where
  "dict_keys d = map fst d"

definition dict_del :: "'k \<Rightarrow> ('k, 'v) dict \<Rightarrow> ('k, 'v) dict" where
  "dict_del k d = filter (\<lambda>p. fst p \<noteq> k) d"

definition dict_wf :: "('k, 'v) dict \<Rightarrow> bool" where
  "dict_wf d = distinct (dict_keys d)"

lemma dict_get_Nil [simp]: "dict_get [] k = None"
  by (simp add: dict_get_def)

lemma dict_wf_Nil [simp]: "dict_wf []"
  by (simp add: dict_wf_def dict_keys_def)

lemma dict_keys_Nil [simp]: "dict_keys [] = []"
  by (simp add: dict_keys_def)

lemma dict_put_Nil [simp]: "dict_put k v [] = [(k, v)]"
  by (simp add: dict_put_def)

lemma dict_put_Cons [simp]:
  "dict_put k v ((a, b) # d) = (if a = k then (k, v) # d else (a, b) # dict_put k v d)"
  by (simp add: dict_put_def)

lemma dict_get_Cons [simp]: "dict_get ((a, b) # d) k = (if a = k then Some b else dict_get d k)"
  by (simp add: dict_get_def)

lemma dict_get_put [simp, dict_laws]:
  "dict_get (dict_put k v d) k' = (if k' = k then Some v else dict_get d k')"
  by (simp add: dict_get_def dict_put_def update_conv')

lemma dict_wf_put [simp, dict_laws]: "dict_wf d \<Longrightarrow> dict_wf (dict_put k v d)"
  by (simp add: dict_wf_def dict_keys_def dict_put_def distinct_update)

lemma dict_keys_put [dict_laws]:
  "dict_keys (dict_put k v d) = (if k \<in> set (dict_keys d) then dict_keys d else dict_keys d @ [k])"
  by (simp add: dict_keys_def dict_put_def update_keys)

lemma set_dict_keys_put [simp, dict_laws]:
  "set (dict_keys (dict_put k v d)) = insert k (set (dict_keys d))"
  by (auto simp: dict_keys_put)

lemma dict_get_None_iff: "dict_get d k = None \<longleftrightarrow> k \<notin> set (dict_keys d)"
  by (simp add: dict_get_def dict_keys_def map_of_eq_None_iff)

lemma dict_get_SomeD: "dict_get d k = Some v \<Longrightarrow> (k, v) \<in> set d"
  by (simp add: dict_get_def map_of_SomeD)

lemma dict_get_in_keys: "dict_get d k = Some v \<Longrightarrow> k \<in> set (dict_keys d)"
  by (metis dict_get_None_iff option.distinct(1))

lemma dict_get_Some_iff: "dict_wf d \<Longrightarrow> dict_get d k = Some v \<longleftrightarrow> (k, v) \<in> set d"
  by (simp add: dict_get_def dict_wf_def dict_keys_def)

lemma length_dict_put:
  "length (dict_put k v d) = (if k \<in> set (dict_keys d) then length d else Suc (length d))"
  using arg_cong [OF dict_keys_put [of k v d], of length]
  by (simp add: dict_keys_def split: if_splits)

lemma dict_put_Ball:
  "\<forall>p\<in>set d. P p \<Longrightarrow> P (k, v) \<Longrightarrow> \<forall>p\<in>set (dict_put k v d). P p"
  by (induction d) (auto split: if_splits)

text \<open>Counters held in a dictionary: \<open>d[k] = d.get(k, 0) + 1\<close>.\<close>

definition dict_bump :: "'k \<Rightarrow> ('k, nat) dict \<Rightarrow> ('k, nat) dict" where
  "dict_bump k d = dict_put k (case dict_get d k of None \<Rightarrow> 1 | Some c \<Rightarrow> Suc c) d"

definition dict_total :: "('k, nat) dict \<Rightarrow> nat" where
  "dict_total d = sum_list (map snd d)"

lemma dict_total_Nil [simp]: "dict_total [] = 0"
  by (simp add: dict_total_def)

lemma dict_total_put_new:
  "k \<notin> set (dict_keys d) \<Longrightarrow> dict_total (dict_put k v d) = dict_total d + v"
  by (induction d) (auto simp: dict_total_def dict_keys_def)

lemma dict_total_put_old:
  "dict_get d k = Some c \<Longrightarrow> dict_total (dict_put k v d) + c = dict_total d + v"
  by (induction d) (auto simp: dict_total_def split: if_splits)

lemma dict_total_bump [simp, dict_laws]: "dict_total (dict_bump k d) = Suc (dict_total d)"
proof (cases "dict_get d k")
  case None
  then show ?thesis
    by (simp add: dict_bump_def dict_total_put_new dict_get_None_iff [symmetric])
next
  case (Some c)
  then show ?thesis
    using dict_total_put_old [OF Some, of "Suc c"] by (simp add: dict_bump_def)
qed

lemma dict_wf_bump [simp, dict_laws]: "dict_wf d \<Longrightarrow> dict_wf (dict_bump k d)"
  by (simp add: dict_bump_def)

lemma dict_get_bump [simp]:
  "dict_get (dict_bump k d) k' =
     (if k' = k then Some (case dict_get d k of None \<Rightarrow> 1 | Some c \<Rightarrow> Suc c) else dict_get d k')"
  by (simp add: dict_bump_def)

section \<open>The dictionary interface\<close>

text \<open>
  What the components rely on when they keep a table: storing a key makes it readable,
  leaves the others alone, and the keys seen are exactly the ones stored. The dictionaries
  above provide it; the lemmas of the interface follow for every table.
\<close>

locale table =
  fixes empty :: "'t" and lookup :: "'t \<Rightarrow> 'k \<Rightarrow> 'v option"
    and store :: "'k \<Rightarrow> 'v \<Rightarrow> 't \<Rightarrow> 't" and keys :: "'t \<Rightarrow> 'k set"
  assumes lookup_empty: "lookup empty k = None"
    and lookup_store: "lookup (store k v t) k' = (if k' = k then Some v else lookup t k')"
    and keys_lookup: "k \<in> keys t \<longleftrightarrow> lookup t k \<noteq> None"
begin

lemma keys_empty: "keys empty = {}"
  using keys_lookup lookup_empty by fastforce

lemma keys_store: "keys (store k v t) = insert k (keys t)"
  by (auto simp: keys_lookup lookup_store split: if_splits)

lemma lookup_fold_store:
  "lookup (fold (\<lambda>(k, v). store k v) ps t) k =
     (case map_of (rev ps) k of None \<Rightarrow> lookup t k | Some v \<Rightarrow> Some v)"
  by (induction ps arbitrary: t)
     (auto simp: lookup_store map_add_def split: option.splits)

lemma keys_fold_store: "keys (fold (\<lambda>(k, v). store k v) ps t) = fst ` set ps \<union> keys t"
  by (induction ps arbitrary: t) (auto simp: keys_store)

end

interpretation dct: table "[]" dict_get dict_put "\<lambda>d. set (dict_keys d)"
  by unfold_locales (auto simp: dict_get_None_iff)

section \<open>Lists\<close>

text \<open>\<open>list(dict.fromkeys(xs))\<close>: the first occurrence of every element, in order.\<close>

definition dedup :: "'a list \<Rightarrow> 'a list" where
  "dedup xs = dict_keys (fold (\<lambda>x. dict_put x ()) xs [])"

lemma dict_keys_fold_put:
  "dict_wf d \<Longrightarrow> distinct (dict_keys (fold (\<lambda>x. dict_put x ()) xs d)) \<and>
     set (dict_keys (fold (\<lambda>x. dict_put x ()) xs d)) = set xs \<union> set (dict_keys d)"
  by (induction xs arbitrary: d) (auto simp: dict_wf_def [symmetric])

lemma distinct_dedup [simp]: "distinct (dedup xs)"
  and set_dedup [simp]: "set (dedup xs) = set xs"
  using dict_keys_fold_put [of "[]" xs] by (simp_all add: dedup_def)

lemma sorted_list_strict: "sorted xs \<Longrightarrow> distinct xs \<Longrightarrow> sorted_wrt (<) (xs :: 'a :: linorder list)"
  by (simp add: strict_sorted_iff)

end
