(* ===== verification/PyValue.thy ===== *)
theory PyValue
  imports Prelude
begin

text \<open>
  The part of Python and its standard library the sources use: text methods
  (\<open>strip\<close>, \<open>lower\<close>, \<open>upper\<close>, \<open>split\<close>), decimal rendering and reading of
  integers, JSON values as the \<open>json\<close> module returns them, and the built-ins
  \<open>bool\<close>, \<open>str\<close>, \<open>int\<close> and \<open>or\<close> on such values, with the exceptions they raise.
  A JSON file is what \<open>read_text\<close> followed by \<open>json.loads\<close> makes of it: absent,
  unreadable, not JSON, or a value.
\<close>

section \<open>Text\<close>

definition chr_code :: "char \<Rightarrow> nat" where
  "chr_code c = of_char c"

definition is_space :: "char \<Rightarrow> bool" where
  "is_space c = (let n = chr_code c in (9 \<le> n \<and> n \<le> 13) \<or> (28 \<le> n \<and> n \<le> 32) \<or> n = 133 \<or> n = 160)"

definition lstrip :: "string \<Rightarrow> string" where
  "lstrip s = dropWhile is_space s"

definition rstrip :: "string \<Rightarrow> string" where
  "rstrip s = rev (dropWhile is_space (rev s))"

definition strip :: "string \<Rightarrow> string" where
  "strip s = rstrip (lstrip s)"

text \<open>
  \<open>str.lower()\<close> and \<open>str.upper()\<close> on the characters below U+0100: the ASCII and the accented letters
  change case. \<open>upper\<close> keeps the micro sign, the sharp s and y with diaeresis, whose capitals are not
  single characters below U+0100.
\<close>

definition lower_char :: "char \<Rightarrow> char" where
  "lower_char c = (let n = chr_code c in
     if 65 \<le> n \<and> n \<le> 90 \<or> 192 \<le> n \<and> n \<le> 222 \<and> n \<noteq> 215 then char_of (n + 32) else c)"

definition upper_char :: "char \<Rightarrow> char" where
  "upper_char c = (let n = chr_code c in
     if 97 \<le> n \<and> n \<le> 122 \<or> 224 \<le> n \<and> n \<le> 254 \<and> n \<noteq> 247 then char_of (n - 32) else c)"

definition lower :: "string \<Rightarrow> string" where
  "lower s = map lower_char s"

definition upper :: "string \<Rightarrow> string" where
  "upper s = map upper_char s"

text \<open>\<open>s.split(c)\<close> for a one-character separator: never the empty list.\<close>

fun split_on :: "char \<Rightarrow> string \<Rightarrow> string list" where
  "split_on c [] = [[]]"
| "split_on c (x # xs) =
     (if x = c then [] # split_on c xs
      else (case split_on c xs of [] \<Rightarrow> [[x]] | w # ws \<Rightarrow> (x # w) # ws))"

fun join_with :: "string \<Rightarrow> string list \<Rightarrow> string" where
  "join_with sep [] = []"
| "join_with sep [w] = w"
| "join_with sep (w # ws) = w @ sep @ join_with sep ws"

fun starts_with :: "'a list \<Rightarrow> 'a list \<Rightarrow> bool" where
  "starts_with [] ys = True"
| "starts_with (x # xs) [] = False"
| "starts_with (x # xs) (y # ys) = (x = y \<and> starts_with xs ys)"

text \<open>\<open>needle in haystack\<close>, for text and for bytes.\<close>

fun is_infix :: "'a list \<Rightarrow> 'a list \<Rightarrow> bool" where
  "is_infix xs [] = (xs = [])"
| "is_infix xs (y # ys) = (starts_with xs (y # ys) \<or> is_infix xs ys)"

lemma lower_char_idem [simp]: "lower_char (lower_char c) = lower_char c"
  by (auto simp: lower_char_def chr_code_def Let_def of_char_of)

lemma lower_idem [simp]: "lower (lower s) = lower s"
  by (simp add: lower_def)

lemma split_on_nonempty [simp]: "split_on c s \<noteq> []"
  by (induction s) (auto split: list.splits)

lemma starts_with_append [simp]: "starts_with xs (xs @ ys)"
  by (induction xs) auto

lemma starts_with_iff: "starts_with xs ys \<longleftrightarrow> (\<exists>zs. ys = xs @ zs)"
  by (induction xs ys rule: starts_with.induct) auto

lemma is_infix_iff: "is_infix xs ys \<longleftrightarrow> (\<exists>us zs. ys = us @ xs @ zs)"
proof (induction xs ys rule: is_infix.induct)
  case (1 xs)
  then show ?case by auto
next
  case (2 xs y ys)
  show ?case
  proof
    assume "is_infix xs (y # ys)"
    then consider "starts_with xs (y # ys)" | "is_infix xs ys" by auto
    then show "\<exists>us zs. y # ys = us @ xs @ zs"
    proof cases
      case 1
      then obtain zs where "y # ys = [] @ xs @ zs" by (auto simp: starts_with_iff)
      then show ?thesis by blast
    next
      case 2
      then obtain us zs where "ys = us @ xs @ zs" using "2.IH" by blast
      then have "y # ys = (y # us) @ xs @ zs" by simp
      then show ?thesis by blast
    qed
  next
    assume "\<exists>us zs. y # ys = us @ xs @ zs"
    then obtain us zs where e: "y # ys = us @ xs @ zs" by blast
    show "is_infix xs (y # ys)"
    proof (cases us)
      case Nil
      then have "y # ys = xs @ zs" using e by simp
      then have "starts_with xs (y # ys)" by (metis starts_with_append)
      then show ?thesis by simp
    next
      case (Cons u us')
      then show ?thesis using e "2.IH" by auto
    qed
  qed
qed

section \<open>Decimal numbers\<close>

definition digit_char :: "nat \<Rightarrow> char" where
  "digit_char d = ''0123456789'' ! d"

fun dec :: "nat \<Rightarrow> string" where
  "dec n = (if n < 10 then [digit_char n] else dec (n div 10) @ [digit_char (n mod 10)])"

declare dec.simps [simp del]

definition dec_int :: "int \<Rightarrow> string" where
  "dec_int i = (if i < 0 then ''-'' @ dec (nat (- i)) else dec (nat i))"

definition is_digit :: "char \<Rightarrow> bool" where
  "is_digit c = (48 \<le> chr_code c \<and> chr_code c \<le> 57)"

definition digit_val :: "char \<Rightarrow> nat" where
  "digit_val c = chr_code c - 48"

definition dec_val :: "string \<Rightarrow> nat" where
  "dec_val s = foldl (\<lambda>acc c. acc * 10 + digit_val c) 0 s"

text \<open>\<open>f"{n:05d}"\<close> and \<open>f"{n:02d}"\<close>: pad with zeros on the left.\<close>

definition zpad :: "nat \<Rightarrow> nat \<Rightarrow> string" where
  "zpad w n = replicate (w - length (dec n)) (CHR ''0'') @ dec n"

lemma less10_cases: "(d::nat) < 10 \<Longrightarrow> d = 0 \<or> d = 1 \<or> d = 2 \<or> d = 3 \<or> d = 4 \<or> d = 5 \<or> d = 6
    \<or> d = 7 \<or> d = 8 \<or> d = 9"
  by arith

lemma digit_val_digit_char [simp]: "d < 10 \<Longrightarrow> digit_val (digit_char d) = d"
  by (drule less10_cases) (auto simp: digit_val_def digit_char_def chr_code_def)

lemma is_digit_digit_char [simp]: "d < 10 \<Longrightarrow> is_digit (digit_char d)"
  by (drule less10_cases) (auto simp: is_digit_def digit_char_def chr_code_def)

lemma dec_val_snoc [simp]: "dec_val (s @ [c]) = dec_val s * 10 + digit_val c"
  by (simp add: dec_val_def)

lemma dec_val_dec [simp]: "dec_val (dec n) = n"
proof (induction n rule: dec.induct)
  case (1 n)
  show ?case
  proof (cases "n < 10")
    case True
    then show ?thesis by (simp add: dec.simps [of n] dec_val_def)
  next
    case False
    with 1 have "dec_val (dec (n div 10)) = n div 10" by simp
    moreover have "dec n = dec (n div 10) @ [digit_char (n mod 10)]"
      using False by (simp add: dec.simps [of n])
    ultimately show ?thesis by simp
  qed
qed

lemma dec_nonempty [simp]: "dec n \<noteq> []"
  by (subst dec.simps) simp

lemma dec_digits: "c \<in> set (dec n) \<Longrightarrow> is_digit c"
proof (induction n rule: dec.induct)
  case (1 n)
  show ?case
  proof (cases "n < 10")
    case True
    then show ?thesis using "1.prems" by (simp add: dec.simps [of n])
  next
    case False
    then have "dec n = dec (n div 10) @ [digit_char (n mod 10)]" by (simp add: dec.simps [of n])
    then show ?thesis using "1.prems" "1.IH" [OF False] by auto
  qed
qed

lemma dec_inj [simp]: "dec n = dec m \<longleftrightarrow> n = m"
  by (metis dec_val_dec)

lemma dec_val_zeros: "dec_val (replicate k (CHR ''0'') @ s) = dec_val s"
proof (induction k)
  case (Suc k)
  then show ?case by (simp add: dec_val_def digit_val_def chr_code_def)
qed simp

lemma dec_val_zpad [simp]: "dec_val (zpad w n) = n"
  by (simp add: zpad_def dec_val_zeros)

lemma zpad_inj [simp]: "zpad w n = zpad w m \<longleftrightarrow> n = m"
  by (metis dec_val_zpad)

lemma zpad_width: "w \<le> length (zpad w n)"
  by (simp add: zpad_def)

text \<open>
  \<open>int(text)\<close> for base ten: blanks around, an optional sign, digits that single
  underscores may separate; anything else raises ValueError.
\<close>

fun digits_ok :: "bool \<Rightarrow> string \<Rightarrow> bool" where
  "digits_ok after_digit [] = after_digit"
| "digits_ok after_digit (c # cs) =
     (if is_digit c then digits_ok True cs
      else if c = CHR ''_'' \<and> after_digit \<and> cs \<noteq> [] then digits_ok False cs else False)"

definition parse_nat :: "string \<Rightarrow> nat res" where
  "parse_nat s = (if digits_ok False s then Inr (dec_val (filter is_digit s)) else Inl ValueError)"

definition parse_int :: "string \<Rightarrow> int res" where
  "parse_int s0 = (let s = strip s0 in
     case s of [] \<Rightarrow> Inl ValueError
     | c # cs \<Rightarrow>
        if c = CHR ''-'' then bind_res (parse_nat cs) (\<lambda>n. Inr (- int n))
        else if c = CHR ''+'' then bind_res (parse_nat cs) (\<lambda>n. Inr (int n))
        else bind_res (parse_nat s) (\<lambda>n. Inr (int n)))"

lemma digits_ok_all: "s \<noteq> [] \<Longrightarrow> \<forall>c\<in>set s. is_digit c \<Longrightarrow> digits_ok b s"
proof (induction s arbitrary: b)
  case (Cons c cs)
  then show ?case by (cases cs) auto
qed simp

lemma parse_nat_dec [simp]: "parse_nat (dec n) = Inr n"
proof -
  have "filter is_digit (dec n) = dec n" by (auto simp: filter_id_conv intro: dec_digits)
  moreover have "digits_ok False (dec n)" by (rule digits_ok_all) (auto intro: dec_digits)
  ultimately show ?thesis by (simp add: parse_nat_def)
qed

lemma is_digit_not_space: "is_digit c \<Longrightarrow> \<not> is_space c"
  by (auto simp: is_digit_def is_space_def Let_def)

lemma dropWhile_hd: "xs \<noteq> [] \<Longrightarrow> \<not> P (hd xs) \<Longrightarrow> dropWhile P xs = xs"
  by (cases xs) auto

lemma strip_id: "s \<noteq> [] \<Longrightarrow> \<not> is_space (hd s) \<Longrightarrow> \<not> is_space (last s) \<Longrightarrow> strip s = s"
  by (simp add: strip_def lstrip_def rstrip_def dropWhile_hd hd_rev)

lemma strip_dec [simp]: "strip (dec n) = dec n"
  using dec_digits [of "hd (dec n)" n] dec_digits [of "last (dec n)" n]
  by (intro strip_id) (simp_all add: is_digit_not_space)

lemma parse_int_dec [simp]: "parse_int (dec n) = Inr (int n)"
proof -
  obtain c cs where d: "dec n = c # cs" by (cases "dec n") auto
  then have "is_digit c" using dec_digits [of c n] by simp
  then have "c \<noteq> CHR ''-''" "c \<noteq> CHR ''+''" by (auto simp: is_digit_def chr_code_def)
  then show ?thesis using d parse_nat_dec [of n] strip_dec [of n] by (simp add: parse_int_def)
qed

lemma strip_idem [simp]: "strip (strip s) = strip s"
proof (cases "strip s = []")
  case False
  have "\<not> is_space (hd (strip s)) \<and> \<not> is_space (last (strip s))"
  proof -
    obtain d where l: "lstrip s = strip s @ d" "\<forall>c\<in>set d. is_space c"
      using takeWhile_dropWhile_id [of is_space "rev (lstrip s)"]
      by (metis rev_append rev_rev_ident rstrip_def set_rev set_takeWhileD strip_def)
    have "hd (lstrip s) = hd (strip s)" "lstrip s \<noteq> []" using False l by auto
    then have "\<not> is_space (hd (strip s))" using hd_dropWhile [of is_space s] by (simp add: lstrip_def)
    moreover have "\<not> is_space (last (strip s))"
      using False hd_dropWhile [of is_space "rev (lstrip s)"] by (simp add: strip_def rstrip_def last_rev)
    ultimately show ?thesis by simp
  qed
  then show ?thesis using strip_id [OF False] by simp
next
  case True
  show ?thesis unfolding True by (simp add: strip_def lstrip_def rstrip_def)
qed

section \<open>JSON values\<close>

text \<open>
  What \<open>json.loads\<close> returns: numbers without a fraction are integers, the others are
  floats; objects keep the order of their keys, each key once.
\<close>

datatype json = JNull | JBool bool | JInt int | JFloat pyfloat | JStr string
  | JList "json list" | JObj "(string \<times> json) list"

text \<open>\<open>bool(v)\<close>: null, false, zero and everything empty is false.\<close>

fun truthy :: "json \<Rightarrow> bool" where
  "truthy JNull = False"
| "truthy (JBool b) = b"
| "truthy (JInt i) = (i \<noteq> 0)"
| "truthy (JFloat r) = (r \<noteq> 0)"
| "truthy (JStr s) = (s \<noteq> [])"
| "truthy (JList xs) = (xs \<noteq> [])"
| "truthy (JObj d) = (d \<noteq> [])"

text \<open>\<open>a or b\<close> returns one of its operands.\<close>

definition py_or :: "json \<Rightarrow> json \<Rightarrow> json" where
  "py_or a b = (if truthy a then a else b)"

fun is_obj :: "json \<Rightarrow> bool" where
  "is_obj (JObj d) = True"
| "is_obj _ = False"

fun is_list :: "json \<Rightarrow> bool" where
  "is_list (JList xs) = True"
| "is_list _ = False"

fun obj_items :: "json \<Rightarrow> (string \<times> json) list" where
  "obj_items (JObj d) = d"
| "obj_items _ = []"

fun list_items :: "json \<Rightarrow> json list" where
  "list_items (JList xs) = xs"
| "list_items _ = []"

text \<open>
  \<open>v.get(k)\<close> where \<open>v\<close> is known to be a dict: an absent key and a null both give None.
\<close>

definition jget :: "json \<Rightarrow> string \<Rightarrow> json" where
  "jget v k = (case dict_get (obj_items v) k of None \<Rightarrow> JNull | Some x \<Rightarrow> x)"

definition jhas :: "json \<Rightarrow> string \<Rightarrow> bool" where
  "jhas v k = (dict_get (obj_items v) k \<noteq> None)"

definition jget_default :: "json \<Rightarrow> string \<Rightarrow> json \<Rightarrow> json" where
  "jget_default v k d = (case dict_get (obj_items v) k of None \<Rightarrow> d | Some x \<Rightarrow> x)"

text \<open>\<open>v.get(k)\<close> where \<open>v\<close> may be anything: only dicts have the method.\<close>

definition jget_res :: "json \<Rightarrow> string \<Rightarrow> json res" where
  "jget_res v k = (if is_obj v then Inr (jget v k) else Inl AttributeError)"

text \<open>\<open>v if isinstance(v, dict) else {}\<close>\<close>

definition obj_or_empty :: "json \<Rightarrow> json" where
  "obj_or_empty v = (if is_obj v then v else JObj [])"

subsection \<open>Rendering: str and repr\<close>

definition hex_digit :: "nat \<Rightarrow> char" where
  "hex_digit d = ''0123456789abcdef'' ! d"

text \<open>\<open>repr\<close> of one character inside quotes \<open>q\<close>.\<close>

definition repr_char :: "char \<Rightarrow> char \<Rightarrow> string" where
  "repr_char q c = (let n = chr_code c in
     if c = q \<or> n = 92 then [char_of (92::nat), c]
     else if n = 9 then [char_of (92::nat), CHR ''t'']
     else if n = 10 then [char_of (92::nat), CHR ''n'']
     else if n = 13 then [char_of (92::nat), CHR ''r'']
     else if n < 32 \<or> (127 \<le> n \<and> n \<le> 160) \<or> n = 173
       then [char_of (92::nat), CHR ''x'', hex_digit (n div 16), hex_digit (n mod 16)]
     else [c])"

definition repr_str :: "string \<Rightarrow> string" where
  "repr_str s = (let q = char_of (if char_of (39::nat) \<in> set s \<and> char_of (34::nat) \<notin> set s
                                  then 34 else 39 :: nat)
                 in q # concat (map (repr_char q) s) @ [q])"

text \<open>
  \<open>repr\<close> of a float: the digits of its decimal expansion, seventeen at most after the
  point, at least one. Values Python prints in exponent notation (\<open>1e16\<close> and above,
  below \<open>1e-4\<close>) do not occur in the code's own constants.
\<close>

fun frac_digits :: "nat \<Rightarrow> rat \<Rightarrow> string" where
  "frac_digits 0 r = []"
| "frac_digits (Suc n) r =
     (if r = 0 then [] else digit_char (nat \<lfloor>r * 10\<rfloor>) # frac_digits n (r * 10 - of_int \<lfloor>r * 10\<rfloor>))"

definition repr_float :: "rat \<Rightarrow> string" where
  "repr_float r = (let a = \<bar>r\<bar>; fs = frac_digits 17 (a - of_int \<lfloor>a\<rfloor>) in
     (if r < 0 then ''-'' else []) @ dec (nat \<lfloor>a\<rfloor>) @ ''.'' @ (if fs = [] then ''0'' else fs))"

fun repr :: "json \<Rightarrow> string" where
  "repr JNull = ''None''"
| "repr (JBool b) = (if b then ''True'' else ''False'')"
| "repr (JInt i) = dec_int i"
| "repr (JFloat r) = repr_float r"
| "repr (JStr s) = repr_str s"
| "repr (JList xs) = ''['' @ join_with '', '' (map repr xs) @ '']''"
| "repr (JObj d) = ''{'' @ join_with '', '' (map (\<lambda>(k, v). repr_str k @ '': '' @ repr v) d) @ ''}''"

fun py_str :: "json \<Rightarrow> string" where
  "py_str (JStr s) = s"
| "py_str v = repr v"

text \<open>\<open>str(v or "")\<close>, the idiom the sources use for every optional text field.\<close>

definition str_or_empty :: "json \<Rightarrow> string" where
  "str_or_empty v = (if truthy v then py_str v else [])"

subsection \<open>Numbers: int and float\<close>

definition trunc_rat :: "rat \<Rightarrow> int" where
  "trunc_rat r = (if r < 0 then - \<lfloor>- r\<rfloor> else \<lfloor>r\<rfloor>)"

fun py_int :: "json \<Rightarrow> int res" where
  "py_int (JInt i) = Inr i"
| "py_int (JBool b) = Inr (if b then 1 else 0)"
| "py_int (JFloat r) = Inr (trunc_rat r)"
| "py_int (JStr s) = parse_int s"
| "py_int _ = Inl TypeError"

text \<open>\<open>round(x, n)\<close>: to the nearest multiple of \<open>10 ^ -n\<close>, ties to the even one.\<close>

definition py_round :: "nat \<Rightarrow> rat \<Rightarrow> rat" where
  "py_round n r = (let x = r * 10 ^ n; f = \<lfloor>x\<rfloor>; d = x - of_int f in
     of_int (if d < 1/2 then f else if d > 1/2 then f + 1 else if even f then f else f + 1) / 10 ^ n)"

subsection \<open>Equality\<close>

text \<open>
  \<open>==\<close> on JSON values: numbers compare by value, whatever their type, and dicts
  compare without regard to order. Both are brought to a normal form.
\<close>

fun py_norm :: "json \<Rightarrow> json" where
  "py_norm JNull = JNull"
| "py_norm (JBool b) = JFloat (if b then 1 else 0)"
| "py_norm (JInt i) = JFloat (of_int i)"
| "py_norm (JFloat r) = JFloat r"
| "py_norm (JStr s) = JStr s"
| "py_norm (JList xs) = JList (map py_norm xs)"
| "py_norm (JObj d) = JObj (sort_key fst (map (\<lambda>(k, v). (k, py_norm v)) d))"

definition py_eq :: "json \<Rightarrow> json \<Rightarrow> bool" where
  "py_eq a b = (py_norm a = py_norm b)"

lemma py_eq_refl [simp]: "py_eq a a"
  and py_eq_sym: "py_eq a b \<Longrightarrow> py_eq b a"
  and py_eq_trans: "py_eq a b \<Longrightarrow> py_eq b c \<Longrightarrow> py_eq a c"
  by (simp_all add: py_eq_def)

lemma str_or_empty_simps [simp]:
  "str_or_empty JNull = []"
  "str_or_empty (JStr s) = s"
  by (simp_all add: str_or_empty_def)

lemma jget_simps [simp]:
  "jget (JObj []) k = JNull"
  "jget (JObj ((a, v) # d)) k = (if a = k then v else jget (JObj d) k)"
  by (simp_all add: jget_def)

lemma is_obj_obj_or_empty [simp]: "is_obj (obj_or_empty v)"
  by (simp add: obj_or_empty_def)

lemma is_obj_iff: "is_obj v \<longleftrightarrow> (\<exists>d. v = JObj d)"
  by (cases v) auto

subsection \<open>Collections\<close>

text \<open>
  \<open>list(v)\<close> and \<open>dict(v)\<close>. \<open>dict\<close> of a list of pairs, which Python accepts, is taken to
  raise as \<open>dict\<close> of any other value that is not a dict does.
\<close>

fun py_list :: "json \<Rightarrow> json list res" where
  "py_list (JList xs) = Inr xs"
| "py_list (JStr s) = Inr (map (\<lambda>c. JStr [c]) s)"
| "py_list (JObj d) = Inr (map (\<lambda>p. JStr (fst p)) d)"
| "py_list _ = Inl TypeError"

fun py_dict :: "json \<Rightarrow> (string \<times> json) list res" where
  "py_dict (JObj d) = Inr d"
| "py_dict _ = Inl TypeError"

text \<open>\<open>a.update(b)\<close>\<close>

definition dict_update :: "('k, 'v) dict \<Rightarrow> ('k, 'v) dict \<Rightarrow> ('k, 'v) dict" where
  "dict_update a b = fold (\<lambda>(k, v). dict_put k v) b a"

lemma dict_get_update:
  "dict_get (dict_update a b) k = (case map_of (rev b) k of None \<Rightarrow> dict_get a k | Some v \<Rightarrow> Some v)"
  unfolding dict_update_def by (rule dct.lookup_fold_store)

lemma dict_update_Nil [simp]: "dict_update a [] = a"
  by (simp add: dict_update_def)

section \<open>Files\<close>

text \<open>
  What the code sees of a JSON file: no regular file at the path, \<open>OSError\<close> when it is
  read, text that is not JSON, or the value it holds. A plain text file is an optional
  string: \<open>None\<close> where it is absent.
\<close>

datatype jfile = Absent | Unreadable | Malformed | Doc json

datatype tfile = NoFile | ReadError | Text string

text \<open>
  The guarded read all hot-reload stores share: an absent or bad file, or a value that
  is not an object, is the empty artifact.
\<close>

fun read_object :: "jfile \<Rightarrow> json" where
  "read_object (Doc v) = obj_or_empty v"
| "read_object _ = JObj []"

fun read_stamp :: "tfile \<Rightarrow> string" where
  "read_stamp (Text t) = strip t"
| "read_stamp _ = []"

lemma is_obj_read_object [simp]: "is_obj (read_object f)"
  by (cases f) auto

end
