(* ===== verification/Packet.thy ===== *)
theory Packet
  imports PyValue
begin

text \<open>
  Packets as the parsers see them, and the L2, L3 and L4 parsers with their counters
  (\<open>parser/l2/ethernet.py\<close>, \<open>parser/l3/ip.py\<close>, \<open>parser/l4/transport.py\<close>).
  Dissecting a frame is Scapy's work; a packet is the record of the layers and fields the
  code reads from it. The port numbers and the EtherType are the integers Scapy returns.
\<close>

section \<open>Packets\<close>

record ether_layer =
  eth_src :: string
  eth_dst :: string
  eth_type :: nat
  eth_payload :: bytes

record ip_layer =
  ip_src :: string
  ip_dst :: string

record l4_layer =
  l4_sport :: nat
  l4_dport :: nat
  l4_payload :: bytes

text \<open>\<open>pkt_bytes\<close> is None where \<open>bytes(packet)\<close> raises.\<close>

record packet =
  pkt_bytes :: "bytes option"
  pkt_ether :: "ether_layer option"
  pkt_ip :: "ip_layer option"
  pkt_ip6 :: "ip_layer option"
  pkt_tcp :: "l4_layer option"
  pkt_udp :: "l4_layer option"

text \<open>Truth of an optional text field: neither None nor empty.\<close>

fun some_text :: "string option \<Rightarrow> bool" where
  "some_text None = False"
| "some_text (Some s) = (s \<noteq> [])"

fun text_of :: "string option \<Rightarrow> string" where
  "text_of None = []"
| "text_of (Some s) = s"

lemma some_text_iff: "some_text x \<longleftrightarrow> (\<exists>s. x = Some s \<and> s \<noteq> [])"
  by (cases x) auto

lemma some_text_text_of: "some_text x \<longleftrightarrow> text_of x \<noteq> []"
  by (cases x) auto

section \<open>L2\<close>

record l2_stats =
  l2_total :: nat
  mac_src_counts :: "(string, nat) dict"
  window_total :: nat
  window_mac_counts :: "(string, nat) dict"

definition l2_init :: l2_stats where
  "l2_init = \<lparr>l2_total = 0, mac_src_counts = [], window_total = 0, window_mac_counts = []\<rparr>"

definition parse_ethernet :: "packet \<Rightarrow> string option \<times> string option" where
  "parse_ethernet p = (case pkt_ether p of None \<Rightarrow> (None, None)
     | Some eth \<Rightarrow> (Some (eth_src eth), Some (eth_dst eth)))"

definition record_l2 :: "l2_stats \<Rightarrow> string option \<Rightarrow> l2_stats" where
  "record_l2 stats src_mac =
     (let stats = stats\<lparr>l2_total := l2_total stats + 1, window_total := window_total stats + 1\<rparr> in
      if some_text src_mac then
        stats\<lparr>mac_src_counts := dict_bump (text_of src_mac) (mac_src_counts stats),
              window_mac_counts := dict_bump (text_of src_mac) (window_mac_counts stats)\<rparr>
      else stats)"

definition reset_l2_window :: "l2_stats \<Rightarrow> l2_stats" where
  "reset_l2_window stats = stats\<lparr>window_total := 0, window_mac_counts := []\<rparr>"

section \<open>L3\<close>

record l3_stats =
  ipv4_count :: nat
  ipv6_count :: nat
  src_ip_counts :: "(string, nat) dict"

definition l3_init :: l3_stats where
  "l3_init = \<lparr>ipv4_count = 0, ipv6_count = 0, src_ip_counts = []\<rparr>"

definition parse_ip :: "packet \<Rightarrow> string option \<times> string option \<times> string option" where
  "parse_ip p = (case pkt_ip p of
       Some ip \<Rightarrow> (Some (ip_src ip), Some (ip_dst ip), Some ''ipv4'')
     | None \<Rightarrow> (case pkt_ip6 p of
         Some ip6 \<Rightarrow> (Some (ip_src ip6), Some (ip_dst ip6), Some ''ipv6'')
       | None \<Rightarrow> (None, None, None)))"

definition record_l3 :: "l3_stats \<Rightarrow> string option \<Rightarrow> string option \<Rightarrow> l3_stats" where
  "record_l3 stats src_ip version =
     (let stats = (if version = Some ''ipv4'' then stats\<lparr>ipv4_count := ipv4_count stats + 1\<rparr>
                   else if version = Some ''ipv6'' then stats\<lparr>ipv6_count := ipv6_count stats + 1\<rparr>
                   else stats) in
      if some_text src_ip then
        stats\<lparr>src_ip_counts := dict_bump (text_of src_ip) (src_ip_counts stats)\<rparr>
      else stats)"

section \<open>L4\<close>

record flow_tuple =
  f_src_ip :: string
  f_dst_ip :: string
  f_src_port :: nat
  f_dst_port :: nat
  f_protocol :: string

definition ip_or_ip6 :: "packet \<Rightarrow> ip_layer option" where
  "ip_or_ip6 p = (case pkt_ip p of Some ip \<Rightarrow> Some ip | None \<Rightarrow> pkt_ip6 p)"

definition mk_flow :: "ip_layer \<Rightarrow> l4_layer \<Rightarrow> string \<Rightarrow> flow_tuple" where
  "mk_flow ip l4 proto = \<lparr>f_src_ip = ip_src ip, f_dst_ip = ip_dst ip,
     f_src_port = l4_sport l4, f_dst_port = l4_dport l4, f_protocol = proto\<rparr>"

definition parse_transport :: "packet \<Rightarrow> flow_tuple option" where
  "parse_transport p = (case pkt_tcp p of
       Some tcp \<Rightarrow> (case ip_or_ip6 p of None \<Rightarrow> None | Some ip \<Rightarrow> Some (mk_flow ip tcp ''tcp''))
     | None \<Rightarrow> (case pkt_udp p of
         Some udp \<Rightarrow> (case ip_or_ip6 p of None \<Rightarrow> None | Some ip \<Rightarrow> Some (mk_flow ip udp ''udp''))
       | None \<Rightarrow> None))"

lemma parse_transport_tcp:
  "parse_transport p = Some f \<Longrightarrow> f_protocol f = ''tcp'' \<longleftrightarrow> pkt_tcp p \<noteq> None"
  by (auto simp: parse_transport_def mk_flow_def split: option.splits)

section \<open>The counters agree with the traffic\<close>

definition l2_inv :: "l2_stats \<Rightarrow> bool" where
  "l2_inv s = (dict_wf (mac_src_counts s) \<and> dict_wf (window_mac_counts s) \<and>
     dict_total (mac_src_counts s) \<le> l2_total s \<and>
     dict_total (window_mac_counts s) \<le> window_total s \<and> window_total s \<le> l2_total s)"

lemma l2_inv_init [inv_rules]: "l2_inv l2_init"
  by (simp add: l2_inv_def l2_init_def)

lemma l2_inv_record [inv_rules]: "l2_inv s \<Longrightarrow> l2_inv (record_l2 s m)"
  by (auto simp: l2_inv_def record_l2_def Let_def)

lemma l2_inv_reset [inv_rules]: "l2_inv s \<Longrightarrow> l2_inv (reset_l2_window s)"
  by (simp add: l2_inv_def reset_l2_window_def)

definition l3_inv :: "l3_stats \<Rightarrow> bool" where
  "l3_inv s = (dict_wf (src_ip_counts s) \<and> dict_total (src_ip_counts s) \<le> ipv4_count s + ipv6_count s)"

lemma l3_inv_record [inv_rules]:
  "l3_inv s \<Longrightarrow> parse_ip p = (src, dst, ver) \<Longrightarrow> l3_inv (record_l3 s src ver)"
  by (auto simp: l3_inv_def record_l3_def parse_ip_def Let_def split: option.splits)

end
