(* ===== verification/Ber.thy ===== *)
theory Ber
  imports PyValue
begin

text \<open>
  The BER helpers of \<open>parser/l7/iec61850/ber.py\<close>: reading a length and a
  tag-length-value triple out of a buffer, and encoding lengths, integers, visible
  strings and booleans. Offsets are natural numbers, buffers are lists of 8-bit words.
  The theory ends with the codec laws: what the encoders write, \<open>read_tlv\<close> reads back.
\<close>

section \<open>Bytes\<close>

text \<open>\<open>int.from_bytes(bs, "big")\<close>\<close>

definition be_val :: "bytes \<Rightarrow> nat" where
  "be_val bs = foldl (\<lambda>acc b. acc * 256 + unat b) 0 bs"

text \<open>\<open>v.to_bytes(n, "big", signed=True)\<close> for a value that fits (see \<open>fits_signed\<close>).\<close>

fun be_bytes :: "nat \<Rightarrow> int \<Rightarrow> bytes" where
  "be_bytes 0 v = []"
| "be_bytes (Suc n) v = be_bytes n (v div 256) @ [word_of_int v]"

definition be_val_signed :: "bytes \<Rightarrow> int" where
  "be_val_signed bs = (let u = int (be_val bs); n = length bs in
     if bs \<noteq> [] \<and> 128 \<le> unat (hd bs) then u - 256 ^ n else u)"

definition fits_signed :: "nat \<Rightarrow> int \<Rightarrow> bool" where
  "fits_signed n v = (- (2 ^ (8 * n - 1)) \<le> v \<and> v < 2 ^ (8 * n - 1))"

text \<open>\<open>abs(v).bit_length()\<close>\<close>

fun bit_len :: "nat \<Rightarrow> nat" where
  "bit_len n = (if n = 0 then 0 else Suc (bit_len (n div 2)))"

declare bit_len.simps [simp del]

text \<open>
  \<open>text.encode("ascii")\<close> raises on a character above 127;
  \<open>raw.decode("ascii", errors="replace")\<close> maps every byte above 127 to U+FFFD, which
  the model writes as the character 255, a code point no ASCII text contains.
\<close>

definition encode_ascii :: "string \<Rightarrow> bytes res" where
  "encode_ascii s = (if \<forall>c\<in>set s. chr_code c < 128 then Inr (map (\<lambda>c. of_nat (chr_code c)) s)
                     else Inl UnicodeEncodeError)"

definition decode_ascii_char :: "8 word \<Rightarrow> char" where
  "decode_ascii_char b = (if unat b < 128 then char_of (unat b) else char_of (255::nat))"

section \<open>Reading\<close>

definition read_length :: "bytes \<Rightarrow> nat \<Rightarrow> (nat \<times> nat) res" where
  "read_length data offset =
     (if offset \<ge> length data then Inl ValueError
      else let first = unat (data ! offset); offset = offset + 1 in
        if first < 128 then Inr (first, offset)
        else let num_octets = first mod 128 in
          if num_octets = 0 \<or> offset + num_octets > length data then Inl ValueError
          else Inr (be_val (take num_octets (drop offset data)), offset + num_octets))"

definition read_tlv :: "bytes \<Rightarrow> nat \<Rightarrow> (8 word \<times> bytes \<times> nat) res" where
  "read_tlv data offset =
     (if offset \<ge> length data then Inl ValueError
      else let tag = data ! offset in
        bind_res (read_length data (offset + 1)) (\<lambda>(len, offset).
          let end_off = offset + len in
          if end_off > length data then Inl ValueError
          else Inr (tag, take len (drop offset data), end_off)))"

section \<open>Writing\<close>

definition encode_length :: "nat \<Rightarrow> bytes" where
  "encode_length len =
     (if len < 128 then [of_nat len]
      else if len \<le> 255 then [0x81, of_nat len]
      else [0x82, of_nat (len div 256 mod 256), of_nat (len mod 256)])"

definition int_octets :: "int \<Rightarrow> nat" where
  "int_octets v = max 1 ((bit_len (nat \<bar>v\<bar>) + 8) div 8)"

definition encode_integer :: "8 word \<Rightarrow> int \<Rightarrow> bytes" where
  "encode_integer tag v =
     (let body = (if v = 0 then [0] else be_bytes (int_octets v) v)
      in [tag] @ encode_length (length body) @ body)"

definition encode_visible_string :: "8 word \<Rightarrow> string \<Rightarrow> bytes res" where
  "encode_visible_string tag txt =
     bind_res (encode_ascii txt) (\<lambda>body. Inr ([tag] @ encode_length (length body) @ body))"

definition encode_boolean :: "8 word \<Rightarrow> bool \<Rightarrow> bytes" where
  "encode_boolean tag v = (let body = (if v then [0xff] else [0])
     in [tag] @ encode_length (length body) @ body)"

definition decode_integer :: "bytes \<Rightarrow> int" where
  "decode_integer raw = (if raw = [] then 0 else be_val_signed raw)"

definition decode_visible_string :: "bytes \<Rightarrow> string" where
  "decode_visible_string raw = map decode_ascii_char raw"

section \<open>Big-endian values\<close>

lemma be_val_Nil [simp]: "be_val [] = 0"
  by (simp add: be_val_def)

lemma be_val_snoc [simp]: "be_val (bs @ [b]) = be_val bs * 256 + unat b"
  by (simp add: be_val_def)

lemma unat_byte_lt [simp]: "unat (b :: 8 word) < 256"
  using unsigned_less [where ?'a = nat, of b] by simp

lemma be_val_bound: "be_val bs < 256 ^ length bs"
proof (induction bs rule: rev_induct)
  case (snoc b bs)
  have "unat b < 256" by simp
  then have "be_val bs * 256 + unat b < (be_val bs + 1) * 256" by simp
  also have "\<dots> \<le> 256 ^ length bs * 256"
    using snoc by (intro mult_right_mono) auto
  finally show ?case by (simp add: mult.commute)
qed simp

lemma length_be_bytes [simp]: "length (be_bytes n v) = n"
  by (induction n arbitrary: v) auto

lemma int_be_val_be_bytes: "int (be_val (be_bytes n v)) = v mod 256 ^ n"
proof (induction n arbitrary: v)
  case (Suc n)
  have "int (unat (word_of_int v :: 8 word)) = v mod 256"
    by (simp add: unsigned_of_int take_bit_eq_mod)
  then show ?case
    using Suc [of "v div 256"] by (simp add: zmod_zmult2_eq mult.commute)
qed simp

lemma hd_be_bytes: "0 < n \<Longrightarrow> int (unat (hd (be_bytes n v))) = v div 256 ^ (n - 1) mod 256"
proof (induction n arbitrary: v)
  case (Suc n)
  show ?case
  proof (cases n)
    case 0
    then show ?thesis by (simp add: unsigned_of_int take_bit_eq_mod)
  next
    case (Suc m)
    have "hd (be_bytes n (v div 256) @ [word_of_int v]) = hd (be_bytes n (v div 256))"
      using Suc by (metis hd_append2 length_be_bytes list.size(3) nat.simps(3))
    moreover have "int (unat (hd (be_bytes n (v div 256)))) = v div 256 div 256 ^ (n - 1) mod 256"
      using Suc Suc.IH [of "v div 256"] by simp
    moreover have "v div 256 div 256 ^ m = v div (256 * 256 ^ m)"
      by (simp add: zdiv_zmult2_eq)
    ultimately show ?thesis using Suc by simp
  qed
qed simp

lemma pow_8: "0 < n \<Longrightarrow> (2::int) ^ (8 * n - 1) = 128 * 256 ^ (n - 1)"
proof -
  assume "0 < n"
  then obtain m where "n = Suc m" by (cases n) auto
  then have "8 * n - 1 = 7 + 8 * m" by simp
  then show ?thesis using \<open>n = Suc m\<close> by (simp add: power_add power_mult)
qed

lemma signed_be_bytes:
  assumes "0 < n" and fit: "fits_signed n v"
  shows "be_val_signed (be_bytes n v) = v"
proof -
  define p :: int where "p = 256 ^ (n - 1)"
  have p: "0 < p" by (simp add: p_def)
  have P: "(256::int) ^ n = 256 * p"
    using \<open>0 < n\<close> by (cases n) (simp_all add: p_def)
  have lo: "- (128 * p) \<le> v" and hi: "v < 128 * p"
    using fit unfolding fits_signed_def p_def pow_8 [OF \<open>0 < n\<close>] by auto
  have ne: "be_bytes n v \<noteq> []" using \<open>0 < n\<close> by (metis length_be_bytes list.size(3) less_irrefl)
  have h: "int (unat (hd (be_bytes n v))) = v div p mod 256"
    using hd_be_bytes [OF \<open>0 < n\<close>] by (simp add: p_def)
  have u: "int (be_val (be_bytes n v)) = v mod (256 * p)"
    by (simp add: int_be_val_be_bytes P)
  show ?thesis
  proof (cases "0 \<le> v")
    case True
    have "v div p < 128"
    proof (rule ccontr)
      assume "\<not> v div p < 128"
      then have "128 * p \<le> v div p * p" using p by (intro mult_right_mono) auto
      moreover have "v div p * p + v mod p = v" "0 \<le> v mod p" using p by simp_all
      ultimately show False using hi by linarith
    qed
    moreover have "0 \<le> v div p" using True p by (simp add: pos_imp_zdiv_nonneg_iff)
    ultimately have "v div p mod 256 = v div p" by simp
    then have "int (unat (hd (be_bytes n v))) < 128" using h \<open>v div p < 128\<close> by linarith
    then have "\<not> 128 \<le> unat (hd (be_bytes n v))" by linarith
    moreover have "v mod (256 * p) = v" using True hi p by simp
    ultimately show ?thesis using u by (simp add: be_val_signed_def Let_def)
  next
    case False
    have dm: "v div p * p + v mod p = v" "0 \<le> v mod p" "v mod p < p" using p by simp_all
    have "- 128 \<le> v div p"
    proof (rule ccontr)
      assume "\<not> - 128 \<le> v div p"
      then have "v div p * p \<le> - 129 * p" using p by (intro mult_right_mono) auto
      then show False using dm lo by linarith
    qed
    moreover have "v div p < 0" using False p by (simp add: pos_imp_zdiv_neg_iff)
    ultimately have q: "- 128 \<le> v div p" "v div p < 0" by auto
    then have "v div p mod 256 = v div p + 256"
      using mod_pos_pos_trivial [of "v div p + 256" 256] by simp
    then have "128 \<le> unat (hd (be_bytes n v))" using h q by linarith
    moreover have "v mod (256 * p) = v + 256 * p"
      using mod_pos_pos_trivial [of "v + 256 * p" "256 * p"] lo False p by simp
    ultimately show ?thesis using u ne P by (simp add: be_val_signed_def Let_def)
  qed
qed


section \<open>The number of octets an integer needs\<close>

lemma bit_len_bound: "n < 2 ^ bit_len n"
proof (induction n rule: bit_len.induct)
  case (1 n)
  show ?case
  proof (cases "n = 0")
    case False
    then have "n div 2 < 2 ^ bit_len (n div 2)" using 1 by simp
    then have "n < 2 * 2 ^ bit_len (n div 2)" by linarith
    then show ?thesis using False by (simp add: bit_len.simps [of n])
  qed (simp add: bit_len.simps)
qed

text \<open>\<open>to_bytes\<close> in \<open>encode_integer\<close> never overflows: the octet count leaves a sign bit.\<close>

lemma int_octets_fit: "fits_signed (int_octets v) v"
proof -
  define L where "L = bit_len (nat \<bar>v\<bar>)"
  have "nat \<bar>v\<bar> < 2 ^ L" by (simp add: L_def bit_len_bound)
  then have b: "\<bar>v\<bar> < 2 ^ L" by (metis abs_ge_zero nat_less_numeral_power_cancel_iff of_nat_numeral
        nat_less_iff of_nat_power)
  have "L \<le> 8 * int_octets v - 1"
    by (simp add: int_octets_def L_def [symmetric] max_def)
  then have "(2::int) ^ L \<le> 2 ^ (8 * int_octets v - 1)" by (rule power_increasing) simp
  with b show ?thesis unfolding fits_signed_def abs_less_iff by linarith
qed

lemma int_octets_pos: "0 < int_octets v"
  by (simp add: int_octets_def)

definition int_body :: "int \<Rightarrow> bytes" where
  "int_body v = (if v = 0 then [0] else be_bytes (int_octets v) v)"

lemma decode_int_body [simp]: "decode_integer (int_body v) = v"
proof (cases "v = 0")
  case True
  then show ?thesis by (simp add: int_body_def decode_integer_def be_val_signed_def be_val_def)
next
  case False
  have "be_bytes (int_octets v) v \<noteq> []"
    by (metis int_octets_pos length_be_bytes list.size(3) less_irrefl)
  then show ?thesis
    using False signed_be_bytes [OF int_octets_pos int_octets_fit]
    by (simp add: int_body_def decode_integer_def)
qed

lemma encode_integer_eq:
  "encode_integer tag v = [tag] @ encode_length (length (int_body v)) @ int_body v"
  by (simp add: encode_integer_def int_body_def Let_def)

section \<open>Reading back what was written\<close>

lemma read_length_encode:
  assumes "len < 65536"
  shows "read_length (pre @ encode_length len @ post) (length pre) =
           Inr (len, length pre + length (encode_length len))"
proof -
  consider "len < 128" | "128 \<le> len" "len \<le> 255" | "256 \<le> len" by linarith
  then show ?thesis
  proof cases
    case 1
    then have "unat (of_nat len :: 8 word) = len" by (simp add: unat_of_nat)
    then show ?thesis using 1 by (simp add: read_length_def encode_length_def nth_append Let_def)
  next
    case 2
    then have "unat (of_nat len :: 8 word) = len" by (simp add: unat_of_nat)
    then show ?thesis
      using 2 by (simp add: read_length_def encode_length_def nth_append Let_def be_val_def)
  next
    case 3
    have "unat (of_nat (len div 256 mod 256) :: 8 word) = len div 256"
      using assms by (simp add: unat_of_nat)
    moreover have "unat (of_nat (len mod 256) :: 8 word) = len mod 256" by (simp add: unat_of_nat)
    ultimately show ?thesis
      using 3 by (simp add: read_length_def encode_length_def nth_append Let_def be_val_def)
  qed
qed

text \<open>A tag-length-value triple written anywhere in a buffer is read back, with the rest untouched.\<close>

lemma read_tlv_encode:
  assumes "length body < 65536"
  shows "read_tlv (pre @ [tag] @ encode_length (length body) @ body @ post) (length pre) =
           Inr (tag, body, length pre + 1 + length (encode_length (length body)) + length body)"
  using read_length_encode [OF assms, of "pre @ [tag]" "body @ post"]
  by (simp add: read_tlv_def nth_append Let_def)

lemma read_length_progress:
  "read_length data off = Inr (len, off') \<Longrightarrow> off < off' \<and> off' \<le> length data"
  by (auto simp: read_length_def Let_def split: if_splits)

lemma read_tlv_progress:
  "read_tlv data off = Inr (tag, v, e) \<Longrightarrow> off + 2 \<le> e \<and> e \<le> length data \<and> tag = data ! off"
  using read_length_progress [of data "off + 1"]
  by (fastforce simp: read_tlv_def Let_def bind_res_eq_Inr split: if_splits)

lemma read_tlv_slice:
  "read_tlv data off = Inr (tag, v, e) \<Longrightarrow> v = take (length v) (drop (e - length v) data) \<and> length v \<le> e - off - 2"
  using read_length_progress [of data "off + 1"]
  by (fastforce simp: read_tlv_def Let_def bind_res_eq_Inr split: if_splits)

lemma read_tlv_error: "read_tlv data off = Inl e \<Longrightarrow> e = ValueError"
  by (auto simp: read_tlv_def read_length_def Let_def bind_res_def split: if_splits sum.splits)

lemma encode_length_len: "length (encode_length n) \<le> 3" "0 < length (encode_length n)"
  by (simp_all add: encode_length_def)

lemma decode_encode_ascii:
  "encode_ascii s = Inr b \<Longrightarrow> decode_visible_string b = s \<and> length b = length s"
  by (auto simp: encode_ascii_def decode_visible_string_def decode_ascii_char_def chr_code_def
      unat_of_nat o_def split: if_splits intro!: map_idI)

lemma encode_ascii_iff: "(\<exists>b. encode_ascii s = Inr b) \<longleftrightarrow> (\<forall>c\<in>set s. chr_code c < 128)"
  by (simp add: encode_ascii_def)

section \<open>The codec interface\<close>

text \<open>
  What the GOOSE and MMS parsers rely on: a value written under a tag is read back from
  any place in a buffer, and the reader stops right after it. A sequence of fields is then
  read back field by field; the lemma is used once for every encoder.
\<close>

locale tlv_codec =
  fixes enc :: "'a \<Rightarrow> bytes" and body :: "'a \<Rightarrow> bytes" and dec_val :: "bytes \<Rightarrow> 'a"
    and ok :: "'a \<Rightarrow> bool"
  assumes enc_body: "ok a \<Longrightarrow> enc a = encode_length (length (body a)) @ body a"
    and body_size: "ok a \<Longrightarrow> length (body a) < 65536"
    and dec_body: "ok a \<Longrightarrow> dec_val (body a) = a"
begin

lemma read_back:
  assumes "ok a"
  shows "\<exists>v. read_tlv (pre @ [tag] @ enc a @ post) (length pre) =
               Inr (tag, v, length (pre @ [tag] @ enc a)) \<and> dec_val v = a"
  using read_tlv_encode [OF body_size [OF assms], of pre tag post] assms
  by (simp add: enc_body dec_body add.assoc)

end

interpretation int_codec: tlv_codec
  "\<lambda>v. encode_length (length (int_body v)) @ int_body v" int_body decode_integer
  "\<lambda>v. length (int_body v) < 65536"
  by unfold_locales auto

interpretation bool_codec: tlv_codec
  "\<lambda>v. encode_length 1 @ (if v then [0xff] else [0])" "\<lambda>v. if v then [0xff] else [0]"
  "\<lambda>b. b = [0xff]" "\<lambda>v. True"
  by unfold_locales auto

interpretation str_codec: tlv_codec
  "\<lambda>s. encode_length (length s) @ map (\<lambda>c. of_nat (chr_code c)) s"
  "\<lambda>s. map (\<lambda>c. of_nat (chr_code c)) s" decode_visible_string
  "\<lambda>s. (\<forall>c\<in>set s. chr_code c < 128) \<and> length s < 65536"
  by unfold_locales (auto dest: decode_encode_ascii simp: encode_ascii_def
      intro!: decode_encode_ascii [THEN conjunct1])

section \<open>Properties\<close>

text \<open>
  Every integer survives the BER round trip: the octets \<open>encode_integer\<close> writes decode to
  the value, negative values and values with the top bit set included, and \<open>to_bytes\<close> never
  overflows because the octet count leaves room for the sign.
\<close>

theorem integer_roundtrip:
  assumes "length (int_body v) < 65536"
  shows "fits_signed (int_octets v) v \<and>
    (\<exists>b. read_tlv (pre @ encode_integer tag v @ post) (length pre) =
            Inr (tag, b, length pre + length (encode_integer tag v)) \<and> decode_integer b = v)"
  using int_octets_fit int_codec.read_back [OF assms, where pre = pre and tag = tag and post = post]
  by (auto simp: encode_integer_eq)

theorem integer_roundtrip_witness:
  "fits_signed (int_octets (-1000)) (-1000) \<and>
   (\<exists>b. read_tlv ([1, 2] @ encode_integer 0x85 (-1000) @ [7]) (length [1::8 word, 2]) =
          Inr (0x85, b, 6) \<and> decode_integer b = -1000)"
proof -
  have l: "length (int_body (-1000)) = 2"
    by (simp add: int_body_def int_octets_def bit_len.simps)
  have e: "length (encode_integer 0x85 (-1000)) = 4"
    using l by (simp add: encode_integer_eq encode_length_def)
  show ?thesis
    using integer_roundtrip [of "-1000" "[1, 2]" "0x85" "[7]"] l e by simp
qed

end
