(* ===== verification/Modbus.thy ===== *)
theory Modbus
  imports Packet Ber
begin

text \<open>
  Modbus TCP (\<open>parser/l7/modbus/tcp.py\<close>): the MBAP header and the function code of one
  ADU, and its read/write class; and the parser of a Read Device Identification response
  of the read-only device probe (\<open>probe/device_probe.py\<close>).
\<close>

definition MODBUS_PORT :: nat where
  "MODBUS_PORT = 502"

definition WRITE_FUNCTION_CODES :: "nat set" where
  "WRITE_FUNCTION_CODES = {5, 6, 15, 16, 22, 23, 24}"

definition READ_FUNCTION_CODES :: "nat set" where
  "READ_FUNCTION_CODES = {1, 2, 3, 4, 20, 21, 43}"

record modbus_frame =
  mb_src_ip :: string
  mb_dst_ip :: string
  mb_src_port :: nat
  mb_dst_port :: nat
  transaction_id :: nat
  unit_id :: nat
  function_code :: nat
  is_write :: bool

definition parse_modbus_payload :: "bytes \<Rightarrow> (nat \<times> nat \<times> nat \<times> bool) option" where
  "parse_modbus_payload raw =
     (if length raw < 8 then None
      else let trans_id = be_val (take 2 raw);
               len = be_val (take 2 (drop 4 raw)) in
        if len < 2 \<or> length raw < 6 + len then None
        else let uid = unat (raw ! 6); fc = unat (raw ! 7) in
          Some (trans_id, uid, fc, fc \<in> WRITE_FUNCTION_CODES))"

definition parse_modbus_tcp :: "packet \<Rightarrow> modbus_frame option" where
  "parse_modbus_tcp p = (case parse_transport p of
       None \<Rightarrow> None
     | Some flow \<Rightarrow>
        if f_protocol flow \<noteq> ''tcp'' then None
        else if f_dst_port flow \<noteq> MODBUS_PORT \<and> f_src_port flow \<noteq> MODBUS_PORT then None
        else (case pkt_tcp p of None \<Rightarrow> None
          | Some tcp \<Rightarrow> (case parse_modbus_payload (l4_payload tcp) of
              None \<Rightarrow> None
            | Some (tid, uid, fc, w) \<Rightarrow> Some \<lparr>mb_src_ip = f_src_ip flow, mb_dst_ip = f_dst_ip flow,
                mb_src_port = f_src_port flow, mb_dst_port = f_dst_port flow,
                transaction_id = tid, unit_id = uid, function_code = fc, is_write = w\<rparr>)))"

section \<open>Device identification\<close>

text \<open>
  The objects of the response: at most \<open>num_objects\<close>, as long as two header bytes are
  left; a value that runs past the buffer is cut short, as a Python slice is.
\<close>

fun device_objects :: "nat \<Rightarrow> bytes \<Rightarrow> nat \<Rightarrow> (nat, string) dict \<Rightarrow> (nat, string) dict" where
  "device_objects 0 resp idx objs = objs"
| "device_objects (Suc n) resp idx objs =
     (if idx + 2 > length resp then objs
      else let obj_id = unat (resp ! idx); obj_len = unat (resp ! (idx + 1)); start = idx + 2 in
        device_objects n resp (start + obj_len)
          (dict_put obj_id (strip (decode_visible_string (take obj_len (drop start resp)))) objs))"

record device_identity =
  vendor :: "string option"
  product :: "string option"
  revision :: "string option"

definition parse_device_id_response :: "bytes \<Rightarrow> device_identity option" where
  "parse_device_id_response resp =
     (if length resp < 14 \<or> resp ! 7 \<noteq> 0x2B \<or> resp ! 8 \<noteq> 0x0E then None
      else let objs = device_objects (unat (resp ! 13)) resp 14 [] in
        if objs = [] then None
        else Some \<lparr>vendor = dict_get objs 0, product = dict_get objs 1, revision = dict_get objs 2\<rparr>)"

section \<open>Lemmas\<close>

lemma parse_modbus_payload_Some:
  assumes "parse_modbus_payload raw = Some (tid, uid, fc, w)"
  shows "8 \<le> length raw" and "6 + be_val (take 2 (drop 4 raw)) \<le> length raw"
    and "tid < 65536" and "uid < 256" and "fc < 256" and "w \<longleftrightarrow> fc \<in> WRITE_FUNCTION_CODES"
    and "uid = unat (raw ! 6)" and "fc = unat (raw ! 7)"
proof -
  have "be_val (take 2 raw) < 256 ^ length (take 2 raw)" by (rule be_val_bound)
  also have "\<dots> \<le> 256 ^ 2" by (rule power_increasing) auto
  finally have "be_val (take 2 raw) < 65536" by simp
  with assms show "8 \<le> length raw" and "6 + be_val (take 2 (drop 4 raw)) \<le> length raw"
    and "tid < 65536" and "uid < 256" and "fc < 256" and "w \<longleftrightarrow> fc \<in> WRITE_FUNCTION_CODES"
    and "uid = unat (raw ! 6)" and "fc = unat (raw ! 7)"
    by (auto simp: parse_modbus_payload_def Let_def split: if_splits)
qed

lemma write_not_read: "fc \<in> WRITE_FUNCTION_CODES \<Longrightarrow> fc \<notin> READ_FUNCTION_CODES"
  by (auto simp: WRITE_FUNCTION_CODES_def READ_FUNCTION_CODES_def)

lemma device_objects_wf: "dict_wf objs \<Longrightarrow> dict_wf (device_objects n resp idx objs)"
  by (induction n resp idx objs rule: device_objects.induct) (auto simp: Let_def)

section \<open>Properties\<close>

text \<open>
  A Modbus frame is reported only for a TCP segment to or from port 502 whose MBAP
  header is complete: at least eight bytes and as many as the length field announces. Its
  fields are within their octet ranges, and it is classed as a write exactly when the
  function code is one of the write codes, none of which is a read code.
\<close>

theorem modbus_frame_sound:
  assumes "parse_modbus_tcp p = Some fr"
  shows "\<exists>tcp ip. pkt_tcp p = Some tcp \<and> ip_or_ip6 p = Some ip \<and>
     (mb_dst_port fr = 502 \<or> mb_src_port fr = 502) \<and>
     mb_src_ip fr = ip_src ip \<and> mb_dst_ip fr = ip_dst ip \<and>
     8 \<le> length (l4_payload tcp) \<and>
     6 + be_val (take 2 (drop 4 (l4_payload tcp))) \<le> length (l4_payload tcp) \<and>
     transaction_id fr < 65536 \<and> unit_id fr < 256 \<and> function_code fr < 256 \<and>
     (is_write fr \<longleftrightarrow> function_code fr \<in> WRITE_FUNCTION_CODES) \<and>
     (is_write fr \<longrightarrow> function_code fr \<notin> READ_FUNCTION_CODES)"
proof -
  obtain flow tcp tid uid fc w where p: "parse_transport p = Some flow" "f_protocol flow = ''tcp''"
      "f_dst_port flow = 502 \<or> f_src_port flow = 502" "pkt_tcp p = Some tcp"
      "parse_modbus_payload (l4_payload tcp) = Some (tid, uid, fc, w)"
      "fr = \<lparr>mb_src_ip = f_src_ip flow, mb_dst_ip = f_dst_ip flow, mb_src_port = f_src_port flow,
         mb_dst_port = f_dst_port flow, transaction_id = tid, unit_id = uid, function_code = fc,
         is_write = w\<rparr>"
    using assms by (auto simp: parse_modbus_tcp_def MODBUS_PORT_def split: option.splits if_splits)
  then obtain ip where "ip_or_ip6 p = Some ip" "flow = mk_flow ip tcp ''tcp''"
    by (auto simp: parse_transport_def split: option.splits)
  then show ?thesis
    using p parse_modbus_payload_Some [OF p(5)] write_not_read [of fc] by (auto simp: mk_flow_def)
qed

definition modbus_write_packet :: packet where
  "modbus_write_packet = \<lparr>pkt_bytes = None, pkt_ether = None,
     pkt_ip = Some \<lparr>ip_src = ''10.0.0.5'', ip_dst = ''10.0.0.9''\<rparr>, pkt_ip6 = None,
     pkt_tcp = Some \<lparr>l4_sport = 40000, l4_dport = 502,
       l4_payload = [0, 7, 0, 0, 0, 6, 1, 6, 0, 1, 0, 9]\<rparr>, pkt_udp = None\<rparr>"

lemma modbus_write_packet_parses:
  "parse_modbus_tcp modbus_write_packet = Some \<lparr>mb_src_ip = ''10.0.0.5'', mb_dst_ip = ''10.0.0.9'',
     mb_src_port = 40000, mb_dst_port = 502, transaction_id = 7, unit_id = 1, function_code = 6,
     is_write = True\<rparr>"
  by (simp add: modbus_write_packet_def parse_modbus_tcp_def parse_transport_def ip_or_ip6_def
      mk_flow_def MODBUS_PORT_def parse_modbus_payload_def Let_def be_val_def WRITE_FUNCTION_CODES_def)

theorem modbus_frame_sound_witness:
  "\<exists>fr. parse_modbus_tcp modbus_write_packet = Some fr \<and> is_write fr \<and>
     function_code fr \<in> WRITE_FUNCTION_CODES \<and> function_code fr \<notin> READ_FUNCTION_CODES"
  using modbus_frame_sound [OF modbus_write_packet_parses] modbus_write_packet_parses by auto

end
