(* ===== verification/Goose.thy ===== *)
theory Goose
  imports Packet Ber
begin

text \<open>
  The GOOSE parser and its statistics (\<open>parser/l7/iec61850/goose.py\<close>): the L2 payload of
  a frame with EtherType 0x88B8 (one VLAN tag allowed), the field loop over the PDU, the
  frame record, the frame builder of the lab publisher, and the publisher table. The loop
  raises ValueError on a broken TLV, as the code does; that it stops is proved from the
  progress of \<open>read_tlv\<close>.
\<close>

definition GOOSE_ETHERTYPE :: nat where
  "GOOSE_ETHERTYPE = 0x88B8"

record goose_frame =
  publisher_mac :: string
  appid :: nat
  gocb_ref :: string
  go_id :: string
  st_num :: int
  sq_num :: int
  test_bit :: bool
  conf_rev :: int
  raw_length :: nat

record goose_stats =
  message_count :: nat
  stnum_changes :: nat
  test_flag_count :: nat
  publishers :: "(string, goose_frame) dict"
  last_stnum :: "(string, int) dict"

definition goose_init :: goose_stats where
  "goose_init = \<lparr>message_count = 0, stnum_changes = 0, test_flag_count = 0, publishers = [],
     last_stnum = []\<rparr>"

definition extract_l2_payload :: "packet \<Rightarrow> (string \<times> bytes) option" where
  "extract_l2_payload p = (case pkt_ether p of None \<Rightarrow> None
     | Some eth \<Rightarrow>
        let payload = eth_payload eth;
            tagged = (eth_type eth = 0x8100 \<and> 4 \<le> length payload);
            ethertype = (if tagged then be_val (take 2 (drop 2 payload)) else eth_type eth);
            offset = (if tagged then 4 else 0)
        in if ethertype \<noteq> GOOSE_ETHERTYPE then None
           else Some (eth_src eth, drop offset payload))"

section \<open>The PDU\<close>

text \<open>The \<open>fields\<close> dictionary of the parser: which keys are set, and to what.\<close>

record goose_fields =
  fld_gocb_ref :: "string option"
  fld_go_id :: "string option"
  fld_st_num :: "int option"
  fld_sq_num :: "int option"
  fld_test :: "bool option"
  fld_conf_rev :: "int option"

definition no_fields :: goose_fields where
  "no_fields = \<lparr>fld_gocb_ref = None, fld_go_id = None, fld_st_num = None, fld_sq_num = None,
     fld_test = None, fld_conf_rev = None\<rparr>"

definition set_field :: "8 word \<Rightarrow> bytes \<Rightarrow> goose_fields \<Rightarrow> goose_fields" where
  "set_field tag v fs =
     (if tag = 0x80 then fs\<lparr>fld_gocb_ref := Some (decode_visible_string v)\<rparr>
      else if tag = 0x83 then fs\<lparr>fld_go_id := Some (decode_visible_string v)\<rparr>
      else if tag = 0x85 then fs\<lparr>fld_st_num := Some (decode_integer v)\<rparr>
      else if tag = 0x86 then fs\<lparr>fld_sq_num := Some (decode_integer v)\<rparr>
      else if tag = 0x87 then fs\<lparr>fld_test := Some (v = [0xff])\<rparr>
      else if tag = 0x88 then fs\<lparr>fld_conf_rev := Some (decode_integer v)\<rparr>
      else fs)"

function pdu_loop :: "bytes \<Rightarrow> nat \<Rightarrow> goose_fields \<Rightarrow> goose_fields res" where
  "pdu_loop content offset fs =
     (if offset < length content then
        (case read_tlv content offset of Inl e \<Rightarrow> Inl e
         | Inr (tag, v, offset') \<Rightarrow> pdu_loop content offset' (set_field tag v fs))
      else Inr fs)"
  by pat_completeness auto
termination
proof (relation "measure (\<lambda>(content, offset, fs). length content - offset)", goal_cases)
  case 1
  show ?case by simp
next
  case (2 content offset fs y tag yb v offset')
  then have "offset + 2 \<le> offset'" using read_tlv_progress [of content offset] by auto
  with 2 show ?case by simp
qed

declare pdu_loop.simps [simp del]

definition parse_goose_pdu :: "bytes \<Rightarrow> goose_fields res" where
  "parse_goose_pdu pdu =
     (if pdu \<noteq> [] \<and> hd pdu = 0x61 then
        bind_res (read_tlv pdu 0) (\<lambda>(tag, content, e). pdu_loop content 0 no_fields)
      else pdu_loop pdu 0 no_fields)"

section \<open>Frames\<close>

definition opt_default :: "'a \<Rightarrow> 'a option \<Rightarrow> 'a" where
  "opt_default d x = (case x of None \<Rightarrow> d | Some v \<Rightarrow> v)"

definition goose_pdu_of :: "bytes \<Rightarrow> bytes" where
  "goose_pdu_of raw =
     (let len = be_val (take 2 (drop 2 raw));
          pdu = (if 8 \<le> len then take (len - 8) (drop 8 raw) else drop 8 raw)
      in if pdu = [] then drop 8 raw else pdu)"

definition parse_goose_wire :: "bytes \<Rightarrow> goose_frame option res" where
  "parse_goose_wire raw =
     (if length raw < 8 then Inr None
      else bind_res (parse_goose_pdu (goose_pdu_of raw)) (\<lambda>fs.
        case fld_gocb_ref fs of None \<Rightarrow> Inr None
        | Some gocb \<Rightarrow> Inr (Some \<lparr>publisher_mac = [], appid = be_val (take 2 raw),
            gocb_ref = gocb, go_id = opt_default [] (fld_go_id fs),
            st_num = opt_default 0 (fld_st_num fs), sq_num = opt_default 0 (fld_sq_num fs),
            test_bit = opt_default False (fld_test fs),
            conf_rev = opt_default 0 (fld_conf_rev fs), raw_length = length raw\<rparr>)))"

definition parse_goose_packet :: "packet \<Rightarrow> goose_frame option res" where
  "parse_goose_packet p = (case extract_l2_payload p of None \<Rightarrow> Inr None
     | Some (src_mac, payload) \<Rightarrow>
        bind_res (parse_goose_wire payload) (\<lambda>r.
          case r of None \<Rightarrow> Inr None | Some frame \<Rightarrow> Inr (Some (frame\<lparr>publisher_mac := src_mac\<rparr>))))"

text \<open>
  The builder the lab publisher and the tests use. \<open>to_bytes(2, "big")\<close> raises where the
  application id or the length does not fit two octets.
\<close>

definition be16 :: "nat \<Rightarrow> bytes res" where
  "be16 n = (if n < 65536 then Inr [of_nat (n div 256), of_nat (n mod 256)] else Inl OverflowError)"

definition build_goose_wire ::
  "nat \<Rightarrow> string \<Rightarrow> string \<Rightarrow> int \<Rightarrow> int \<Rightarrow> bool \<Rightarrow> int \<Rightarrow> bytes res" where
  "build_goose_wire app gocb goid st sq tst crev =
     bind_res (encode_visible_string 0x80 gocb) (\<lambda>e80.
     bind_res (encode_visible_string 0x82 ''labDataset'') (\<lambda>e82.
     bind_res (encode_visible_string 0x83 goid) (\<lambda>e83.
       let body = concat [e80, encode_integer 0x81 1000, e82, e83, encode_integer 0x85 st,
             encode_integer 0x86 sq, encode_boolean 0x87 tst, encode_integer 0x88 crev];
           apdu = [0x61] @ encode_length (length body) @ body
       in bind_res (be16 app) (\<lambda>a. bind_res (be16 (length apdu + 8)) (\<lambda>l.
            Inr (a @ l @ replicate 4 0 @ apdu))))))"

section \<open>Statistics\<close>

definition goose_key :: "goose_frame \<Rightarrow> string" where
  "goose_key f = publisher_mac f @ ''|'' @ dec (appid f) @ ''|'' @ gocb_ref f"

definition record_goose :: "goose_stats \<Rightarrow> goose_frame \<Rightarrow> goose_stats" where
  "record_goose stats frame =
     (let stats = stats\<lparr>message_count := message_count stats + 1\<rparr>;
          stats = (if test_bit frame then stats\<lparr>test_flag_count := test_flag_count stats + 1\<rparr> else stats);
          key = goose_key frame;
          stats = (case dict_get (last_stnum stats) key of None \<Rightarrow> stats
                   | Some prev \<Rightarrow> if st_num frame \<noteq> prev
                                 then stats\<lparr>stnum_changes := stnum_changes stats + 1\<rparr> else stats)
      in stats\<lparr>last_stnum := dict_put key (st_num frame) (last_stnum stats),
               publishers := dict_put key frame (publishers stats)\<rparr>)"

section \<open>The loop reads back what was written\<close>

definition enc_tlv :: "8 word \<times> bytes \<Rightarrow> bytes" where
  "enc_tlv t = [fst t] @ encode_length (length (snd t)) @ snd t"

lemma pdu_loop_step:
  "read_tlv c off = Inr (tag, v, e) \<Longrightarrow> pdu_loop c off fs = pdu_loop c e (set_field tag v fs)"
  using read_tlv_progress [of c off] by (auto simp: pdu_loop.simps [of c off])

lemma pdu_loop_end: "length c \<le> off \<Longrightarrow> pdu_loop c off fs = Inr fs"
  by (simp add: pdu_loop.simps)

lemma pdu_loop_tlvs:
  assumes "\<forall>t\<in>set ts. length (snd t) < 65536"
  shows "pdu_loop (pre @ concat (map enc_tlv ts)) (length pre) fs =
           Inr (fold (\<lambda>(tag, v). set_field tag v) ts fs)"
  using assms
proof (induction ts arbitrary: pre fs)
  case Nil
  then show ?case by (simp add: pdu_loop_end)
next
  case (Cons t ts)
  obtain tag v where t: "t = (tag, v)" by (cases t)
  have "read_tlv (pre @ concat (map enc_tlv (t # ts))) (length pre) =
          Inr (tag, v, length (pre @ enc_tlv t))"
    using read_tlv_encode [of v pre tag "concat (map enc_tlv ts)"] Cons.prems
    by (simp add: t enc_tlv_def)
  then have "pdu_loop (pre @ concat (map enc_tlv (t # ts))) (length pre) fs =
      pdu_loop ((pre @ enc_tlv t) @ concat (map enc_tlv ts)) (length (pre @ enc_tlv t)) (set_field tag v fs)"
    by (simp add: pdu_loop_step)
  then show ?case
    using Cons.IH [of "pre @ enc_tlv t" "set_field tag v fs"] Cons.prems by (simp add: t)
qed

lemma pdu_loop_error: "pdu_loop c off fs = Inl e \<Longrightarrow> e = ValueError"
proof (induction c off fs rule: pdu_loop.induct)
  case (1 c off fs)
  then show ?case
    by (auto simp: pdu_loop.simps [of c off] dest: read_tlv_error split: if_splits sum.splits)
qed

lemma parse_goose_pdu_error: "parse_goose_pdu pdu = Inl e \<Longrightarrow> e = ValueError"
  by (auto simp: parse_goose_pdu_def bind_res_def dest: pdu_loop_error read_tlv_error
      split: if_splits sum.splits prod.splits)

lemma be16_val: "be16 n = Inr b \<Longrightarrow> be_val b = n \<and> length b = 2"
  by (auto simp: be16_def be_val_def unat_of_nat split: if_splits)

definition goose_tlvs :: "bytes \<Rightarrow> bytes \<Rightarrow> bytes \<Rightarrow> int \<Rightarrow> int \<Rightarrow> bool \<Rightarrow> int \<Rightarrow> (8 word \<times> bytes) list" where
  "goose_tlvs g d i st sq tst crev = [(0x80, g), (0x81, int_body 1000), (0x82, d), (0x83, i),
     (0x85, int_body st), (0x86, int_body sq), (0x87, if tst then [0xff] else [0]),
     (0x88, int_body crev)]"

lemma goose_tlvs_fields:
  "fold (\<lambda>(tag, v). set_field tag v) (goose_tlvs g d i st sq tst crev) no_fields =
     \<lparr>fld_gocb_ref = Some (decode_visible_string g), fld_go_id = Some (decode_visible_string i),
      fld_st_num = Some st, fld_sq_num = Some sq, fld_test = Some tst, fld_conf_rev = Some crev\<rparr>"
  by (simp add: goose_tlvs_def set_field_def no_fields_def)

lemma build_goose_wire_eq:
  assumes "encode_ascii gocb = Inr g" "encode_ascii ''labDataset'' = Inr d" "encode_ascii goid = Inr i"
  shows "build_goose_wire app gocb goid st sq tst crev =
    (let apdu = enc_tlv (0x61, concat (map enc_tlv (goose_tlvs g d i st sq tst crev)))
     in bind_res (be16 app) (\<lambda>a. bind_res (be16 (length apdu + 8)) (\<lambda>l.
          Inr (a @ l @ replicate 4 0 @ apdu))))"
proof -
  have "concat (map enc_tlv (goose_tlvs g d i st sq tst crev)) =
    concat [[0x80] @ encode_length (length g) @ g, encode_integer 0x81 1000,
      [0x82] @ encode_length (length d) @ d, [0x83] @ encode_length (length i) @ i,
      encode_integer 0x85 st, encode_integer 0x86 sq, encode_boolean 0x87 tst,
      encode_integer 0x88 crev]"
    by (simp add: goose_tlvs_def enc_tlv_def encode_integer_eq encode_boolean_def)
  then show ?thesis
    by (simp only: build_goose_wire_def encode_visible_string_def assms bind_res_simps Let_def
        enc_tlv_def [of "(0x61, b)" for b] fst_conv snd_conv)
qed

lemma sum_list_member: "x \<in> set xs \<Longrightarrow> length x \<le> length (concat xs)"
  by (induction xs) auto

text \<open>The payload of a built frame, with anything behind it, parses to the frame built.\<close>

lemma parse_build_goose:
  assumes "build_goose_wire app gocb goid st sq tst crev = Inr wire"
  shows "parse_goose_wire (wire @ pad) = Inr (Some \<lparr>publisher_mac = [], appid = app,
           gocb_ref = gocb, go_id = goid, st_num = st, sq_num = sq, test_bit = tst,
           conf_rev = crev, raw_length = length wire + length pad\<rparr>)"
proof -
  obtain g d i where g: "encode_ascii gocb = Inr g" and d: "encode_ascii ''labDataset'' = Inr d"
    and i: "encode_ascii goid = Inr i"
    using assms by (auto simp: build_goose_wire_def encode_visible_string_def bind_res_eq_Inr)
  define ts where "ts = goose_tlvs g d i st sq tst crev"
  define body where "body = concat (map enc_tlv ts)"
  define apdu where "apdu = enc_tlv (0x61, body)"
  obtain a l where a: "be16 app = Inr a" and l: "be16 (length apdu + 8) = Inr l"
    and w: "wire = a @ l @ replicate 4 0 @ apdu"
    using assms unfolding build_goose_wire_eq [OF g d i] Let_def bind_res_eq_Inr apdu_def body_def ts_def
    by blast
  have small: "length apdu + 8 < 65536" using l by (simp add: be16_def split: if_splits)
  then have bsmall: "length body < 65536" by (simp add: apdu_def enc_tlv_def)
  have la: "length a = 2" "be_val a = app" "length l = 2" "be_val l = length apdu + 8"
    using be16_val [OF a] be16_val [OF l] by auto
  have "length (snd t) < 65536" if "t \<in> set ts" for t
  proof -
    have "length (enc_tlv t) \<le> length body"
      using that sum_list_member [of "enc_tlv t" "map enc_tlv ts"] by (simp add: body_def)
    then show ?thesis using bsmall by (simp add: enc_tlv_def)
  qed
  then have loop: "pdu_loop body 0 no_fields = Inr (fold (\<lambda>(tag, v). set_field tag v) ts no_fields)"
    using pdu_loop_tlvs [of ts "[]"] by (simp add: body_def)
  have ne: "apdu \<noteq> []" by (simp add: apdu_def enc_tlv_def)
  have "drop 8 (wire @ pad) = apdu @ pad" "take 2 (drop 2 (wire @ pad)) = l" "take 2 (wire @ pad) = a"
    using la by (simp_all add: w)
  then have pdu: "goose_pdu_of (wire @ pad) = apdu"
    using ne la by (simp add: goose_pdu_of_def Let_def)
  have "read_tlv apdu 0 = Inr (0x61, body, length apdu)"
    using read_tlv_encode [OF bsmall, of "[]" "0x61" "[]"] by (simp add: apdu_def enc_tlv_def)
  then have "parse_goose_pdu apdu = Inr (fold (\<lambda>(tag, v). set_field tag v) ts no_fields)"
    using ne loop by (simp add: parse_goose_pdu_def) (simp add: apdu_def enc_tlv_def)
  moreover have "8 \<le> length wire" using la by (simp add: w)
  ultimately show ?thesis
    using pdu la decode_encode_ascii [OF g] decode_encode_ascii [OF i]
      \<open>take 2 (wire @ pad) = a\<close>
    by (simp add: parse_goose_wire_def ts_def goose_tlvs_fields opt_default_def)
qed


section \<open>The publisher table\<close>

text \<open>
  Every message either opens a publisher or is compared with the last one of its publisher:
  the table and the last state numbers have the same keys, each publisher's last state number
  is that of its last frame, and a publisher's first message is never counted as a change.
\<close>

definition goose_inv :: "goose_stats \<Rightarrow> bool" where
  "goose_inv s = (dict_wf (publishers s) \<and> dict_keys (publishers s) = dict_keys (last_stnum s) \<and>
     stnum_changes s + length (publishers s) \<le> message_count s \<and>
     test_flag_count s \<le> message_count s \<and>
     (\<forall>k. dict_get (last_stnum s) k = map_option st_num (dict_get (publishers s) k)))"

lemma goose_inv_init [inv_rules]: "goose_inv goose_init"
  by (simp add: goose_inv_def goose_init_def)

lemma record_goose_fields [simp]:
  "message_count (record_goose s f) = Suc (message_count s)"
  "test_flag_count (record_goose s f) = test_flag_count s + (if test_bit f then 1 else 0)"
  "stnum_changes (record_goose s f) = stnum_changes s +
     (case dict_get (last_stnum s) (goose_key f) of None \<Rightarrow> 0
      | Some prev \<Rightarrow> if st_num f \<noteq> prev then 1 else 0)"
  "publishers (record_goose s f) = dict_put (goose_key f) f (publishers s)"
  "last_stnum (record_goose s f) = dict_put (goose_key f) (st_num f) (last_stnum s)"
  by (simp_all add: record_goose_def Let_def split: option.splits)

lemma goose_inv_record [inv_rules]:
  assumes "goose_inv s"
  shows "goose_inv (record_goose s f)"
proof -
  have keys: "dict_keys (publishers s) = dict_keys (last_stnum s)"
    and num: "stnum_changes s + length (publishers s) \<le> message_count s"
    using assms by (simp_all add: goose_inv_def)
  have "stnum_changes (record_goose s f) + length (publishers (record_goose s f)) \<le> Suc (message_count s)"
  proof (cases "dict_get (last_stnum s) (goose_key f)")
    case None
    then show ?thesis
      using num by (simp add: length_dict_put split: if_splits)
  next
    case (Some prev)
    then have "goose_key f \<in> set (dict_keys (publishers s))" by (simp add: keys dict_get_in_keys)
    then show ?thesis using num Some by (simp add: length_dict_put)
  qed
  then show ?thesis using assms by (simp add: goose_inv_def dict_keys_put)
qed

lemma goose_inv_run: "goose_inv s \<Longrightarrow> goose_inv (fold (\<lambda>f s. record_goose s f) fs s)"
  by (induction fs arbitrary: s) (auto intro: goose_inv_record)

lemma message_count_run: "message_count (fold (\<lambda>f s. record_goose s f) fs s) = message_count s + length fs"
  by (induction fs arbitrary: s) auto

section \<open>Properties\<close>

definition ether_packet :: "string \<Rightarrow> nat \<Rightarrow> bytes \<Rightarrow> packet" where
  "ether_packet mac ty payload = \<lparr>pkt_bytes = Some payload,
     pkt_ether = Some \<lparr>eth_src = mac, eth_dst = ''01:0c:cd:01:00:01'', eth_type = ty, eth_payload = payload\<rparr>,
     pkt_ip = None, pkt_ip6 = None, pkt_tcp = None, pkt_udp = None\<rparr>"

text \<open>
  C37. What the GOOSE builder writes, the passive parser reads back: sent in an Ethernet frame
  of type 0x88B8, or in a VLAN-tagged one, with any Ethernet padding behind it, the parser
  returns the frame with the sender's MAC, the application id, both names, both state numbers
  (of any size and sign), the test bit and the configuration revision.
\<close>

theorem goose_roundtrip:
  assumes "build_goose_wire app gocb goid st sq tst crev = Inr wire"
  shows "parse_goose_packet (ether_packet mac 0x88B8 (wire @ pad)) =
           parse_goose_packet (ether_packet mac 0x8100 ([t1, t2, 0x88, 0xB8] @ wire @ pad)) \<and>
         parse_goose_packet (ether_packet mac 0x88B8 (wire @ pad)) =
           Inr (Some \<lparr>publisher_mac = mac, appid = app, gocb_ref = gocb, go_id = goid,
             st_num = st, sq_num = sq, test_bit = tst, conf_rev = crev,
             raw_length = length wire + length pad\<rparr>)"
  using parse_build_goose [OF assms, of pad]
  by (simp add: parse_goose_packet_def ether_packet_def extract_l2_payload_def GOOSE_ETHERTYPE_def
      Let_def be_val_def)

definition lab_wire :: bytes where
  "lab_wire = (case build_goose_wire 3 ''G'' ''I'' (-1) 300 True 1 of Inr w \<Rightarrow> w | Inl e \<Rightarrow> [])"

lemma lab_wire_builds: "build_goose_wire 3 ''G'' ''I'' (-1) 300 True 1 = Inr lab_wire"
  by (simp add: lab_wire_def build_goose_wire_def encode_visible_string_def encode_ascii_def
      chr_code_def Let_def be16_def encode_integer_def int_octets_def bit_len.simps encode_length_def
      encode_boolean_def)

theorem goose_roundtrip_witness:
  "parse_goose_packet (ether_packet ''aa'' 0x88B8 (lab_wire @ [0, 0])) =
     Inr (Some \<lparr>publisher_mac = ''aa'', appid = 3, gocb_ref = ''G'', go_id = ''I'', st_num = -1,
       sq_num = 300, test_bit = True, conf_rev = 1, raw_length = length lab_wire + 2\<rparr>)"
  using goose_roundtrip [OF lab_wire_builds, of "''aa''" "[0, 0]" 0 0, THEN conjunct2] by simp

text \<open>
  After any sequence of GOOSE messages the publisher table is consistent: one entry per
  publisher key, holding the last frame and its state number; every message is counted; and
  the state-number changes counted plus the publishers seen never exceed the messages.
\<close>

theorem goose_table_consistent:
  fixes frames :: "goose_frame list"
  defines "s \<equiv> fold (\<lambda>f s. record_goose s f) frames goose_init"
  shows "dict_wf (publishers s) \<and> message_count s = length frames \<and>
     stnum_changes s + length (publishers s) \<le> length frames \<and> test_flag_count s \<le> length frames \<and>
     dict_get (last_stnum s) k = map_option st_num (dict_get (publishers s) k)"
  using goose_inv_run [OF goose_inv_init, of frames] message_count_run [of frames goose_init]
  by (simp add: s_def goose_inv_def) (simp add: goose_init_def)

end
