(* ===== verification/Mms.thy ===== *)
theory Mms
  imports Packet Ber
begin

text \<open>
  The MMS heuristics over TCP port 102 (\<open>parser/l7/iec61850/mms.py\<close>): classification of a
  TPKT payload by markers, the observation of one segment, and the session statistics.
\<close>

definition MMS_PORT :: nat where
  "MMS_PORT = 102"

record mms_observation =
  mms_src_ip :: string
  mms_dst_ip :: string
  mms_src_port :: nat
  mms_dst_port :: nat
  pdu_type :: string
  payload_len :: nat

text \<open>\<open>session_keys\<close> is a set the code only adds to and counts.\<close>

record mms_stats =
  session_keys :: "string set"
  read_count :: nat
  write_count :: nat
  report_count :: nat
  other_count :: nat
  observations :: "mms_observation list"

definition mms_init :: mms_stats where
  "mms_init = \<lparr>session_keys = {}, read_count = 0, write_count = 0, report_count = 0,
     other_count = 0, observations = []\<rparr>"

definition session_key :: "string \<Rightarrow> nat \<Rightarrow> string \<Rightarrow> nat \<Rightarrow> string" where
  "session_key src sport dst dport = src @ '':'' @ dec sport @ ''->'' @ dst @ '':'' @ dec dport"

text \<open>\<open>b.lower()\<close> on bytes, and byte literals.\<close>

definition lower_byte :: "8 word \<Rightarrow> 8 word" where
  "lower_byte b = (if 65 \<le> unat b \<and> unat b \<le> 90 then b + 32 else b)"

definition blit :: "string \<Rightarrow> bytes" where
  "blit s = map (\<lambda>c. of_nat (chr_code c)) s"

definition classify_mms_payload :: "bytes \<Rightarrow> string" where
  "classify_mms_payload payload =
     (if length payload < 8 then ''other''
      else if payload ! 0 \<noteq> 0x03 then ''other''
      else let tpkt_len = be_val (take 2 (drop 2 payload));
               body = (if tpkt_len \<le> length payload then drop 4 (take tpkt_len payload) else drop 4 payload);
               haystack = (if body \<noteq> [] then body else payload);
               low = map lower_byte haystack in
        if is_infix (blit ''write'') low then ''write''
        else if is_infix (blit ''read'') low then ''read''
        else if is_infix (blit ''report'') low then ''report''
        else if is_infix (blit ''getNameList'') haystack \<or> is_infix (blit ''GetNameList'') haystack
          then ''getNameList''
        else if is_infix [0xa0] haystack \<or> is_infix [0xa1] haystack \<or> is_infix [0xa2] haystack then
          (if is_infix [0xa4] haystack \<or> is_infix [0x04] (drop (length haystack - 16) haystack)
           then ''write'' else ''read'')
        else ''other'')"

definition parse_mms_packet :: "packet \<Rightarrow> mms_observation option" where
  "parse_mms_packet p = (case (pkt_ip p, pkt_tcp p) of
       (Some ip, Some tcp) \<Rightarrow>
         if MMS_PORT \<noteq> l4_sport tcp \<and> MMS_PORT \<noteq> l4_dport tcp then None
         else if l4_payload tcp = [] then None
         else Some \<lparr>mms_src_ip = ip_src ip, mms_dst_ip = ip_dst ip, mms_src_port = l4_sport tcp,
           mms_dst_port = l4_dport tcp, pdu_type = classify_mms_payload (l4_payload tcp),
           payload_len = length (l4_payload tcp)\<rparr>
     | _ \<Rightarrow> None)"

definition build_mms_write_probe :: bytes where
  "build_mms_write_probe = [0x03, 0, 0, 0x2a] @ [0x02, 0xf0, 0x80] @ blit ''confirmedRequest write service''"

definition record_mms :: "mms_stats \<Rightarrow> mms_observation \<Rightarrow> mms_stats" where
  "record_mms stats obs =
     (let key = session_key (mms_src_ip obs) (mms_src_port obs) (mms_dst_ip obs) (mms_dst_port obs);
          stats = stats\<lparr>session_keys := insert key (session_keys stats),
                        observations := observations stats @ [obs]\<rparr> in
      if pdu_type obs = ''read'' then stats\<lparr>read_count := read_count stats + 1\<rparr>
      else if pdu_type obs = ''write'' then stats\<lparr>write_count := write_count stats + 1\<rparr>
      else if pdu_type obs = ''report'' then stats\<lparr>report_count := report_count stats + 1\<rparr>
      else stats\<lparr>other_count := other_count stats + 1\<rparr>)"

section \<open>Lemmas\<close>

definition count_pdu :: "string \<Rightarrow> mms_observation list \<Rightarrow> nat" where
  "count_pdu t os = length (filter (\<lambda>ob. pdu_type ob = t) os)"

text \<open>The counters are the classes of the observations kept, and every session was observed.\<close>

definition mms_inv :: "mms_stats \<Rightarrow> bool" where
  "mms_inv s = (finite (session_keys s) \<and> card (session_keys s) \<le> length (observations s) \<and>
     read_count s = count_pdu ''read'' (observations s) \<and>
     write_count s = count_pdu ''write'' (observations s) \<and>
     report_count s = count_pdu ''report'' (observations s) \<and>
     read_count s + write_count s + report_count s + other_count s = length (observations s))"

lemma mms_inv_init [inv_rules]: "mms_inv mms_init"
  by (simp add: mms_inv_def mms_init_def count_pdu_def)

lemma mms_inv_record [inv_rules]: "mms_inv s \<Longrightarrow> mms_inv (record_mms s ob)"
  by (auto simp: mms_inv_def record_mms_def Let_def count_pdu_def card_insert_if)

lemma mms_inv_run: "mms_inv s \<Longrightarrow> mms_inv (fold (\<lambda>ob s. record_mms s ob) os s)"
  by (induction os arbitrary: s) (auto intro: mms_inv_record)

lemma observations_run:
  "observations (fold (\<lambda>ob s. record_mms s ob) os s) = observations s @ os"
  by (induction os arbitrary: s) (auto simp: record_mms_def Let_def)

lemma is_infix_singleton: "is_infix [b] xs \<longleftrightarrow> b \<in> set xs"
  by (induction xs) auto

section \<open>Properties\<close>

text \<open>
  After any sequence of MMS observations the four counters split the observations kept:
  reads, writes and reports count exactly the observations of that class, the four add up to
  all of them, and there are at most as many sessions as observations.
\<close>

theorem mms_counters_split:
  fixes os :: "mms_observation list"
  defines "s \<equiv> fold (\<lambda>ob s. record_mms s ob) os mms_init"
  shows "observations s = os \<and> read_count s = count_pdu ''read'' os \<and>
     write_count s = count_pdu ''write'' os \<and> report_count s = count_pdu ''report'' os \<and>
     read_count s + write_count s + report_count s + other_count s = length os \<and>
     card (session_keys s) \<le> length os"
  using mms_inv_run [OF mms_inv_init, of os] observations_run [of os mms_init]
  by (simp add: s_def mms_inv_def mms_init_def)

text \<open>
  A payload that announces its own length, or a longer one, and carries the word "write" in
  any case behind the TPKT header is a write, whatever other markers it carries; the write probe
  of the lab is one such payload.
\<close>

theorem mms_write_marker_wins:
  assumes "8 \<le> length payload" and "payload ! 0 = 3"
    and "length payload \<le> be_val (take 2 (drop 2 payload))"
    and "drop 4 payload = us @ w @ vs" and "map lower_byte w = blit ''write''"
  shows "classify_mms_payload payload = ''write'' \<and> build_mms_write_probe ! 0 = 3"
proof -
  let ?h = "drop 4 payload"
  have ne: "?h \<noteq> []" using assms(1) by simp
  have "(if be_val (take 2 (drop 2 payload)) \<le> length payload
         then drop 4 (take (be_val (take 2 (drop 2 payload))) payload) else ?h) = ?h"
    using assms(3) by simp
  moreover have "map lower_byte ?h = map lower_byte us @ blit ''write'' @ map lower_byte vs"
    using assms(4,5) by simp
  then have "is_infix (blit ''write'') (map lower_byte ?h)" unfolding is_infix_iff by blast
  ultimately show ?thesis
    using assms(1,2) ne by (simp add: classify_mms_payload_def Let_def build_mms_write_probe_def)
qed

theorem mms_write_marker_wins_witness: "classify_mms_payload build_mms_write_probe = ''write''"
proof -
  have d: "drop 4 build_mms_write_probe =
      ([0x02, 0xf0, 0x80] @ blit ''confirmedRequest '') @ blit ''write'' @ blit '' service''"
    by (simp add: build_mms_write_probe_def blit_def chr_code_def)
  have l: "length build_mms_write_probe = 37" by (simp add: build_mms_write_probe_def blit_def)
  have b: "be_val (take 2 (drop 2 build_mms_write_probe)) = 42"
    by (simp add: build_mms_write_probe_def be_val_def)
  have m: "map lower_byte (blit ''write'') = blit ''write''"
    by (simp add: blit_def lower_byte_def chr_code_def)
  show ?thesis
    using mms_write_marker_wins [OF _ _ _ d m] l b by (simp add: build_mms_write_probe_def)
qed

end
