(* ===== verification/Events.thy ===== *)
theory Events
  imports PyValue
begin

text \<open>
  The security event model (\<open>detection/models.py\<close>), the clock readings a handler sees,
  the event numbers of the detectors (\<open>_next_event_id\<close>), and the composition of rules
  that each may emit events and change a detector's state. The numbering contract of a
  detector is a locale; the detectors provide it, and it makes the event ids of any run
  distinct.
\<close>

section \<open>Clock\<close>

text \<open>
  One handler call reads \<open>time.monotonic()\<close>, the UTC day (\<open>%Y%m%d\<close>) and the UTC time in
  ISO format; the readings of one call are taken to be equal.
\<close>

record clock =
  mono :: pyfloat
  utc_day :: string
  now_iso :: string

definition clock_at :: "pyfloat \<Rightarrow> clock" where
  "clock_at t = \<lparr>mono = t, utc_day = ''20260101'', now_iso = ''2026-01-01T00:00:00+00:00''\<rparr>"

lemma clock_at_simps [simp]: "mono (clock_at t) = t" "utc_day (clock_at t) = ''20260101''"
  by (simp_all add: clock_at_def)

section \<open>Events\<close>

record security_event =
  ev_id :: string
  ev_site :: string
  ev_sensor :: string
  ev_type :: string
  ev_severity :: string
  ev_rule :: string
  ev_protocol :: string
  ev_description :: string
  ev_asset :: string
  ev_src_ip :: string
  ev_dst_ip :: string
  ev_dst_port :: "int option"
  ev_risk :: int
  ev_evidence :: "(string, json) dict"
  ev_evidence_ref :: string
  ev_timestamp :: string

definition opt_entry :: "bool \<Rightarrow> string \<Rightarrow> json \<Rightarrow> (string \<times> json) list" where
  "opt_entry b k v = (if b then [(k, v)] else [])"

definition event_to_dict :: "security_event \<Rightarrow> (string, json) dict" where
  "event_to_dict e =
     [(''event_id'', JStr (ev_id e)), (''site_id'', JStr (ev_site e)),
      (''sensor_id'', JStr (ev_sensor e)), (''event_type'', JStr (ev_type e)),
      (''severity'', JStr (ev_severity e)), (''rule_id'', JStr (ev_rule e)),
      (''protocol'', JStr (ev_protocol e)), (''description'', JStr (ev_description e)),
      (''timestamp'', JStr (ev_timestamp e)), (''risk_score'', JInt (ev_risk e)),
      (''evidence'', JObj (ev_evidence e))]
     @ opt_entry (ev_asset e \<noteq> []) ''asset_id'' (JStr (ev_asset e))
     @ opt_entry (ev_src_ip e \<noteq> []) ''src_ip'' (JStr (ev_src_ip e))
     @ opt_entry (ev_dst_ip e \<noteq> []) ''dst_ip'' (JStr (ev_dst_ip e))
     @ (case ev_dst_port e of None \<Rightarrow> [] | Some p \<Rightarrow> [(''dst_port'', JInt p)])
     @ opt_entry (ev_evidence_ref e \<noteq> []) ''evidence_ref'' (JStr (ev_evidence_ref e))"

text \<open>The text of an evidence field.\<close>

definition evid_text :: "security_event \<Rightarrow> string \<Rightarrow> string" where
  "evid_text e k = py_str (case dict_get (ev_evidence e) k of None \<Rightarrow> JNull | Some v \<Rightarrow> v)"

lemma event_to_dict_wf: "dict_wf (event_to_dict e)"
  by (auto simp: event_to_dict_def dict_wf_def dict_keys_def opt_entry_def split: option.splits)

section \<open>Event ids\<close>

text \<open>\<open>f"evt-{day}-{suffix}-{seq:05d}"\<close>\<close>

definition event_id :: "string \<Rightarrow> string \<Rightarrow> nat \<Rightarrow> string" where
  "event_id day suffix n = ''evt-'' @ day @ ''-'' @ suffix @ ''-'' @ zpad 5 n"

lemma zpad_digits: "c \<in> set (zpad w n) \<Longrightarrow> is_digit c"
  by (auto simp: zpad_def dest: dec_digits) (simp add: is_digit_def chr_code_def)

text \<open>The digits at the end of an id are its number: equal ids have equal numbers.\<close>

lemma event_id_number: "event_id day suffix n = event_id day' suffix' m \<Longrightarrow> n = m"
proof -
  have tail: "takeWhile is_digit (rev (event_id d s k)) = rev (zpad 5 k)" for d s k
  proof -
    have "rev (event_id d s k) = rev (zpad 5 k) @ CHR ''-'' # rev (''evt-'' @ d @ ''-'' @ s)"
      by (simp add: event_id_def)
    moreover have "\<not> is_digit (CHR ''-'')" by (simp add: is_digit_def chr_code_def)
    moreover have "\<forall>c\<in>set (rev (zpad 5 k)). is_digit c" using zpad_digits by auto
    ultimately show ?thesis by (simp add: takeWhile_append)
  qed
  assume "event_id day suffix n = event_id day' suffix' m"
  then have "rev (zpad 5 n) = rev (zpad 5 m)" using tail by metis
  then show ?thesis by simp
qed

section \<open>Rules that emit\<close>

text \<open>
  A rule takes the detector's state and returns the new state and the events it emits; rules
  run one after the other and their events are appended in that order.
\<close>

type_synonym 's emitter = "'s \<Rightarrow> 's \<times> security_event list"

definition no_event :: "'s emitter" where
  "no_event s = (s, [])"

definition and_then :: "'s emitter \<Rightarrow> 's emitter \<Rightarrow> 's emitter" where
  "and_then f g s = (case f s of (s1, e1) \<Rightarrow> case g s1 of (s2, e2) \<Rightarrow> (s2, e1 @ e2))"

fun run_rules :: "'s emitter list \<Rightarrow> 's emitter" where
  "run_rules [] s = (s, [])"
| "run_rules (f # fs) s = and_then f (run_rules fs) s"

fun emit_all :: "('i \<Rightarrow> 's emitter) \<Rightarrow> 'i list \<Rightarrow> 's emitter" where
  "emit_all step [] s = (s, [])"
| "emit_all step (i # is) s = and_then (step i) (emit_all step is) s"

lemma and_then_simps [simp]:
  "fst (and_then f g s) = fst (g (fst (f s)))"
  "snd (and_then f g s) = snd (f s) @ snd (g (fst (f s)))"
  by (simp_all add: and_then_def split: prod.split)

text \<open>
  \<open>numbered seq mk s r\<close>: the result \<open>r\<close> of a rule started in state \<open>s\<close> carries event ids made
  from increasing numbers above the counter of \<open>s\<close>, up to the new counter.
\<close>

definition numbered :: "('s \<Rightarrow> nat) \<Rightarrow> (nat \<Rightarrow> string) \<Rightarrow> 's \<Rightarrow> 's \<times> security_event list \<Rightarrow> bool" where
  "numbered seq mk s r = (seq s \<le> seq (fst r) \<and>
     (\<exists>ns. map ev_id (snd r) = map mk ns \<and> sorted_wrt (<) ns \<and> set ns \<subseteq> {seq s<..seq (fst r)}))"

lemma numbered_none [intro]: "seq s' = seq s \<Longrightarrow> numbered seq mk s (s', [])"
  by (simp add: numbered_def)

lemma numbered_one:
  "seq s' = Suc (seq s) \<Longrightarrow> ev_id e = mk (Suc (seq s)) \<Longrightarrow> numbered seq mk s (s', [e])"
  by (auto simp: numbered_def intro!: exI [of _ "[Suc (seq s)]"])

lemma numbered_append:
  assumes "numbered seq mk s (s1, e1)" and "numbered seq mk s1 (s2, e2)"
  shows "numbered seq mk s (s2, e1 @ e2)"
proof -
  obtain ns1 ns2 where "map ev_id e1 = map mk ns1" "sorted_wrt (<) ns1" "set ns1 \<subseteq> {seq s<..seq s1}"
    "map ev_id e2 = map mk ns2" "sorted_wrt (<) ns2" "set ns2 \<subseteq> {seq s1<..seq s2}"
    "seq s \<le> seq s1" "seq s1 \<le> seq s2"
    using assms by (auto simp: numbered_def)
  then show ?thesis
    by (intro numbered_def [THEN iffD2] conjI exI [of _ "ns1 @ ns2"])
      (auto simp: sorted_wrt_append subset_iff, (meson greaterThanAtMost_iff le_less_trans le_trans less_le_trans less_imp_le subsetD)+)
qed

lemma numbered_and_then:
  assumes "\<And>s. numbered seq mk s (f s)" and "\<And>s. numbered seq mk s (g s)"
  shows "numbered seq mk s (and_then f g s)"
proof -
  obtain s1 e1 s2 e2 where f: "f s = (s1, e1)" and g: "g s1 = (s2, e2)" by fastforce
  then show ?thesis
    using numbered_append [of seq mk s s1 e1 s2 e2] assms(1) [of s] assms(2) [of s1]
    by (simp add: and_then_def)
qed

lemma numbered_rules:
  "(\<And>f s. f \<in> set fs \<Longrightarrow> numbered seq mk s (f s)) \<Longrightarrow> numbered seq mk s (run_rules fs s)"
proof (induction fs arbitrary: s)
  case (Cons f fs)
  then show ?case using numbered_and_then [of seq mk f "run_rules fs"] by simp
qed (auto intro: numbered_none)

lemma numbered_filter:
  "numbered seq mk s (s', es) \<Longrightarrow> numbered seq mk s (s', filter P es)"
proof -
  assume "numbered seq mk s (s', es)"
  then obtain ns where ns: "map ev_id es = map mk ns" "sorted_wrt (<) ns" "set ns \<subseteq> {seq s<..seq s'}"
    "seq s \<le> seq s'" by (auto simp: numbered_def)
  then have len: "length es = length ns" by (metis length_map)
  define zs where "zs = filter (P \<circ> fst) (zip es ns)"
  have "map ev_id (filter P es) = map mk (map snd zs)"
    using len ns(1) unfolding zs_def by (induction es ns rule: list_induct2) auto
  moreover have "sorted_wrt (<) (map snd zs)"
    using len ns(2) unfolding zs_def
  proof (induction es ns rule: list_induct2)
    case (Cons e es n ns)
    then show ?case by (auto dest: set_zip_rightD)
  qed simp
  moreover have "set (map snd zs) \<subseteq> set ns" using len by (auto simp: zs_def dest: set_zip_rightD)
  ultimately show ?thesis using ns(3,4) unfolding numbered_def by (metis fst_conv snd_conv order_trans)
qed

section \<open>The numbering contract\<close>

text \<open>
  What every detector promises of its event ids: an input makes ids out of numbers it has not
  used, in increasing order. Then the ids of a whole run, over any inputs and days, are
  distinct: each event of one process can be told from every other.
\<close>

locale event_source =
  fixes step :: "'i \<Rightarrow> 's emitter" and seq :: "'s \<Rightarrow> nat" and day :: "'i \<Rightarrow> string"
    and suffix :: string
  assumes step_numbered: "numbered seq (event_id (day i) suffix) s (step i s)"
begin

lemma run_numbers:
  "\<exists>ns. length ns = length (snd (emit_all step is s)) \<and> sorted_wrt (<) ns \<and>
     (\<forall>n\<in>set ns. seq s < n) \<and>
     (\<forall>j<length ns. \<exists>d. ev_id (snd (emit_all step is s) ! j) = event_id d suffix (ns ! j))"
proof (induction "is" arbitrary: s)
  case (Cons i "is")
  let ?s1 = "fst (step i s)"
  obtain ms where ms: "map ev_id (snd (step i s)) = map (event_id (day i) suffix) ms"
    "sorted_wrt (<) ms" "set ms \<subseteq> {seq s<..seq ?s1}" "seq s \<le> seq ?s1"
    using step_numbered [of i s] by (auto simp: numbered_def)
  then have len: "length ms = length (snd (step i s))" by (metis length_map)
  obtain ns where ns: "length ns = length (snd (emit_all step is ?s1))" "sorted_wrt (<) ns"
    "\<forall>n\<in>set ns. seq ?s1 < n"
    "\<forall>j<length ns. \<exists>d. ev_id (snd (emit_all step is ?s1) ! j) = event_id d suffix (ns ! j)"
    using Cons.IH [of ?s1] by blast
  have "\<exists>d. ev_id ((snd (step i s) @ snd (emit_all step is ?s1)) ! j) = event_id d suffix ((ms @ ns) ! j)"
    if j: "j < length (ms @ ns)" for j
  proof (cases "j < length ms")
    case True
    then have "ev_id (snd (step i s) ! j) = event_id (day i) suffix (ms ! j)"
      using ms(1) len by (metis nth_map)
    then show ?thesis using True len by (auto simp: nth_append)
  next
    case False
    then show ?thesis using ns(4) j len by (auto simp: nth_append)
  qed
  moreover have "sorted_wrt (<) (ms @ ns)"
    using ms(2,3) ns(2,3) by (force simp: sorted_wrt_append)
  moreover have "\<forall>n\<in>set (ms @ ns). seq s < n" using ms(3,4) ns(3) by fastforce
  ultimately show ?case using len ns(1) by (intro exI [of _ "ms @ ns"]) simp
qed simp

lemma run_ids_distinct: "distinct (map ev_id (snd (emit_all step is s)))"
proof -
  obtain ns where ns: "length ns = length (snd (emit_all step is s))" "sorted_wrt (<) ns"
    "\<forall>j<length ns. \<exists>d. ev_id (snd (emit_all step is s) ! j) = event_id d suffix (ns ! j)"
    using run_numbers [of "is" s] by blast
  have d: "distinct ns" using ns(2) by (simp add: strict_sorted_iff)
  have "ev_id (snd (emit_all step is s) ! i) \<noteq> ev_id (snd (emit_all step is s) ! j)"
    if "i < length ns" "j < length ns" "i \<noteq> j" for i j
    using ns(3) that d by (metis event_id_number nth_eq_iff_index_eq)
  then show ?thesis using ns(1) by (simp add: distinct_conv_nth)
qed

end


section \<open>Alert-once rules\<close>

text \<open>
  Most rules alert once per subject (a MAC, an address, a pair, an asset): they remember the
  subjects they have seen. \<open>once known key s r\<close>: the result \<open>r\<close> of a rule started in \<open>s\<close>
  forgets no subject, alerts only on subjects not known in \<open>s\<close>, each at most once, and knows
  them afterwards. \<open>key\<close> is the subject of an event, None for events of other rules.
\<close>

definition once :: "('s \<Rightarrow> 'k set) \<Rightarrow> (security_event \<Rightarrow> 'k option) \<Rightarrow> 's \<Rightarrow> 's \<times> security_event list \<Rightarrow> bool" where
  "once known key s r = (known s \<subseteq> known (fst r) \<and> distinct (List.map_filter key (snd r)) \<and>
     set (List.map_filter key (snd r)) \<subseteq> known (fst r) - known s)"

lemma once_none [intro]: "known s \<subseteq> known s' \<Longrightarrow> once known key s (s', [])"
  by (simp add: once_def List.map_filter_def)

lemma once_other: "known s \<subseteq> known s' \<Longrightarrow> key e = None \<Longrightarrow> once known key s (s', [e])"
  by (simp add: once_def List.map_filter_def)

lemma once_new:
  "known s' = insert k (known s) \<Longrightarrow> k \<notin> known s \<Longrightarrow> key e = Some k \<Longrightarrow> once known key s (s', [e])"
  by (auto simp: once_def List.map_filter_def)

lemma map_filter_append: "List.map_filter f (xs @ ys) = List.map_filter f xs @ List.map_filter f ys"
  by (simp add: List.map_filter_def)

lemma once_append:
  "once known key s (s1, e1) \<Longrightarrow> once known key s1 (s2, e2) \<Longrightarrow> once known key s (s2, e1 @ e2)"
  by (auto simp: once_def map_filter_append)

lemma once_and_then:
  assumes "\<And>s. once known key s (f s)" and "\<And>s. once known key s (g s)"
  shows "once known key s (and_then f g s)"
proof -
  obtain s1 e1 s2 e2 where f: "f s = (s1, e1)" and g: "g s1 = (s2, e2)" by fastforce
  then show ?thesis
    using once_append [of known key s s1 e1 s2 e2] assms(1) [of s] assms(2) [of s1]
    by (simp add: and_then_def)
qed

lemma once_rules:
  "(\<And>f s. f \<in> set fs \<Longrightarrow> once known key s (f s)) \<Longrightarrow> once known key s (run_rules fs s)"
proof (induction fs arbitrary: s)
  case (Cons f fs)
  then show ?case using once_and_then [of known key f "run_rules fs"] by simp
qed (auto intro: once_none)

lemma map_filter_filter_sub:
  "set (List.map_filter key (filter P es)) \<subseteq> set (List.map_filter key es) \<and>
   (distinct (List.map_filter key es) \<longrightarrow> distinct (List.map_filter key (filter P es)))"
  by (induction es) (auto simp: List.map_filter_simps split: option.splits)

lemma once_filter: "once known key s (s', es) \<Longrightarrow> once known key s (s', filter P es)"
  using map_filter_filter_sub [of key P es] by (auto simp: once_def)

text \<open>
  The contract over a whole run: no subject is alerted twice, nor one known at the start.
\<close>

locale once_source =
  fixes step :: "'i \<Rightarrow> 's emitter" and known :: "'s \<Rightarrow> 'k set" and key :: "security_event \<Rightarrow> 'k option"
  assumes step_once: "once known key s (step i s)"
begin

lemma run_once: "once known key s (emit_all step is s)"
proof (induction "is" arbitrary: s)
  case (Cons i "is")
  then show ?case using once_and_then [of known key "step i" "emit_all step is"] step_once by simp
qed (auto intro: once_none)

lemma run_alerts_once:
  "distinct (List.map_filter key (snd (emit_all step is s))) \<and>
   set (List.map_filter key (snd (emit_all step is s))) \<inter> known s = {}"
  using run_once [of s "is"] by (auto simp: once_def)

lemma run_known_mono: "known s \<subseteq> known (fst (emit_all step is s))"
  using run_once [of s "is"] by (auto simp: once_def)

end

end
