(* ===== verification/Iec61850.thy ===== *)
theory Iec61850
  imports Goose Mms Events
begin

text \<open>
  The IEC 61850 detector, rules OT-011 to OT-018 (\<open>detection/iec61850.py\<close>). The baseline is
  the \<open>iec61850\<close> object of the policy: GOOSE publishers, IEDs with their MMS clients, and
  the stNum threshold; a field of a record is what \<open>get\<close> with the code's default returns.
  All rules run and number their events; the disabled rules are dropped at the end.
\<close>

section \<open>Policy and state\<close>

record goose_entry =
  ge_mac :: string
  ge_appid :: int
  ge_gocb :: string
  ge_production :: bool
  ge_asset :: string

record ied_entry =
  ied_ip :: "string option"
  ied_clients :: "string list"

record iec_policy =
  goose_publishers :: "goose_entry list"
  mms_ieds :: "ied_entry list"
  iec_thresholds :: "(string, int) dict"

record iec =
  iec_site :: string
  iec_sensor :: string
  iec_pol :: iec_policy
  iec_rules :: "string set"
  known_goose :: "string set"
  known_mms_pairs :: "string set"
  alerted_mms :: "string set"
  iec_last_stnum :: "(string, int) dict"
  iec_seq :: nat

definition iec_init :: "string \<Rightarrow> string \<Rightarrow> iec_policy \<Rightarrow> string set \<Rightarrow> iec" where
  "iec_init site sensor pol rules = \<lparr>iec_site = site, iec_sensor = sensor, iec_pol = pol,
     iec_rules = rules, known_goose = {}, known_mms_pairs = {}, alerted_mms = {},
     iec_last_stnum = [], iec_seq = 0\<rparr>"

definition iec_enabled :: "iec \<Rightarrow> string \<Rightarrow> bool" where
  "iec_enabled d rule_id = (iec_rules d = {} \<or> rule_id \<in> iec_rules d)"

definition iec_threshold :: "iec \<Rightarrow> string \<Rightarrow> int \<Rightarrow> int" where
  "iec_threshold d key dflt = (case dict_get (iec_thresholds (iec_pol d)) key of None \<Rightarrow> dflt | Some v \<Rightarrow> v)"

text \<open>An entry matches when each of its fields that is set agrees with the frame.\<close>

definition entry_matches :: "goose_frame \<Rightarrow> goose_entry \<Rightarrow> bool" where
  "entry_matches frame e =
     (\<not> (lower (ge_mac e) \<noteq> [] \<and> lower (ge_mac e) \<noteq> lower (publisher_mac frame)) \<and>
      \<not> (0 \<le> ge_appid e \<and> ge_appid e \<noteq> int (appid frame)) \<and>
      \<not> (ge_gocb e \<noteq> [] \<and> ge_gocb e \<noteq> gocb_ref frame))"

definition match_goose_baseline :: "iec \<Rightarrow> goose_frame \<Rightarrow> goose_entry option" where
  "match_goose_baseline d frame = find (entry_matches frame) (goose_publishers (iec_pol d))"

definition ied_in_baseline :: "iec \<Rightarrow> string \<Rightarrow> bool" where
  "ied_in_baseline d ied = list_ex (\<lambda>e. ied_ip e = Some ied) (mms_ieds (iec_pol d))"

definition is_known_mms_pair :: "iec \<Rightarrow> string \<Rightarrow> string \<Rightarrow> bool" where
  "is_known_mms_pair d client ied =
     list_ex (\<lambda>e. ied_ip e = Some ied \<and> client \<in> set (ied_clients e)) (mms_ieds (iec_pol d))"

text \<open>Only the first entry of the IED is asked.\<close>

definition is_allowed_mms_client :: "iec \<Rightarrow> string \<Rightarrow> string \<Rightarrow> bool" where
  "is_allowed_mms_client d client ied =
     (case find (\<lambda>e. ied_ip e = Some ied) (mms_ieds (iec_pol d)) of None \<Rightarrow> False
      | Some e \<Rightarrow> client \<in> set (ied_clients e))"

section \<open>Events\<close>

record iec_args =
  ia_type :: string
  ia_severity :: string
  ia_protocol :: string
  ia_description :: string
  ia_asset :: string
  ia_src_ip :: string
  ia_dst_ip :: string
  ia_dst_port :: "int option"
  ia_risk :: int
  ia_evidence :: "(string, json) dict"

definition goose_args :: "string \<Rightarrow> string \<Rightarrow> string \<Rightarrow> (string, json) dict \<Rightarrow> iec_args" where
  "goose_args etype sev descr evid = \<lparr>ia_type = etype, ia_severity = sev, ia_protocol = ''iec61850-goose'',
     ia_description = descr, ia_asset = [], ia_src_ip = [], ia_dst_ip = [], ia_dst_port = None,
     ia_risk = 70, ia_evidence = evid\<rparr>"

definition mms_args :: "string \<Rightarrow> string \<Rightarrow> string \<Rightarrow> string \<Rightarrow> string \<Rightarrow> int \<Rightarrow> string \<Rightarrow> iec_args" where
  "mms_args etype sev descr client ied risk pdu = \<lparr>ia_type = etype, ia_severity = sev,
     ia_protocol = ''iec61850-mms'', ia_description = descr, ia_asset = [], ia_src_ip = client,
     ia_dst_ip = ied, ia_dst_port = Some 102, ia_risk = risk,
     ia_evidence = [(''ied_ip'', JStr ied), (''mms_pdu_type'', JStr pdu)]\<rparr>"

definition iec_event :: "clock \<Rightarrow> string \<Rightarrow> iec_args \<Rightarrow> iec emitter" where
  "iec_event clk rule_id a d =
     (let seq = iec_seq d + 1 in
      (d\<lparr>iec_seq := seq\<rparr>,
       [\<lparr>ev_id = event_id (utc_day clk) ''61850'' seq, ev_site = iec_site d, ev_sensor = iec_sensor d,
         ev_type = ia_type a, ev_severity = ia_severity a, ev_rule = rule_id, ev_protocol = ia_protocol a,
         ev_description = ia_description a, ev_asset = ia_asset a, ev_src_ip = ia_src_ip a,
         ev_dst_ip = ia_dst_ip a, ev_dst_port = ia_dst_port a, ev_risk = ia_risk a,
         ev_evidence = ia_evidence a, ev_evidence_ref = [], ev_timestamp = now_iso clk\<rparr>]))"

definition keep_enabled :: "iec \<times> security_event list \<Rightarrow> iec \<times> security_event list" where
  "keep_enabled r = (fst r, filter (\<lambda>e. iec_enabled (fst r) (ev_rule e)) (snd r))"

section \<open>GOOSE rules\<close>

definition rule_ot011 :: "clock \<Rightarrow> goose_frame \<Rightarrow> iec emitter" where
  "rule_ot011 clk frame d =
     (if goose_key frame \<notin> known_goose d then
        let baseline = match_goose_baseline d frame;
            d = d\<lparr>known_goose := insert (goose_key frame) (known_goose d)\<rparr> in
        if baseline = None then
          iec_event clk ''OT-011'' (goose_args ''GOOSE_NEW_PUBLISHER'' ''medium''
            ''New GOOSE publisher observed on mirror port''
            [(''goose_appid'', JInt (int (appid frame))), (''goose_gocb_ref'', JStr (gocb_ref frame)),
             (''goose_publisher_mac'', JStr (publisher_mac frame)), (''goose_stnum'', JInt (st_num frame)),
             (''goose_sqnum'', JInt (sq_num frame))]) d
        else no_event d
      else no_event d)"

definition rule_ot012 :: "clock \<Rightarrow> goose_frame \<Rightarrow> iec emitter" where
  "rule_ot012 clk frame d =
     (let baseline = match_goose_baseline d frame in
      if test_bit frame \<and> (case baseline of None \<Rightarrow> True | Some e \<Rightarrow> ge_production e) then
        iec_event clk ''OT-012'' ((goose_args ''GOOSE_TEST_MODE'' ''high''
            ''GOOSE test bit set on production publisher''
            [(''goose_appid'', JInt (int (appid frame))), (''goose_gocb_ref'', JStr (gocb_ref frame)),
             (''goose_test'', JBool True), (''goose_stnum'', JInt (st_num frame))])
            \<lparr>ia_asset := (case baseline of None \<Rightarrow> [] | Some e \<Rightarrow> ge_asset e), ia_risk := 86\<rparr>) d
      else no_event d)"

definition stnum_anomaly :: "iec \<Rightarrow> int \<Rightarrow> int \<Rightarrow> bool" where
  "stnum_anomaly d prev st = (st < prev \<or> \<bar>st - prev\<bar> > iec_threshold d ''goose_stnum_jump_max'' 100)"

definition rule_ot013 :: "clock \<Rightarrow> goose_frame \<Rightarrow> iec emitter" where
  "rule_ot013 clk frame d =
     (case dict_get (iec_last_stnum d) (goose_key frame) of None \<Rightarrow> no_event d
      | Some prev \<Rightarrow>
          if stnum_anomaly d prev (st_num frame) then
            iec_event clk ''OT-013'' (goose_args ''GOOSE_STNUM_ANOMALY'' ''medium''
              ''GOOSE stNum anomaly detected''
              [(''goose_appid'', JInt (int (appid frame))), (''goose_gocb_ref'', JStr (gocb_ref frame)),
               (''goose_stnum'', JInt (st_num frame)), (''previous_stnum'', JInt prev)]) d
          else no_event d)"

definition store_stnum :: "goose_frame \<Rightarrow> iec emitter" where
  "store_stnum frame d =
     no_event (d\<lparr>iec_last_stnum := dict_put (goose_key frame) (st_num frame) (iec_last_stnum d)\<rparr>)"

definition evaluate_goose :: "clock \<Rightarrow> goose_frame \<Rightarrow> iec emitter" where
  "evaluate_goose clk frame d = keep_enabled (run_rules
     [rule_ot011 clk frame, rule_ot012 clk frame, rule_ot013 clk frame, store_stnum frame] d)"

section \<open>MMS rules\<close>

definition mms_ied :: "mms_observation \<Rightarrow> string" where
  "mms_ied obs = (if mms_dst_port obs = 102 then mms_dst_ip obs else mms_src_ip obs)"

definition mms_client :: "mms_observation \<Rightarrow> string" where
  "mms_client obs = (if mms_dst_port obs = 102 then mms_src_ip obs else mms_dst_ip obs)"

definition mms_pair :: "string \<Rightarrow> string \<Rightarrow> string" where
  "mms_pair client ied = client @ ''->'' @ ied @ '':102''"

definition rule_ot014 :: "clock \<Rightarrow> mms_observation \<Rightarrow> iec emitter" where
  "rule_ot014 clk obs d =
     (let pair = mms_pair (mms_client obs) (mms_ied obs) in
      if pair \<notin> known_mms_pairs d then
        let d = d\<lparr>known_mms_pairs := insert pair (known_mms_pairs d)\<rparr> in
        if \<not> is_known_mms_pair d (mms_client obs) (mms_ied obs) then
          iec_event clk ''OT-014'' (mms_args ''MMS_NEW_CLIENT'' ''medium''
            ''New MMS client observed connecting to IED'' (mms_client obs) (mms_ied obs) 70 (pdu_type obs)) d
        else no_event d
      else no_event d)"

definition rule_ot016 :: "clock \<Rightarrow> mms_observation \<Rightarrow> iec emitter" where
  "rule_ot016 clk obs d =
     (if pdu_type obs = ''write'' \<and> \<not> is_allowed_mms_client d (mms_client obs) (mms_ied obs) then
        iec_event clk ''OT-016'' (mms_args ''MMS_WRITE_ANOMALY'' ''high''
          ''Unexpected MMS write from non-baselined client'' (mms_client obs) (mms_ied obs) 88 ''write'') d
      else no_event d)"

definition rule_ot018 :: "clock \<Rightarrow> mms_observation \<Rightarrow> iec emitter" where
  "rule_ot018 clk obs d =
     (let pair = mms_pair (mms_client obs) (mms_ied obs) in
      if \<not> is_allowed_mms_client d (mms_client obs) (mms_ied obs) \<and> ied_in_baseline d (mms_ied obs) \<and>
         pair \<notin> alerted_mms d then
        iec_event clk ''OT-018'' (mms_args ''MMS_UNAUTHORIZED_CLIENT'' ''high''
          ''Unauthorized host accessing relay IED over MMS'' (mms_client obs) (mms_ied obs) 90 (pdu_type obs))
          (d\<lparr>alerted_mms := insert pair (alerted_mms d)\<rparr>)
      else no_event d)"

definition evaluate_mms :: "clock \<Rightarrow> mms_observation \<Rightarrow> iec emitter" where
  "evaluate_mms clk obs d = keep_enabled (run_rules
     [rule_ot014 clk obs, rule_ot016 clk obs, rule_ot018 clk obs] d)"

section \<open>Inputs\<close>

datatype iec_input = GooseIn clock goose_frame | MmsIn clock mms_observation

fun iec_step :: "iec_input \<Rightarrow> iec emitter" where
  "iec_step (GooseIn clk frame) d = evaluate_goose clk frame d"
| "iec_step (MmsIn clk obs) d = evaluate_mms clk obs d"

fun iec_day :: "iec_input \<Rightarrow> string" where
  "iec_day (GooseIn clk frame) = utc_day clk"
| "iec_day (MmsIn clk obs) = utc_day clk"

section \<open>Lemmas\<close>

lemma iec_event_cases:
  obtains e where "iec_event clk r a d = (d\<lparr>iec_seq := Suc (iec_seq d)\<rparr>, [e])"
    and "ev_rule e = r" and "ev_id e = event_id (utc_day clk) ''61850'' (Suc (iec_seq d))"
    and "ev_src_ip e = ia_src_ip a" and "ev_dst_ip e = ia_dst_ip a" and "ev_evidence e = ia_evidence a"
  by (simp add: iec_event_def Let_def)

lemma iec_event_fst [simp]: "fst (iec_event clk r a d) = d\<lparr>iec_seq := Suc (iec_seq d)\<rparr>"
  by (simp add: iec_event_def)

lemma numbered_iec_event:
  "iec_seq d' = iec_seq d \<Longrightarrow> numbered iec_seq (event_id (utc_day clk) ''61850'') d (iec_event clk r a d')"
  by (rule iec_event_cases [of clk r a d']) (auto intro: numbered_one)

lemma iec_no_event: "iec_seq d' = iec_seq d \<Longrightarrow> numbered iec_seq mk d (no_event d')"
  by (auto simp: no_event_def)

lemmas goose_rule_defs = rule_ot011_def rule_ot012_def rule_ot013_def store_stnum_def
lemmas mms_rule_defs = rule_ot014_def rule_ot016_def rule_ot018_def

lemma numbered_goose_rules:
  "f \<in> set [rule_ot011 clk frame, rule_ot012 clk frame, rule_ot013 clk frame, store_stnum frame] \<Longrightarrow>
     numbered iec_seq (event_id (utc_day clk) ''61850'') d (f d)"
  by (auto simp: goose_rule_defs Let_def iec_no_event numbered_iec_event split: option.split)

lemma numbered_mms_rules:
  "f \<in> set [rule_ot014 clk obs, rule_ot016 clk obs, rule_ot018 clk obs] \<Longrightarrow>
     numbered iec_seq (event_id (utc_day clk) ''61850'') d (f d)"
  by (auto simp: mms_rule_defs Let_def iec_no_event numbered_iec_event)

lemma numbered_keep: "numbered iec_seq mk d r \<Longrightarrow> numbered iec_seq mk d (keep_enabled r)"
  by (cases r) (auto simp: keep_enabled_def intro: numbered_filter)

lemma iec_step_numbered: "numbered iec_seq (event_id (iec_day i) ''61850'') d (iec_step i d)"
proof (cases i)
  case (GooseIn clk frame)
  show ?thesis unfolding GooseIn iec_step.simps evaluate_goose_def iec_day.simps
    by (intro numbered_keep numbered_rules) (rule numbered_goose_rules)
next
  case (MmsIn clk obs)
  show ?thesis unfolding MmsIn iec_step.simps evaluate_mms_def iec_day.simps
    by (intro numbered_keep numbered_rules) (rule numbered_mms_rules)
qed

interpretation iec_ids: event_source iec_step iec_seq iec_day "''61850''"
  by unfold_locales (rule iec_step_numbered)

subsection \<open>Alert-once rules\<close>

definition iec_subject :: "security_event \<Rightarrow> (string \<times> string) option" where
  "iec_subject e =
     (if ev_rule e = ''OT-011'' then Some (''OT-011'', evid_text e ''goose_publisher_mac'' @ ''|'' @
        evid_text e ''goose_appid'' @ ''|'' @ evid_text e ''goose_gocb_ref'')
      else if ev_rule e = ''OT-014'' then Some (''OT-014'', mms_pair (ev_src_ip e) (ev_dst_ip e))
      else if ev_rule e = ''OT-018'' then Some (''OT-018'', mms_pair (ev_src_ip e) (ev_dst_ip e))
      else None)"

definition iec_known :: "iec \<Rightarrow> (string \<times> string) set" where
  "iec_known d = {''OT-011''} \<times> known_goose d \<union> {''OT-014''} \<times> known_mms_pairs d \<union> {''OT-018''} \<times> alerted_mms d"

lemma once_iec_new:
  assumes "iec_known d' = insert k (iec_known d)" "k \<notin> iec_known d"
    and "\<And>e. ev_rule e = r \<Longrightarrow> ev_src_ip e = ia_src_ip a \<Longrightarrow> ev_dst_ip e = ia_dst_ip a \<Longrightarrow>
      ev_evidence e = ia_evidence a \<Longrightarrow> iec_subject e = Some k"
  shows "once iec_known iec_subject d (iec_event clk r a d')"
proof (rule iec_event_cases [of clk r a d'])
  fix e assume e: "iec_event clk r a d' = (d'\<lparr>iec_seq := Suc (iec_seq d')\<rparr>, [e])" "ev_rule e = r"
    "ev_src_ip e = ia_src_ip a" "ev_dst_ip e = ia_dst_ip a" "ev_evidence e = ia_evidence a"
  have "iec_known (d'\<lparr>iec_seq := Suc (iec_seq d')\<rparr>) = insert k (iec_known d)"
    using assms(1) by (simp add: iec_known_def)
  then show ?thesis unfolding e(1) by (rule once_new [where k = k]) (use assms(2) assms(3) [OF e(2-)] in auto)
qed

lemma once_iec_other:
  assumes "iec_known d \<subseteq> iec_known d'" "r = ''OT-012'' \<or> r = ''OT-013'' \<or> r = ''OT-016''"
  shows "once iec_known iec_subject d (iec_event clk r a d')"
proof (rule iec_event_cases [of clk r a d'])
  fix e assume e: "iec_event clk r a d' = (d'\<lparr>iec_seq := Suc (iec_seq d')\<rparr>, [e])" "ev_rule e = r"
  have "iec_known (d'\<lparr>iec_seq := Suc (iec_seq d')\<rparr>) = iec_known d'" by (simp add: iec_known_def)
  moreover have "iec_subject e = None" using assms(2) e(2) by (elim disjE) (simp_all add: iec_subject_def)
  ultimately show ?thesis unfolding e(1) using assms(1) by (intro once_other) simp_all
qed

lemma once_iec_none: "iec_known d \<subseteq> iec_known d' \<Longrightarrow> once iec_known iec_subject d (no_event d')"
  by (auto simp: no_event_def)

lemma once_ot011: "once iec_known iec_subject d (rule_ot011 clk frame d)"
  by (auto simp: rule_ot011_def Let_def intro!: once_iec_none once_iec_new [where k = "(''OT-011'', goose_key frame)"])
     (auto simp: iec_known_def iec_subject_def evid_text_def goose_args_def goose_key_def dec_int_def)

lemma once_ot014: "once iec_known iec_subject d (rule_ot014 clk obs d)"
  by (auto simp: rule_ot014_def Let_def intro!: once_iec_none
      once_iec_new [where k = "(''OT-014'', mms_pair (mms_client obs) (mms_ied obs))"])
     (auto simp: iec_known_def iec_subject_def mms_args_def)

lemma once_ot018: "once iec_known iec_subject d (rule_ot018 clk obs d)"
  by (auto simp: rule_ot018_def Let_def intro!: once_iec_none
      once_iec_new [where k = "(''OT-018'', mms_pair (mms_client obs) (mms_ied obs))"])
     (auto simp: iec_known_def iec_subject_def mms_args_def)

lemma once_iec_others:
  "once iec_known iec_subject d (rule_ot012 clk frame d)"
  "once iec_known iec_subject d (rule_ot013 clk frame d)"
  "once iec_known iec_subject d (rule_ot016 clk obs d)"
  "once iec_known iec_subject d (store_stnum frame d)"
  by (auto simp: rule_ot012_def rule_ot013_def rule_ot016_def store_stnum_def Let_def iec_known_def [of "iec_last_stnum_update _ _"]
      split: option.split intro!: once_iec_none once_iec_other) (auto simp: iec_known_def)

lemma once_keep: "once iec_known iec_subject d r \<Longrightarrow> once iec_known iec_subject d (keep_enabled r)"
  by (cases r) (auto simp: keep_enabled_def intro: once_filter)

lemma iec_step_once: "once iec_known iec_subject d (iec_step i d)"
proof (cases i)
  case (GooseIn clk frame)
  show ?thesis unfolding GooseIn iec_step.simps evaluate_goose_def
    by (intro once_keep once_rules) (auto intro: once_ot011 once_iec_others)
next
  case (MmsIn clk obs)
  show ?thesis unfolding MmsIn iec_step.simps evaluate_mms_def
    by (intro once_keep once_rules) (auto intro: once_ot014 once_ot018 once_iec_others)
qed

interpretation iec_once: once_source iec_step iec_known iec_subject
  by unfold_locales (rule iec_step_once)

subsection \<open>Which rule an event belongs to\<close>

lemma iec_event_rule: "map ev_rule (snd (iec_event clk r a d)) = [r]"
  by (rule iec_event_cases [of clk r a d]) simp

lemma rule_names:
  "set (map ev_rule (snd (rule_ot011 clk frame d))) \<subseteq> {''OT-011''}"
  "set (map ev_rule (snd (rule_ot012 clk frame d))) \<subseteq> {''OT-012''}"
  "snd (store_stnum frame d) = []"
  "set (map ev_rule (snd (rule_ot014 clk obs d))) \<subseteq> {''OT-014''}"
  "set (map ev_rule (snd (rule_ot018 clk obs d))) \<subseteq> {''OT-018''}"
  unfolding rule_ot011_def rule_ot012_def store_stnum_def rule_ot014_def rule_ot018_def Let_def no_event_def
  by (simp_all only: iec_event_rule split: if_splits option.split) (simp_all split: if_splits)

lemma goose_rules_frame:
  "iec_last_stnum (fst (rule_ot011 clk frame d)) = iec_last_stnum d"
  "iec_pol (fst (rule_ot011 clk frame d)) = iec_pol d"
  "iec_rules (fst (rule_ot011 clk frame d)) = iec_rules d"
  "iec_last_stnum (fst (rule_ot012 clk frame d)) = iec_last_stnum d"
  "iec_pol (fst (rule_ot012 clk frame d)) = iec_pol d"
  "iec_rules (fst (rule_ot012 clk frame d)) = iec_rules d"
  "iec_last_stnum (fst (rule_ot013 clk frame d)) = iec_last_stnum d"
  "iec_rules (fst (rule_ot013 clk frame d)) = iec_rules d"
  by (auto simp: goose_rule_defs Let_def no_event_def split: option.split)

lemma find_Some_mem: "find P xs = Some x \<Longrightarrow> x \<in> set xs \<and> P x"
  by (auto simp: find_Some_iff)

lemma allowed_vs_known:
  "(is_allowed_mms_client d client ied \<longrightarrow> is_known_mms_pair d client ied \<and> ied_in_baseline d ied) \<and>
   (distinct (map ied_ip (mms_ieds (iec_pol d))) \<longrightarrow>
      is_allowed_mms_client d client ied = is_known_mms_pair d client ied)"
proof (intro conjI impI)
  assume "is_allowed_mms_client d client ied"
  then obtain e where "find (\<lambda>e. ied_ip e = Some ied) (mms_ieds (iec_pol d)) = Some e" "client \<in> set (ied_clients e)"
    by (auto simp: is_allowed_mms_client_def split: option.splits)
  then show "is_known_mms_pair d client ied" "ied_in_baseline d ied"
    using find_Some_mem by (fastforce simp: is_known_mms_pair_def ied_in_baseline_def list_ex_iff)+
next
  assume d: "distinct (map ied_ip (mms_ieds (iec_pol d)))"
  show "is_allowed_mms_client d client ied = is_known_mms_pair d client ied"
  proof (cases "find (\<lambda>e. ied_ip e = Some ied) (mms_ieds (iec_pol d))")
    case None
    then have "\<forall>e\<in>set (mms_ieds (iec_pol d)). ied_ip e \<noteq> Some ied" by (simp add: find_None_iff)
    with None show ?thesis by (auto simp: is_allowed_mms_client_def is_known_mms_pair_def list_ex_iff)
  next
    case (Some e)
    then have "e' = e" if "e' \<in> set (mms_ieds (iec_pol d))" "ied_ip e' = Some ied" for e'
      using d that find_Some_mem [OF Some] by (metis distinct_map inj_on_eq_iff)
    then show ?thesis
      using Some find_Some_mem [OF Some] by (auto simp: is_allowed_mms_client_def is_known_mms_pair_def list_ex_iff)
  qed
qed

lemma allowed_is_silent:
  assumes "is_allowed_mms_client d (mms_client obs) (mms_ied obs)"
  shows "snd (evaluate_mms clk obs d) = []"
proof -
  define d1 where "d1 = fst (rule_ot014 clk obs d)"
  have known: "is_known_mms_pair d (mms_client obs) (mms_ied obs)" using allowed_vs_known assms by blast
  then have "snd (rule_ot014 clk obs d) = []"
    by (simp add: rule_ot014_def Let_def no_event_def is_known_mms_pair_def)
  moreover have "iec_pol d1 = iec_pol d" by (simp add: d1_def rule_ot014_def Let_def no_event_def)
  then have "is_allowed_mms_client d1 (mms_client obs) (mms_ied obs)"
    using assms by (simp add: is_allowed_mms_client_def)
  then have "rule_ot016 clk obs d1 = no_event d1" "rule_ot018 clk obs d1 = no_event d1"
    by (simp_all add: rule_ot016_def rule_ot018_def Let_def)
  ultimately show ?thesis
    by (simp add: evaluate_mms_def keep_enabled_def d1_def [symmetric] no_event_def)
qed

section \<open>Properties\<close>

text \<open>
  C24. Over any run of GOOSE frames and MMS observations the IEC 61850 detector gives every
  event its own id, and alerts at most once per new GOOSE publisher (OT-011), per new MMS pair
  (OT-014) and per unauthorised MMS pair (OT-018), never for one it knew at the start.
\<close>

theorem iec_alerts_once:
  fixes inputs :: "iec_input list" and d :: iec
  defines "r \<equiv> emit_all iec_step inputs d"
  shows "distinct (map ev_id (snd r)) \<and> distinct (List.map_filter iec_subject (snd r)) \<and>
     set (List.map_filter iec_subject (snd r)) \<inter> iec_known d = {} \<and> iec_known d \<subseteq> iec_known (fst r)"
  using iec_ids.run_ids_distinct [of inputs d] iec_once.run_alerts_once [of inputs d]
    iec_once.run_known_mono [of d inputs]
  by (simp add: r_def)

text \<open>
  C25. The stNum rule: a GOOSE frame raises OT-013 exactly when the rule is enabled and the last
  stNum stored for its publisher, application id and control block is larger than the frame's or
  smaller by more than the threshold; the frame's own stNum is stored in every case.
\<close>

theorem stnum_alert_iff:
  "(''OT-013'' \<in> set (map ev_rule (snd (evaluate_goose clk frame d))) \<longleftrightarrow>
     iec_enabled d ''OT-013'' \<and>
     (\<exists>prev. dict_get (iec_last_stnum d) (goose_key frame) = Some prev \<and>
        (st_num frame < prev \<or> iec_threshold d ''goose_stnum_jump_max'' 100 < \<bar>st_num frame - prev\<bar>))) \<and>
   dict_get (iec_last_stnum (fst (evaluate_goose clk frame d))) (goose_key frame) = Some (st_num frame)"
proof -
  define d1 where "d1 = fst (rule_ot011 clk frame d)"
  define d2 where "d2 = fst (rule_ot012 clk frame d1)"
  define d3 where "d3 = fst (rule_ot013 clk frame d2)"
  have last: "iec_last_stnum d2 = iec_last_stnum d" "iec_pol d2 = iec_pol d" "iec_rules d3 = iec_rules d"
    by (simp_all add: d1_def d2_def d3_def goose_rules_frame)
  have th: "stnum_anomaly d2 = stnum_anomaly d"
    by (simp add: fun_eq_iff stnum_anomaly_def iec_threshold_def last)
  have en: "iec_enabled (fst (store_stnum frame d3)) r = iec_enabled d r" for r
    by (simp add: iec_enabled_def store_stnum_def no_event_def last)
  have mem: "''OT-013'' \<in> set (map ev_rule (snd (rule_ot013 clk frame d2))) \<longleftrightarrow>
      (\<exists>prev. dict_get (iec_last_stnum d) (goose_key frame) = Some prev \<and> stnum_anomaly d prev (st_num frame))"
    unfolding rule_ot013_def last th
    by (cases "dict_get (iec_last_stnum d) (goose_key frame)") (auto simp: no_event_def iec_event_def)
  have evs: "snd (evaluate_goose clk frame d) = filter (\<lambda>e. iec_enabled d (ev_rule e))
      (snd (rule_ot011 clk frame d) @ snd (rule_ot012 clk frame d1) @ snd (rule_ot013 clk frame d2))"
    by (simp add: evaluate_goose_def keep_enabled_def d1_def [symmetric] d2_def [symmetric] d3_def [symmetric]
        en rule_names(3))
  have "''OT-013'' \<notin> set (map ev_rule (snd (rule_ot011 clk frame d) @ snd (rule_ot012 clk frame d1)))"
    using rule_names(1) [of clk frame d] rule_names(2) [of clk frame d1] by auto
  then have "''OT-013'' \<in> set (map ev_rule (snd (evaluate_goose clk frame d))) \<longleftrightarrow>
      iec_enabled d ''OT-013'' \<and> ''OT-013'' \<in> set (map ev_rule (snd (rule_ot013 clk frame d2)))"
    unfolding evs by auto
  moreover have "dict_get (iec_last_stnum (fst (evaluate_goose clk frame d))) (goose_key frame) = Some (st_num frame)"
    by (simp add: evaluate_goose_def keep_enabled_def store_stnum_def no_event_def)
  ultimately show ?thesis unfolding mem stnum_anomaly_def by simp
qed

text \<open>
  An MMS client allowed for an IED is a known pair, and no observation of it raises any
  alert, a write neither. The converse holds when no IED is listed twice: then the lookups of
  OT-014 (every entry of the IED) and of OT-016 and OT-018 (its first entry) agree.
\<close>

theorem mms_allowed_vs_known:
  "(is_allowed_mms_client d (mms_client obs) (mms_ied obs) \<longrightarrow>
      is_known_mms_pair d (mms_client obs) (mms_ied obs) \<and> snd (evaluate_mms clk obs d) = []) \<and>
   (distinct (map ied_ip (mms_ieds (iec_pol d))) \<longrightarrow>
      is_allowed_mms_client d (mms_client obs) (mms_ied obs) =
      is_known_mms_pair d (mms_client obs) (mms_ied obs))"
  using allowed_vs_known [of d "mms_client obs" "mms_ied obs"] allowed_is_silent by blast

definition one_entry_policy :: iec_policy where
  "one_entry_policy = \<lparr>goose_publishers = [], mms_ieds =
     [\<lparr>ied_ip = Some ''10.0.0.9'', ied_clients = [''10.0.0.1'']\<rparr>], iec_thresholds = []\<rparr>"

definition mms_write_obs :: mms_observation where
  "mms_write_obs = \<lparr>mms_src_ip = ''10.0.0.1'', mms_dst_ip = ''10.0.0.9'', mms_src_port = 40000,
     mms_dst_port = 102, pdu_type = ''write'', payload_len = 20\<rparr>"

theorem mms_allowed_vs_known_witness:
  "snd (evaluate_mms (clock_at 0) mms_write_obs (iec_init [] [] one_entry_policy {})) = [] \<and>
   is_known_mms_pair (iec_init [] [] one_entry_policy {}) ''10.0.0.1'' ''10.0.0.9''"
  using mms_allowed_vs_known [of "iec_init [] [] one_entry_policy {}" mms_write_obs "clock_at 0"]
  by (simp add: is_allowed_mms_client_def iec_init_def one_entry_policy_def mms_client_def mms_ied_def mms_write_obs_def)

definition two_entry_policy :: iec_policy where
  "two_entry_policy = \<lparr>goose_publishers = [], mms_ieds =
     [\<lparr>ied_ip = Some ''10.0.0.9'', ied_clients = [''10.0.0.1'']\<rparr>,
      \<lparr>ied_ip = Some ''10.0.0.9'', ied_clients = [''10.0.0.2'']\<rparr>], iec_thresholds = []\<rparr>"

lemma second_entry_disagrees:
  "is_known_mms_pair (iec_init [] [] two_entry_policy {}) ''10.0.0.2'' ''10.0.0.9'' \<and>
   \<not> is_allowed_mms_client (iec_init [] [] two_entry_policy {}) ''10.0.0.2'' ''10.0.0.9''"
  by (simp add: is_known_mms_pair_def is_allowed_mms_client_def iec_init_def two_entry_policy_def)

end
