(* ===== verification/Ipaddr.thy ===== *)
theory Ipaddr
  imports PyValue
begin

text \<open>
  What the sources use of Python's \<open>ipaddress\<close>: reading an address or a network from text
  (version 4 in dotted decimal, version 6 with \<open>::\<close>, an embedded version 4 address and a
  scope id), with the module's checks, and \<open>address in network\<close>. A text the module
  rejects with ValueError is None.
\<close>

datatype ip_address = IPv4 nat | IPv6 nat

record ip_network =
  net_version :: nat
  net_base :: nat
  net_prefix :: nat

definition version_bits :: "nat \<Rightarrow> nat" where
  "version_bits v = (if v = 4 then 32 else 128)"

section \<open>Version 4\<close>

definition parse_octet :: "string \<Rightarrow> nat option" where
  "parse_octet s =
     (if s = [] \<or> \<not> list_all is_digit s \<or> 3 < length s then None
      else if s \<noteq> ''0'' \<and> hd s = CHR ''0'' then None
      else if 255 < dec_val s then None else Some (dec_val s))"

fun octets_value :: "string list \<Rightarrow> nat \<Rightarrow> nat option" where
  "octets_value [] acc = Some acc"
| "octets_value (s # ss) acc = (case parse_octet s of None \<Rightarrow> None | Some v \<Rightarrow> octets_value ss (256 * acc + v))"

definition parse_ipv4 :: "string \<Rightarrow> nat option" where
  "parse_ipv4 s = (let parts = split_on (CHR ''.'') s in
     if length parts = 4 then octets_value parts 0 else None)"

section \<open>Version 6\<close>

definition hex_value :: "char \<Rightarrow> nat option" where
  "hex_value c = (let n = chr_code c in
     if 48 \<le> n \<and> n \<le> 57 then Some (n - 48)
     else if 97 \<le> n \<and> n \<le> 102 then Some (n - 87)
     else if 65 \<le> n \<and> n \<le> 70 then Some (n - 55) else None)"

fun hextet_value :: "string \<Rightarrow> nat \<Rightarrow> nat option" where
  "hextet_value [] acc = Some acc"
| "hextet_value (c # cs) acc = (case hex_value c of None \<Rightarrow> None | Some v \<Rightarrow> hextet_value cs (16 * acc + v))"

definition parse_hextet :: "string \<Rightarrow> nat option" where
  "parse_hextet s = (if 4 < length s then None else hextet_value s 0)"

fun hextets_value :: "string list \<Rightarrow> nat \<Rightarrow> nat option" where
  "hextets_value [] acc = Some acc"
| "hextets_value (s # ss) acc = (case parse_hextet s of None \<Rightarrow> None | Some v \<Rightarrow> hextets_value ss (65536 * acc + v))"

text \<open>The last part may be a dotted address: it stands for two groups.\<close>

definition hex16 :: "nat \<Rightarrow> string" where
  "hex16 n = map hex_digit [n div 4096 mod 16, n div 256 mod 16, n div 16 mod 16, n mod 16]"

definition expand_dotted :: "string list \<Rightarrow> string list option" where
  "expand_dotted parts =
     (if CHR ''.'' \<in> set (last parts) then
        (case parse_ipv4 (last parts) of None \<Rightarrow> None
         | Some v \<Rightarrow> Some (butlast parts @ [hex16 (v div 65536), hex16 (v mod 65536)]))
      else Some parts)"

definition inner_blanks :: "string list \<Rightarrow> nat list" where
  "inner_blanks parts = filter (\<lambda>i. parts ! i = []) [1..<length parts - 1]"

definition groups_value :: "string list \<Rightarrow> nat option" where
  "groups_value parts =
     (if 9 < length parts then None
      else (case inner_blanks parts of
        [] \<Rightarrow> if length parts \<noteq> 8 \<or> hd parts = [] \<or> last parts = [] then None
              else hextets_value parts 0
      | [skip] \<Rightarrow>
          let hi = (if hd parts = [] then skip - 1 else skip);
              lo = (if last parts = [] then length parts - skip - 2 else length parts - skip - 1)
          in if (hd parts = [] \<and> hi \<noteq> 0) \<or> (last parts = [] \<and> lo \<noteq> 0) \<or> 8 < hi + lo + 1 then None
             else hextets_value (take hi parts @ replicate (8 - (hi + lo)) ''0'' @
                                 drop (length parts - lo) parts) 0
      | _ \<Rightarrow> None))"

definition drop_scope :: "string \<Rightarrow> string option" where
  "drop_scope s = (case split_on (CHR ''%'') s of
       [a] \<Rightarrow> Some a
     | [a, scope] \<Rightarrow> if scope = [] then None else Some a
     | _ \<Rightarrow> None)"

definition parse_ipv6 :: "string \<Rightarrow> nat option" where
  "parse_ipv6 s0 =
     (if CHR ''/'' \<in> set s0 then None
      else (case drop_scope s0 of None \<Rightarrow> None
       | Some s \<Rightarrow> let parts = split_on (CHR '':'') s in
           if length parts < 3 then None
           else (case expand_dotted parts of None \<Rightarrow> None | Some ps \<Rightarrow> groups_value ps)))"

definition parse_ip_address :: "string \<Rightarrow> ip_address option" where
  "parse_ip_address s = (case parse_ipv4 s of Some v \<Rightarrow> Some (IPv4 v)
     | None \<Rightarrow> (case parse_ipv6 s of Some v \<Rightarrow> Some (IPv6 v) | None \<Rightarrow> None))"

section \<open>Networks\<close>

definition parse_prefix :: "nat \<Rightarrow> string \<Rightarrow> nat option" where
  "parse_prefix bits s =
     (if s = [] \<or> \<not> list_all is_digit s then None
      else if bits < dec_val s then None else Some (dec_val s))"

text \<open>A netmask \<open>2^32 - 2^k\<close> has the prefix \<open>32 - k\<close>; a host mask is its complement.\<close>

definition mask_prefix :: "nat \<Rightarrow> nat option" where
  "mask_prefix m = map_option (\<lambda>k. 32 - k) (find (\<lambda>k. m = 2 ^ 32 - 2 ^ k) [0..<33])"

definition parse_netmask :: "string \<Rightarrow> nat option" where
  "parse_netmask s = (case parse_ipv4 s of None \<Rightarrow> None
     | Some m \<Rightarrow> (case mask_prefix m of Some p \<Rightarrow> Some p
         | None \<Rightarrow> mask_prefix (2 ^ 32 - 1 - m)))"

definition mask_base :: "nat \<Rightarrow> nat \<Rightarrow> nat \<Rightarrow> nat" where
  "mask_base bits prefix v = v - v mod 2 ^ (bits - prefix)"

definition mk_network :: "nat \<Rightarrow> nat option \<Rightarrow> nat option \<Rightarrow> ip_network option" where
  "mk_network version addr prefix = (case (addr, prefix) of
       (Some v, Some p) \<Rightarrow> Some \<lparr>net_version = version, net_base = mask_base (version_bits version) p v,
                             net_prefix = p\<rparr>
     | _ \<Rightarrow> None)"

definition parse_network_v4 :: "string \<Rightarrow> ip_network option" where
  "parse_network_v4 s = (case split_on (CHR ''/'') s of
       [a] \<Rightarrow> mk_network 4 (parse_ipv4 a) (Some 32)
     | [a, m] \<Rightarrow> mk_network 4 (parse_ipv4 a)
                  (case parse_prefix 32 m of Some p \<Rightarrow> Some p | None \<Rightarrow> parse_netmask m)
     | _ \<Rightarrow> None)"

definition parse_network_v6 :: "string \<Rightarrow> ip_network option" where
  "parse_network_v6 s = (case split_on (CHR ''/'') s of
       [a] \<Rightarrow> mk_network 6 (parse_ipv6 a) (Some 128)
     | [a, m] \<Rightarrow> mk_network 6 (parse_ipv6 a) (parse_prefix 128 m)
     | _ \<Rightarrow> None)"

text \<open>\<open>ip_network(s, strict=False)\<close> and \<open>addr in net\<close>.\<close>

definition parse_ip_network :: "string \<Rightarrow> ip_network option" where
  "parse_ip_network s = (case parse_network_v4 s of Some n \<Rightarrow> Some n | None \<Rightarrow> parse_network_v6 s)"

fun address_in :: "ip_address \<Rightarrow> ip_network \<Rightarrow> bool" where
  "address_in (IPv4 v) n = (net_version n = 4 \<and> mask_base 32 (net_prefix n) v = net_base n)"
| "address_in (IPv6 v) n = (net_version n = 6 \<and> mask_base 128 (net_prefix n) v = net_base n)"

section \<open>Lemmas\<close>

lemma mask_base_div: "mask_base bits p v = v div 2 ^ (bits - p) * 2 ^ (bits - p)"
  by (simp add: mask_base_def minus_mod_eq_div_mult)

text \<open>Two addresses have the same base exactly when their leading bits agree.\<close>

lemma mask_base_eq: "mask_base bits p v = mask_base bits p w \<longleftrightarrow> v div 2 ^ (bits - p) = w div 2 ^ (bits - p)"
  by (simp add: mask_base_div)

lemma octets_value_bound:
  "octets_value ss acc = Some v \<Longrightarrow> v < 256 ^ length ss * Suc acc"
proof (induction ss arbitrary: acc)
  case (Cons s ss)
  then obtain o1 where o1: "parse_octet s = Some o1" "octets_value ss (256 * acc + o1) = Some v"
    by (auto split: option.splits)
  then have "o1 \<le> 255" by (auto simp: parse_octet_def split: if_splits)
  then have "Suc (256 * acc + o1) \<le> 256 * Suc acc" by simp
  then have "256 ^ length ss * Suc (256 * acc + o1) \<le> 256 ^ length ss * (256 * Suc acc)"
    by (rule mult_le_mono2)
  with Cons.IH [OF o1(2)] have "v < 256 ^ length ss * (256 * Suc acc)" by (rule less_le_trans)
  then show ?case by (simp del: mult_Suc_right mult_Suc)
qed simp

lemma parse_ipv4_bound: "parse_ipv4 s = Some v \<Longrightarrow> v < 2 ^ 32"
  using octets_value_bound [of "split_on (CHR ''.'') s" 0 v]
  by (simp add: parse_ipv4_def Let_def split: if_splits)

lemma parse_octet_dec: "n < 256 \<Longrightarrow> parse_octet (dec n) = Some n"
proof -
  assume n: "n < 256"
  have "list_all is_digit (dec n)" by (auto simp: list_all_iff dec_digits)
  moreover have "length (dec n) \<le> 3"
    using n by (simp add: dec.simps [of n] dec.simps [of "n div 10"] dec.simps [of "n div 10 div 10"])
  moreover have "dec n \<noteq> ''0'' \<longrightarrow> hd (dec n) \<noteq> CHR ''0''"
  proof
    assume z: "dec n \<noteq> ''0''"
    have d: "0 < d \<Longrightarrow> d < 10 \<Longrightarrow> digit_char d \<noteq> CHR ''0''" for d
      by (drule less10_cases) (auto simp: digit_char_def)
    have "n \<noteq> 0" using z by (intro notI) (simp add: dec.simps [of 0] digit_char_def)
    then show "hd (dec n) \<noteq> CHR ''0''"
      using n d by (simp add: dec.simps [of n] dec.simps [of "n div 10"] dec.simps [of "n div 10 div 10"])
  qed
  ultimately show ?thesis using n by (auto simp: parse_octet_def)
qed

definition show_ipv4 :: "nat \<Rightarrow> string" where
  "show_ipv4 v = join_with ''.'' [dec (v div 256 ^ 3), dec (v div 256 ^ 2 mod 256), dec (v div 256 mod 256),
     dec (v mod 256)]"

lemma split_on_append:
  "c \<notin> set w \<Longrightarrow> split_on c (w @ c # s) = w # split_on c s"
  by (induction w) auto

lemma split_on_none: "c \<notin> set w \<Longrightarrow> split_on c w = [w]"
  by (induction w) auto

lemma dot_not_digit: "CHR ''.'' \<notin> set (dec n)"
  using dec_digits [of "CHR ''.''" n] by (auto simp: is_digit_def chr_code_def)

lemma parse_show_ipv4: "v < 2 ^ 32 \<Longrightarrow> parse_ipv4 (show_ipv4 v) = Some v"
proof -
  assume v: "v < 2 ^ 32"
  have s: "split_on (CHR ''.'') (show_ipv4 v) = [dec (v div 256 ^ 3), dec (v div 256 ^ 2 mod 256),
      dec (v div 256 mod 256), dec (v mod 256)]"
    by (simp add: show_ipv4_def split_on_append split_on_none dot_not_digit)
  have a: "v div 256 ^ 3 < 256" using v by simp
  have c: "v div 256 ^ 3 = v div 256 div 256 div 256" "v div 256 ^ 2 = v div 256 div 256"
    by (simp_all add: div_mult2_eq [symmetric])
  have "octets_value (split_on (CHR ''.'') (show_ipv4 v)) 0 =
      Some (256 * (256 * (256 * (v div 256 ^ 3) + v div 256 ^ 2 mod 256) + v div 256 mod 256) + v mod 256)"
    using a by (simp add: s parse_octet_dec del: One_nat_def)
  also have "256 * (256 * (256 * (v div 256 ^ 3) + v div 256 ^ 2 mod 256) + v div 256 mod 256) + v mod 256 = v"
    unfolding c by (simp only: mult_div_mod_eq)
  finally show ?thesis by (simp add: parse_ipv4_def s)
qed

end
