(* ===== verification/Stores.thy ===== *)
theory Stores
  imports Ipaddr
begin

text \<open>
  The hot-reload stores of the packet sensor (\<open>policy/operational_mode_store.py\<close>,
  \<open>policy/baseline_profile_store.py\<close>, \<open>policy/detection_policy_store.py\<close>,
  \<open>policy/managed_listfile_enforcement.py\<close>, \<open>policy/loader.py\<close>). A reload reads the
  monotonic clock and the files, which are arguments; it is gated by an interval and by a
  stamp file. The contract they share is the locale \<open>reload_store\<close>, and each store provides it.
\<close>

section \<open>The reload contract\<close>

text \<open>
  \<open>reload force now f s\<close> reloads state \<open>s\<close> from the files \<open>f\<close>. Before the interval has passed
  nothing happens; with the stamp unchanged and something loaded the content stays; otherwise
  the content is what the files hold, unless they are unreadable for a store that then keeps
  what it had.
\<close>

locale reload_store =
  fixes reload :: "bool \<Rightarrow> pyfloat \<Rightarrow> 'f \<Rightarrow> 's \<Rightarrow> 's"
    and last_check :: "'s \<Rightarrow> pyfloat" and interval :: "'s \<Rightarrow> pyfloat"
    and stamp_of :: "'f \<Rightarrow> 'k" and stamp :: "'s \<Rightarrow> 'k" and has :: "'s \<Rightarrow> bool"
    and readable :: "'f \<Rightarrow> bool" and load :: "'f \<Rightarrow> 'a" and content :: "'s \<Rightarrow> 'a"
  assumes gated: "\<not> force \<Longrightarrow> now - last_check s < interval s \<Longrightarrow> has s \<Longrightarrow> reload force now f s = s"
    and interval_kept: "interval (reload force now f s) = interval s"
    and skipped: "\<not> force \<Longrightarrow> stamp_of f = stamp s \<Longrightarrow> has s \<Longrightarrow>
      content (reload force now f s) = content s \<and> stamp (reload force now f s) = stamp s"
    and loaded: "force \<or> (interval s \<le> now - last_check s \<and> (stamp_of f \<noteq> stamp s \<or> \<not> has s)) \<Longrightarrow>
      readable f \<Longrightarrow>
      content (reload force now f s) = load f \<and> stamp (reload force now f s) = stamp_of f"
    and unreadable_kept: "\<not> readable f \<Longrightarrow>
      content (reload force now f s) = content s \<and> stamp (reload force now f s) = stamp s"
    and not_yet: "\<not> force \<Longrightarrow> now - last_check s < interval s \<Longrightarrow> \<not> has s \<Longrightarrow>
      reload force now f s = s \<or>
      (readable f \<longrightarrow> content (reload force now f s) = load f \<and> stamp (reload force now f s) = stamp_of f)"
begin

lemma forced_current: "readable f \<Longrightarrow> content (reload True now f s) = load f"
  using loaded [of True s now f] by simp

lemma forced_idem:
  "readable f \<Longrightarrow> content (reload True now' f (reload True now f s)) = content (reload True now f s)"
  using forced_current by simp

text \<open>
  The writer's discipline: what the files hold is a function of the stamp. A store whose
  content agrees with its own stamp keeps doing so, and is current after every reload that
  the interval lets through.
\<close>

lemma agreement_kept:
  assumes "content s = art (stamp s)" and "load f = art (stamp_of f)"
  shows "content (reload force now f s) = art (stamp (reload force now f s))"
proof (cases "readable f")
  case False
  then show ?thesis using assms(1) unreadable_kept by metis
next
  case r: True
  show ?thesis
  proof (cases "force \<or> (interval s \<le> now - last_check s \<and> (stamp_of f \<noteq> stamp s \<or> \<not> has s))")
    case True
    then show ?thesis using loaded [OF True r] assms(2) by simp
  next
    case False
    then consider "now - last_check s < interval s" "has s" | "now - last_check s < interval s" "\<not> has s"
      | "stamp_of f = stamp s" "has s" by linarith
    then show ?thesis
    proof cases
      case 1
      then show ?thesis using False gated [of force now s f] assms(1) by simp
    next
      case 2
      then show ?thesis using False not_yet [of force now s f] r assms by auto
    next
      case 3
      then show ?thesis using False skipped [of force f s now] assms(1) by simp
    qed
  qed
qed

lemma agreement_run:
  assumes "content s = art (stamp s)" and "\<forall>(force, now, f)\<in>set rs. load f = art (stamp_of f)"
  shows "content (fold (\<lambda>(force, now, f). reload force now f) rs s) =
     art (stamp (fold (\<lambda>(force, now, f). reload force now f) rs s))"
  using assms
proof (induction rs arbitrary: s)
  case (Cons r rs)
  then show ?case using agreement_kept by (cases r) (auto split: prod.splits)
qed simp

lemma current_after_interval:
  assumes "content s = art (stamp s)" and "load f = art (stamp_of f)" and "readable f"
    and "interval s \<le> now - last_check s"
  shows "content (reload force now f s) = load f"
proof (cases "force \<or> stamp_of f \<noteq> stamp s \<or> \<not> has s")
  case True
  then show ?thesis using loaded [of force s now f] assms(3,4) by auto
next
  case False
  then show ?thesis using skipped [of force f s now] assms(1,2) by simp
qed

end

section \<open>Operational mode\<close>

definition VALID_MODES :: "string set" where
  "VALID_MODES = {''listen'', ''learning'', ''detect'', ''idle''}"

record mode_files =
  mf_mode :: jfile
  mf_stamp :: tfile

record mode_store =
  md_interval :: pyfloat
  md_default :: string
  md_last_check :: pyfloat
  md_last_stamp :: string
  md_artifact :: json

definition mode_reload :: "bool \<Rightarrow> pyfloat \<Rightarrow> mode_files \<Rightarrow> mode_store \<Rightarrow> bool \<times> mode_store" where
  "mode_reload force now f s =
     (if \<not> force \<and> now - md_last_check s < md_interval s then (False, s)
      else
        let s = s\<lparr>md_last_check := now\<rparr>; stamp = read_stamp (mf_stamp f) in
        if \<not> force \<and> stamp = md_last_stamp s \<and> truthy (md_artifact s) then (False, s)
        else
          let artifact = read_object (mf_mode f);
              changed = (stamp \<noteq> md_last_stamp s \<or> \<not> py_eq artifact (md_artifact s))
          in (changed, s\<lparr>md_last_stamp := stamp, md_artifact := artifact\<rparr>))"

definition mode_store_init :: "pyfloat \<Rightarrow> string \<Rightarrow> pyfloat \<Rightarrow> mode_files \<Rightarrow> mode_store" where
  "mode_store_init reload_check_sec default_mode now f =
     snd (mode_reload True now f \<lparr>md_interval = reload_check_sec,
        md_default = (if default_mode \<in> VALID_MODES then default_mode else ''listen''),
        md_last_check = 0, md_last_stamp = [], md_artifact = JObj []\<rparr>)"

definition mode_of :: "mode_store \<Rightarrow> string" where
  "mode_of s = (let raw = lower (strip (py_str (py_or (jget (md_artifact s) ''mode'') (JStr (md_default s)))))
     in if raw \<in> VALID_MODES then raw else md_default s)"

definition store_mode :: "pyfloat \<Rightarrow> mode_files \<Rightarrow> mode_store \<Rightarrow> mode_store \<times> string" where
  "store_mode now f s = (let s = snd (mode_reload False now f s) in (s, mode_of s))"

definition alerts_enabled :: "pyfloat \<Rightarrow> mode_files \<Rightarrow> mode_store \<Rightarrow> mode_store \<times> bool" where
  "alerts_enabled now f s = (let (s, m) = store_mode now f s in (s, m = ''detect''))"

definition baseline_accumulation_enabled :: "pyfloat \<Rightarrow> mode_files \<Rightarrow> mode_store \<Rightarrow> mode_store \<times> bool" where
  "baseline_accumulation_enabled now f s = (let (s, m) = store_mode now f s in (s, m = ''learning''))"

interpretation mode_rs: reload_store "\<lambda>force now f s. snd (mode_reload force now f s)" md_last_check
  md_interval "\<lambda>f. read_stamp (mf_stamp f)" md_last_stamp "\<lambda>s. truthy (md_artifact s)" "\<lambda>_. True"
  "\<lambda>f. read_object (mf_mode f)" md_artifact
  by unfold_locales (auto simp: mode_reload_def Let_def)

lemma mode_default_kept: "md_default (snd (mode_reload force now f s)) = md_default s"
  by (simp add: mode_reload_def Let_def)

lemma mode_of_valid: "md_default s \<in> VALID_MODES \<Longrightarrow> mode_of s \<in> VALID_MODES"
  by (simp add: mode_of_def Let_def)

lemma mode_store_init_default: "md_default (mode_store_init iv dm now f) \<in> VALID_MODES"
  by (simp add: mode_store_init_def mode_default_kept) (simp add: VALID_MODES_def)

section \<open>Baseline profile\<close>

definition obj_field :: "json \<Rightarrow> string \<Rightarrow> json" where
  "obj_field v k = obj_or_empty (jget v k)"

text \<open>The detector policy made of the \<open>observed\<close> block of a profile.\<close>

definition observed_to_detection_baseline :: "json \<Rightarrow> json res" where
  "observed_to_detection_baseline observed =
     (if \<not> is_obj observed \<or> \<not> truthy observed then Inr (JObj [])
      else
        let iec = obj_field observed ''iec61850''; thresholds = obj_field observed ''thresholds'';
            modbus = jget observed ''modbus_servers'' in
        bind_res (py_list (py_or (jget iec ''goose_publishers'') (JList []))) (\<lambda>pubs.
        bind_res (py_list (py_or (jget iec ''mms_ieds'') (JList []))) (\<lambda>ieds.
        bind_res (py_dict (py_or (jget iec ''thresholds'') (JObj []))) (\<lambda>iec_th.
          Inr (JObj ([(''policy_version'', JStr ''baseline-profile''),
                 (''iec61850'', JObj [(''goose_publishers'', JList pubs), (''mms_ieds'', JList ieds),
                    (''thresholds'', JObj iec_th)])]
               @ (if truthy thresholds then [(''thresholds'', thresholds)] else [])
               @ (if is_list modbus \<and> truthy modbus then [(''modbus_servers'', modbus)] else [])))))))"

record profile_files =
  pf_profile :: jfile
  pf_stamp :: tfile

record profile_store =
  ps_interval :: pyfloat
  ps_last_check :: pyfloat
  ps_last_stamp :: string
  ps_artifact :: json
  ps_baseline :: json
  ps_profile_id :: string
  ps_version :: string

text \<open>An exception leaves the assignments made before it in place.\<close>

definition profile_reload :: "bool \<Rightarrow> pyfloat \<Rightarrow> profile_files \<Rightarrow> profile_store \<Rightarrow> bool res \<times> profile_store" where
  "profile_reload force now f s =
     (if \<not> force \<and> now - ps_last_check s < ps_interval s then (Inr False, s)
      else
        let s = s\<lparr>ps_last_check := now\<rparr>; stamp = read_stamp (pf_stamp f) in
        if \<not> force \<and> stamp = ps_last_stamp s \<and> truthy (ps_artifact s) then (Inr False, s)
        else
          let artifact = read_object (pf_profile f);
              changed = (stamp \<noteq> ps_last_stamp s \<or> \<not> py_eq artifact (ps_artifact s));
              s = s\<lparr>ps_last_stamp := stamp, ps_artifact := artifact,
                    ps_profile_id := str_or_empty (jget artifact ''profile_id''),
                    ps_version := str_or_empty (jget artifact ''version'')\<rparr>
          in (case observed_to_detection_baseline (obj_field artifact ''observed'') of
                Inl e \<Rightarrow> (Inl e, s)
              | Inr b \<Rightarrow> (Inr changed, s\<lparr>ps_baseline := b\<rparr>)))"

definition profile_store_new :: "pyfloat \<Rightarrow> profile_store" where
  "profile_store_new reload_check_sec = \<lparr>ps_interval = reload_check_sec, ps_last_check = 0,
     ps_last_stamp = [], ps_artifact = JObj [], ps_baseline = JObj [], ps_profile_id = [], ps_version = []\<rparr>"

definition profile_baseline :: "pyfloat \<Rightarrow> profile_files \<Rightarrow> profile_store \<Rightarrow> json res \<times> profile_store" where
  "profile_baseline now f s = (case profile_reload False now f s of
       (Inl e, s) \<Rightarrow> (Inl e, s)
     | (Inr _, s) \<Rightarrow> (Inr (ps_baseline s), s))"

interpretation profile_rs: reload_store "\<lambda>force now f s. snd (profile_reload force now f s)" ps_last_check
  ps_interval "\<lambda>f. read_stamp (pf_stamp f)" ps_last_stamp "\<lambda>s. truthy (ps_artifact s)" "\<lambda>_. True"
  "\<lambda>f. read_object (pf_profile f)" ps_artifact
  by unfold_locales (auto simp: profile_reload_def Let_def split: sum.split)

section \<open>Detection policy\<close>

text \<open>\<open>load_policy\<close>: the built-in policy without a file; a file is parsed unguarded.\<close>

definition default_policy :: json where
  "default_policy = JObj [(''iec61850'', JObj [(''goose_publishers'', JList []), (''mms_ieds'', JList []),
     (''thresholds'', JObj [])])]"

fun load_policy :: "jfile \<Rightarrow> json res" where
  "load_policy Absent = Inr default_policy"
| "load_policy Unreadable = Inl OSError"
| "load_policy Malformed = Inl JSONDecodeError"
| "load_policy (Doc v) = Inr v"

record policy_files =
  df_policy :: jfile
  df_stamp :: tfile
  df_fallback :: jfile
  df_profile :: profile_files

record policy_store =
  dp_interval :: pyfloat
  dp_last_check :: pyfloat
  dp_last_stamp :: string
  dp_artifact :: json
  dp_rules :: "string set"
  dp_baseline :: json
  dp_version :: string
  dp_profile :: "profile_store option"

text \<open>\<open>baseline.setdefault("thresholds", {}).update(thresholds)\<close>\<close>

definition merge_thresholds :: "(string \<times> json) list \<Rightarrow> json \<Rightarrow> json res" where
  "merge_thresholds th baseline = (case baseline of
       JObj d \<Rightarrow> (case dict_get d ''thresholds'' of
            None \<Rightarrow> Inr (JObj (dict_put ''thresholds'' (JObj (dict_update [] th)) d))
          | Some (JObj old) \<Rightarrow> Inr (JObj (dict_put ''thresholds'' (JObj (dict_update old th)) d))
          | Some _ \<Rightarrow> Inl AttributeError)
     | _ \<Rightarrow> Inl AttributeError)"

definition rules_of :: "json \<Rightarrow> string set option" where
  "rules_of rules = (if is_list rules
     then Some (set (map (\<lambda>r. upper (strip (py_str r))) (filter (\<lambda>r. strip (py_str r) \<noteq> []) (list_items rules))))
     else None)"

datatype baseline_source = FromProfile | FromArtifact | FromFallback

text \<open>
  The profile store is reloaded, then asked for its baseline (which tries a reload again).
  The sources of the baseline, in order: the profile, the artifact's own, the packaged policy.
\<close>

definition ask_profile :: "bool \<Rightarrow> pyfloat \<Rightarrow> profile_files \<Rightarrow> profile_store option \<Rightarrow>
    json res \<times> profile_store option" where
  "ask_profile force now f ps = (case ps of None \<Rightarrow> (Inr (JObj []), None)
     | Some s \<Rightarrow> (case profile_reload force now f s of
           (Inl e, s) \<Rightarrow> (Inl e, Some s)
         | (Inr _, s) \<Rightarrow> (case profile_baseline now f s of (r, s) \<Rightarrow> (r, Some s))))"

definition choose_baseline :: "json \<Rightarrow> json \<Rightarrow> jfile \<Rightarrow> (baseline_source \<times> json) res" where
  "choose_baseline profile artifact fallback =
     (if truthy profile then Inr (FromProfile, profile)
      else let b = jget artifact ''baseline'' in
        if is_obj b \<and> truthy b then Inr (FromArtifact, b)
        else bind_res (load_policy fallback) (\<lambda>v. Inr (FromFallback, v)))"

text \<open>
  The update happens in place: the artifact's own baseline is the same object, and the copy
  of the profile's baseline is shallow, so a \<open>thresholds\<close> object it has is the profile's.
\<close>

definition share_update :: "baseline_source \<Rightarrow> json \<Rightarrow> policy_store \<Rightarrow> policy_store" where
  "share_update src merged s = (case src of
       FromProfile \<Rightarrow> s\<lparr>dp_profile := map_option (\<lambda>p.
            if jhas (ps_baseline p) ''thresholds''
            then p\<lparr>ps_baseline := JObj (dict_put ''thresholds'' (jget merged ''thresholds'') (obj_items (ps_baseline p)))\<rparr>
            else p) (dp_profile s)\<rparr>
     | FromArtifact \<Rightarrow> s\<lparr>dp_artifact := JObj (dict_put ''baseline'' merged (obj_items (dp_artifact s)))\<rparr>
     | FromFallback \<Rightarrow> s)"

definition apply_thresholds :: "baseline_source \<Rightarrow> json \<Rightarrow> policy_store \<Rightarrow> py_error option \<times> policy_store" where
  "apply_thresholds src thresholds s =
     (if is_obj thresholds \<and> truthy thresholds then
        (case merge_thresholds (obj_items thresholds) (dp_baseline s) of
           Inl e \<Rightarrow> (Some e, s)
         | Inr merged \<Rightarrow> (None, share_update src merged (s\<lparr>dp_baseline := merged\<rparr>)))
      else (None, s))"

definition install_baseline :: "json res \<Rightarrow> json \<Rightarrow> jfile \<Rightarrow> bool \<Rightarrow> policy_store \<Rightarrow> bool res \<times> policy_store" where
  "install_baseline asked artifact fallback changed s =
     (case bind_res asked (\<lambda>p. choose_baseline p artifact fallback) of
        Inl e \<Rightarrow> (Inl e, s)
      | Inr (src, b) \<Rightarrow>
          (case apply_thresholds src (jget artifact ''thresholds'') (s\<lparr>dp_baseline := b\<rparr>) of
             (Some e, s) \<Rightarrow> (Inl e, s)
           | (None, s) \<Rightarrow> (Inr changed, s)))"

definition policy_reload :: "bool \<Rightarrow> pyfloat \<Rightarrow> policy_files \<Rightarrow> policy_store \<Rightarrow> bool res \<times> policy_store" where
  "policy_reload force now f s =
     (if \<not> force \<and> now - dp_last_check s < dp_interval s then (Inr False, s)
      else
        let s = s\<lparr>dp_last_check := now\<rparr>; stamp = read_stamp (df_stamp f) in
        if \<not> force \<and> stamp = dp_last_stamp s \<and> truthy (dp_artifact s) then (Inr False, s)
        else
          let artifact = read_object (df_policy f);
              changed = (stamp \<noteq> dp_last_stamp s \<or> \<not> py_eq artifact (dp_artifact s));
              s = s\<lparr>dp_last_stamp := stamp, dp_artifact := artifact,
                    dp_version := str_or_empty (jget artifact ''version''),
                    dp_rules := (case rules_of (jget artifact ''rules_enabled'') of None \<Rightarrow> dp_rules s | Some r \<Rightarrow> r)\<rparr>;
              (asked, prof) = ask_profile force now (df_profile f) (dp_profile s);
              s = s\<lparr>dp_profile := prof\<rparr>
          in install_baseline asked artifact (df_fallback f) changed s)"

definition policy_store_init :: "pyfloat \<Rightarrow> bool \<Rightarrow> pyfloat \<Rightarrow> policy_files \<Rightarrow> bool res \<times> policy_store" where
  "policy_store_init reload_check_sec with_profile now f =
     (let ps0 = profile_store_new reload_check_sec;
          (r, ps) = (if with_profile
             then (case profile_reload True now (df_profile f) ps0 of (r, s) \<Rightarrow> (r, Some s)) else (Inr False, None));
          s = \<lparr>dp_interval = reload_check_sec, dp_last_check = 0, dp_last_stamp = [], dp_artifact = JObj [],
               dp_rules = {}, dp_baseline = JObj [], dp_version = [], dp_profile = ps\<rparr>
      in (case r of Inl e \<Rightarrow> (Inl e, s) | Inr _ \<Rightarrow> policy_reload True now f s))"

definition store_rules_enabled :: "pyfloat \<Rightarrow> policy_files \<Rightarrow> policy_store \<Rightarrow> string set res \<times> policy_store" where
  "store_rules_enabled now f s = (case policy_reload False now f s of
       (Inl e, s) \<Rightarrow> (Inl e, s) | (Inr _, s) \<Rightarrow> (Inr (dp_rules s), s))"

definition store_policy :: "pyfloat \<Rightarrow> policy_files \<Rightarrow> policy_store \<Rightarrow> json res \<times> policy_store" where
  "store_policy now f s = (case policy_reload False now f s of
       (Inl e, s) \<Rightarrow> (Inl e, s)
     | (Inr _, s) \<Rightarrow> (bind_res (py_dict (dp_baseline s)) (\<lambda>d. Inr (JObj d)), s))"

section \<open>Managed allow list\<close>

record allow_files =
  af_cache :: jfile
  af_mtime :: "pyfloat option"

record enforcer =
  en_interval :: pyfloat
  en_last_check :: pyfloat
  en_stamp_mtime :: pyfloat
  allow_ips :: "string set"
  allow_cidrs :: "ip_network list"
  allow_domains :: "string set"
  allow_hashes :: "string set"

definition enforcer_init :: "pyfloat \<Rightarrow> enforcer" where
  "enforcer_init reload_check_sec = \<lparr>en_interval = max reload_check_sec 0, en_last_check = 0,
     en_stamp_mtime = 0, allow_ips = {}, allow_cidrs = [], allow_domains = {}, allow_hashes = {}\<rparr>"

definition stripped :: "json list \<Rightarrow> string list" where
  "stripped vs = filter (\<lambda>v. v \<noteq> []) (map (\<lambda>v. strip (py_str v)) vs)"

definition stripped_lower :: "json list \<Rightarrow> string list" where
  "stripped_lower vs = filter (\<lambda>v. v \<noteq> []) (map (\<lambda>v. lower (strip (py_str v))) vs)"

definition allow_entries :: "json \<Rightarrow> string \<Rightarrow> json list res" where
  "allow_entries allow k = py_list (py_or (jget allow k) (JList []))"

text \<open>The four lists are loaded one after the other; an exception leaves the earlier ones.\<close>

definition load_allow :: "json \<Rightarrow> enforcer \<Rightarrow> py_error option \<times> enforcer" where
  "load_allow allow s = (case allow_entries allow ''ip'' of Inl e \<Rightarrow> (Some e, s)
   | Inr ips \<Rightarrow> let s = s\<lparr>allow_ips := set (stripped ips)\<rparr> in
  (case allow_entries allow ''cidr'' of Inl e \<Rightarrow> (Some e, s)
   | Inr cidrs \<Rightarrow> let s = s\<lparr>allow_cidrs := List.map_filter parse_ip_network (stripped cidrs)\<rparr> in
  (case allow_entries allow ''domain'' of Inl e \<Rightarrow> (Some e, s)
   | Inr doms \<Rightarrow> let s = s\<lparr>allow_domains := set (stripped_lower doms)\<rparr> in
  (case allow_entries allow ''hash'' of Inl e \<Rightarrow> (Some e, s)
   | Inr hashes \<Rightarrow> (None, s\<lparr>allow_hashes := set (stripped_lower hashes)\<rparr>)))))"

definition clear_allow :: "enforcer \<Rightarrow> enforcer" where
  "clear_allow s = s\<lparr>allow_ips := {}, allow_cidrs := [], allow_domains := {}, allow_hashes := {}\<rparr>"

definition enforcer_load :: "jfile \<Rightarrow> enforcer \<Rightarrow> py_error option \<times> enforcer" where
  "enforcer_load f s = (let s = clear_allow s in
     case f of Doc v \<Rightarrow> if is_obj v then load_allow (obj_field v ''allow'') s else (None, s)
     | _ \<Rightarrow> (None, s))"

definition enforcer_mtime :: "allow_files \<Rightarrow> pyfloat" where
  "enforcer_mtime f = (case af_mtime f of None \<Rightarrow> 0 | Some t \<Rightarrow> t)"

definition enforcer_reload :: "bool \<Rightarrow> pyfloat \<Rightarrow> allow_files \<Rightarrow> enforcer \<Rightarrow> bool res \<times> enforcer" where
  "enforcer_reload force now f s =
     (if \<not> force \<and> now - en_last_check s < en_interval s then (Inr False, s)
      else
        let s = s\<lparr>en_last_check := now\<rparr>; mtime = enforcer_mtime f in
        if \<not> force \<and> mtime = en_stamp_mtime s \<and> allow_ips s \<noteq> {} then (Inr False, s)
        else (case enforcer_load (af_cache f) (s\<lparr>en_stamp_mtime := mtime\<rparr>) of
                (Some e, s) \<Rightarrow> (Inl e, s)
              | (None, s) \<Rightarrow> (Inr True, s)))"

definition is_ip_whitelisted :: "enforcer \<Rightarrow> string \<Rightarrow> bool" where
  "is_ip_whitelisted s ip = (let value = strip ip in
     if value = [] then False
     else if value \<in> allow_ips s then True
     else (case parse_ip_address value of None \<Rightarrow> False
           | Some addr \<Rightarrow> list_ex (address_in addr) (allow_cidrs s)))"

definition is_domain_whitelisted :: "enforcer \<Rightarrow> string \<Rightarrow> bool" where
  "is_domain_whitelisted s domain = (let value = lower (strip domain) in value \<noteq> [] \<and> value \<in> allow_domains s)"

definition is_hash_whitelisted :: "enforcer \<Rightarrow> string \<Rightarrow> bool" where
  "is_hash_whitelisted s digest = (let value = lower (strip digest) in value \<noteq> [] \<and> value \<in> allow_hashes s)"

definition is_event_whitelisted :: "enforcer \<Rightarrow> json \<Rightarrow> bool" where
  "is_event_whitelisted s event =
     (let evidence = obj_field event ''evidence'';
          ioc_value = strip (str_or_empty (jget evidence ''ioc_value''));
          ioc_type = lower (str_or_empty (jget evidence ''ioc_type'')) in
      if is_ip_whitelisted s (str_or_empty (jget event ''src_ip'')) then True
      else if is_ip_whitelisted s (str_or_empty (jget event ''dst_ip'')) then True
      else if ioc_type \<in> {''ipv4'', ''ip'', []} \<and> ioc_value \<noteq> [] \<and> is_ip_whitelisted s ioc_value then True
      else if ioc_type = ''domain'' \<and> is_domain_whitelisted s ioc_value then True
      else ioc_type = ''hash'' \<and> is_hash_whitelisted s ioc_value)"

section \<open>Lemmas\<close>

lemma ask_profile_frame: "snd (ask_profile force now f ps) = None \<longleftrightarrow> ps = None"
  by (auto simp: ask_profile_def profile_baseline_def split: option.splits prod.splits sum.splits)

lemma apply_thresholds_frame:
  "dp_version (snd (apply_thresholds src th s)) = dp_version s"
  "dp_interval (snd (apply_thresholds src th s)) = dp_interval s"
  "dp_last_stamp (snd (apply_thresholds src th s)) = dp_last_stamp s"
  "dp_rules (snd (apply_thresholds src th s)) = dp_rules s"
  by (simp_all add: apply_thresholds_def share_update_def split: sum.split baseline_source.split)

lemma policy_reload_gated:
  "\<not> force \<Longrightarrow> now - dp_last_check s < dp_interval s \<Longrightarrow> policy_reload force now f s = (Inr False, s)"
  by (simp add: policy_reload_def)

lemma policy_reload_skipped:
  "\<not> force \<Longrightarrow> dp_interval s \<le> now - dp_last_check s \<Longrightarrow> read_stamp (df_stamp f) = dp_last_stamp s \<Longrightarrow>
     truthy (dp_artifact s) \<Longrightarrow> policy_reload force now f s = (Inr False, s\<lparr>dp_last_check := now\<rparr>)"
  by (simp add: policy_reload_def Let_def)

lemma install_baseline_snd:
  "snd (install_baseline asked artifact fb ch s) = s \<or>
   (\<exists>src b. snd (install_baseline asked artifact fb ch s) =
      snd (apply_thresholds src (jget artifact ''thresholds'') (s\<lparr>dp_baseline := b\<rparr>)))"
proof (cases "bind_res asked (\<lambda>p. choose_baseline p artifact fb)")
  case (Inr q)
  obtain src b where q: "q = (src, b)" by fastforce
  obtain r s' where a: "apply_thresholds src (jget artifact ''thresholds'') (s\<lparr>dp_baseline := b\<rparr>) = (r, s')"
    by fastforce
  have "snd (install_baseline asked artifact fb ch s) = s'"
    using Inr q a by (cases r) (simp_all add: install_baseline_def)
  then show ?thesis using a by (metis snd_conv)
qed (simp add: install_baseline_def)

lemma install_baseline_frame:
  "dp_version (snd (install_baseline asked artifact fb ch s)) = dp_version s"
  "dp_interval (snd (install_baseline asked artifact fb ch s)) = dp_interval s"
  "dp_last_stamp (snd (install_baseline asked artifact fb ch s)) = dp_last_stamp s"
  "dp_rules (snd (install_baseline asked artifact fb ch s)) = dp_rules s"
  using install_baseline_snd [of asked artifact fb ch s] by (auto simp: apply_thresholds_frame)

lemma policy_reload_loaded:
  assumes "force \<or> (dp_interval s \<le> now - dp_last_check s \<and>
      (read_stamp (df_stamp f) \<noteq> dp_last_stamp s \<or> \<not> truthy (dp_artifact s)))"
  defines "s' \<equiv> snd (policy_reload force now f s)"
  shows "dp_version s' = str_or_empty (jget (read_object (df_policy f)) ''version'')"
    and "dp_last_stamp s' = read_stamp (df_stamp f)" and "dp_interval s' = dp_interval s"
    and "dp_rules s' = (case rules_of (jget (read_object (df_policy f)) ''rules_enabled'') of
       None \<Rightarrow> dp_rules s | Some r \<Rightarrow> r)"
proof -
  obtain asked prof where a: "ask_profile force now (df_profile f) (dp_profile s) = (asked, prof)" by fastforce
  define s1 where "s1 = s\<lparr>dp_last_check := now, dp_last_stamp := read_stamp (df_stamp f),
     dp_artifact := read_object (df_policy f),
     dp_version := str_or_empty (jget (read_object (df_policy f)) ''version''),
     dp_rules := (case rules_of (jget (read_object (df_policy f)) ''rules_enabled'') of
        None \<Rightarrow> dp_rules s | Some r \<Rightarrow> r), dp_profile := prof\<rparr>"
  have n1: "\<not> (\<not> force \<and> now - dp_last_check s < dp_interval s)"
    and n2: "\<not> (\<not> force \<and> read_stamp (df_stamp f) = dp_last_stamp (s\<lparr>dp_last_check := now\<rparr>) \<and>
       truthy (dp_artifact (s\<lparr>dp_last_check := now\<rparr>)))"
    using assms(1) by auto
  have "\<exists>ch. policy_reload force now f s =
      install_baseline asked (read_object (df_policy f)) (df_fallback f) ch s1"
    unfolding policy_reload_def Let_def if_not_P [OF n1] if_not_P [OF n2]
    by (rule exI) (simp add: a s1_def cong: option.case_cong)
  then obtain ch where e: "policy_reload force now f s =
      install_baseline asked (read_object (df_policy f)) (df_fallback f) ch s1" ..
  show "dp_version s' = str_or_empty (jget (read_object (df_policy f)) ''version'')"
    "dp_last_stamp s' = read_stamp (df_stamp f)" "dp_interval s' = dp_interval s"
    "dp_rules s' = (case rules_of (jget (read_object (df_policy f)) ''rules_enabled'') of
       None \<Rightarrow> dp_rules s | Some r \<Rightarrow> r)"
    unfolding s'_def e install_baseline_frame by (simp_all add: s1_def)
qed

interpretation policy_rs: reload_store "\<lambda>force now f s. snd (policy_reload force now f s)" dp_last_check
  dp_interval "\<lambda>f. read_stamp (df_stamp f)" dp_last_stamp "\<lambda>s. truthy (dp_artifact s)" "\<lambda>_. True"
  "\<lambda>f. str_or_empty (jget (read_object (df_policy f)) ''version'')" dp_version
proof (unfold_locales, goal_cases)
  case (1 force now s f)
  then show ?case by (simp add: policy_reload_gated)
next
  case (2 force now f s)
  show ?case
    using policy_reload_loaded(3) [of force s now f] policy_reload_gated [of force now s f]
      policy_reload_skipped [of force s now f] by force
next
  case (3 force f s now)
  then show ?case
    using policy_reload_gated [of force now s f] policy_reload_skipped [of force s now f] by force
next
  case (4 force s now f)
  then show ?case using policy_reload_loaded [of force s now f] by simp
next
  case (6 force now s f)
  then show ?case by (simp add: policy_reload_gated)
qed simp

lemma enforcer_load_frame:
  "en_interval (snd (enforcer_load f s)) = en_interval s"
  "en_last_check (snd (enforcer_load f s)) = en_last_check s"
  "en_stamp_mtime (snd (enforcer_load f s)) = en_stamp_mtime s"
  by (simp_all add: enforcer_load_def load_allow_def clear_allow_def Let_def split: jfile.split sum.split)

text \<open>The lists loaded depend on the file only.\<close>

definition allow_lists :: "enforcer \<Rightarrow> string set \<times> ip_network list \<times> string set \<times> string set" where
  "allow_lists s = (allow_ips s, allow_cidrs s, allow_domains s, allow_hashes s)"

definition allow_content :: "jfile \<Rightarrow> string set \<times> ip_network list \<times> string set \<times> string set" where
  "allow_content f = allow_lists (snd (enforcer_load f (enforcer_init 0)))"

lemma enforcer_load_content: "allow_lists (snd (enforcer_load f s)) = allow_content f"
  by (simp add: allow_content_def allow_lists_def enforcer_load_def load_allow_def clear_allow_def Let_def
      split: jfile.split sum.split)

lemma enforcer_reload_snd:
  "snd (enforcer_reload force now f s) =
     (if \<not> force \<and> now - en_last_check s < en_interval s then s
      else if \<not> force \<and> enforcer_mtime f = en_stamp_mtime s \<and> allow_ips s \<noteq> {} then s\<lparr>en_last_check := now\<rparr>
      else snd (enforcer_load (af_cache f) (s\<lparr>en_last_check := now, en_stamp_mtime := enforcer_mtime f\<rparr>)))"
  by (simp add: enforcer_reload_def Let_def split: prod.split option.split)

lemma allow_lists_check [simp]: "allow_lists (s\<lparr>en_last_check := n\<rparr>) = allow_lists s"
  by (simp add: allow_lists_def)

interpretation enforcer_rs: reload_store "\<lambda>force now f s. snd (enforcer_reload force now f s)" en_last_check
  en_interval enforcer_mtime en_stamp_mtime "\<lambda>s. allow_ips s \<noteq> {}" "\<lambda>_. True"
  "\<lambda>f. allow_content (af_cache f)" allow_lists
  by unfold_locales (auto simp: enforcer_reload_snd enforcer_load_frame enforcer_load_content)

subsection \<open>Addresses and networks as text\<close>

lemma split_prefix_text:
  "split_on (CHR ''/'') (show_ipv4 w @ ''/'' @ dec p) = [show_ipv4 w, dec p]"
proof -
  have d: "CHR ''/'' \<notin> set (dec n)" for n
    using dec_digits [of "CHR ''/''" n] by (auto simp: is_digit_def chr_code_def)
  have "CHR ''/'' \<notin> set (show_ipv4 w)" by (simp add: show_ipv4_def d)
  then show ?thesis using split_on_append [of "CHR ''/''" "show_ipv4 w" "dec p"] d
    by (simp add: split_on_none)
qed

lemma parse_network_text:
  assumes "w < 2 ^ 32" and "p \<le> 32"
  shows "parse_ip_network (show_ipv4 w @ ''/'' @ dec p) =
     Some \<lparr>net_version = 4, net_base = mask_base 32 p w, net_prefix = p\<rparr>"
proof -
  have "parse_prefix 32 (dec p) = Some p"
    using assms(2) by (auto simp: parse_prefix_def list_all_iff dec_digits)
  then show ?thesis
    using assms(1) by (simp add: parse_ip_network_def parse_network_v4_def split_prefix_text parse_show_ipv4
        mk_network_def version_bits_def del: append.simps)
qed

lemma dec_ends:
  "\<not> is_space (hd (dec n @ s))" "\<not> is_space (last (s @ dec n))"
  using dec_digits [of "hd (dec n)" n] dec_digits [of "last (dec n)" n] by (simp_all add: is_digit_not_space)

lemma strip_show_ipv4 [simp]: "strip (show_ipv4 v) = show_ipv4 v"
  using dec_ends(1) [of "v div 256 ^ 3"] dec_ends(2) [of _ "v mod 256"]
  by (intro strip_id) (simp_all add: show_ipv4_def)

lemma strip_prefix_text: "strip (show_ipv4 w @ ''/'' @ dec p) = show_ipv4 w @ ''/'' @ dec p"
  using dec_ends(1) [of "w div 256 ^ 3"] dec_ends(2) [of "show_ipv4 w @ ''/''" p]
  by (intro strip_id) (simp_all add: show_ipv4_def)

lemma show_ipv4_nonempty [simp]: "show_ipv4 v \<noteq> []"
  by (simp add: show_ipv4_def)

lemma whitelisted_iff:
  "v < 2 ^ 32 \<Longrightarrow> is_ip_whitelisted s (show_ipv4 v) \<longleftrightarrow> show_ipv4 v \<in> allow_ips s \<or>
     (\<exists>n\<in>set (allow_cidrs s). net_version n = 4 \<and> mask_base 32 (net_prefix n) v = net_base n)"
  by (auto simp: is_ip_whitelisted_def parse_ip_address_def parse_show_ipv4 list_ex_iff)

subsection \<open>Profiles that are not reloaded\<close>

lemma profile_quiet:
  assumes "read_stamp (pf_stamp f) = ps_last_stamp p" and "truthy (ps_artifact p)"
  obtains p' where "ask_profile False now f (Some p) = (Inr (ps_baseline p), Some p')"
    and "ps_baseline p' = ps_baseline p" and "ps_artifact p' = ps_artifact p"
    and "ps_last_stamp p' = ps_last_stamp p"
proof -
  have q: "\<exists>q'. profile_reload False now f q = (Inr False, q') \<and> ps_baseline q' = ps_baseline q \<and>
      ps_artifact q' = ps_artifact q \<and> ps_last_stamp q' = ps_last_stamp q"
    if "read_stamp (pf_stamp f) = ps_last_stamp q" "truthy (ps_artifact q)" for q
    using that by (simp add: profile_reload_def Let_def)
  obtain p1 where p1: "profile_reload False now f p = (Inr False, p1)" "ps_baseline p1 = ps_baseline p"
    "ps_artifact p1 = ps_artifact p" "ps_last_stamp p1 = ps_last_stamp p"
    using q [OF assms] by blast
  obtain p2 where p2: "profile_reload False now f p1 = (Inr False, p2)" "ps_baseline p2 = ps_baseline p"
    "ps_artifact p2 = ps_artifact p" "ps_last_stamp p2 = ps_last_stamp p"
    using q [of p1] assms p1 by metis
  have "ask_profile False now f (Some p) = (Inr (ps_baseline p), Some p2)"
    by (simp add: ask_profile_def p1(1) profile_baseline_def p2)
  then show thesis using that p2 by blast
qed

section \<open>Properties\<close>

lemma modes_clean: "m \<in> VALID_MODES \<Longrightarrow> lower (strip m) = m"
  by (auto simp: VALID_MODES_def strip_def lstrip_def rstrip_def is_space_def lower_def lower_char_def chr_code_def Let_def)

lemma mode_of_spelled:
  assumes "md_default s \<in> VALID_MODES"
  shows "mode_of s = (let written = jget (md_artifact s) ''mode''; m = lower (strip (py_str written)) in
      if truthy written \<and> m \<in> VALID_MODES then m else md_default s)"
  using assms modes_clean [OF assms] by (simp add: mode_of_def py_or_def Let_def)



text \<open>
  C29. The detection policy does not see a new baseline profile while the policy file's own
  stamp stands: once an artifact is loaded and its stamp unchanged, a query answers the old
  baseline and does not touch the profile store, whatever the profile files hold.
\<close>

theorem policy_ignores_profile_push:
  assumes "dp_interval s \<le> now - dp_last_check s" and "read_stamp (df_stamp f) = dp_last_stamp s"
    and "truthy (dp_artifact s)" and "dp_baseline s = JObj d"
  shows "store_policy now (f\<lparr>df_profile := pf\<rparr>) s = (Inr (JObj d), s\<lparr>dp_last_check := now\<rparr>)"
  using assms by (simp add: store_policy_def policy_reload_skipped)

theorem policy_ignores_profile_push_witness:
  "\<exists>s. snd (policy_store_init 5 True 1
      \<lparr>df_policy = Doc (JObj [(''version'', JStr ''v1''), (''baseline'', JObj [(''policy_version'', JStr ''b1'')])]),
       df_stamp = NoFile, df_fallback = Absent,
       df_profile = \<lparr>pf_profile = Absent, pf_stamp = NoFile\<rparr>\<rparr>) = s \<and>
     fst (store_policy 10 \<lparr>df_policy = Absent, df_stamp = NoFile, df_fallback = Absent,
       df_profile = \<lparr>pf_profile = Doc (JObj [(''observed'', JObj [(''modbus_servers'', JList [JNull])])]),
                     pf_stamp = NoFile\<rparr>\<rparr> s)
     = Inr (JObj [(''policy_version'', JStr ''b1'')])"
proof -
  define f where "f = \<lparr>df_policy = Doc (JObj [(''version'', JStr ''v1''), (''baseline'', JObj [(''policy_version'', JStr ''b1'')])]),
       df_stamp = NoFile, df_fallback = Absent, df_profile = \<lparr>pf_profile = Absent, pf_stamp = NoFile\<rparr>\<rparr>"
  define s where "s = snd (policy_store_init 5 True 1 f)"
  have s: "dp_interval s = 5" "dp_last_check s = 1" "dp_last_stamp s = []" "truthy (dp_artifact s)"
    "dp_baseline s = JObj [(''policy_version'', JStr ''b1'')]"
    by (simp_all add: s_def f_def policy_store_init_def policy_reload_def install_baseline_def apply_thresholds_def
        profile_reload_def profile_store_new_def ask_profile_def profile_baseline_def obj_field_def obj_or_empty_def
        observed_to_detection_baseline_def choose_baseline_def rules_of_def Let_def)
  have "store_policy 10 (\<lparr>df_policy = Absent, df_stamp = NoFile, df_fallback = Absent,
       df_profile = \<lparr>pf_profile = Absent, pf_stamp = NoFile\<rparr>\<rparr>
       \<lparr>df_profile := \<lparr>pf_profile = Doc (JObj [(''observed'', JObj [(''modbus_servers'', JList [JNull])])]), pf_stamp = NoFile\<rparr>\<rparr>) s
     = (Inr (JObj [(''policy_version'', JStr ''b1'')]), s\<lparr>dp_last_check := 10\<rparr>)"
    by (rule policy_ignores_profile_push) (simp_all add: s)
  then show ?thesis by (simp add: s_def f_def)
qed

text \<open>
  C31. A pushed CIDR works as the network it names: after loading an allow list whose only
  entry is a version 4 address with a prefix length, an address is whitelisted exactly when its
  leading bits, as many as the prefix says, are those of the entry.
\<close>

theorem cidr_whitelist_iff:
  assumes "w < 2 ^ 32" and "p \<le> 32" and "v < 2 ^ 32"
  shows "is_ip_whitelisted (snd (enforcer_load
       (Doc (JObj [(''allow'', JObj [(''cidr'', JList [JStr (show_ipv4 w @ ''/'' @ dec p)])])])) s)) (show_ipv4 v)
     \<longleftrightarrow> v div 2 ^ (32 - p) = w div 2 ^ (32 - p)"
  using assms
  by (simp add: whitelisted_iff enforcer_load_def load_allow_def allow_entries_def obj_field_def obj_or_empty_def
      py_or_def stripped_def strip_prefix_text List.map_filter_simps parse_network_text clear_allow_def mask_base_eq
      del: append.simps append_Cons)

theorem cidr_whitelist_iff_witness:
  "is_ip_whitelisted (snd (enforcer_load
       (Doc (JObj [(''allow'', JObj [(''cidr'', JList [JStr (show_ipv4 167772160 @ ''/'' @ dec 8)])])])) (enforcer_init 5)))
     (show_ipv4 167837953)"
  by (subst cidr_whitelist_iff) simp_all

text \<open>
  C30. A threshold withdrawn from the policy stays in force: when the baseline comes from a
  profile that has thresholds of its own, a policy push with thresholds writes into the profile
  store's copy, so a later push without any still yields the old value for every key, as long
  as the profile itself is not reloaded.
\<close>

theorem withdrawn_threshold_stays:
  assumes prof: "dp_profile s = Some p" "ps_baseline p = JObj d" "dict_get d ''thresholds'' = Some (JObj old)"
      "truthy (ps_artifact p)" "read_stamp (pf_stamp (df_profile f1)) = ps_last_stamp p"
      "df_profile f2 = df_profile f1"
    and first: "dp_interval s \<le> t1 - dp_last_check s" "read_stamp (df_stamp f1) \<noteq> dp_last_stamp s"
      "jget (read_object (df_policy f1)) ''thresholds'' = JObj th" "map_of (rev th) k = Some v"
    and second: "dp_interval s \<le> t2 - t1" "read_stamp (df_stamp f2) \<noteq> read_stamp (df_stamp f1)"
      "jget (read_object (df_policy f2)) ''thresholds'' = JNull"
  shows "jget (jget (dp_baseline (snd (policy_reload False t2 f2 (snd (policy_reload False t1 f1 s))))) ''thresholds'') k = v"
proof -
  define merged where "merged = JObj (dict_put ''thresholds'' (JObj (dict_update old th)) d)"
  have th: "th \<noteq> []" using first(4) by auto
  have d: "truthy (ps_baseline p)" "d \<noteq> []" using prof(2,3) by auto
  obtain p1 where p1: "ask_profile False t1 (df_profile f1) (Some p) = (Inr (ps_baseline p), Some p1)"
    "ps_baseline p1 = ps_baseline p" "ps_artifact p1 = ps_artifact p" "ps_last_stamp p1 = ps_last_stamp p"
    using profile_quiet [OF prof(5,4)] by metis
  define p1' where "p1' = p1\<lparr>ps_baseline := merged\<rparr>"
  define s1 where "s1 = snd (policy_reload False t1 f1 s)"
  have "jhas (JObj d) ''thresholds''" using prof(3) by (simp add: jhas_def)
  then have s1: "dp_profile s1 = Some p1'" "dp_interval s1 = dp_interval s" "dp_last_check s1 = t1"
    "dp_last_stamp s1 = read_stamp (df_stamp f1)"
    using first th prof(1-3) p1 d
    by (simp_all add: s1_def policy_reload_def Let_def install_baseline_def choose_baseline_def apply_thresholds_def
        merge_thresholds_def share_update_def merged_def p1'_def jget_def)
  have q: "truthy (ps_artifact p1')" "read_stamp (pf_stamp (df_profile f2)) = ps_last_stamp p1'"
    "ps_baseline p1' = merged" using prof p1 by (simp_all add: p1'_def)
  obtain p2 where p2: "ask_profile False t2 (df_profile f2) (Some p1') = (Inr merged, Some p2)"
    using profile_quiet [OF q(2,1)] q(3) by metis
  have "truthy merged" by (simp add: merged_def) (metis d(2) dict_get_Nil dict_get_put option.distinct(1))
  then have "dp_baseline (snd (policy_reload False t2 f2 s1)) = merged"
    using second s1 p2
    by (simp add: policy_reload_def Let_def install_baseline_def choose_baseline_def apply_thresholds_def)
  then show ?thesis
    using first(4) by (simp add: s1_def [symmetric] merged_def jget_def dict_get_update)
qed

text \<open>A policy push next to a profile with one threshold.\<close>

definition pushed_policy :: "string \<Rightarrow> json \<Rightarrow> policy_files" where
  "pushed_policy stamp art = \<lparr>df_policy = Doc art, df_stamp = Text stamp, df_fallback = Absent,
      df_profile = \<lparr>pf_profile = Doc (JObj [(''observed'', JObj [(''thresholds'', JObj [(''port_scan'', JInt 9)])])]),
      pf_stamp = Text ''p1''\<rparr>\<rparr>"

theorem withdrawn_threshold_stays_witness:
  "jget (jget (dp_baseline (snd (policy_reload False 20 (pushed_policy ''3'' (JObj [(''version'', JStr ''v3'')]))
     (snd (policy_reload False 10 (pushed_policy ''2'' (JObj [(''thresholds'', JObj [(''port_scan'', JInt 50)])]))
       (snd (policy_store_init 5 True 1 (pushed_policy ''1'' (JObj [(''version'', JStr ''v1'')]))))))))) ''thresholds'') ''port_scan''
     = JInt 50"
proof -
  define s where "s = snd (policy_store_init 5 True 1 (pushed_policy ''1'' (JObj [(''version'', JStr ''v1'')])))"
  obtain p where p: "dp_profile s = Some p" "ps_baseline p = JObj [(''policy_version'', JStr ''baseline-profile''),
      (''iec61850'', JObj [(''goose_publishers'', JList []), (''mms_ieds'', JList []), (''thresholds'', JObj [])]),
      (''thresholds'', JObj [(''port_scan'', JInt 9)])]" "truthy (ps_artifact p)" "ps_last_stamp p = ''p1''"
    and s: "dp_interval s = 5" "dp_last_check s = 1" "dp_last_stamp s = ''1''"
    by (simp add: s_def pushed_policy_def policy_store_init_def policy_reload_def install_baseline_def apply_thresholds_def
        profile_reload_def profile_store_new_def ask_profile_def profile_baseline_def obj_field_def obj_or_empty_def
        observed_to_detection_baseline_def choose_baseline_def rules_of_def Let_def strip_def lstrip_def rstrip_def
        is_space_def chr_code_def jhas_def py_or_def dict_update_def)
  show ?thesis
    unfolding s_def [symmetric]
    by (rule withdrawn_threshold_stays [OF p(1,2) _ p(3), where v = "JInt 50" and th = "[(''port_scan'', JInt 50)]"])
      (simp_all add: s p pushed_policy_def obj_or_empty_def strip_def lstrip_def rstrip_def is_space_def chr_code_def)
qed

end
