(* ===== verification/Topology.thy ===== *)
theory Topology
  imports PyValue
begin

text \<open>
  Protocol hints and the Purdue classifier of the packet sensor
  (\<open>topology/protocol_hints.py\<close>, \<open>topology/purdue_classifier.py\<close>): the table of assets built from
  the observed baseline, their conduits and the external peers. The hexadecimal SHA-256 digest
  is the argument \<open>digest\<close>.
\<close>

section \<open>Protocol hints\<close>

definition IT_SERVICE_PORTS :: "(nat, string) dict" where
  "IT_SERVICE_PORTS = [(445, ''smb''), (3389, ''rdp''), (389, ''ldap''), (636, ''ldap''), (88, ''kerberos''),
     (135, ''msrpc''), (139, ''netbios''), (53, ''dns'')]"

definition LDAP_SERVER_MIN_CLIENTS :: int where
  "LDAP_SERVER_MIN_CLIENTS = 2"

definition DNS_SERVER_MIN_CLIENTS :: int where
  "DNS_SERVER_MIN_CLIENTS = 1"

definition hint_for_port :: "nat \<Rightarrow> string option" where
  "hint_for_port port = dict_get IT_SERVICE_PORTS port"

fun merge_into :: "string list \<Rightarrow> string list \<Rightarrow> string list" where
  "merge_into out [] = out"
| "merge_into out (x # xs) = (let text = lower (strip x) in
     if text = [] \<or> text \<in> set out then merge_into out xs else merge_into (out @ [text]) xs)"

definition merge_hints :: "string list \<Rightarrow> string list \<Rightarrow> string list" where
  "merge_hints existing new_hints = merge_into [] (existing @ new_hints)"

lemma merge_into_distinct: "distinct out \<Longrightarrow> distinct (merge_into out xs)"
  by (induction out xs rule: merge_into.induct) (auto simp: Let_def)

lemma merge_into_set: "set (merge_into out xs) = set out \<union> {lower (strip x) |x. x \<in> set xs \<and> lower (strip x) \<noteq> []}"
  by (induction out xs rule: merge_into.induct) (auto simp: Let_def)

section \<open>Assets\<close>

record asset_row =
  ar_id :: string
  ar_tenant :: string
  ar_sensor :: string
  ar_ip :: string
  ar_type :: string
  ar_level :: "string option"
  ar_protocols :: "string list"
  ar_hints :: "string list"
  ar_os :: "string option"
  ar_confidence :: pyfloat
  ar_evidence :: "string list"

text \<open>The keyword arguments of \<open>_touch_asset\<close> with their defaults.\<close>

record touch_args =
  ta_type :: string
  ta_level :: "string option"
  ta_protocols :: "string list"
  ta_hints :: "string list"
  ta_os :: "string option"
  ta_confidence :: pyfloat
  ta_evidence :: "string list"

definition touch_default :: touch_args where
  "touch_default = \<lparr>ta_type = ''unknown'', ta_level = None, ta_protocols = [], ta_hints = [], ta_os = None,
     ta_confidence = 2 / 5, ta_evidence = []\<rparr>"

datatype conduit_dst = ToAsset string | ToExternal string

record conduit =
  cd_id :: string
  cd_src :: string
  cd_dst :: conduit_dst
  cd_src_level :: "string option"
  cd_dst_level :: "string option"
  cd_protocol :: string
  cd_baseline :: string
  cd_policy :: string

record external =
  ex_entity_id :: string
  ex_ip :: string
  ex_category :: string
  ex_seen_from :: "string list"

text \<open>\<open>external_entities\<close> lists the values of \<open>external_by_ip\<close>, the same objects in the same order.\<close>

record topology =
  tp_assets :: "(string, asset_row) dict"
  tp_conduits :: "conduit list"
  tp_external :: "(string, external) dict"

text \<open>The digest, the tenant and the sensor of one run.\<close>

record topo_env =
  te_digest :: "string \<Rightarrow> string"
  te_tenant :: string
  te_sensor :: string

definition asset_id :: "topo_env \<Rightarrow> string \<Rightarrow> string" where
  "asset_id env key = take 16 (te_digest env (te_tenant env @ ''|'' @ te_sensor env @ ''|'' @ key))"

definition conduit_id :: "topo_env \<Rightarrow> string \<Rightarrow> string \<Rightarrow> string \<Rightarrow> string" where
  "conduit_id env src dst protocol = take 16 (te_digest env (src @ ''|'' @ dst @ ''|'' @ protocol))"

definition external_entity_id :: "string \<Rightarrow> string" where
  "external_entity_id ip = ''ext:'' @ ip"

fun octets_of :: "string list \<Rightarrow> int list option" where
  "octets_of [] = Some []"
| "octets_of (p # ps) = (case parse_int p of Inl _ \<Rightarrow> None
     | Inr n \<Rightarrow> map_option (\<lambda>ns. n # ns) (octets_of ps))"

definition is_rfc1918 :: "string \<Rightarrow> bool" where
  "is_rfc1918 ip = (let parts = split_on (CHR ''.'') ip in
     if length parts \<noteq> 4 then False
     else (case octets_of parts of None \<Rightarrow> False
       | Some o4 \<Rightarrow> o4 ! 0 = 10 \<or> (o4 ! 0 = 172 \<and> 16 \<le> o4 ! 1 \<and> o4 ! 1 \<le> 31) \<or> (o4 ! 0 = 192 \<and> o4 ! 1 = 168)))"

fun add_tags :: "string list \<Rightarrow> string list \<Rightarrow> string list" where
  "add_tags ev [] = ev"
| "add_tags ev (t # ts) = add_tags (if t \<in> set ev then ev else ev @ [t]) ts"

definition new_row :: "topo_env \<Rightarrow> string \<Rightarrow> string \<Rightarrow> touch_args \<Rightarrow> asset_row" where
  "new_row env aid ip a = \<lparr>ar_id = aid, ar_tenant = te_tenant env, ar_sensor = te_sensor env, ar_ip = ip,
     ar_type = ta_type a, ar_level = ta_level a, ar_protocols = ta_protocols a, ar_hints = ta_hints a,
     ar_os = ta_os a, ar_confidence = ta_confidence a, ar_evidence = ta_evidence a\<rparr>"

definition update_row :: "touch_args \<Rightarrow> asset_row \<Rightarrow> asset_row" where
  "update_row a row =
     row\<lparr>ar_level := (if (case ta_level a of None \<Rightarrow> False | Some l \<Rightarrow> l \<noteq> []) \<and>
            (ar_level row \<in> {None, Some ''unknown''} \<or> ar_confidence row < ta_confidence a)
          then ta_level a else ar_level row),
        ar_type := (if ta_type a \<noteq> ''unknown'' then ta_type a else ar_type row),
        ar_protocols := merge_hints (ar_protocols row) (ta_protocols a),
        ar_hints := merge_hints (ar_hints row) (ta_hints a),
        ar_os := (case ta_os a of None \<Rightarrow> ar_os row | Some s \<Rightarrow> if s = [] then ar_os row else Some s),
        ar_confidence := max (ar_confidence row) (ta_confidence a),
        ar_evidence := add_tags (ar_evidence row) (ta_evidence a)\<rparr>"

definition touch_asset :: "topo_env \<Rightarrow> string \<Rightarrow> touch_args \<Rightarrow> topology \<Rightarrow> topology \<times> string" where
  "touch_asset env ip a t =
     (let aid = asset_id env (''ip:'' @ ip) in
      case dict_get (tp_assets t) aid of
        None \<Rightarrow> (t\<lparr>tp_assets := dict_put aid (new_row env aid ip a) (tp_assets t)\<rparr>, aid)
      | Some row \<Rightarrow> (t\<lparr>tp_assets := dict_put aid (update_row a row) (tp_assets t)\<rparr>, aid))"

definition add_conduit :: "topo_env \<Rightarrow> string \<Rightarrow> string \<Rightarrow> string \<Rightarrow> string option \<Rightarrow> string option \<Rightarrow> string \<Rightarrow>
    string \<Rightarrow> topology \<Rightarrow> topology" where
  "add_conduit env src dst protocol src_level dst_level baseline policy t =
     t\<lparr>tp_conduits := tp_conduits t @ [\<lparr>cd_id = conduit_id env src dst protocol, cd_src = src, cd_dst = ToAsset dst,
        cd_src_level = src_level, cd_dst_level = dst_level, cd_protocol = protocol, cd_baseline = baseline,
        cd_policy = policy\<rparr>]\<rparr>"

section \<open>The passes\<close>

text \<open>\<open>[str(h) for h in (v or []) if str(h).strip()]\<close>\<close>

definition texts_of :: "json \<Rightarrow> string list res" where
  "texts_of v = bind_res (py_list (py_or v (JList [])))
     (\<lambda>vs. Inr (filter (\<lambda>s. strip s \<noteq> []) (map py_str vs)))"

definition hints_for_ip :: "json \<Rightarrow> string \<Rightarrow> string list res" where
  "hints_for_ip port_hints ip =
     (if \<not> truthy port_hints \<or> \<not> jhas port_hints ip then Inr []
      else if \<not> is_obj (jget port_hints ip) then Inr []
      else texts_of (jget (jget port_hints ip) ''hints''))"

definition any_hint :: "string list \<Rightarrow> string list \<Rightarrow> bool" where
  "any_hint wanted hints = list_ex (\<lambda>h. h \<in> set hints) wanted"

definition modbus_client :: "topo_env \<Rightarrow> json \<Rightarrow> string \<Rightarrow> json \<Rightarrow> topology \<Rightarrow> topology res" where
  "modbus_client env port_hints plc_id client t =
     (let cip = strip (str_or_empty client) in
      if cip = [] then Inr t
      else bind_res (hints_for_ip port_hints cip) (\<lambda>hints.
        let win = any_hint [''smb'', ''rdp''] hints;
            (t, hmi_id) = touch_asset env cip (touch_default\<lparr>ta_type := ''hmi'', ta_level := Some ''L2'',
              ta_protocols := [''modbus-tcp''], ta_hints := hints,
              ta_os := (if win then Some ''windows'' else None),
              ta_confidence := (if win then 39 / 50 else 3 / 4),
              ta_evidence := [''modbus_role'', ''baseline_profile''] @ (if win then [''it_protocol_fingerprint''] else [])\<rparr>) t
        in Inr (add_conduit env hmi_id plc_id ''modbus-tcp'' (Some ''L2'') (Some ''L1'') ''known'' ''allowed'' t)))"

definition modbus_row :: "topo_env \<Rightarrow> json \<Rightarrow> json \<Rightarrow> topology \<Rightarrow> topology res" where
  "modbus_row env port_hints row t =
     (if \<not> is_obj row then Inr t
      else let ip = strip (str_or_empty (jget row ''server_ip'')) in
        if ip = [] then Inr t
        else let (t, plc_id) = touch_asset env ip (touch_default\<lparr>ta_type := ''plc'', ta_level := Some ''L1'',
                 ta_protocols := [''modbus-tcp''], ta_confidence := 17 / 20,
                 ta_evidence := [''modbus_role'', ''baseline_profile'']\<rparr>) t in
          bind_res (py_list (py_or (jget row ''allowed_clients'') (JList []))) (\<lambda>clients.
            fold_res (modbus_client env port_hints plc_id) clients t))"

definition mms_row :: "topo_env \<Rightarrow> json \<Rightarrow> topology \<Rightarrow> topology res" where
  "mms_row env row t =
     (if \<not> is_obj row then Inr t
      else let ip = strip (str_or_empty (jget row ''ied_ip'')) in
        if ip = [] then Inr t
        else Inr (fst (touch_asset env ip (touch_default\<lparr>ta_type := ''ied'', ta_level := Some ''L1'',
                 ta_protocols := [''iec61850-mms''], ta_confidence := 4 / 5,
                 ta_evidence := [''mms_role'', ''baseline_profile'']\<rparr>) t)))"

text \<open>The clients of an LDAP or DNS server, each an HMI with a conduit to it.\<close>

definition service_client :: "topo_env \<Rightarrow> json \<Rightarrow> string \<Rightarrow> string \<Rightarrow> string \<Rightarrow> topology \<Rightarrow> topology res" where
  "service_client env port_hints server_id protocol cip t =
     bind_res (hints_for_ip port_hints cip) (\<lambda>hints.
       let (t, client_id) = touch_asset env cip (touch_default\<lparr>ta_type := ''hmi'', ta_level := Some ''L2'',
              ta_hints := hints, ta_confidence := 7 / 10, ta_evidence := [''it_protocol_fingerprint'']\<rparr>) t
       in Inr (add_conduit env client_id server_id protocol (Some ''L2'') (Some ''L4'') ''known'' ''allowed'' t))"

definition service_server :: "topo_env \<Rightarrow> json \<Rightarrow> string \<Rightarrow> string \<Rightarrow> string \<Rightarrow> string list \<Rightarrow> string list \<Rightarrow>
    string list \<Rightarrow> topology \<Rightarrow> topology res" where
  "service_server env port_hints ip server_type protocol hints evidence client_ips t =
     (let (t, server_id) = touch_asset env ip (touch_default\<lparr>ta_type := server_type, ta_level := Some ''L4'',
            ta_protocols := [protocol], ta_hints := hints, ta_confidence := 3 / 4, ta_evidence := evidence\<rparr>) t
      in fold_res (service_client env port_hints server_id protocol) client_ips t)"

definition hint_entry :: "topo_env \<Rightarrow> json \<Rightarrow> string \<times> json \<Rightarrow> topology \<Rightarrow> topology res" where
  "hint_entry env port_hints = (\<lambda>(ip, meta) t.
     if \<not> is_obj meta then Inr t
     else bind_res (texts_of (jget meta ''hints'')) (\<lambda>hints.
       if hints = [] then Inr t
       else bind_res (py_int (py_or (jget meta ''ldap_clients'') (JInt 0))) (\<lambda>ldap_clients.
         bind_res (py_int (py_or (jget meta ''dns_clients'') (JInt 0))) (\<lambda>dns_clients.
         bind_res (texts_of (jget meta ''ldap_client_ips'')) (\<lambda>ldap_ips.
         bind_res (texts_of (jget meta ''dns_client_ips'')) (\<lambda>dns_ips.
           if LDAP_SERVER_MIN_CLIENTS \<le> ldap_clients \<or> (''ldap'' \<in> set hints \<and> truthy (jget meta ''ldap_server'')) then
             service_server env port_hints ip ''ad_server'' ''ldap'' hints
               [''it_protocol_fingerprint'', ''ldap_server_role''] ldap_ips t
           else if DNS_SERVER_MIN_CLIENTS \<le> dns_clients \<or> (''dns'' \<in> set hints \<and> truthy (jget meta ''dns_server'')) then
             service_server env port_hints ip ''dns_server'' ''dns'' hints [''it_protocol_fingerprint''] dns_ips t
           else if any_hint [''smb'', ''rdp'', ''msrpc'', ''netbios''] hints then
             Inr (fst (touch_asset env ip (touch_default\<lparr>ta_type := ''hmi'', ta_level := Some ''L2'', ta_hints := hints,
               ta_os := Some ''windows'', ta_confidence := 39 / 50, ta_evidence := [''it_protocol_fingerprint'']\<rparr>) t))
           else Inr t))))))"

definition external_of :: "string \<Rightarrow> topology \<Rightarrow> external" where
  "external_of dst t = (case dict_get (tp_external t) dst of Some e \<Rightarrow> e
     | None \<Rightarrow> \<lparr>ex_entity_id = external_entity_id dst, ex_ip = dst,
          ex_category = (if dst = ''8.8.8.8'' \<or> dst = ''1.1.1.1'' then ''dns'' else ''unknown''), ex_seen_from = []\<rparr>)"

definition level_text :: "string option \<Rightarrow> string \<Rightarrow> string" where
  "level_text l dflt = (case l of None \<Rightarrow> dflt | Some s \<Rightarrow> if s = [] then dflt else s)"

definition egress :: "topo_env \<Rightarrow> string \<Rightarrow> string \<Rightarrow> topology \<Rightarrow> topology" where
  "egress env src_id dst t =
     (let ext = external_of dst t;
          ext = ext\<lparr>ex_seen_from := add_tags (ex_seen_from ext) [src_id]\<rparr>
      in t\<lparr>tp_external := dict_put dst ext (tp_external t),
           tp_conduits := tp_conduits t @ [\<lparr>cd_id = conduit_id env src_id (ex_entity_id ext) ''egress'',
             cd_src = src_id, cd_dst = ToExternal (ex_entity_id ext),
             cd_src_level = Some (level_text (case dict_get (tp_assets t) src_id of None \<Rightarrow> None | Some r \<Rightarrow> ar_level r) ''L2''),
             cd_dst_level = Some ''EXTERNAL'', cd_protocol = ''unknown'', cd_baseline = ''unknown'',
             cd_policy = ''review''\<rparr>]\<rparr>)"

definition comm_pair :: "topo_env \<Rightarrow> json \<Rightarrow> topology \<Rightarrow> topology res" where
  "comm_pair env pair t =
     (if \<not> is_obj pair then Inr t
      else let src = strip (str_or_empty (jget pair ''src'')); dst = strip (str_or_empty (jget pair ''dst'')) in
        if src = [] \<or> dst = [] then Inr t
        else let seen = touch_default\<lparr>ta_evidence := [''baseline_profile'']\<rparr>;
                 (t, src_id) = touch_asset env src seen t in
          if \<not> is_rfc1918 dst then Inr (egress env src_id dst t)
          else let (t, dst_id) = touch_asset env dst seen t in
            Inr (add_conduit env src_id dst_id ''unknown'' None None ''known'' ''review'' t))"

definition rows_of :: "json \<Rightarrow> json list" where
  "rows_of v = (if is_list v then list_items v else [])"

definition build_assets :: "topo_env \<Rightarrow> json \<Rightarrow> json \<Rightarrow> topology res" where
  "build_assets env observed port_hints =
     bind_res (fold_res (modbus_row env port_hints) (rows_of (jget observed ''modbus_servers''))
        \<lparr>tp_assets = [], tp_conduits = [], tp_external = []\<rparr>) (\<lambda>t.
     bind_res (fold_res (mms_row env) (rows_of (jget (obj_or_empty (jget observed ''iec61850'')) ''mms_ieds'')) t) (\<lambda>t.
     bind_res (if is_obj port_hints then fold_res (hint_entry env port_hints) (obj_items port_hints) t else Inr t) (\<lambda>t.
       fold_res (comm_pair env) (rows_of (jget observed ''comm_pairs'')) t)))"

definition zone_counts :: "topology \<Rightarrow> (string, nat) dict" where
  "zone_counts t = fold (\<lambda>p. dict_bump (level_text (ar_level (snd p)) ''unknown'')) (tp_assets t) []"

definition opt_str :: "string option \<Rightarrow> json" where
  "opt_str x = (case x of None \<Rightarrow> JNull | Some s \<Rightarrow> JStr s)"

definition asset_json :: "asset_row \<Rightarrow> json" where
  "asset_json r = JObj [(''schema'', JStr ''sensel.ot_topology.asset.v1''), (''asset_id'', JStr (ar_id r)),
     (''tenant_id'', JStr (ar_tenant r)), (''sensor_id'', JStr (ar_sensor r)), (''ip'', JStr (ar_ip r)),
     (''asset_type'', JStr (ar_type r)), (''purdue_level'', opt_str (ar_level r)),
     (''protocols'', JList (map JStr (ar_protocols r))), (''protocol_hints'', JList (map JStr (ar_hints r))),
     (''os_family'', opt_str (ar_os r)), (''confidence'', JFloat (ar_confidence r)),
     (''evidence_sources'', JList (map JStr (ar_evidence r)))]"

definition dst_json :: "conduit_dst \<Rightarrow> json" where
  "dst_json d = (case d of ToAsset i \<Rightarrow> JObj [(''kind'', JStr ''asset''), (''id'', JStr i)]
     | ToExternal i \<Rightarrow> JObj [(''kind'', JStr ''external''), (''id'', JStr i)])"

definition conduit_json :: "topo_env \<Rightarrow> conduit \<Rightarrow> json" where
  "conduit_json env c = JObj ([(''schema'', JStr ''sensel.ot_topology.conduit.v1''), (''conduit_id'', JStr (cd_id c)),
     (''tenant_id'', JStr (te_tenant env)), (''sensor_id'', JStr (te_sensor env)), (''src_asset_id'', JStr (cd_src c)),
     (''dst_ref'', dst_json (cd_dst c))]
     @ (case cd_src_level c of None \<Rightarrow> [] | Some l \<Rightarrow> [(''src_level'', JStr l)])
     @ (case cd_dst_level c of None \<Rightarrow> [] | Some l \<Rightarrow> [(''dst_level'', JStr l)])
     @ [(''protocol'', JStr (cd_protocol c)), (''baseline_status'', JStr (cd_baseline c)),
        (''policy_status'', JStr (cd_policy c))])"

definition external_json :: "topo_env \<Rightarrow> external \<Rightarrow> json" where
  "external_json env e = JObj [(''schema'', JStr ''sensel.ot_topology.external_entity.v1''),
     (''entity_id'', JStr (ex_entity_id e)), (''tenant_id'', JStr (te_tenant env)), (''ip'', JStr (ex_ip e)),
     (''service_category'', JStr (ex_category e)), (''seen_from_assets'', JList (map JStr (ex_seen_from e))),
     (''confidence'', JFloat (13 / 20)), (''evidence_sources'', JList [JStr ''comm_pair'', JStr ''egress_ip''])]"

definition build_observed_topology :: "topo_env \<Rightarrow> json \<Rightarrow> json \<Rightarrow> json res" where
  "build_observed_topology env observed port_hints =
     bind_res (build_assets env observed port_hints) (\<lambda>t. Inr (JObj
       [(''schema'', JStr ''sensel.ot_topology.snapshot.v1''), (''tenant_id'', JStr (te_tenant env)),
        (''sensor_id'', JStr (te_sensor env)), (''assets'', JList (map (\<lambda>p. asset_json (snd p)) (tp_assets t))),
        (''conduits'', JList (map (conduit_json env) (tp_conduits t))),
        (''external_entities'', JList (map (\<lambda>p. external_json env (snd p)) (tp_external t))),
        (''zone_counts'', JObj (map (\<lambda>(k, n). (k, JInt (int n))) (zone_counts t)))]))"

section \<open>Well-formed topologies\<close>

definition known_assets :: "topology \<Rightarrow> string set" where
  "known_assets t = set (dict_keys (tp_assets t))"

definition row_ok :: "topo_env \<Rightarrow> string \<times> asset_row \<Rightarrow> bool" where
  "row_ok env p = (ar_id (snd p) = fst p \<and> fst p = asset_id env (''ip:'' @ ar_ip (snd p)) \<and>
     2 / 5 \<le> ar_confidence (snd p) \<and> ar_confidence (snd p) \<le> 17 / 20)"

definition conduit_ok :: "topology \<Rightarrow> conduit \<Rightarrow> bool" where
  "conduit_ok t c = (cd_src c \<in> known_assets t \<and>
     (case cd_dst c of ToAsset i \<Rightarrow> i \<in> known_assets t
      | ToExternal i \<Rightarrow> i \<in> ex_entity_id ` snd ` set (tp_external t)))"

definition external_ok :: "topology \<Rightarrow> string \<times> external \<Rightarrow> bool" where
  "external_ok t p = (ex_entity_id (snd p) = external_entity_id (fst p) \<and> ex_ip (snd p) = fst p \<and>
     distinct (ex_seen_from (snd p)) \<and> set (ex_seen_from (snd p)) \<subseteq> known_assets t)"

definition topo_inv :: "topo_env \<Rightarrow> topology \<Rightarrow> bool" where
  "topo_inv env t = (dict_wf (tp_assets t) \<and> dict_wf (tp_external t) \<and> (\<forall>p\<in>set (tp_assets t). row_ok env p) \<and>
     (\<forall>c\<in>set (tp_conduits t). conduit_ok t c) \<and> (\<forall>p\<in>set (tp_external t). external_ok t p))"

lemma add_tags_props: "distinct ev \<Longrightarrow> distinct (add_tags ev ts) \<and> set (add_tags ev ts) = set ev \<union> set ts"
  by (induction ev ts rule: add_tags.induct) auto

lemma touch_asset_inv:
  assumes "topo_inv env t" and "2 / 5 \<le> ta_confidence a" and "ta_confidence a \<le> 17 / 20"
    and "touch_asset env ip a t = (t', aid)"
  shows "topo_inv env t' \<and> aid \<in> known_assets t' \<and> known_assets t \<subseteq> known_assets t'"
proof -
  define aid0 where "aid0 = asset_id env (''ip:'' @ ip)"
  obtain row where r: "t' = t\<lparr>tp_assets := dict_put aid0 row (tp_assets t)\<rparr>" "aid = aid0" "row_ok env (aid0, row)"
  proof (cases "dict_get (tp_assets t) aid0")
    case None
    have "t' = t\<lparr>tp_assets := dict_put aid0 (new_row env aid0 ip a) (tp_assets t)\<rparr>" "aid = aid0"
      using None assms(4) by (auto simp: touch_asset_def Let_def aid0_def)
    moreover have "row_ok env (aid0, new_row env aid0 ip a)"
      using assms(2,3) by (simp add: row_ok_def new_row_def aid0_def)
    ultimately show ?thesis by (rule that)
  next
    case (Some row0)
    then have "row_ok env (aid0, row0)"
      using assms(1) dict_get_SomeD [OF Some] by (auto simp: topo_inv_def)
    then have "row_ok env (aid0, update_row a row0)"
      using assms(2,3) by (auto simp: row_ok_def update_row_def)
    moreover have "t' = t\<lparr>tp_assets := dict_put aid0 (update_row a row0) (tp_assets t)\<rparr>" "aid = aid0"
      using Some assms(4) by (auto simp: touch_asset_def Let_def aid0_def)
    ultimately show ?thesis by (intro that)
  qed
  have k: "known_assets t' = insert aid (known_assets t)" by (simp add: known_assets_def r)
  have "\<forall>p\<in>set (tp_assets t'). row_ok env p"
    unfolding r(1) using assms(1) r(3) by (simp, intro dict_put_Ball) (simp_all add: topo_inv_def)
  moreover have "conduit_ok t' c" if "conduit_ok t c" for c
    using that k by (auto simp: conduit_ok_def r(1) split: conduit_dst.splits)
  moreover have "external_ok t' p" if "external_ok t p" for p
    using that k by (auto simp: external_ok_def)
  ultimately show ?thesis using assms(1) k by (auto simp: topo_inv_def r(1))
qed

lemma add_conduit_inv:
  "topo_inv env t \<Longrightarrow> src \<in> known_assets t \<Longrightarrow> dst \<in> known_assets t \<Longrightarrow>
     topo_inv env (add_conduit env src dst pr sl dl b p t) \<and>
     known_assets (add_conduit env src dst pr sl dl b p t) = known_assets t"
  by (auto simp: topo_inv_def add_conduit_def known_assets_def conduit_ok_def external_ok_def split: conduit_dst.splits)

lemma dict_keys_external_put:
  "fst p \<noteq> dst \<Longrightarrow> p \<in> set d \<Longrightarrow> p \<in> set (dict_put dst e d)"
  by (induction d) auto

lemma dict_put_mem: "(dst, e) \<in> set (dict_put dst e d)"
  by (induction d) auto

lemma egress_inv:
  assumes "topo_inv env t" and "src \<in> known_assets t"
  shows "topo_inv env (egress env src dst t)"
proof -
  define e0 where "e0 = external_of dst t"
  define e where "e = e0\<lparr>ex_seen_from := add_tags (ex_seen_from e0) [src]\<rparr>"
  have "external_ok t (dst, e0)"
  proof (cases "dict_get (tp_external t) dst")
    case None
    then show ?thesis by (simp add: e0_def external_of_def external_ok_def)
  next
    case (Some x)
    then show ?thesis using assms(1) dict_get_SomeD [OF Some] by (auto simp: e0_def external_of_def topo_inv_def)
  qed
  then have e: "external_ok t (dst, e)"
    using assms(2) add_tags_props [of "ex_seen_from e0" "[src]"] by (auto simp: external_ok_def e_def)
  define t' where "t' = egress env src dst t"
  have k: "known_assets t' = known_assets t" and x: "tp_external t' = dict_put dst e (tp_external t)"
    by (simp_all add: t'_def egress_def Let_def known_assets_def e_def e0_def)
  obtain c where c: "tp_conduits t' = tp_conduits t @ [c]" "cd_src c = src" "cd_dst c = ToExternal (ex_entity_id e)"
    by (simp add: t'_def egress_def Let_def e_def e0_def)
  have ids: "ex_entity_id ` snd ` set (tp_external t) \<subseteq> ex_entity_id ` snd ` set (tp_external t')"
  proof
    fix i assume "i \<in> ex_entity_id ` snd ` set (tp_external t)"
    then obtain p where p: "p \<in> set (tp_external t)" "i = ex_entity_id (snd p)" by auto
    show "i \<in> ex_entity_id ` snd ` set (tp_external t')"
    proof (cases "fst p = dst")
      case True
      have "external_ok t p" using assms(1) p(1) by (simp add: topo_inv_def)
      then have "i = ex_entity_id e" using p(2) True e by (simp add: external_ok_def)
      then show ?thesis using dict_put_mem [of dst e "tp_external t"] by (force simp: x)
    next
      case False
      then show ?thesis using dict_keys_external_put [OF False p(1)] p(2) by (force simp: x)
    qed
  qed
  have "conduit_ok t' c" using c assms(2) dict_put_mem [of dst e "tp_external t"] by (force simp: conduit_ok_def k x)
  moreover have "conduit_ok t' c'" if "conduit_ok t c'" for c'
  proof (cases "cd_dst c'")
    case (ToExternal i)
    then have "i \<in> ex_entity_id ` snd ` set (tp_external t)" using that by (simp add: conduit_ok_def)
    then have "i \<in> ex_entity_id ` snd ` set (tp_external t')" using ids by (rule rev_subsetD)
    then show ?thesis using that ToExternal by (simp add: conduit_ok_def k)
  qed (use that in \<open>simp add: conduit_ok_def k\<close>)
  moreover have "\<forall>p\<in>set (tp_external t'). external_ok t' p"
    unfolding x by (rule dict_put_Ball) (use assms(1) e in \<open>simp_all add: topo_inv_def external_ok_def k\<close>)
  moreover have "tp_assets t' = tp_assets t" by (simp add: t'_def egress_def Let_def)
  ultimately show ?thesis
    using assms(1) unfolding t'_def [symmetric] by (auto simp: topo_inv_def c(1) x)
qed

text \<open>A step of the builder keeps the invariant and forgets no asset.\<close>

definition grows :: "topo_env \<Rightarrow> topology \<Rightarrow> topology \<Rightarrow> bool" where
  "grows env t t' = (topo_inv env t' \<and> known_assets t \<subseteq> known_assets t')"

lemma grows_trans: "grows env t t1 \<Longrightarrow> grows env t1 t2 \<Longrightarrow> grows env t t2"
  by (auto simp: grows_def)

lemma grows_conduit:
  "grows env t t1 \<Longrightarrow> src \<in> known_assets t1 \<Longrightarrow> dst \<in> known_assets t1 \<Longrightarrow>
     grows env t (add_conduit env src dst pr sl dl b p t1)"
  using add_conduit_inv [of env t1 src dst] by (simp add: grows_def)

lemma grows_fold:
  assumes "\<And>x s s'. topo_inv env s \<Longrightarrow> known_assets t \<subseteq> known_assets s \<Longrightarrow> f x s = Inr s' \<Longrightarrow> grows env s s'"
    and "topo_inv env t" and "fold_res f xs t = Inr t'"
  shows "grows env t t'"
proof (rule fold_res_inv [where I = "grows env t", OF _ _ assms(3)])
  show "grows env t t" using assms(2) by (simp add: grows_def)
next
  fix x s s' assume "grows env t s" and f: "f x s = Inr s'"
  then have "grows env s s'" by (intro assms(1)) (simp_all add: grows_def)
  with \<open>grows env t s\<close> show "grows env t s'" by (rule grows_trans)
qed

lemma modbus_client_grows:
  assumes "topo_inv env t" "plc \<in> known_assets t" "modbus_client env ph plc client t = Inr t'"
  shows "grows env t t'"
proof (cases "strip (str_or_empty client) = []")
  case False
  then obtain hints where h: "hints_for_ip ph (strip (str_or_empty client)) = Inr hints"
    using assms(3) by (auto simp: modbus_client_def Let_def bind_res_eq_Inr)
  define a where "a = (let win = any_hint [''smb'', ''rdp''] hints in touch_default\<lparr>ta_type := ''hmi'', ta_level := Some ''L2'',
              ta_protocols := [''modbus-tcp''], ta_hints := hints,
              ta_os := (if win then Some ''windows'' else None),
              ta_confidence := (if win then 39 / 50 else 3 / 4),
              ta_evidence := [''modbus_role'', ''baseline_profile''] @ (if win then [''it_protocol_fingerprint''] else [])\<rparr>)"
  obtain t1 hmi where t1: "touch_asset env (strip (str_or_empty client)) a t = (t1, hmi)" by fastforce
  have "2 / 5 \<le> ta_confidence a" "ta_confidence a \<le> 17 / 20" by (simp_all add: a_def Let_def)
  note tt = touch_asset_inv [OF assms(1) this t1]
  have "t' = add_conduit env hmi plc ''modbus-tcp'' (Some ''L2'') (Some ''L1'') ''known'' ''allowed'' t1"
    using assms(3) False h t1 by (simp add: modbus_client_def Let_def a_def)
  moreover have "grows env t t1" using tt by (simp add: grows_def)
  ultimately show ?thesis using tt assms(2) by (auto intro!: grows_conduit)
qed (use assms in \<open>auto simp: modbus_client_def grows_def\<close>)

lemma modbus_row_grows:
  assumes "topo_inv env t" "modbus_row env ph row t = Inr t'"
  shows "grows env t t'"
proof (cases "is_obj row \<and> strip (str_or_empty (jget row ''server_ip'')) \<noteq> []")
  case True
  define a where "a = touch_default\<lparr>ta_type := ''plc'', ta_level := Some ''L1'',
                 ta_protocols := [''modbus-tcp''], ta_confidence := 17 / 20,
                 ta_evidence := [''modbus_role'', ''baseline_profile'']\<rparr>"
  obtain t1 plc where t1: "touch_asset env (strip (str_or_empty (jget row ''server_ip''))) a t = (t1, plc)" by fastforce
  have "2 / 5 \<le> ta_confidence a" "ta_confidence a \<le> 17 / 20" by (simp_all add: a_def)
  note tt = touch_asset_inv [OF assms(1) this t1]
  obtain clients where "fold_res (modbus_client env ph plc) clients t1 = Inr t'"
    using assms(2) True t1 by (auto simp: modbus_row_def Let_def a_def bind_res_eq_Inr)
  then have "grows env t1 t'"
    by (rule grows_fold [rotated 2]) (use tt in \<open>auto intro: modbus_client_grows\<close>)
  then show ?thesis using tt by (auto simp: grows_def)
qed (use assms in \<open>auto simp: modbus_row_def grows_def Let_def split: if_splits\<close>)

lemma touch_fst_grows:
  "topo_inv env t \<Longrightarrow> 2 / 5 \<le> ta_confidence a \<Longrightarrow> ta_confidence a \<le> 17 / 20 \<Longrightarrow> grows env t (fst (touch_asset env ip a t))"
  using touch_asset_inv [of env t a ip "fst (touch_asset env ip a t)" "snd (touch_asset env ip a t)"]
  by (simp add: grows_def)

lemma mms_row_grows: "topo_inv env t \<Longrightarrow> mms_row env row t = Inr t' \<Longrightarrow> grows env t t'"
  by (auto simp: mms_row_def Let_def split: if_splits intro!: touch_fst_grows) (auto simp: grows_def)

lemma service_client_grows:
  assumes "topo_inv env t" "sid \<in> known_assets t" "service_client env ph sid pr cip t = Inr t'"
  shows "grows env t t'"
proof -
  obtain hints where h: "hints_for_ip ph cip = Inr hints"
    using assms(3) by (auto simp: service_client_def bind_res_eq_Inr)
  define a where "a = touch_default\<lparr>ta_type := ''hmi'', ta_level := Some ''L2'',
              ta_hints := hints, ta_confidence := 7 / 10, ta_evidence := [''it_protocol_fingerprint'']\<rparr>"
  obtain t1 cl where t1: "touch_asset env cip a t = (t1, cl)" by fastforce
  have "2 / 5 \<le> ta_confidence a" "ta_confidence a \<le> 17 / 20" by (simp_all add: a_def)
  note tt = touch_asset_inv [OF assms(1) this t1]
  have "t' = add_conduit env cl sid pr (Some ''L2'') (Some ''L4'') ''known'' ''allowed'' t1"
    using assms(3) h t1 by (simp add: service_client_def a_def)
  moreover have "grows env t t1" using tt by (simp add: grows_def)
  ultimately show ?thesis using tt assms(2) by (auto intro!: grows_conduit)
qed

lemma service_server_grows:
  assumes "topo_inv env t" "service_server env ph ip ty pr hints ev ips t = Inr t'"
  shows "grows env t t'"
proof -
  define a where "a = touch_default\<lparr>ta_type := ty, ta_level := Some ''L4'',
            ta_protocols := [pr], ta_hints := hints, ta_confidence := 3 / 4, ta_evidence := ev\<rparr>"
  obtain t1 sid where t1: "touch_asset env ip a t = (t1, sid)" by fastforce
  have "2 / 5 \<le> ta_confidence a" "ta_confidence a \<le> 17 / 20" by (simp_all add: a_def)
  note tt = touch_asset_inv [OF assms(1) this t1]
  have "fold_res (service_client env ph sid pr) ips t1 = Inr t'"
    using assms(2) t1 by (simp add: service_server_def a_def)
  then have "grows env t1 t'"
    by (rule grows_fold [rotated 2]) (use tt in \<open>auto intro: service_client_grows\<close>)
  then show ?thesis using tt by (auto simp: grows_def)
qed

lemma hint_entry_grows:
  assumes "topo_inv env t" "hint_entry env ph p t = Inr t'"
  shows "grows env t t'"
proof -
  obtain ip meta where p: "p = (ip, meta)" by fastforce
  have refl: "grows env t t" using assms(1) by (simp add: grows_def)
  show ?thesis
  proof (cases "is_obj meta")
    case True
    then obtain hints where h: "texts_of (jget meta ''hints'') = Inr hints"
      using assms(2) by (auto simp: p hint_entry_def bind_res_eq_Inr)
    show ?thesis
    proof (cases "hints = []")
      case False
      then obtain l d li di where q: "py_int (py_or (jget meta ''ldap_clients'') (JInt 0)) = Inr l"
        "py_int (py_or (jget meta ''dns_clients'') (JInt 0)) = Inr d" "texts_of (jget meta ''ldap_client_ips'') = Inr li"
        "texts_of (jget meta ''dns_client_ips'') = Inr di"
        using assms(2) True h by (auto simp: p hint_entry_def bind_res_eq_Inr)
      show ?thesis
        using assms True h False unfolding p hint_entry_def
        by (auto simp: q split: if_splits intro: service_server_grows intro!: touch_fst_grows)
          (use refl in simp_all)
    qed (use assms(2) True h refl in \<open>simp add: p hint_entry_def\<close>)
  qed (use assms(2) refl in \<open>simp add: p hint_entry_def\<close>)
qed

lemma comm_pair_grows:
  assumes "topo_inv env t" "comm_pair env pair t = Inr t'"
  shows "grows env t t'"
proof -
  define src where "src = strip (str_or_empty (jget pair ''src''))"
  define dst where "dst = strip (str_or_empty (jget pair ''dst''))"
  define a where "a = touch_default\<lparr>ta_evidence := [''baseline_profile'']\<rparr>"
  obtain t1 sid where t1: "touch_asset env src a t = (t1, sid)" by fastforce
  obtain t2 did where t2: "touch_asset env dst a t1 = (t2, did)" by fastforce
  have a: "2 / 5 \<le> ta_confidence a" "ta_confidence a \<le> 17 / 20" by (simp_all add: a_def touch_default_def)
  note tt = touch_asset_inv [OF assms(1) a t1]
  then have tt2: "topo_inv env t2 \<and> did \<in> known_assets t2 \<and> known_assets t1 \<subseteq> known_assets t2"
    using touch_asset_inv [OF _ a t2] by blast
  have "known_assets (egress env sid dst t1) = known_assets t1" by (simp add: egress_def Let_def known_assets_def)
  then have eg: "grows env t (egress env sid dst t1)" using egress_inv [of env t1 sid dst] tt by (auto simp: grows_def)
  have ac: "grows env t (add_conduit env sid did ''unknown'' None None ''known'' ''review'' t2)"
    by (rule grows_conduit) (use tt tt2 in \<open>auto simp: grows_def\<close>)
  have "t' = t \<or> t' = egress env sid dst t1 \<or> t' = add_conduit env sid did ''unknown'' None None ''known'' ''review'' t2"
    using assms(2) t1 t2 by (auto simp: comm_pair_def Let_def src_def [symmetric] dst_def [symmetric] a_def [symmetric] split: if_splits)
  then show ?thesis using eg ac assms(1) by (auto simp: grows_def)
qed

lemma build_assets_inv:
  assumes "build_assets env observed ph = Inr t"
  shows "topo_inv env t"
proof -
  define t0 where "t0 = \<lparr>tp_assets = [], tp_conduits = [], tp_external = []\<rparr>"
  have "topo_inv env t0" by (simp add: t0_def topo_inv_def)
  obtain t1 where s1: "fold_res (modbus_row env ph) (rows_of (jget observed ''modbus_servers'')) t0 = Inr t1"
    using assms by (auto simp: build_assets_def bind_res_eq_Inr t0_def [symmetric] simp del: fold_res.simps)
  obtain t2 where s2: "fold_res (mms_row env) (rows_of (jget (obj_or_empty (jget observed ''iec61850'')) ''mms_ieds'')) t1 = Inr t2"
    using assms s1 by (auto simp: build_assets_def bind_res_eq_Inr t0_def [symmetric] simp del: fold_res.simps)
  obtain t3 where s3: "(if is_obj ph then fold_res (hint_entry env ph) (obj_items ph) t2 else Inr t2) = Inr t3"
    and s4: "fold_res (comm_pair env) (rows_of (jget observed ''comm_pairs'')) t3 = Inr t"
    using assms s1 s2 unfolding build_assets_def t0_def [symmetric] bind_res_eq_Inr by fastforce
  have m: "grows env s s'" if "topo_inv env s" "modbus_row env ph x s = Inr s'" for x s s'
    using that by (rule modbus_row_grows)
  have "topo_inv env t1"
    using grows_fold [OF m \<open>topo_inv env t0\<close> s1] by (simp add: grows_def)
  have "topo_inv env t2"
    using grows_fold [OF mms_row_grows \<open>topo_inv env t1\<close> s2] by (simp add: grows_def)
  have "topo_inv env t3"
  proof (cases "is_obj ph")
    case True
    then have "fold_res (hint_entry env ph) (obj_items ph) t2 = Inr t3" using s3 by simp
    from grows_fold [OF hint_entry_grows \<open>topo_inv env t2\<close> this] show ?thesis by (simp add: grows_def)
  qed (use s3 \<open>topo_inv env t2\<close> in simp)
  from grows_fold [OF comm_pair_grows this s4] show ?thesis by (simp add: grows_def)
qed

lemma dict_total_bumps: "dict_total (fold (\<lambda>p. dict_bump (f p)) xs d) = dict_total d + length xs"
  by (induction xs arbitrary: d) auto

section \<open>Properties\<close>

text \<open>
  C36. Every topology snapshot is consistent: its assets have distinct ids, each the digest of
  its own address and a confidence between 0.4 and 0.85; every conduit starts at a listed asset
  and ends at a listed asset or a listed external peer; every external peer is seen from listed
  assets only; and the zone counts add up to the number of assets.
\<close>

theorem topology_consistent:
  assumes "build_assets env observed port_hints = Inr t"
  shows "distinct (map fst (tp_assets t)) \<and> (\<forall>p\<in>set (tp_assets t). row_ok env p) \<and>
     (\<forall>c\<in>set (tp_conduits t). conduit_ok t c) \<and> (\<forall>p\<in>set (tp_external t). external_ok t p) \<and>
     dict_total (zone_counts t) = length (tp_assets t)"
  using build_assets_inv [OF assms]
  by (auto simp: topo_inv_def dict_wf_def dict_keys_def zone_counts_def dict_total_bumps)

definition plain_env :: topo_env where
  "plain_env = \<lparr>te_digest = (\<lambda>s. s), te_tenant = ''t'', te_sensor = ''s''\<rparr>"

theorem topology_consistent_witness:
  "\<exists>t. build_assets plain_env (JObj [(''comm_pairs'', JList [JObj [(''src'', JStr ''10.0.0.1''), (''dst'', JStr ''8.8.8.8'')]])])
      (JObj []) = Inr t \<and> length (tp_conduits t) = 1 \<and> dict_total (zone_counts t) = length (tp_assets t)"
proof -
  have "\<exists>t. build_assets plain_env (JObj [(''comm_pairs'', JList [JObj [(''src'', JStr ''10.0.0.1''), (''dst'', JStr ''8.8.8.8'')]])])
      (JObj []) = Inr t \<and> length (tp_conduits t) = 1"
    by (simp add: build_assets_def rows_of_def comm_pair_def strip_def lstrip_def rstrip_def is_space_def chr_code_def
        touch_asset_def touch_default_def is_rfc1918_def obj_or_empty_def egress_def Let_def parse_int_def parse_nat_def
        is_digit_def dec_val_def digit_val_def)
  then show ?thesis using topology_consistent by blast
qed

end
