(* ===== verification/Baseline.thy ===== *)
theory Baseline
  imports Modbus Iec61850 Stores Topology
begin

text \<open>
  The baseline collector (\<open>baseline/collector.py\<close>): what it records of every packet, the
  candidate document made of it, and how the detector reads that document back. The
  properties close the loop: a candidate is always produced, and a detector given the
  learned baseline accepts the traffic it was learned from.
\<close>

section \<open>Observations\<close>

definition GOOSE_DEFAULT_SILENCE_SEC :: int where
  "GOOSE_DEFAULT_SILENCE_SEC = 30"

record goose_obs =
  gb_mac :: string
  gb_appid :: nat
  gb_gocb :: string
  gb_go_id :: string
  gb_conf_rev :: int
  gb_frames :: nat
  gb_test_frames :: nat
  gb_production_frames :: nat
  gb_stnum_min :: "int option"
  gb_stnum_max :: "int option"
  gb_last_seen :: pyfloat

record mms_obs =
  mr_ied_ip :: string
  mr_clients :: "(string, pyfloat) dict"
  mr_reads :: nat
  mr_writes :: nat
  mr_last_seen :: pyfloat

record modbus_obs =
  mo_server_ip :: string
  mo_units :: "nat set"
  mo_function_codes :: "nat set"
  mo_clients :: "string set"
  mo_last_seen :: pyfloat

record collector =
  bc_tenant :: string
  bc_sensor :: string
  bc_packets :: nat
  bc_parse_errors :: nat
  bc_goose :: "(string, goose_obs) dict"
  bc_mms :: "(string, mms_obs) dict"
  bc_modbus :: "(string, modbus_obs) dict"
  bc_macs :: "string set"
  bc_ips :: "string set"
  bc_mac_ip :: "(string, string) dict"
  bc_comm_pairs :: "(string \<times> string, pyfloat) dict"
  bc_ip_hints :: "(string, string set) dict"
  bc_ldap_clients :: "(string, (string, pyfloat) dict) dict"
  bc_dns_clients :: "(string, (string, pyfloat) dict) dict"

definition collector_init :: "string \<Rightarrow> string \<Rightarrow> collector" where
  "collector_init tenant_id sensor_id = \<lparr>bc_tenant = tenant_id, bc_sensor = sensor_id, bc_packets = 0,
     bc_parse_errors = 0, bc_goose = [], bc_mms = [], bc_modbus = [], bc_macs = {}, bc_ips = {}, bc_mac_ip = [],
     bc_comm_pairs = [], bc_ip_hints = [], bc_ldap_clients = [], bc_dns_clients = []\<rparr>"

section \<open>Ingestion\<close>

text \<open>\<open>d.setdefault(k, empty)\<close> followed by an update of the value.\<close>

definition dict_upd :: "'k \<Rightarrow> 'v \<Rightarrow> ('v \<Rightarrow> 'v) \<Rightarrow> ('k, 'v) dict \<Rightarrow> ('k, 'v) dict" where
  "dict_upd k dflt f d = dict_put k (f (case dict_get d k of None \<Rightarrow> dflt | Some v \<Rightarrow> v)) d"

lemma dict_get_upd:
  "dict_get (dict_upd k dflt f d) k' =
     (if k' = k then Some (f (case dict_get d k of None \<Rightarrow> dflt | Some v \<Rightarrow> v)) else dict_get d k')"
  by (simp add: dict_upd_def)

lemma dict_wf_upd [simp]: "dict_wf d \<Longrightarrow> dict_wf (dict_upd k dflt f d)"
  by (simp add: dict_upd_def)

definition note_packet :: "collector \<Rightarrow> collector" where
  "note_packet c = c\<lparr>bc_packets := bc_packets c + 1\<rparr>"

definition feed_endpoints :: "pyfloat \<Rightarrow> string option \<Rightarrow> string option \<Rightarrow> string option \<Rightarrow> collector \<Rightarrow> collector" where
  "feed_endpoints now src_mac src_ip dst_ip c =
     (let c = (if some_text src_mac then c\<lparr>bc_macs := insert (text_of src_mac) (bc_macs c)\<rparr> else c);
          c = (if some_text src_ip then
                 let c = c\<lparr>bc_ips := insert (text_of src_ip) (bc_ips c)\<rparr> in
                 if some_text src_mac
                 then c\<lparr>bc_mac_ip := dict_put (text_of src_mac) (text_of src_ip) (bc_mac_ip c)\<rparr> else c
               else c);
          c = (if some_text dst_ip then c\<lparr>bc_ips := insert (text_of dst_ip) (bc_ips c)\<rparr> else c)
      in if some_text src_ip \<and> some_text dst_ip
         then c\<lparr>bc_comm_pairs := dict_put (text_of src_ip, text_of dst_ip) now (bc_comm_pairs c)\<rparr> else c)"

definition feed_transport :: "pyfloat \<Rightarrow> flow_tuple \<Rightarrow> collector \<Rightarrow> collector" where
  "feed_transport now flow c =
     (let hint = hint_for_port (f_dst_port flow) in
      if \<not> some_text hint \<or> f_src_ip flow = [] \<or> f_dst_ip flow = [] then c
      else let hint = text_of hint;
               c = c\<lparr>bc_ip_hints := dict_upd (f_src_ip flow) {} (insert hint)
                       (dict_upd (f_dst_ip flow) {} (insert hint) (bc_ip_hints c))\<rparr>;
               c = (if hint = ''ldap'' then c\<lparr>bc_ldap_clients :=
                      dict_upd (f_dst_ip flow) [] (dict_put (f_src_ip flow) now) (bc_ldap_clients c)\<rparr> else c)
           in if hint = ''dns'' then c\<lparr>bc_dns_clients :=
                dict_upd (f_dst_ip flow) [] (dict_put (f_src_ip flow) now) (bc_dns_clients c)\<rparr> else c)"

definition new_goose_obs :: "goose_frame \<Rightarrow> goose_obs" where
  "new_goose_obs frame = \<lparr>gb_mac = publisher_mac frame, gb_appid = appid frame, gb_gocb = gocb_ref frame,
     gb_go_id = go_id frame, gb_conf_rev = conf_rev frame, gb_frames = 0, gb_test_frames = 0,
     gb_production_frames = 0, gb_stnum_min = None, gb_stnum_max = None, gb_last_seen = 0\<rparr>"

definition goose_obs_step :: "pyfloat \<Rightarrow> goose_frame \<Rightarrow> goose_obs \<Rightarrow> goose_obs" where
  "goose_obs_step now frame ob =
     (let ob = ob\<lparr>gb_frames := gb_frames ob + 1\<rparr>;
          ob = (if test_bit frame then ob\<lparr>gb_test_frames := gb_test_frames ob + 1\<rparr>
                else ob\<lparr>gb_production_frames := gb_production_frames ob + 1\<rparr>);
          sn = st_num frame;
          ob = ob\<lparr>gb_stnum_min := Some (case gb_stnum_min ob of None \<Rightarrow> sn | Some m \<Rightarrow> min m sn),
                  gb_stnum_max := Some (case gb_stnum_max ob of None \<Rightarrow> sn | Some m \<Rightarrow> max m sn)\<rparr>;
          ob = (if go_id frame \<noteq> [] \<and> gb_go_id ob = [] then ob\<lparr>gb_go_id := go_id frame\<rparr> else ob)
      in ob\<lparr>gb_last_seen := now\<rparr>)"

definition feed_goose :: "pyfloat \<Rightarrow> goose_frame \<Rightarrow> collector \<Rightarrow> collector" where
  "feed_goose now frame c =
     c\<lparr>bc_goose := dict_upd (goose_key frame) (new_goose_obs frame) (goose_obs_step now frame) (bc_goose c)\<rparr>"

text \<open>The endpoint on the server's port and its peer; the destination port is asked first.\<close>

definition server_of :: "nat \<Rightarrow> nat \<Rightarrow> nat \<Rightarrow> string \<Rightarrow> string \<Rightarrow> (string \<times> string) option" where
  "server_of port sport dport src dst =
     (if dport = port then Some (dst, src) else if sport = port then Some (src, dst) else None)"

definition mms_obs_step :: "pyfloat \<Rightarrow> string \<Rightarrow> string \<Rightarrow> mms_obs \<Rightarrow> mms_obs" where
  "mms_obs_step now client pdu r =
     (let r = (if client \<noteq> [] then r\<lparr>mr_clients := dict_put client now (mr_clients r)\<rparr> else r);
          r = (if pdu = ''read'' then r\<lparr>mr_reads := mr_reads r + 1\<rparr>
               else if pdu = ''write'' then r\<lparr>mr_writes := mr_writes r + 1\<rparr> else r)
      in r\<lparr>mr_last_seen := now\<rparr>)"

definition feed_mms :: "pyfloat \<Rightarrow> mms_observation \<Rightarrow> collector \<Rightarrow> collector" where
  "feed_mms now ob c =
     (case server_of MMS_PORT (mms_src_port ob) (mms_dst_port ob) (mms_src_ip ob) (mms_dst_ip ob) of
        None \<Rightarrow> c
      | Some (ied, client) \<Rightarrow> c\<lparr>bc_mms := dict_upd ied
          \<lparr>mr_ied_ip = ied, mr_clients = [], mr_reads = 0, mr_writes = 0, mr_last_seen = 0\<rparr>
          (mms_obs_step now client (pdu_type ob)) (bc_mms c)\<rparr>)"

definition modbus_obs_step :: "pyfloat \<Rightarrow> string \<Rightarrow> modbus_frame \<Rightarrow> modbus_obs \<Rightarrow> modbus_obs" where
  "modbus_obs_step now client frame r =
     r\<lparr>mo_units := insert (unit_id frame) (mo_units r),
       mo_function_codes := insert (function_code frame) (mo_function_codes r),
       mo_clients := (if client \<noteq> [] then insert client (mo_clients r) else mo_clients r),
       mo_last_seen := now\<rparr>"

definition feed_modbus :: "pyfloat \<Rightarrow> modbus_frame \<Rightarrow> collector \<Rightarrow> collector" where
  "feed_modbus now frame c =
     (case server_of MODBUS_PORT (mb_src_port frame) (mb_dst_port frame) (mb_src_ip frame) (mb_dst_ip frame) of
        None \<Rightarrow> c
      | Some (server, client) \<Rightarrow> c\<lparr>bc_modbus := dict_upd server
          \<lparr>mo_server_ip = server, mo_units = {}, mo_function_codes = {}, mo_clients = {}, mo_last_seen = 0\<rparr>
          (modbus_obs_step now client frame) (bc_modbus c)\<rparr>)"

text \<open>
  One packet. The readings of the monotonic clock during one call are taken to be equal. Of
  the parsers only the GOOSE one raises; the exception is counted, and what was recorded
  before it stays.
\<close>

definition feed_upper :: "pyfloat \<Rightarrow> packet \<Rightarrow> collector \<Rightarrow> collector" where
  "feed_upper now p c =
     (let c = (case parse_mms_packet p of None \<Rightarrow> c | Some ob \<Rightarrow> feed_mms now ob c);
          c = (case parse_modbus_tcp p of None \<Rightarrow> c | Some frame \<Rightarrow> feed_modbus now frame c)
      in (case parse_transport p of None \<Rightarrow> c | Some flow \<Rightarrow> feed_transport now flow c))"

definition collect :: "pyfloat \<Rightarrow> packet \<Rightarrow> collector \<Rightarrow> collector" where
  "collect now p c =
     (let c = note_packet c; (src_ip, dst_ip, v) = parse_ip p;
          c = feed_endpoints now (fst (parse_ethernet p)) src_ip dst_ip c
      in (case parse_goose_packet p of
            Inl e \<Rightarrow> c\<lparr>bc_parse_errors := bc_parse_errors c + 1\<rparr>
          | Inr (Some frame) \<Rightarrow> feed_goose now frame c
          | Inr None \<Rightarrow> feed_upper now p c))"

section \<open>The candidate\<close>

definition fresh_since :: "pyfloat option \<Rightarrow> pyfloat \<Rightarrow> bool" where
  "fresh_since cutoff last_seen = (case cutoff of None \<Rightarrow> True | Some t \<Rightarrow> t \<le> last_seen)"

definition jstr_list :: "string list \<Rightarrow> json" where
  "jstr_list xs = JList (map JStr xs)"

definition learned_id :: "string \<Rightarrow> nat \<Rightarrow> json" where
  "learned_id kind i = JStr (''learned-'' @ kind @ ''-'' @ zpad 2 i)"

definition goose_publisher_json :: "nat \<times> goose_obs \<Rightarrow> json" where
  "goose_publisher_json = (\<lambda>(i, ob). JObj [(''asset_id'', learned_id ''goose'' i),
     (''publisher_mac'', JStr (gb_mac ob)), (''appid'', JInt (int (gb_appid ob))),
     (''gocb_ref'', JStr (gb_gocb ob)), (''go_id'', JStr (gb_go_id ob)), (''conf_rev'', JInt (gb_conf_rev ob)),
     (''production'', JBool (gb_production_frames ob > 0 \<or> gb_test_frames ob = 0)),
     (''max_silence_sec'', JInt GOOSE_DEFAULT_SILENCE_SEC), (''observed_frames'', JInt (int (gb_frames ob)))])"

definition goose_candidates :: "pyfloat option \<Rightarrow> collector \<Rightarrow> json list" where
  "goose_candidates cutoff c = map goose_publisher_json (enumerate 1
     (sort_key (\<lambda>ob. (gb_appid ob, gb_mac ob))
       (filter (\<lambda>ob. fresh_since cutoff (gb_last_seen ob)) (map snd (bc_goose c)))))"

definition fresh_keys :: "pyfloat option \<Rightarrow> (string, pyfloat) dict \<Rightarrow> string list" where
  "fresh_keys cutoff d = sort (map fst (filter (\<lambda>(k, seen). fresh_since cutoff seen) d))"

definition mms_ied_json :: "pyfloat option \<Rightarrow> nat \<times> mms_obs \<Rightarrow> json" where
  "mms_ied_json cutoff = (\<lambda>(i, r). JObj [(''asset_id'', learned_id ''ied'' i), (''ied_ip'', JStr (mr_ied_ip r)),
     (''allowed_mms_clients'', jstr_list (fresh_keys cutoff (mr_clients r))),
     (''observed_reads'', JInt (int (mr_reads r))), (''observed_writes'', JInt (int (mr_writes r)))])"

definition mms_candidates :: "pyfloat option \<Rightarrow> collector \<Rightarrow> json list" where
  "mms_candidates cutoff c = map (mms_ied_json cutoff) (enumerate 1
     (sort_key mr_ied_ip (filter (\<lambda>r. fresh_since cutoff (mr_last_seen r)) (map snd (bc_mms c)))))"

definition modbus_server_json :: "modbus_obs \<Rightarrow> json" where
  "modbus_server_json r = JObj [(''server_ip'', JStr (mo_server_ip r)),
     (''unit_ids'', JList (map (\<lambda>n. JInt (int n)) (sorted_list_of_set (mo_units r)))),
     (''function_codes'', JList (map (\<lambda>n. JInt (int n)) (sorted_list_of_set (mo_function_codes r)))),
     (''allowed_clients'', jstr_list (sorted_list_of_set (mo_clients r)))]"

definition modbus_candidates :: "pyfloat option \<Rightarrow> collector \<Rightarrow> json list" where
  "modbus_candidates cutoff c = map modbus_server_json
     (sort_key mo_server_ip (filter (\<lambda>r. fresh_since cutoff (mo_last_seen r)) (map snd (bc_modbus c))))"

definition comm_pairs_fresh :: "pyfloat option \<Rightarrow> collector \<Rightarrow> (string \<times> string) list" where
  "comm_pairs_fresh cutoff c = sort (map fst (filter (\<lambda>(p, seen). fresh_since cutoff seen) (bc_comm_pairs c)))"

definition count_json :: "'a list \<Rightarrow> json" where
  "count_json xs = JInt (int (length xs))"

definition collector_summary :: "pyfloat option \<Rightarrow> json list \<Rightarrow> json list \<Rightarrow> json list \<Rightarrow> collector \<Rightarrow> json" where
  "collector_summary cutoff goose mms modbus c = JObj [(''packets'', JInt (int (bc_packets c))),
     (''parse_errors'', JInt (int (bc_parse_errors c))), (''unique_macs'', JInt (int (card (bc_macs c)))),
     (''unique_ips'', JInt (int (card (bc_ips c)))), (''comm_pairs'', count_json (comm_pairs_fresh cutoff c)),
     (''goose_publishers'', count_json goose), (''mms_ieds'', count_json mms), (''modbus_servers'', count_json modbus)]"

definition clients_of :: "pyfloat option \<Rightarrow> string \<Rightarrow> (string, (string, pyfloat) dict) dict \<Rightarrow> string list" where
  "clients_of cutoff ip d = fresh_keys cutoff (case dict_get d ip of None \<Rightarrow> [] | Some cs \<Rightarrow> cs)"

definition hint_json :: "pyfloat option \<Rightarrow> collector \<Rightarrow> string \<times> string set \<Rightarrow> string \<times> json" where
  "hint_json cutoff c = (\<lambda>(ip, hints).
     let ldap = clients_of cutoff ip (bc_ldap_clients c); dns = clients_of cutoff ip (bc_dns_clients c) in
     (ip, JObj [(''hints'', jstr_list (sorted_list_of_set hints)), (''ldap_clients'', count_json ldap),
        (''dns_clients'', count_json dns), (''ldap_client_ips'', jstr_list ldap), (''dns_client_ips'', jstr_list dns),
        (''ldap_server'', JBool (LDAP_SERVER_MIN_CLIENTS \<le> int (length ldap))),
        (''dns_server'', JBool (DNS_SERVER_MIN_CLIENTS \<le> int (length dns)))]))"

definition port_hint_index :: "pyfloat option \<Rightarrow> collector \<Rightarrow> json" where
  "port_hint_index cutoff c = JObj (map (hint_json cutoff c) (bc_ip_hints c))"

definition observed_json :: "pyfloat option \<Rightarrow> collector \<Rightarrow> (string \<times> json) list" where
  "observed_json cutoff c =
     [(''iec61850'', JObj [(''goose_publishers'', JList (goose_candidates cutoff c)),
        (''mms_ieds'', JList (mms_candidates cutoff c))]),
      (''modbus_servers'', JList (modbus_candidates cutoff c)),
      (''comm_pairs'', JList (map (\<lambda>(s, d). JObj [(''src'', JStr s), (''dst'', JStr d)]) (comm_pairs_fresh cutoff c))),
      (''mac_ip'', JList (map (\<lambda>(m, ip). JObj [(''mac'', JStr m), (''ip'', JStr ip)]) (sort_key fst (bc_mac_ip c))))]"

definition with_topology :: "(string \<Rightarrow> string) \<Rightarrow> pyfloat option \<Rightarrow> collector \<Rightarrow> json res" where
  "with_topology digest cutoff c =
     (let ob = observed_json cutoff c in
      if bc_tenant c \<noteq> [] \<and> bc_sensor c \<noteq> [] then
        bind_res (build_observed_topology \<lparr>te_digest = digest, te_tenant = bc_tenant c, te_sensor = bc_sensor c\<rparr>
            (JObj ob) (port_hint_index cutoff c)) (\<lambda>t. Inr (JObj (ob @ [(''topology'', t)])))
      else Inr (JObj ob))"

text \<open>The window is a float; zero and None both switch the ageing off.\<close>

definition cutoff_of :: "pyfloat \<Rightarrow> pyfloat option \<Rightarrow> pyfloat option" where
  "cutoff_of now window = (case window of None \<Rightarrow> None | Some w \<Rightarrow> if w = 0 then None else Some (now - w))"

definition to_candidate :: "(string \<Rightarrow> string) \<Rightarrow> pyfloat \<Rightarrow> string \<Rightarrow> string \<Rightarrow> string \<Rightarrow> pyfloat option \<Rightarrow> collector \<Rightarrow> json res" where
  "to_candidate digest now at_iso source source_ref window c =
     (let cutoff = cutoff_of now window in
      bind_res (with_topology digest cutoff c) (\<lambda>observed. Inr (JObj
        [(''schema'', JStr ''sensel.baseline/1''), (''generated_at'', JStr at_iso), (''source'', JStr source),
         (''source_ref'', JStr source_ref),
         (''window_sec'', case window of None \<Rightarrow> JNull | Some w \<Rightarrow> JFloat w),
         (''stats'', collector_summary cutoff (goose_candidates cutoff c) (mms_candidates cutoff c)
            (modbus_candidates cutoff c) c),
         (''observed'', observed)])))"

definition learn_from_pcap :: "(string \<Rightarrow> string) \<Rightarrow> int \<Rightarrow> pyfloat \<Rightarrow> string \<Rightarrow> string \<Rightarrow> string \<Rightarrow>
    (pyfloat \<times> packet) list \<Rightarrow> json res" where
  "learn_from_pcap digest limit now at_iso source_ref pcap_name ps =
     to_candidate digest now at_iso ''pcap_import'' (if source_ref = [] then pcap_name else source_ref) None
       (fold (\<lambda>(t, p). collect t p) (if limit > 0 then take (nat limit) ps else ps) (collector_init [] []))"

section \<open>The detector's view of the document\<close>

text \<open>
  The fields the detector reads of the policy with \<open>get\<close> and a default; None where a field
  has a type the code cannot use.
\<close>

definition text_field :: "json \<Rightarrow> string \<Rightarrow> string option" where
  "text_field v k = (case jget_default v k (JStr []) of JStr s \<Rightarrow> Some s | _ \<Rightarrow> None)"

definition goose_entry_of :: "json \<Rightarrow> goose_entry option" where
  "goose_entry_of v =
     (case (text_field v ''publisher_mac'', py_int (jget_default v ''appid'' (JInt (- 1))), text_field v ''gocb_ref'') of
        (Some mac, Inr a, Some gocb) \<Rightarrow> Some \<lparr>ge_mac = mac, ge_appid = a, ge_gocb = gocb,
           ge_production = truthy (jget_default v ''production'' (JBool True)),
           ge_asset = py_str (jget_default v ''asset_id'' (JStr []))\<rparr>
      | _ \<Rightarrow> None)"

definition text_value :: "json \<Rightarrow> string option" where
  "text_value v = (case v of JStr s \<Rightarrow> Some s | _ \<Rightarrow> None)"

definition ied_entry_of :: "json \<Rightarrow> ied_entry option" where
  "ied_entry_of v = (case jget_default v ''allowed_mms_clients'' (JList []) of
       JList xs \<Rightarrow> Some \<lparr>ied_ip = text_value (jget v ''ied_ip''), ied_clients = List.map_filter text_value xs\<rparr>
     | _ \<Rightarrow> None)"

definition int_value :: "string \<times> json \<Rightarrow> (string \<times> int) option" where
  "int_value = (\<lambda>(k, v). case py_int v of Inl e \<Rightarrow> None | Inr i \<Rightarrow> Some (k, i))"

definition iec_policy_of :: "json \<Rightarrow> iec_policy option" where
  "iec_policy_of policy =
     (let iec = jget_default policy ''iec61850'' (JObj []) in
      case (jget_default iec ''goose_publishers'' (JList []), jget_default iec ''mms_ieds'' (JList []),
            jget_default iec ''thresholds'' (JObj [])) of
        (JList ps, JList ms, JObj th) \<Rightarrow>
          (case (those (map goose_entry_of ps), those (map ied_entry_of ms)) of
             (Some gs, Some is) \<Rightarrow> Some \<lparr>goose_publishers = gs, mms_ieds = is,
                iec_thresholds = List.map_filter int_value th\<rparr>
           | _ \<Rightarrow> None)
      | _ \<Rightarrow> None)"

text \<open>From a capture file to the policy in force once the candidate is approved as a profile.\<close>

definition learned_policy :: "(string \<Rightarrow> string) \<Rightarrow> pyfloat \<Rightarrow> string \<Rightarrow> string \<Rightarrow> (pyfloat \<times> packet) list \<Rightarrow> iec_policy option" where
  "learned_policy digest now at_iso name ps =
     (case bind_res (learn_from_pcap digest 0 now at_iso [] name ps) (\<lambda>cand.
        observed_to_detection_baseline (jget cand ''observed'')) of
        Inl e \<Rightarrow> None | Inr b \<Rightarrow> iec_policy_of b)"

section \<open>A candidate is always produced\<close>

definition returns :: "'a res \<Rightarrow> bool" where
  "returns r = (\<exists>v. r = Inr v)"

lemma returns_simps [simp]: "returns (Inr v)" "\<not> returns (Inl e)"
  by (simp_all add: returns_def)

lemma returns_bind: "returns r \<Longrightarrow> (\<And>v. r = Inr v \<Longrightarrow> returns (f v)) \<Longrightarrow> returns (bind_res r f)"
  by (auto simp: returns_def)

lemma returns_fold: "(\<And>x s. x \<in> set xs \<Longrightarrow> returns (f x s)) \<Longrightarrow> returns (fold_res f xs s)"
  by (induction xs arbitrary: s) (auto intro!: returns_bind)

lemma texts_of_list [simp]: "texts_of (JList xs) = Inr (filter (\<lambda>s. strip s \<noteq> []) (map py_str xs))"
  by (simp add: texts_of_def py_or_def)

lemma hint_json_pair: "hint_json cutoff c (ip, h) = (ip, snd (hint_json cutoff c (ip, h)))"
  by (simp add: hint_json_def Let_def)

lemma jget_map_hint: "jget (JObj (map (hint_json cutoff c) ds)) ip = JNull \<or>
    (\<exists>h. jget (JObj (map (hint_json cutoff c) ds)) ip = snd (hint_json cutoff c (ip, h)))"
proof (induction ds)
  case (Cons p ds)
  obtain a h where "p = (a, h)" by fastforce
  then have "jget (JObj (map (hint_json cutoff c) (p # ds))) ip =
      (if a = ip then snd (hint_json cutoff c (a, h)) else jget (JObj (map (hint_json cutoff c) ds)) ip)"
    using hint_json_pair [of cutoff c a h] by (metis jget_simps(2) list.simps(9))
  then show ?case using Cons.IH by auto
qed simp

lemma hint_json_fields:
  "is_obj (snd (hint_json cutoff c p))"
  "\<exists>xs. jget (snd (hint_json cutoff c p)) ''hints'' = JList xs"
  "\<exists>n. jget (snd (hint_json cutoff c p)) ''ldap_clients'' = JInt n"
  "\<exists>n. jget (snd (hint_json cutoff c p)) ''dns_clients'' = JInt n"
  "\<exists>xs. jget (snd (hint_json cutoff c p)) ''ldap_client_ips'' = JList xs"
  "\<exists>xs. jget (snd (hint_json cutoff c p)) ''dns_client_ips'' = JList xs"
  by (simp_all add: hint_json_def Let_def jstr_list_def count_json_def split: prod.split)

lemma returns_hints: "returns (hints_for_ip (port_hint_index cutoff c) ip)"
proof -
  consider "jget (port_hint_index cutoff c) ip = JNull"
    | h where "jget (port_hint_index cutoff c) ip = snd (hint_json cutoff c (ip, h))"
    using jget_map_hint [of cutoff c "bc_ip_hints c" ip] by (auto simp: port_hint_index_def)
  then show ?thesis
  proof cases
    case (2 h)
    obtain xs where "jget (snd (hint_json cutoff c (ip, h))) ''hints'' = JList xs"
      using hint_json_fields(2) [of cutoff c "(ip, h)"] by blast
    then show ?thesis using 2 by (simp add: hints_for_ip_def)
  qed (simp add: hints_for_ip_def)
qed

lemma returns_modbus_row:
  "returns (modbus_row env (port_hint_index cutoff c) (modbus_server_json r) t)"
proof -
  have m: "returns (modbus_client env (port_hint_index cutoff c) plc client t)" for plc client t
    by (auto simp: modbus_client_def Let_def split: prod.split intro!: returns_bind returns_hints)
  have "jget (modbus_server_json r) ''allowed_clients'' = jstr_list (sorted_list_of_set (mo_clients r))"
    by (simp add: modbus_server_json_def)
  moreover have "py_list (py_or (jstr_list xs) (JList [])) = Inr (map JStr xs)" for xs
    by (simp add: py_or_def jstr_list_def)
  moreover have "returns (fold_res (modbus_client env (port_hint_index cutoff c) plc) xs t)" for plc xs t
    by (rule returns_fold) (rule m)
  ultimately show ?thesis by (simp add: modbus_row_def Let_def split: prod.split)
qed

lemma returns_hint_entry:
  "returns (hint_entry env (port_hint_index cutoff c) (hint_json cutoff c p) t)"
proof -
  have s: "returns (service_server env (port_hint_index cutoff c) ip ty pr hints ev ips t)" for ip ty pr hints ev ips t
    by (auto simp: service_server_def service_client_def Let_def split: prod.split
        intro!: returns_fold returns_bind returns_hints)
  obtain ip v where p: "hint_json cutoff c p = (ip, v)" by fastforce
  note f = hint_json_fields [of cutoff c p, unfolded p snd_conv]
  obtain hs nl nd li di where q: "jget v ''hints'' = JList hs" "jget v ''ldap_clients'' = JInt nl"
    "jget v ''dns_clients'' = JInt nd" "jget v ''ldap_client_ips'' = JList li" "jget v ''dns_client_ips'' = JList di"
    using f by metis
  have n: "\<exists>k. py_int (py_or (JInt m) (JInt 0)) = Inr k" for m by (simp add: py_or_def)
  obtain k1 k2 where "py_int (py_or (JInt nl) (JInt 0)) = Inr k1" "py_int (py_or (JInt nd) (JInt 0)) = Inr k2"
    using n by metis
  then show ?thesis using s f(1) by (simp add: p hint_entry_def q)
qed

lemma returns_comm_pair: "returns (comm_pair env v t)"
  by (auto simp: comm_pair_def Let_def split: prod.split)

lemma returns_mms_row: "returns (mms_row env v t)"
  by (auto simp: mms_row_def Let_def)

lemma returns_topology: "returns (build_observed_topology env (JObj (observed_json cutoff c)) (port_hint_index cutoff c))"
proof -
  have "returns (fold_res (modbus_row env (port_hint_index cutoff c)) (modbus_candidates cutoff c) t)" for t
    by (rule returns_fold) (auto simp: modbus_candidates_def intro: returns_modbus_row)
  moreover have "returns (fold_res (hint_entry env (port_hint_index cutoff c)) (obj_items (port_hint_index cutoff c)) t)" for t
    by (rule returns_fold) (auto simp: port_hint_index_def [THEN arg_cong [of _ _ obj_items]] intro: returns_hint_entry)
  moreover have "is_obj (port_hint_index cutoff c)" by (simp add: port_hint_index_def)
  moreover have "jget (JObj (observed_json cutoff c)) ''modbus_servers'' = JList (modbus_candidates cutoff c)"
    by (simp add: observed_json_def)
  ultimately show ?thesis
    unfolding build_observed_topology_def build_assets_def
    by (intro returns_bind) (auto simp: rows_of_def intro: returns_fold returns_mms_row returns_comm_pair)
qed

section \<open>What is learned is accepted\<close>

definition plain_mac :: "packet \<Rightarrow> bool" where
  "plain_mac p = (case pkt_ether p of None \<Rightarrow> True | Some e \<Rightarrow> CHR ''|'' \<notin> set (eth_src e))"

definition goose_obs_key :: "goose_obs \<Rightarrow> string" where
  "goose_obs_key ob = gb_mac ob @ ''|'' @ dec (gb_appid ob) @ ''|'' @ gb_gocb ob"

text \<open>The tables are keyed by what their entries say.\<close>

definition goose_row_ok :: "string \<times> goose_obs \<Rightarrow> bool" where
  "goose_row_ok p = (fst p = goose_obs_key (snd p) \<and> CHR ''|'' \<notin> set (gb_mac (snd p)))"

definition mms_row_ok :: "string \<times> mms_obs \<Rightarrow> bool" where
  "mms_row_ok p = (mr_ied_ip (snd p) = fst p)"

definition collector_inv :: "collector \<Rightarrow> bool" where
  "collector_inv c = (dict_wf (bc_goose c) \<and> dict_wf (bc_mms c) \<and>
     (\<forall>p\<in>set (bc_goose c). goose_row_ok p) \<and> (\<forall>p\<in>set (bc_mms c). mms_row_ok p))"

definition knows_goose :: "goose_frame \<Rightarrow> collector \<Rightarrow> bool" where
  "knows_goose frame c = (dict_get (bc_goose c) (goose_key frame) \<noteq> None)"

definition knows_mms :: "string \<Rightarrow> string \<Rightarrow> collector \<Rightarrow> bool" where
  "knows_mms ied client c = (\<exists>r. dict_get (bc_mms c) ied = Some r \<and> client \<in> set (dict_keys (mr_clients r)))"

lemma goose_obs_step_frame [simp]:
  "gb_mac (goose_obs_step now f ob) = gb_mac ob" "gb_appid (goose_obs_step now f ob) = gb_appid ob"
  "gb_gocb (goose_obs_step now f ob) = gb_gocb ob"
  by (simp_all add: goose_obs_step_def Let_def)

lemma mms_obs_step_frame [simp]:
  "mr_ied_ip (mms_obs_step now cl pdu r) = mr_ied_ip r"
  "set (dict_keys (mr_clients (mms_obs_step now cl pdu r))) =
     (if cl = [] then {} else {cl}) \<union> set (dict_keys (mr_clients r))"
  by (simp_all add: mms_obs_step_def Let_def)

lemma feeds_keep [simp]:
  "bc_goose (note_packet c) = bc_goose c" "bc_mms (note_packet c) = bc_mms c"
  "bc_goose (feed_endpoints now m a b c) = bc_goose c" "bc_mms (feed_endpoints now m a b c) = bc_mms c"
  "bc_goose (feed_transport now fl c) = bc_goose c" "bc_mms (feed_transport now fl c) = bc_mms c"
  "bc_goose (feed_modbus now fr c) = bc_goose c" "bc_mms (feed_modbus now fr c) = bc_mms c"
  "bc_goose (feed_mms now ob c) = bc_goose c" "bc_mms (feed_goose now f c) = bc_mms c"
  by (simp_all add: note_packet_def feed_endpoints_def feed_transport_def feed_modbus_def feed_mms_def
      feed_goose_def Let_def split: option.split prod.split)

lemma goose_key_obs: "goose_key f = goose_obs_key (new_goose_obs f)"
  by (simp add: goose_key_def goose_obs_key_def new_goose_obs_def)

lemma dict_upd_Ball:
  "\<forall>p\<in>set d. P p \<Longrightarrow> (\<And>v. (k, v) \<in> set d \<Longrightarrow> P (k, f v)) \<Longrightarrow> P (k, f dflt) \<Longrightarrow> \<forall>p\<in>set (dict_upd k dflt f d). P p"
  unfolding dict_upd_def by (rule dict_put_Ball) (auto split: option.split dest: dict_get_SomeD)

lemma feed_goose_inv:
  assumes "collector_inv c" and "CHR ''|'' \<notin> set (publisher_mac f)"
  shows "collector_inv (feed_goose now f c)"
proof -
  have "\<forall>p\<in>set (bc_goose (feed_goose now f c)). goose_row_ok p"
    unfolding feed_goose_def using assms
    by (simp, intro dict_upd_Ball)
      (auto simp: collector_inv_def goose_row_ok_def goose_key_obs goose_obs_key_def, auto simp: new_goose_obs_def)
  then show ?thesis using assms(1) by (simp add: collector_inv_def) (simp add: feed_goose_def)
qed

lemma feed_mms_inv:
  assumes "collector_inv c"
  shows "collector_inv (feed_mms now ob c)"
proof (cases "server_of MMS_PORT (mms_src_port ob) (mms_dst_port ob) (mms_src_ip ob) (mms_dst_ip ob)")
  case (Some q)
  obtain ied cl where q: "q = (ied, cl)" by fastforce
  define r0 where "r0 = \<lparr>mr_ied_ip = ied, mr_clients = [], mr_reads = 0, mr_writes = 0, mr_last_seen = 0\<rparr>"
  have b: "bc_mms (feed_mms now ob c) = dict_upd ied r0 (mms_obs_step now cl (pdu_type ob)) (bc_mms c)"
    by (simp add: feed_mms_def Some q r0_def)
  have "\<forall>p\<in>set (bc_mms (feed_mms now ob c)). mms_row_ok p"
    unfolding b using assms by (intro dict_upd_Ball) (auto simp: collector_inv_def mms_row_ok_def r0_def)
  then show ?thesis using assms b by (simp add: collector_inv_def)
qed (use assms in \<open>simp add: feed_mms_def\<close>)

lemma collector_inv_feeds [simp]:
  "collector_inv (feed_transport now fl c) = collector_inv c"
  "collector_inv (feed_modbus now fr c) = collector_inv c"
  by (simp_all add: collector_inv_def)

lemma knows_goose_feed: "knows_goose f (feed_goose now f' c) \<longleftrightarrow> goose_key f = goose_key f' \<or> knows_goose f c"
  by (auto simp: knows_goose_def feed_goose_def dict_get_upd)

lemma knows_mms_feed:
  "server_of MMS_PORT (mms_src_port ob) (mms_dst_port ob) (mms_src_ip ob) (mms_dst_ip ob) = Some (ied', cl') \<Longrightarrow>
     knows_mms ied cl (feed_mms now ob c) \<longleftrightarrow> (ied = ied' \<and> cl = cl' \<and> cl' \<noteq> []) \<or> knows_mms ied cl c"
  by (auto simp: knows_mms_def feed_mms_def dict_get_upd split: option.split)

lemma feed_upper_inv: "collector_inv c \<Longrightarrow> collector_inv (feed_upper now p c)"
  by (auto simp: feed_upper_def Let_def intro: feed_mms_inv split: option.split)

lemma feed_upper_goose [simp]: "bc_goose (feed_upper now p c) = bc_goose c"
  by (simp add: feed_upper_def Let_def split: option.split)

lemma feed_upper_mms: "bc_mms (feed_upper now p c) =
    (case parse_mms_packet p of None \<Rightarrow> bc_mms c | Some ob \<Rightarrow> bc_mms (feed_mms now ob c))"
  by (simp add: feed_upper_def Let_def split: option.split)

lemma goose_packet_mac: "parse_goose_packet p = Inr (Some f) \<Longrightarrow> \<exists>e. pkt_ether p = Some e \<and> publisher_mac f = eth_src e"
  by (auto simp: parse_goose_packet_def extract_l2_payload_def bind_res_eq_Inr Let_def split: option.splits if_splits)

lemma mms_packet_server: "parse_mms_packet p = Some ob \<Longrightarrow>
    server_of MMS_PORT (mms_src_port ob) (mms_dst_port ob) (mms_src_ip ob) (mms_dst_ip ob) = Some (mms_ied ob, mms_client ob)"
  by (auto simp: parse_mms_packet_def server_of_def mms_ied_def mms_client_def MMS_PORT_def split: option.splits if_splits)

text \<open>What one packet adds.\<close>

lemma collect_inv:
  assumes "collector_inv c" and "plain_mac p"
  shows "collector_inv (collect now p c)"
proof -
  have m: "CHR ''|'' \<notin> set (publisher_mac f)" if "parse_goose_packet p = Inr (Some f)" for f
    using goose_packet_mac [OF that] assms(2) by (auto simp: plain_mac_def)
  have e: "collector_inv (feed_endpoints now a b d (note_packet c))" for a b d
    using assms(1) by (simp add: collector_inv_def)
  then show ?thesis
    by (auto simp: collect_def Let_def m split: prod.split sum.split option.split
        intro!: feed_goose_inv feed_upper_inv) (simp add: collector_inv_def)
qed

lemma collect_knows:
  "knows_goose f c \<Longrightarrow> knows_goose f (collect now p c)"
  "knows_mms ied cl c \<Longrightarrow> knows_mms ied cl (collect now p c)"
  "parse_goose_packet p = Inr (Some f) \<Longrightarrow> knows_goose f (collect now p c)"
  "parse_goose_packet p = Inr None \<Longrightarrow> parse_mms_packet p = Some ob \<Longrightarrow> mms_client ob \<noteq> [] \<Longrightarrow>
     knows_mms (mms_ied ob) (mms_client ob) (collect now p c)"
proof -
  have k: "knows_goose f (c\<lparr>bc_parse_errors := n\<rparr>) = knows_goose f c"
    "knows_mms ied cl (c\<lparr>bc_parse_errors := n\<rparr>) = knows_mms ied cl c"
    "knows_goose f (feed_endpoints now a b d (note_packet c)) = knows_goose f c"
    "knows_mms ied cl (feed_endpoints now a b d (note_packet c)) = knows_mms ied cl c"
    "knows_goose f (feed_upper now p c) = knows_goose f c"
    "knows_mms ied cl (feed_goose now f' c) = knows_mms ied cl c"
    for f f' n ied cl a b d and c :: collector
    by (simp_all add: knows_goose_def knows_mms_def)
  have u: "knows_mms ied cl (feed_upper now p c) \<longleftrightarrow>
      knows_mms ied cl c \<or> (\<exists>ob. parse_mms_packet p = Some ob \<and> ied = mms_ied ob \<and> cl = mms_client ob \<and> cl \<noteq> [])"
    for ied cl and c :: collector
  proof (cases "parse_mms_packet p")
    case (Some ob)
    have "knows_mms ied cl (feed_upper now p c) = knows_mms ied cl (feed_mms now ob c)"
      using Some by (simp add: knows_mms_def feed_upper_mms)
    then show ?thesis using knows_mms_feed [OF mms_packet_server [OF Some]] Some by auto
  qed (simp add: knows_mms_def feed_upper_mms)
  note d = collect_def Let_def k u knows_goose_feed
  show "knows_goose f c \<Longrightarrow> knows_goose f (collect now p c)"
    and "knows_mms ied cl c \<Longrightarrow> knows_mms ied cl (collect now p c)"
    by (auto simp: d split: prod.split sum.split option.split)
  show "parse_goose_packet p = Inr (Some f) \<Longrightarrow> knows_goose f (collect now p c)"
    by (auto simp: d split: prod.split)
  show "parse_goose_packet p = Inr None \<Longrightarrow> parse_mms_packet p = Some ob \<Longrightarrow> mms_client ob \<noteq> [] \<Longrightarrow>
     knows_mms (mms_ied ob) (mms_client ob) (collect now p c)"
    by (auto simp: d split: prod.split)
qed

definition collect_all :: "(pyfloat \<times> packet) list \<Rightarrow> collector \<Rightarrow> collector" where
  "collect_all = fold (\<lambda>(t, p). collect t p)"

lemma collect_all_inv: "collector_inv c \<Longrightarrow> \<forall>(t, p)\<in>set ps. plain_mac p \<Longrightarrow> collector_inv (collect_all ps c)"
  unfolding collect_all_def by (induction ps arbitrary: c) (auto intro: collect_inv)

lemma collect_all_keeps:
  "(\<And>t p c. K c \<Longrightarrow> K (collect t p c)) \<Longrightarrow> K c \<Longrightarrow> K (collect_all ps c)"
  unfolding collect_all_def by (induction ps arbitrary: c) auto

lemma collect_all_knows:
  assumes "\<And>t p c. K c \<Longrightarrow> K (collect t p c)" and "\<And>t c. K (collect t p c)" and "(t, p) \<in> set ps"
  shows "K (collect_all ps c)"
proof -
  obtain qs rs where "ps = qs @ (t, p) # rs" using assms(3) by (auto dest: split_list)
  then have "collect_all ps c = collect_all rs (collect t p (collect_all qs c))" by (simp add: collect_all_def)
  then show ?thesis using collect_all_keeps [of K "collect t p (collect_all qs c)" rs] assms(1,2) by simp
qed

subsection \<open>Reading the candidate back\<close>

definition learned_entry :: "nat \<times> goose_obs \<Rightarrow> goose_entry" where
  "learned_entry = (\<lambda>(i, ob). \<lparr>ge_mac = gb_mac ob, ge_appid = int (gb_appid ob), ge_gocb = gb_gocb ob,
     ge_production = (gb_production_frames ob > 0 \<or> gb_test_frames ob = 0),
     ge_asset = ''learned-goose-'' @ zpad 2 i\<rparr>)"

definition learned_ied :: "nat \<times> mms_obs \<Rightarrow> ied_entry" where
  "learned_ied = (\<lambda>(i, r). \<lparr>ied_ip = Some (mr_ied_ip r), ied_clients = sort (dict_keys (mr_clients r))\<rparr>)"

lemma jget_default_simps [simp]:
  "jget_default (JObj []) k dflt = dflt"
  "jget_default (JObj ((a, v) # d)) k dflt = (if a = k then v else jget_default (JObj d) k dflt)"
  by (simp_all add: jget_default_def)

lemma goose_entry_learned: "goose_entry_of (goose_publisher_json x) = Some (learned_entry x)"
  by (simp add: goose_publisher_json_def goose_entry_of_def learned_entry_def text_field_def learned_id_def
      split: prod.split)

lemma map_filter_texts: "List.map_filter text_value (map JStr xs) = xs"
  by (induction xs) (simp_all add: List.map_filter_simps text_value_def)

lemma fresh_keys_None [simp]: "fresh_keys None d = sort (dict_keys d)"
proof -
  have "filter (\<lambda>(k, seen). fresh_since None seen) d = d" by (simp add: fresh_since_def case_prod_unfold)
  then show ?thesis by (simp add: fresh_keys_def dict_keys_def)
qed

lemma ied_entry_learned: "ied_entry_of (mms_ied_json None x) = Some (learned_ied x)"
  by (simp add: mms_ied_json_def ied_entry_of_def learned_ied_def jstr_list_def map_filter_texts split: prod.split)
     (simp add: text_value_def)

lemma those_map: "(\<And>x. g x = Some (h x)) \<Longrightarrow> those (map g xs) = Some (map h xs)"
  by (induction xs) simp_all

lemma collect_ids: "bc_tenant (collect t p c) = bc_tenant c" "bc_sensor (collect t p c) = bc_sensor c"
  by (simp_all add: collect_def Let_def feed_upper_def feed_goose_def feed_mms_def feed_modbus_def
      feed_transport_def feed_endpoints_def note_packet_def split: prod.split sum.split option.split)

definition policy_learned_from :: "collector \<Rightarrow> iec_policy" where
  "policy_learned_from c = \<lparr>goose_publishers = map learned_entry (enumerate 1
       (sort_key (\<lambda>ob. (gb_appid ob, gb_mac ob)) (map snd (bc_goose c)))),
     mms_ieds = map learned_ied (enumerate 1 (sort_key mr_ied_ip (map snd (bc_mms c)))), iec_thresholds = []\<rparr>"

lemma py_or_list: "py_list (py_or (JList xs) (JList [])) = Inr xs" "py_dict (py_or JNull (JObj [])) = Inr []"
  by (cases xs) (simp_all add: py_or_def)

lemma learned_policy_eq:
  "learned_policy digest now at_iso name ps = Some (policy_learned_from (collect_all ps (collector_init [] [])))"
proof -
  define c where "c = collect_all ps (collector_init [] [])"
  have empty_ids: "bc_tenant c = [] \<and> bc_sensor c = []"
    unfolding c_def by (rule collect_all_keeps) (simp_all add: collect_ids, simp add: collector_init_def)
  have "those (map goose_entry_of (goose_candidates None c)) = Some (goose_publishers (policy_learned_from c))"
    unfolding goose_candidates_def map_map
    by (subst those_map [where h = learned_entry])
      (simp_all add: goose_entry_learned policy_learned_from_def fresh_since_def)
  moreover have "those (map ied_entry_of (mms_candidates None c)) = Some (mms_ieds (policy_learned_from c))"
    unfolding mms_candidates_def map_map
    by (subst those_map [where h = learned_ied])
      (simp_all add: ied_entry_learned policy_learned_from_def fresh_since_def)
  ultimately show ?thesis
    using empty_ids unfolding learned_policy_def learn_from_pcap_def
    by (simp add: c_def [symmetric] collect_all_def [symmetric] to_candidate_def cutoff_of_def with_topology_def
        observed_to_detection_baseline_def observed_json_def obj_field_def obj_or_empty_def py_or_list
        Let_def iec_policy_of_def policy_learned_from_def List.map_filter_simps)
qed

lemma enumerate_mem: "x \<in> set xs \<Longrightarrow> \<exists>i. (i, x) \<in> set (enumerate n xs)"
  by (metis imageE map_snd_enumerate prod.collapse set_map)

lemma enumerate_memD: "(i, x) \<in> set (enumerate n xs) \<Longrightarrow> x \<in> set xs"
  by (metis map_snd_enumerate set_map image_eqI snd_conv)

text \<open>A key names its publisher when the MAC address has no bar.\<close>

lemma split_bar: "a @ CHR ''|'' # x = b @ CHR ''|'' # y \<Longrightarrow> CHR ''|'' \<notin> set a \<Longrightarrow> CHR ''|'' \<notin> set b \<Longrightarrow> a = b \<and> x = y"
  by (auto simp: append_eq_append_conv2 append_eq_Cons_conv Cons_eq_append_conv)

lemma no_bar_dec: "CHR ''|'' \<notin> set (dec n)"
  using dec_digits [of "CHR ''|''" n] by (auto simp: is_digit_def chr_code_def)

lemma goose_row_of_key:
  assumes "goose_row_ok (goose_key f, ob)" and "CHR ''|'' \<notin> set (publisher_mac f)"
  shows "gb_mac ob = publisher_mac f \<and> gb_appid ob = appid f \<and> gb_gocb ob = gocb_ref f"
proof -
  have "publisher_mac f @ CHR ''|'' # dec (appid f) @ CHR ''|'' # gocb_ref f =
      gb_mac ob @ CHR ''|'' # dec (gb_appid ob) @ CHR ''|'' # gb_gocb ob" "CHR ''|'' \<notin> set (gb_mac ob)"
    using assms(1) by (simp_all add: goose_row_ok_def goose_key_def goose_obs_key_def)
  from split_bar [OF this(1) assms(2) this(2)]
  have m: "publisher_mac f = gb_mac ob" and r: "dec (appid f) @ CHR ''|'' # gocb_ref f = dec (gb_appid ob) @ CHR ''|'' # gb_gocb ob"
    by simp_all
  from split_bar [OF r no_bar_dec no_bar_dec] m show ?thesis by simp
qed

lemma known_goose_matches:
  assumes "collector_inv c" and "knows_goose f c" and "CHR ''|'' \<notin> set (publisher_mac f)"
    and "iec_pol d = policy_learned_from c"
  shows "match_goose_baseline d f \<noteq> None"
proof -
  obtain ob where ob: "dict_get (bc_goose c) (goose_key f) = Some ob" using assms(2) by (auto simp: knows_goose_def)
  then have mem: "(goose_key f, ob) \<in> set (bc_goose c)" by (rule dict_get_SomeD)
  then have "goose_row_ok (goose_key f, ob)" using assms(1) by (simp add: collector_inv_def)
  note row = goose_row_of_key [OF this assms(3)]
  obtain i where "(i, ob) \<in> set (enumerate 1 (sort_key (\<lambda>ob. (gb_appid ob, gb_mac ob)) (map snd (bc_goose c))))"
    using enumerate_mem [of ob] mem by force
  then have "learned_entry (i, ob) \<in> set (goose_publishers (iec_pol d))"
    by (simp add: assms(4) policy_learned_from_def image_iff) (metis (no_types))
  moreover have "entry_matches f (learned_entry (i, ob))" using row by (simp add: entry_matches_def learned_entry_def)
  ultimately show ?thesis by (auto simp: match_goose_baseline_def find_None_iff)
qed

lemma known_mms_allowed:
  assumes "collector_inv c" and "knows_mms ied client c" and "iec_pol d = policy_learned_from c"
  shows "is_allowed_mms_client d client ied" and "is_known_mms_pair d client ied"
proof -
  obtain r where r: "dict_get (bc_mms c) ied = Some r" "client \<in> set (dict_keys (mr_clients r))"
    using assms(2) by (auto simp: knows_mms_def)
  have mem: "(ied, r) \<in> set (bc_mms c)" using r(1) by (rule dict_get_SomeD)
  have uniq: "r' = r" if m: "r' \<in> set (map snd (bc_mms c))" "mr_ied_ip r' = ied" for r'
  proof -
    obtain k where "(k, r') \<in> set (bc_mms c)" using m(1) by force
    moreover have "mms_row_ok p" if "p \<in> set (bc_mms c)" for p using assms(1) that by (simp add: collector_inv_def)
    from this [OF calculation] have "k = ied" using m(2) by (simp add: mms_row_ok_def)
    moreover have "dict_wf (bc_mms c)" using assms(1) by (simp add: collector_inv_def)
    ultimately have "dict_get (bc_mms c) ied = Some r'" using \<open>k = ied\<close> by (simp add: dict_get_Some_iff)
    then show ?thesis using r(1) by simp
  qed
  define es where "es = enumerate 1 (sort_key mr_ied_ip (map snd (bc_mms c)))"
  have ids: "mms_ieds (iec_pol d) = map learned_ied es" by (simp add: assms(3) policy_learned_from_def es_def)
  have good: "client \<in> set (ied_clients e)" if m: "e \<in> set (map learned_ied es)" "ied_ip e = Some ied" for e
  proof -
    obtain i r' where e: "e = learned_ied (i, r')" "(i, r') \<in> set es" using m(1) by auto
    then have "r' \<in> set (map snd (bc_mms c))" using enumerate_memD [OF e(2) [unfolded es_def]] by (simp del: set_map)
    moreover have "mr_ied_ip r' = ied" using m(2) e(1) by (simp add: learned_ied_def)
    ultimately have "r' = r" by (rule uniq)
    then show ?thesis using r(2) e(1) by (simp add: learned_ied_def)
  qed
  have ri1: "mr_ied_ip r = ied" using mem assms(1) by (auto simp: collector_inv_def mms_row_ok_def)
  have "r \<in> set (sort_key mr_ied_ip (map snd (bc_mms c)))" using mem by force
  from enumerate_mem [OF this] obtain i where ri: "(i, r) \<in> set es" unfolding es_def by blast
  have "learned_ied (i, r) \<in> set (map learned_ied es)" unfolding set_map using ri by (rule imageI)
  moreover have "ied_ip (learned_ied (i, r)) = Some ied" using ri1 by (simp add: learned_ied_def)
  ultimately have ex: "\<exists>e\<in>set (map learned_ied es). ied_ip e = Some ied" by blast
  then obtain e where "e \<in> set (map learned_ied es)" "ied_ip e = Some ied" by blast
  then show "is_known_mms_pair d client ied"
    unfolding is_known_mms_pair_def ids list_ex_iff using good by blast
  obtain e where e: "find (\<lambda>e. ied_ip e = Some ied) (map learned_ied es) = Some e"
    using ex find_None_iff [of "\<lambda>e. ied_ip e = Some ied" "map learned_ied es"]
    by (cases "find (\<lambda>e. ied_ip e = Some ied) (map learned_ied es)") blast+
  then have "client \<in> set (ied_clients e)" using find_Some_mem [OF e] good by blast
  then show "is_allowed_mms_client d client ied" unfolding is_allowed_mms_client_def ids e by simp
qed

lemma evaluate_mms_quiet:
  assumes "is_allowed_mms_client d (mms_client ob) (mms_ied ob)" "is_known_mms_pair d (mms_client ob) (mms_ied ob)"
  shows "snd (evaluate_mms clk ob d) = []"
proof -
  have p: "is_known_mms_pair (d\<lparr>known_mms_pairs := K\<rparr>) a b = is_known_mms_pair d a b"
    "is_allowed_mms_client (d\<lparr>known_mms_pairs := K\<rparr>) a b = is_allowed_mms_client d a b" for K a b
    by (simp_all add: is_known_mms_pair_def is_allowed_mms_client_def)
  show ?thesis
    using assms by (simp add: evaluate_mms_def keep_enabled_def rule_ot014_def rule_ot016_def rule_ot018_def
        no_event_def Let_def p)
qed

lemma matched_goose_quiet:
  assumes "match_goose_baseline d f \<noteq> None" and "e \<in> set (snd (evaluate_goose clk f d))"
  shows "ev_rule e \<noteq> ''OT-011''"
proof -
  have m: "match_goose_baseline (d\<lparr>known_goose := K\<rparr>) f = match_goose_baseline d f" for K
    by (simp add: match_goose_baseline_def)
  have "snd (rule_ot011 clk f d) = []" using assms(1) by (auto simp: rule_ot011_def no_event_def Let_def)
  moreover have "set (map ev_rule (snd (rule_ot013 clk f d'))) \<subseteq> {''OT-013''}" for d'
    by (simp add: rule_ot013_def no_event_def iec_event_def Let_def split: option.split)
  ultimately have "set (map ev_rule (snd (evaluate_goose clk f d))) \<subseteq> {''OT-012'', ''OT-013''}"
    using rule_names(2) [of clk f] by (auto simp: evaluate_goose_def keep_enabled_def rule_names(3)) fastforce+
  then have "ev_rule e \<in> {''OT-012'', ''OT-013''}" using assms(2) by auto
  then show ?thesis by auto
qed

section \<open>Properties\<close>

text \<open>
  C18. A baseline candidate is always produced: whatever a collector has recorded, and for
  every ageing window, building the document, its topology included, raises no exception.
\<close>

theorem candidate_always_built:
  "\<exists>v. to_candidate digest now at_iso source source_ref window c = Inr v"
proof -
  have "returns (with_topology digest cutoff c)" for cutoff
    using returns_topology [of _ cutoff c] by (auto simp: with_topology_def Let_def intro!: returns_bind)
  then obtain t where "with_topology digest (cutoff_of now window) c = Inr t" by (auto simp: returns_def)
  then show ?thesis by (simp add: to_candidate_def Let_def)
qed

text \<open>
  C16. What is learned is accepted: for a capture whose source MAC addresses are free of bars,
  the candidate learned from it, approved as a profile and read back by the detector, is a
  policy that matches every GOOSE frame of the capture, so none of them is a new publisher,
  and under which no MMS observation of the capture with a named client raises an event.
\<close>

theorem learned_baseline_accepts:
  assumes "\<forall>(t, p)\<in>set ps. plain_mac p"
  shows "\<exists>pol. learned_policy digest now at_iso name ps = Some pol \<and>
     (\<forall>(t, p)\<in>set ps. \<forall>d clk. iec_pol d = pol \<longrightarrow>
        (\<forall>f. parse_goose_packet p = Inr (Some f) \<longrightarrow> match_goose_baseline d f \<noteq> None \<and>
           (\<forall>e\<in>set (snd (evaluate_goose clk f d)). ev_rule e \<noteq> ''OT-011'')) \<and>
        (\<forall>ob. parse_goose_packet p = Inr None \<longrightarrow> parse_mms_packet p = Some ob \<longrightarrow> mms_client ob \<noteq> [] \<longrightarrow>
           snd (evaluate_mms clk ob d) = []))"
proof -
  define c where "c = collect_all ps (collector_init [] [])"
  have inv: "collector_inv c"
    unfolding c_def by (rule collect_all_inv [OF _ assms]) (simp add: collector_inv_def collector_init_def)
  have goose: "match_goose_baseline d f \<noteq> None"
    if m: "(t, p) \<in> set ps" "iec_pol d = policy_learned_from c" "parse_goose_packet p = Inr (Some f)" for t p d f
  proof -
    have "knows_goose f c"
      unfolding c_def by (rule collect_all_knows [OF _ _ m(1)]) (simp_all add: collect_knows m(3))
    moreover have "CHR ''|'' \<notin> set (publisher_mac f)"
      using goose_packet_mac [OF m(3)] assms m(1) by (auto simp: plain_mac_def)
    ultimately show ?thesis using known_goose_matches inv m(2) by blast
  qed
  have mms: "snd (evaluate_mms clk ob d) = []"
    if m: "(t, p) \<in> set ps" "iec_pol d = policy_learned_from c" "parse_goose_packet p = Inr None"
      "parse_mms_packet p = Some ob" "mms_client ob \<noteq> []" for t p d ob clk
  proof -
    have "knows_mms (mms_ied ob) (mms_client ob) c"
      unfolding c_def by (rule collect_all_knows [OF _ _ m(1)]) (simp_all add: collect_knows m(3-5))
    then show ?thesis using known_mms_allowed [OF inv _ m(2)] by (intro evaluate_mms_quiet)
  qed
  note quiet = matched_goose_quiet
  have "learned_policy digest now at_iso name ps = Some (policy_learned_from c)" by (simp add: learned_policy_eq c_def)
  moreover note goose quiet [OF goose] mms
  ultimately show ?thesis by (intro exI [of _ "policy_learned_from c"]) blast
qed

definition mms_session :: packet where
  "mms_session = \<lparr>pkt_bytes = None, pkt_ether = None,
     pkt_ip = Some \<lparr>ip_src = ''10.0.0.5'', ip_dst = ''10.0.0.9''\<rparr>, pkt_ip6 = None,
     pkt_tcp = Some \<lparr>l4_sport = 4000, l4_dport = 102, l4_payload = [3, 0]\<rparr>, pkt_udp = None\<rparr>"

theorem learned_baseline_accepts_witness:
  "\<exists>pol ob. learned_policy (\<lambda>s. s) 5 ''t'' ''x.pcap'' [(1, mms_session)] = Some pol \<and>
     parse_mms_packet mms_session = Some ob \<and>
     snd (evaluate_mms (clock_at 9) ob (iec_init ''s'' ''n'' pol {})) = []"
proof -
  obtain ob where ob: "parse_goose_packet mms_session = Inr None" "parse_mms_packet mms_session = Some ob" "mms_client ob \<noteq> []"
    by (simp add: mms_session_def parse_goose_packet_def extract_l2_payload_def parse_mms_packet_def MMS_PORT_def mms_client_def)
  have "\<forall>(t, p)\<in>set [(1, mms_session)]. plain_mac p" by (simp add: plain_mac_def mms_session_def)
  from learned_baseline_accepts [OF this, of "\<lambda>s. s" 5 "''t''" "''x.pcap''"]
  obtain pol where "learned_policy (\<lambda>s. s) 5 ''t'' ''x.pcap'' [(1, mms_session)] = Some pol"
    "\<And>d clk. iec_pol d = pol \<Longrightarrow> snd (evaluate_mms clk ob d) = []" using ob by auto
  then show ?thesis using ob(2) by (auto simp: iec_init_def)
qed

end
