(* ===== verification/Features.thy ===== *)
theory Features
  imports Goose Mms Events
begin

text \<open>
  The feature summaries of the packet sensor (\<open>features/publisher.py\<close>): what one window
  writes to files and publishes. Files and topics are the lists of what is written, in
  order; the MQTT client and the disk are outside.
\<close>

record feature_publisher =
  fp_sensor :: string
  fp_site :: string
  fp_prefix :: string
  fp_edgex_topic :: string

definition feature_publisher_init :: "string \<Rightarrow> string \<Rightarrow> string \<Rightarrow> string \<Rightarrow> string \<Rightarrow> feature_publisher" where
  "feature_publisher_init sensor site prefix device topic = \<lparr>fp_sensor = sensor, fp_site = site,
     fp_prefix = rev (dropWhile (\<lambda>c. c = CHR ''/'') (rev prefix)),
     fp_edgex_topic = (if topic \<noteq> [] then topic else ''incoming/data/'' @ device @ ''/FeatureSummary'')\<rparr>"

text \<open>The effects of a window: files written and messages published.\<close>

record window_output =
  wo_files :: "(string \<times> json) list"
  wo_messages :: "(string \<times> json) list"

definition jnat :: "nat \<Rightarrow> json" where
  "jnat n = JInt (int n)"

definition sensel_message :: "feature_publisher \<Rightarrow> string \<Rightarrow> json \<Rightarrow> string \<times> json" where
  "sensel_message fp suffix payload = (fp_prefix fp @ ''/'' @ fp_sensor fp @ ''/'' @ suffix, payload)"

definition emit_summary :: "feature_publisher \<Rightarrow> string \<Rightarrow> string \<Rightarrow> json \<Rightarrow> window_output \<Rightarrow> window_output" where
  "emit_summary fp file suffix payload w = w\<lparr>wo_files := wo_files w @ [(file, payload)],
     wo_messages := wo_messages w @ [sensel_message fp suffix payload]\<rparr>"

definition packet_rate :: "l2_stats \<Rightarrow> int \<Rightarrow> pyfloat" where
  "packet_rate l2 window_sec = py_round 2 (of_nat (window_total l2) / of_int (max window_sec 1))"

definition mms_active :: "mms_stats \<Rightarrow> bool" where
  "mms_active s = (read_count s \<noteq> 0 \<or> write_count s \<noteq> 0 \<or> session_keys s \<noteq> {})"

definition window_text :: "int \<Rightarrow> string" where
  "window_text window_sec = dec_int window_sec @ ''s''"

definition window_summary :: "feature_publisher \<Rightarrow> string \<Rightarrow> l2_stats \<Rightarrow> int \<Rightarrow> goose_stats \<Rightarrow> mms_stats \<Rightarrow> json" where
  "window_summary fp now l2 window_sec goose mms = JObj
     ([(''sensor_id'', JStr (fp_sensor fp)), (''site_id'', JStr (fp_site fp)),
       (''window'', JStr (window_text window_sec)), (''protocol'', JStr ''aggregate''),
       (''packet_count'', jnat (window_total l2)), (''packet_rate'', JFloat (packet_rate l2 window_sec)),
       (''unique_mac_count'', jnat (length (window_mac_counts l2))), (''timestamp'', JStr now)]
      @ (if message_count goose \<noteq> 0 then [(''goose_message_count'', jnat (message_count goose)),
            (''goose_unique_publishers'', jnat (length (publishers goose)))] else [])
      @ (if mms_active mms then [(''mms_write_count'', jnat (write_count mms)),
            (''mms_read_count'', jnat (read_count mms))] else []))"

definition goose_summary :: "feature_publisher \<Rightarrow> string \<Rightarrow> goose_stats \<Rightarrow> string \<Rightarrow> json" where
  "goose_summary fp now stats window = JObj
     ([(''sensor_id'', JStr (fp_sensor fp)), (''site_id'', JStr (fp_site fp)), (''window'', JStr window),
       (''protocol'', JStr ''iec61850-goose''), (''goose_message_count'', jnat (message_count stats)),
       (''goose_stnum_changes'', jnat (stnum_changes stats)),
       (''goose_test_flag_count'', jnat (test_flag_count stats)),
       (''goose_unique_publishers'', jnat (length (publishers stats))), (''timestamp'', JStr now)]
      @ (case publishers stats of [] \<Rightarrow> []
         | (k, first) # _ \<Rightarrow> [(''goose_appid'', jnat (appid first)), (''goose_gocb_ref'', JStr (gocb_ref first)),
             (''goose_publisher_mac'', JStr (publisher_mac first))]))"

definition mms_summary :: "feature_publisher \<Rightarrow> string \<Rightarrow> mms_stats \<Rightarrow> string \<Rightarrow> json" where
  "mms_summary fp now stats window = JObj
     ([(''sensor_id'', JStr (fp_sensor fp)), (''site_id'', JStr (fp_site fp)), (''window'', JStr window),
       (''protocol'', JStr ''iec61850-mms''), (''mms_session_count'', jnat (card (session_keys stats))),
       (''mms_read_count'', jnat (read_count stats)), (''mms_write_count'', jnat (write_count stats)),
       (''mms_report_count'', jnat (report_count stats)), (''timestamp'', JStr now)]
      @ (if observations stats = [] then []
         else let ob = last (observations stats) in
           [(''ied_address'', JStr (if mms_dst_port ob = 102 then mms_dst_ip ob else mms_src_ip ob)),
            (''src_ip'', JStr (mms_src_ip ob)), (''dst_ip'', JStr (mms_dst_ip ob)), (''port'', JInt 102)]))"

definition publish_window :: "feature_publisher \<Rightarrow> string \<Rightarrow> l2_stats \<Rightarrow> int \<Rightarrow> goose_stats \<Rightarrow> mms_stats \<Rightarrow> window_output" where
  "publish_window fp now l2 window_sec goose mms =
     (let w = emit_summary fp ''feature-summary.json'' ''features/summary''
                (window_summary fp now l2 window_sec goose mms) \<lparr>wo_files = [], wo_messages = []\<rparr>;
          w = w\<lparr>wo_messages := wo_messages w @ [(fp_edgex_topic fp,
                JObj [(''PacketRate'', JFloat (packet_rate l2 window_sec)),
                      (''UniqueMacCount'', jnat (length (window_mac_counts l2)))])]\<rparr>;
          w = (if message_count goose \<noteq> 0
               then emit_summary fp ''iec61850-goose-summary.json'' ''features/iec61850/goose''
                      (goose_summary fp now goose (window_text window_sec)) w else w)
      in (if mms_active mms
          then emit_summary fp ''iec61850-mms-summary.json'' ''features/iec61850/mms''
                 (mms_summary fp now mms (window_text window_sec)) w else w))"

lemma publish_window_first:
  "hd (wo_files (publish_window fp now l2 w g m)) = (''feature-summary.json'', window_summary fp now l2 w g m)"
  by (simp add: publish_window_def emit_summary_def Let_def)

lemma jget_packet_count:
  "jget (window_summary fp now l2 w g m) ''packet_count'' = jnat (window_total l2)"
  by (simp add: window_summary_def)

end
