(* ===== verification/Inventory.thy ===== *)
theory Inventory
  imports Packet
begin

text \<open>
  The asset inventory (\<open>assets/inventory.py\<close>): what was seen of MACs, addresses, pairs and
  ports, the last sighting of every address, and the port samples of the scan rule. The code
  reads \<open>time.monotonic()\<close>; the reading is an argument.
\<close>

record inventory_observation =
  ob_src_mac :: "string option"
  ob_src_ip :: "string option"
  ob_dst_ip :: "string option"
  ob_dst_port :: "nat option"
  ob_protocol :: "string option"

record inventory =
  mac_to_ip :: "(string, string) dict"
  known_macs :: "string set"
  known_ips :: "string set"
  known_pairs :: "string set"
  known_dst_ports :: "string set"
  last_seen_by_ip :: "(string, pyfloat) dict"
  window_packet_count :: nat
  port_scan_events :: "(string, (pyfloat \<times> nat) list) dict"

definition inventory_init :: inventory where
  "inventory_init = \<lparr>mac_to_ip = [], known_macs = {}, known_ips = {}, known_pairs = {},
     known_dst_ports = {}, last_seen_by_ip = [], window_packet_count = 0, port_scan_events = []\<rparr>"

definition observe :: "pyfloat \<Rightarrow> string option \<Rightarrow> string option \<Rightarrow> string option \<Rightarrow> nat option \<Rightarrow>
    string option \<Rightarrow> inventory \<Rightarrow> inventory \<times> inventory_observation" where
  "observe now src_mac src_ip dst_ip dst_port protocol iv =
     (let iv = iv\<lparr>window_packet_count := window_packet_count iv + 1\<rparr>;
          iv = (if some_text src_ip
                 then iv\<lparr>last_seen_by_ip := dict_put (text_of src_ip) now (last_seen_by_ip iv)\<rparr> else iv);
          iv = (if some_text dst_ip
                 then iv\<lparr>last_seen_by_ip := dict_put (text_of dst_ip) now (last_seen_by_ip iv)\<rparr> else iv);
          iv = (if some_text src_mac \<and> some_text src_ip
                 then iv\<lparr>mac_to_ip := dict_put (text_of src_mac) (text_of src_ip) (mac_to_ip iv)\<rparr> else iv)
      in (iv, \<lparr>ob_src_mac = src_mac, ob_src_ip = src_ip, ob_dst_ip = dst_ip,
                ob_dst_port = dst_port, ob_protocol = protocol\<rparr>))"

definition scan_samples :: "inventory \<Rightarrow> string \<Rightarrow> (pyfloat \<times> nat) list" where
  "scan_samples iv ip = (case dict_get (port_scan_events iv) ip of None \<Rightarrow> [] | Some es \<Rightarrow> es)"

definition record_port_scan_sample :: "string \<Rightarrow> nat \<Rightarrow> pyfloat \<Rightarrow> inventory \<Rightarrow> inventory" where
  "record_port_scan_sample src_ip dst_port ts iv =
     iv\<lparr>port_scan_events := dict_put src_ip (scan_samples iv src_ip @ [(ts, dst_port)])
            (port_scan_events iv)\<rparr>"

text \<open>Drops the samples older than the window; the set of ports is returned without repeats.\<close>

definition unique_ports_in_window :: "string \<Rightarrow> pyfloat \<Rightarrow> pyfloat \<Rightarrow> inventory \<Rightarrow> inventory \<times> nat list" where
  "unique_ports_in_window src_ip window_sec ts iv =
     (let cutoff = ts - window_sec;
          kept = filter (\<lambda>(t, p). cutoff \<le> t) (scan_samples iv src_ip)
      in (iv\<lparr>port_scan_events := dict_put src_ip kept (port_scan_events iv)\<rparr>,
          remdups (map snd (filter (\<lambda>(t, p). cutoff \<le> t) kept))))"

definition reset_window :: "inventory \<Rightarrow> inventory" where
  "reset_window iv = iv\<lparr>window_packet_count := 0\<rparr>"

section \<open>Lemmas\<close>

lemma unique_ports_set:
  "set (snd (unique_ports_in_window ip w ts iv)) =
     {p. \<exists>t. (t, p) \<in> set (scan_samples iv ip) \<and> ts - w \<le> t}"
  by (force simp: unique_ports_in_window_def Let_def)

lemma unique_ports_distinct: "distinct (snd (unique_ports_in_window ip w ts iv))"
  by (simp add: unique_ports_in_window_def Let_def)

lemma scan_samples_record [simp]:
  "scan_samples (record_port_scan_sample ip port ts iv) ip' =
     (if ip' = ip then scan_samples iv ip @ [(ts, port)] else scan_samples iv ip')"
  by (simp add: scan_samples_def record_port_scan_sample_def)

lemma scan_samples_window [simp]:
  "scan_samples (fst (unique_ports_in_window ip w ts iv)) ip' =
     (if ip' = ip then filter (\<lambda>(t, p). ts - w \<le> t) (scan_samples iv ip) else scan_samples iv ip')"
  by (simp add: scan_samples_def unique_ports_in_window_def Let_def)

lemma inventory_frames [simp]:
  "known_macs (record_port_scan_sample ip port ts iv) = known_macs iv"
  "known_ips (record_port_scan_sample ip port ts iv) = known_ips iv"
  "known_pairs (record_port_scan_sample ip port ts iv) = known_pairs iv"
  "known_dst_ports (record_port_scan_sample ip port ts iv) = known_dst_ports iv"
  "mac_to_ip (record_port_scan_sample ip port ts iv) = mac_to_ip iv"
  "known_macs (fst (unique_ports_in_window ip w ts iv)) = known_macs iv"
  "known_ips (fst (unique_ports_in_window ip w ts iv)) = known_ips iv"
  "known_pairs (fst (unique_ports_in_window ip w ts iv)) = known_pairs iv"
  "known_dst_ports (fst (unique_ports_in_window ip w ts iv)) = known_dst_ports iv"
  "mac_to_ip (fst (unique_ports_in_window ip w ts iv)) = mac_to_ip iv"
  by (simp_all add: record_port_scan_sample_def unique_ports_in_window_def Let_def)

text \<open>Observing a packet with a MAC and an address overwrites the mapping of that MAC.\<close>

lemma observe_mac_to_ip:
  "dict_get (mac_to_ip (fst (observe now m ip dip port proto iv))) k =
     (if some_text m \<and> some_text ip \<and> k = text_of m then Some (text_of ip) else dict_get (mac_to_ip iv) k)"
  by (simp add: observe_def Let_def)

lemma observe_known [simp]:
  "known_macs (fst (observe now m ip dip port proto iv)) = known_macs iv"
  "known_ips (fst (observe now m ip dip port proto iv)) = known_ips iv"
  "known_pairs (fst (observe now m ip dip port proto iv)) = known_pairs iv"
  "known_dst_ports (fst (observe now m ip dip port proto iv)) = known_dst_ports iv"
  by (simp_all add: observe_def Let_def)

lemma observe_obs [simp]:
  "snd (observe now m ip dip port proto iv) =
     \<lparr>ob_src_mac = m, ob_src_ip = ip, ob_dst_ip = dip, ob_dst_port = port, ob_protocol = proto\<rparr>"
  by (simp add: observe_def Let_def)

end
