(* ===== verification/Mvp.thy ===== *)
theory Mvp
  imports Inventory Events Modbus
begin

text \<open>
  The MVP detector, rules OT-001 to OT-010 (\<open>detection/mvp.py\<close>). The policy is the JSON
  object of the policy file, read at the types of the shipped example: allow lists by name,
  numeric thresholds, and assets with their addresses, peers, function codes and packet
  rate. \<open>_event\<close> numbers the events; each rule of \<open>evaluate_observation\<close> is one
  emitter, run in the source's order. The answer of the managed allow list
  (\<open>listfile_enforcer.is_ip_whitelisted\<close>, false without an enforcer) is the argument
  \<open>wl\<close>.
\<close>

section \<open>Policy\<close>

record ot_asset =
  as_id :: "string option"
  as_addresses :: "string list"
  as_allowed_peers :: "string list"
  as_allowed_fcs :: "nat list"
  as_max_rate :: "pyfloat option"
  as_write_count :: json

record ot_policy =
  pol_assets :: "ot_asset list"
  pol_allow :: "(string, json list) dict"
  pol_thresholds :: "(string, pyfloat) dict"

text \<open>\<open>RULE_META\<close>: event type, severity and description.\<close>

definition RULE_META :: "(string, string \<times> string \<times> string) dict" where
  "RULE_META =
    [(''OT-001'', (''NEW_MAC_DETECTED'', ''medium'', ''New MAC address observed on mirror port'')),
     (''OT-002'', (''NEW_IP_DETECTED'', ''medium'', ''New IP address observed on mirror port'')),
     (''OT-003'', (''MAC_IP_MAPPING_CHANGED'', ''high'', ''MAC/IP mapping changed from baseline'')),
     (''OT-004'', (''NEW_COMMUNICATION_PAIR'', ''medium'', ''New communication pair observed'')),
     (''OT-005'', (''NEW_DESTINATION_PORT'', ''medium'', ''New destination port combination observed'')),
     (''OT-006'', (''PORT_SCAN_BEHAVIOR'', ''high'', ''Port scan behavior detected'')),
     (''OT-007'', (''MODBUS_WRITE_ANOMALY'', ''high'', ''Unexpected Modbus write from non-baselined source'')),
     (''OT-008'', (''ABNORMAL_TRAFFIC_RATE'', ''medium'', ''Traffic rate exceeds baseline threshold'')),
     (''OT-009'', (''RELAY_OFFLINE'', ''high'', ''Relay asset appears offline'')),
     (''OT-010'', (''UNAUTHORIZED_RELAY_ACCESS'', ''high'', ''Unauthorized host accessing relay asset''))]"

record mvp =
  mvp_site :: string
  mvp_sensor :: string
  mvp_policy :: ot_policy
  mvp_rules :: "string set"
  mvp_inventory :: inventory
  alerted_offline :: "string set"
  alerted_unauthorized :: "string set"
  alerted_port_scan :: "string set"
  mvp_seq :: nat
  mvp_started_at :: pyfloat

definition mvp_init :: "string \<Rightarrow> string \<Rightarrow> ot_policy \<Rightarrow> string set \<Rightarrow> pyfloat \<Rightarrow> mvp" where
  "mvp_init site sensor pol rules t0 = \<lparr>mvp_site = site, mvp_sensor = sensor, mvp_policy = pol,
     mvp_rules = rules, mvp_inventory = inventory_init, alerted_offline = {},
     alerted_unauthorized = {}, alerted_port_scan = {}, mvp_seq = 0, mvp_started_at = t0\<rparr>"

definition mvp_enabled :: "mvp \<Rightarrow> string \<Rightarrow> bool" where
  "mvp_enabled d rule_id = (mvp_rules d = {} \<or> rule_id \<in> mvp_rules d)"

definition global_allowlist :: "mvp \<Rightarrow> string \<Rightarrow> string set" where
  "global_allowlist d key = (case dict_get (pol_allow (mvp_policy d)) key of None \<Rightarrow> {}
     | Some vs \<Rightarrow> set (map (\<lambda>v. lower (py_str v)) vs))"

definition threshold :: "mvp \<Rightarrow> string \<Rightarrow> pyfloat \<Rightarrow> pyfloat" where
  "threshold d key dflt = (case dict_get (pol_thresholds (mvp_policy d)) key of None \<Rightarrow> dflt
     | Some v \<Rightarrow> v)"

definition is_ephemeral_dst_port :: "mvp \<Rightarrow> nat option \<Rightarrow> bool" where
  "is_ephemeral_dst_port d dst_port = (case dst_port of None \<Rightarrow> False
     | Some p \<Rightarrow> let ephemeral_min = trunc_rat (threshold d ''ot005_ephemeral_dst_min'' 32768)
                in 0 < ephemeral_min \<and> ephemeral_min \<le> int p)"

definition ip_whitelisted :: "(string \<Rightarrow> bool) \<Rightarrow> mvp \<Rightarrow> string option \<Rightarrow> bool" where
  "ip_whitelisted wl d ip =
     (if \<not> some_text ip then False
      else if lower (text_of ip) \<in> global_allowlist d ''ip'' then True
      else wl (text_of ip))"

definition asset_for_ip :: "mvp \<Rightarrow> string \<Rightarrow> ot_asset option" where
  "asset_for_ip d ip = find (\<lambda>a. ip \<in> set (as_addresses a)) (pol_assets (mvp_policy d))"

definition relay_addresses :: "mvp \<Rightarrow> (string \<times> ot_asset) list" where
  "relay_addresses d = concat (map (\<lambda>a. map (\<lambda>addr. (addr, a)) (as_addresses a)) (pol_assets (mvp_policy d)))"

section \<open>Events\<close>

record event_args =
  arg_src_ip :: string
  arg_dst_ip :: string
  arg_dst_port :: "nat option"
  arg_asset :: string
  arg_protocol :: string
  arg_mac :: string
  arg_evidence :: "(string, json) dict"
  arg_risk :: "int option"

definition default_args :: event_args where
  "default_args = \<lparr>arg_src_ip = [], arg_dst_ip = [], arg_dst_port = None, arg_asset = [],
     arg_protocol = ''passive'', arg_mac = [], arg_evidence = [], arg_risk = None\<rparr>"

definition rule_meta :: "string \<Rightarrow> string \<times> string \<times> string" where
  "rule_meta rule_id = (case dict_get RULE_META rule_id of Some m \<Rightarrow> m | None \<Rightarrow> ([], [], []))"

definition mvp_event :: "clock \<Rightarrow> string \<Rightarrow> event_args \<Rightarrow> mvp emitter" where
  "mvp_event clk rule_id args d =
     (let (event_type, severity, description) = rule_meta rule_id;
          payload = (if arg_mac args \<noteq> [] \<and> dict_get (arg_evidence args) ''mac'' = None
                     then dict_put ''mac'' (JStr (arg_mac args)) (arg_evidence args)
                     else arg_evidence args);
          seq = mvp_seq d + 1
      in (d\<lparr>mvp_seq := seq\<rparr>,
          [\<lparr>ev_id = event_id (utc_day clk) ''mvp'' seq, ev_site = mvp_site d, ev_sensor = mvp_sensor d,
            ev_type = event_type, ev_severity = severity, ev_rule = rule_id,
            ev_protocol = arg_protocol args, ev_description = description, ev_asset = arg_asset args,
            ev_src_ip = arg_src_ip args, ev_dst_ip = arg_dst_ip args,
            ev_dst_port = map_option int (arg_dst_port args),
            ev_risk = (case arg_risk args of None \<Rightarrow> 70 | Some r \<Rightarrow> r), ev_evidence = payload,
            ev_evidence_ref = [], ev_timestamp = now_iso clk\<rparr>]))"

definition upd_inventory :: "(inventory \<Rightarrow> inventory) \<Rightarrow> mvp \<Rightarrow> mvp" where
  "upd_inventory f d = d\<lparr>mvp_inventory := f (mvp_inventory d)\<rparr>"

section \<open>Rules on observations\<close>

definition pair_text :: "string \<Rightarrow> string \<Rightarrow> string" where
  "pair_text src dst = src @ ''->'' @ dst"

definition rule_ot001 :: "clock \<Rightarrow> inventory_observation \<Rightarrow> mvp emitter" where
  "rule_ot001 clk obs d =
     (if some_text (ob_src_mac obs) \<and> mvp_enabled d ''OT-001'' then
        let mac = text_of (ob_src_mac obs); mac_key = lower mac in
        if mac_key \<notin> known_macs (mvp_inventory d) then
          let d = upd_inventory (\<lambda>i. i\<lparr>known_macs := insert mac_key (known_macs i)\<rparr>) d in
          if mac_key \<notin> global_allowlist d ''mac''
          then mvp_event clk ''OT-001'' (default_args\<lparr>arg_mac := mac\<rparr>) d
          else no_event d
        else no_event d
      else no_event d)"

definition rule_ot002 :: "(string \<Rightarrow> bool) \<Rightarrow> clock \<Rightarrow> inventory_observation \<Rightarrow> mvp emitter" where
  "rule_ot002 wl clk obs d =
     (if some_text (ob_src_ip obs) \<and> mvp_enabled d ''OT-002'' then
        let src_ip = text_of (ob_src_ip obs) in
        if src_ip \<notin> known_ips (mvp_inventory d) then
          let d = upd_inventory (\<lambda>i. i\<lparr>known_ips := insert src_ip (known_ips i)\<rparr>) d in
          if \<not> ip_whitelisted wl d (ob_src_ip obs)
          then mvp_event clk ''OT-002'' (default_args\<lparr>arg_src_ip := src_ip\<rparr>) d
          else no_event d
        else no_event d
      else no_event d)"

definition rule_ot003 :: "clock \<Rightarrow> inventory_observation \<Rightarrow> mvp emitter" where
  "rule_ot003 clk obs d =
     (if some_text (ob_src_mac obs) \<and> some_text (ob_src_ip obs) \<and> mvp_enabled d ''OT-003'' then
        let mac = text_of (ob_src_mac obs); src_ip = text_of (ob_src_ip obs);
            previous = dict_get (mac_to_ip (mvp_inventory d)) (lower mac) in
        if some_text previous \<and> text_of previous \<noteq> src_ip
        then mvp_event clk ''OT-003'' (default_args\<lparr>arg_mac := mac, arg_src_ip := src_ip,
               arg_evidence := [(''previous_ip'', JStr (text_of previous)), (''observed_ip'', JStr src_ip)],
               arg_risk := Some 85\<rparr>) d
        else no_event d
      else no_event d)"

definition rule_ot004 :: "clock \<Rightarrow> inventory_observation \<Rightarrow> mvp emitter" where
  "rule_ot004 clk obs d =
     (if some_text (ob_src_ip obs) \<and> some_text (ob_dst_ip obs) \<and> mvp_enabled d ''OT-004'' then
        let src_ip = text_of (ob_src_ip obs); dst_ip = text_of (ob_dst_ip obs);
            pair = pair_text src_ip dst_ip in
        if pair \<notin> known_pairs (mvp_inventory d) then
          let d = upd_inventory (\<lambda>i. i\<lparr>known_pairs := insert pair (known_pairs i)\<rparr>) d in
          if lower pair \<notin> global_allowlist d ''communication_pairs''
          then mvp_event clk ''OT-004'' (default_args\<lparr>arg_src_ip := src_ip, arg_dst_ip := dst_ip,
                 arg_evidence := [(''pair'', JStr pair)]\<rparr>) d
          else no_event d
        else no_event d
      else no_event d)"

definition rule_ot005 :: "clock \<Rightarrow> inventory_observation \<Rightarrow> mvp emitter" where
  "rule_ot005 clk obs d =
     (if some_text (ob_dst_ip obs) \<and> ob_dst_port obs \<noteq> None \<and> mvp_enabled d ''OT-005'' then
        if \<not> is_ephemeral_dst_port d (ob_dst_port obs) then
          let dst_ip = text_of (ob_dst_ip obs); port = the (ob_dst_port obs);
              port_key = dst_ip @ '':'' @ dec port in
          if port_key \<notin> known_dst_ports (mvp_inventory d) then
            let d = upd_inventory (\<lambda>i. i\<lparr>known_dst_ports := insert port_key (known_dst_ports i)\<rparr>) d;
                allowed_ports = global_allowlist d ''ports'' in
            if dec port \<notin> allowed_ports \<and> lower port_key \<notin> allowed_ports
            then mvp_event clk ''OT-005'' (default_args\<lparr>arg_src_ip := text_of (ob_src_ip obs),
                   arg_dst_ip := dst_ip, arg_dst_port := Some port,
                   arg_evidence := [(''destination'', JStr port_key)]\<rparr>) d
            else no_event d
          else no_event d
        else no_event d
      else no_event d)"

text \<open>The sample of this packet is stored, then the ports inside the window are counted.\<close>

definition scan_window :: "mvp \<Rightarrow> pyfloat" where
  "scan_window d = threshold d ''port_scan_window_sec'' 60"

definition scan_limit :: "mvp \<Rightarrow> int" where
  "scan_limit d = trunc_rat (threshold d ''port_scan_unique_ports'' 10)"

definition scan_step :: "clock \<Rightarrow> string \<Rightarrow> nat \<Rightarrow> mvp \<Rightarrow> mvp \<times> nat list" where
  "scan_step clk src_ip port d =
     (let d = upd_inventory (record_port_scan_sample src_ip port (mono clk)) d;
          (iv, unique) = unique_ports_in_window src_ip (scan_window d) (mono clk) (mvp_inventory d)
      in (d\<lparr>mvp_inventory := iv\<rparr>, unique))"

definition rule_ot006 :: "clock \<Rightarrow> inventory_observation \<Rightarrow> mvp emitter" where
  "rule_ot006 clk obs d =
     (if some_text (ob_src_ip obs) \<and> ob_dst_port obs \<noteq> None \<and> mvp_enabled d ''OT-006'' then
        let src_ip = text_of (ob_src_ip obs);
            (d, unique) = scan_step clk src_ip (the (ob_dst_port obs)) d;
            limit = scan_limit d in
        if limit \<le> int (length unique) \<and> src_ip \<notin> alerted_port_scan d then
          mvp_event clk ''OT-006'' (default_args\<lparr>arg_src_ip := src_ip,
              arg_evidence := [(''unique_ports'', JList (map (\<lambda>p. JInt (int p)) (sort unique))),
                (''window_sec'', JFloat (scan_window d)), (''threshold'', JInt limit)],
              arg_risk := Some 88\<rparr>)
            (d\<lparr>alerted_port_scan := insert src_ip (alerted_port_scan d)\<rparr>)
        else no_event d
      else no_event d)"

definition rule_ot010 :: "clock \<Rightarrow> inventory_observation \<Rightarrow> mvp emitter" where
  "rule_ot010 clk obs d =
     (if some_text (ob_src_ip obs) \<and> some_text (ob_dst_ip obs) \<and> mvp_enabled d ''OT-010'' then
        let src_ip = text_of (ob_src_ip obs); dst_ip = text_of (ob_dst_ip obs) in
        (case asset_for_ip d dst_ip of None \<Rightarrow> no_event d
         | Some asset \<Rightarrow>
            let pair = pair_text src_ip dst_ip in
            if src_ip \<notin> set (as_allowed_peers asset) \<and> pair \<notin> alerted_unauthorized d then
              mvp_event clk ''OT-010'' (default_args\<lparr>arg_src_ip := src_ip, arg_dst_ip := dst_ip,
                  arg_dst_port := ob_dst_port obs, arg_asset := text_of (as_id asset),
                  arg_evidence := [(''relay_ip'', JStr dst_ip)], arg_risk := Some 90\<rparr>)
                (d\<lparr>alerted_unauthorized := insert pair (alerted_unauthorized d)\<rparr>)
            else no_event d)
      else no_event d)"

definition evaluate_observation ::
  "(string \<Rightarrow> bool) \<Rightarrow> clock \<Rightarrow> inventory_observation \<Rightarrow> mvp emitter" where
  "evaluate_observation wl clk obs =
     run_rules [rule_ot001 clk obs, rule_ot002 wl clk obs, rule_ot003 clk obs, rule_ot004 clk obs,
       rule_ot005 clk obs, rule_ot006 clk obs, rule_ot010 clk obs]"

section \<open>Modbus writes\<close>

definition evaluate_modbus :: "clock \<Rightarrow> modbus_frame \<Rightarrow> mvp emitter" where
  "evaluate_modbus clk frame d =
     (if \<not> mvp_enabled d ''OT-007'' \<or> \<not> is_write frame then no_event d
      else (case asset_for_ip d (mb_dst_ip frame) of None \<Rightarrow> no_event d
        | Some asset \<Rightarrow>
           if mb_src_ip frame \<in> set (as_allowed_peers asset) \<and>
              (as_allowed_fcs asset = [] \<or> function_code frame \<in> set (as_allowed_fcs asset))
           then no_event d
           else mvp_event clk ''OT-007'' (default_args\<lparr>arg_src_ip := mb_src_ip frame,
                  arg_dst_ip := mb_dst_ip frame, arg_dst_port := Some (mb_dst_port frame),
                  arg_asset := text_of (as_id asset), arg_protocol := ''modbus-tcp'',
                  arg_evidence := [(''function_code'', JInt (int (function_code frame))),
                    (''unit_id'', JInt (int (unit_id frame))),
                    (''baseline_write_count_per_hour'', as_write_count asset)],
                  arg_risk := Some 86\<rparr>) d))"

section \<open>Windows\<close>

definition traffic_rule :: "clock \<Rightarrow> int \<Rightarrow> ot_asset \<Rightarrow> mvp emitter" where
  "traffic_rule clk window_sec asset d =
     (let multiplier = threshold d ''traffic_rate_multiplier'' 3;
          observed = of_nat (window_packet_count (mvp_inventory d)) * (60 / of_int (max window_sec 1)) in
      case as_max_rate asset of None \<Rightarrow> no_event d
      | Some max_rate \<Rightarrow>
         if observed \<le> max_rate * multiplier then no_event d
         else mvp_event clk ''OT-008'' (default_args\<lparr>arg_asset := text_of (as_id asset),
                arg_evidence := [(''observed_packets_per_min'', JFloat (py_round 1 observed)),
                  (''baseline_max_per_min'', JFloat max_rate), (''multiplier'', JFloat multiplier),
                  (''window_sec'', JInt window_sec)]\<rparr>) d)"

definition check_traffic_rate :: "clock \<Rightarrow> int \<Rightarrow> mvp emitter" where
  "check_traffic_rate clk window_sec d =
     run_rules (map (traffic_rule clk window_sec) (pol_assets (mvp_policy d))) d"

definition silence_limit :: pyfloat where
  "silence_limit = 120"

definition offline_rule :: "clock \<Rightarrow> string \<times> ot_asset \<Rightarrow> mvp emitter" where
  "offline_rule clk = (\<lambda>(address, asset) d.
     let asset_id = (case as_id asset of None \<Rightarrow> address | Some i \<Rightarrow> i) in
     if asset_id \<in> alerted_offline d then no_event d
     else let last_seen = dict_get (last_seen_by_ip (mvp_inventory d)) address in
       if last_seen \<noteq> None \<and> mono clk - the last_seen < silence_limit then no_event d
       else mvp_event clk ''OT-009'' (default_args\<lparr>arg_asset := asset_id, arg_dst_ip := address,
              arg_evidence := [(''relay_ip'', JStr address), (''silence_sec'', JFloat silence_limit),
                (''last_seen_monotonic'', case last_seen of None \<Rightarrow> JNull | Some t \<Rightarrow> JFloat t)],
              arg_risk := Some 88\<rparr>)
            (d\<lparr>alerted_offline := insert asset_id (alerted_offline d)\<rparr>))"

definition check_relay_offline :: "clock \<Rightarrow> mvp emitter" where
  "check_relay_offline clk d =
     (if mono clk - mvp_started_at d < silence_limit then no_event d
      else run_rules (map (offline_rule clk) (relay_addresses d)) d)"

definition evaluate_window :: "clock \<Rightarrow> int \<Rightarrow> mvp emitter" where
  "evaluate_window clk window_sec =
     run_rules [\<lambda>d. if mvp_enabled d ''OT-008'' then check_traffic_rate clk window_sec d else no_event d,
       \<lambda>d. if mvp_enabled d ''OT-009'' then check_relay_offline clk d else no_event d,
       \<lambda>d. no_event (upd_inventory reset_window d)]"


section \<open>Inputs\<close>

text \<open>
  What drives the detector: a packet's addresses (recorded in the inventory, then evaluated,
  as the pipeline does), a Modbus frame, or the end of a feature window. Each carries the
  clock readings of its handler.
\<close>

datatype mvp_input =
    Seen clock "string \<Rightarrow> bool" "string option" "string option" "string option" "nat option" "string option"
  | ModbusIn clock modbus_frame
  | WindowEnd clock int

fun mvp_step :: "mvp_input \<Rightarrow> mvp emitter" where
  "mvp_step (Seen clk wl mac src dst port proto) d =
     (let (iv, obs) = observe (mono clk) mac src dst port proto (mvp_inventory d)
      in evaluate_observation wl clk obs (d\<lparr>mvp_inventory := iv\<rparr>))"
| "mvp_step (ModbusIn clk frame) d = evaluate_modbus clk frame d"
| "mvp_step (WindowEnd clk window_sec) d = evaluate_window clk window_sec d"

fun input_day :: "mvp_input \<Rightarrow> string" where
  "input_day (Seen clk wl mac src dst port proto) = utc_day clk"
| "input_day (ModbusIn clk frame) = utc_day clk"
| "input_day (WindowEnd clk window_sec) = utc_day clk"

section \<open>Lemmas\<close>

subsection \<open>One event\<close>

lemma mvp_event_fst [simp]: "fst (mvp_event clk r a d) = d\<lparr>mvp_seq := Suc (mvp_seq d)\<rparr>"
  by (simp add: mvp_event_def Let_def split: prod.split)

lemma mvp_event_snd:
  "\<exists>e. snd (mvp_event clk r a d) = [e] \<and> ev_rule e = r \<and>
     ev_id e = event_id (utc_day clk) ''mvp'' (Suc (mvp_seq d)) \<and>
     ev_src_ip e = arg_src_ip a \<and> ev_dst_ip e = arg_dst_ip a \<and> ev_asset e = arg_asset a \<and>
     ev_dst_port e = map_option int (arg_dst_port a) \<and> ev_protocol e = arg_protocol a \<and>
     ev_risk e = (case arg_risk a of None \<Rightarrow> 70 | Some x \<Rightarrow> x) \<and>
     dict_get (ev_evidence e) ''mac'' =
       (if arg_mac a \<noteq> [] \<and> dict_get (arg_evidence a) ''mac'' = None then Some (JStr (arg_mac a))
        else dict_get (arg_evidence a) ''mac'')"
  by (simp add: mvp_event_def Let_def split: prod.split)

lemma mvp_event_cases:
  obtains e where "mvp_event clk r a d = (d\<lparr>mvp_seq := Suc (mvp_seq d)\<rparr>, [e])"
    and "ev_rule e = r" and "ev_id e = event_id (utc_day clk) ''mvp'' (Suc (mvp_seq d))"
    and "ev_src_ip e = arg_src_ip a" and "ev_dst_ip e = arg_dst_ip a" and "ev_asset e = arg_asset a"
    and "ev_dst_port e = map_option int (arg_dst_port a)" and "ev_protocol e = arg_protocol a"
    and "ev_risk e = (case arg_risk a of None \<Rightarrow> 70 | Some x \<Rightarrow> x)"
    and "dict_get (ev_evidence e) ''mac'' =
       (if arg_mac a \<noteq> [] \<and> dict_get (arg_evidence a) ''mac'' = None then Some (JStr (arg_mac a))
        else dict_get (arg_evidence a) ''mac'')"
  using mvp_event_snd [of clk r a d] mvp_event_fst [of clk r a d] by (metis prod.collapse)

lemma upd_inventory_fields [simp]:
  "mvp_seq (upd_inventory f d) = mvp_seq d" "mvp_rules (upd_inventory f d) = mvp_rules d"
  "mvp_policy (upd_inventory f d) = mvp_policy d"
  "mvp_inventory (upd_inventory f d) = f (mvp_inventory d)"
  "alerted_offline (upd_inventory f d) = alerted_offline d"
  "alerted_unauthorized (upd_inventory f d) = alerted_unauthorized d"
  "alerted_port_scan (upd_inventory f d) = alerted_port_scan d"
  by (simp_all add: upd_inventory_def)

subsection \<open>The event numbers\<close>

lemma numbered_mvp_event:
  "mvp_seq d' = mvp_seq d \<Longrightarrow>
     numbered mvp_seq (event_id (utc_day clk) ''mvp'') d (mvp_event clk r a d')"
  by (rule mvp_event_cases [of clk r a d']) (auto intro: numbered_one)

lemma numbered_no_event: "mvp_seq d' = mvp_seq d \<Longrightarrow> numbered mvp_seq mk d (no_event d')"
  by (auto simp: no_event_def)

lemmas rule_defs = rule_ot001_def rule_ot002_def rule_ot003_def rule_ot004_def rule_ot005_def
  rule_ot010_def

lemma scan_step_frame:
  "mvp_seq (fst (scan_step clk ip p d)) = mvp_seq d"
  "mvp_policy (fst (scan_step clk ip p d)) = mvp_policy d"
  "mvp_rules (fst (scan_step clk ip p d)) = mvp_rules d"
  "alerted_port_scan (fst (scan_step clk ip p d)) = alerted_port_scan d"
  "alerted_offline (fst (scan_step clk ip p d)) = alerted_offline d"
  "alerted_unauthorized (fst (scan_step clk ip p d)) = alerted_unauthorized d"
  "known_macs (mvp_inventory (fst (scan_step clk ip p d))) = known_macs (mvp_inventory d)"
  "known_ips (mvp_inventory (fst (scan_step clk ip p d))) = known_ips (mvp_inventory d)"
  "known_pairs (mvp_inventory (fst (scan_step clk ip p d))) = known_pairs (mvp_inventory d)"
  "known_dst_ports (mvp_inventory (fst (scan_step clk ip p d))) = known_dst_ports (mvp_inventory d)"
  by (simp_all add: scan_step_def unique_ports_in_window_def record_port_scan_sample_def Let_def)

lemma numbered_ot006:
  "numbered mvp_seq (event_id (utc_day clk) ''mvp'') d (rule_ot006 clk obs d)"
proof -
  obtain d2 un where st: "scan_step clk (text_of (ob_src_ip obs)) (the (ob_dst_port obs)) d = (d2, un)"
    by fastforce
  then have "mvp_seq d2 = mvp_seq d"
    using scan_step_frame(1) [of clk "text_of (ob_src_ip obs)" "the (ob_dst_port obs)" d] by simp
  then show ?thesis
    by (simp add: rule_ot006_def Let_def st numbered_no_event numbered_mvp_event)
qed

lemma numbered_observation_rules:
  "f \<in> set [rule_ot001 clk obs, rule_ot002 wl clk obs, rule_ot003 clk obs, rule_ot004 clk obs,
       rule_ot005 clk obs, rule_ot006 clk obs, rule_ot010 clk obs] \<Longrightarrow>
     numbered mvp_seq (event_id (utc_day clk) ''mvp'') d (f d)"
  by (auto simp: rule_defs Let_def numbered_no_event numbered_mvp_event numbered_ot006 split: option.split)

lemma numbered_modbus:
  "numbered mvp_seq (event_id (utc_day clk) ''mvp'') d (evaluate_modbus clk frame d)"
  by (auto simp: evaluate_modbus_def numbered_no_event numbered_mvp_event split: option.split)

lemma numbered_traffic: "numbered mvp_seq (event_id (utc_day clk) ''mvp'') d (traffic_rule clk w a d)"
  by (auto simp: traffic_rule_def Let_def numbered_no_event numbered_mvp_event split: option.split)

lemma numbered_offline: "numbered mvp_seq (event_id (utc_day clk) ''mvp'') d (offline_rule clk p d)"
  by (auto simp: offline_rule_def Let_def numbered_no_event numbered_mvp_event split: prod.split)

lemma numbered_window:
  "numbered mvp_seq (event_id (utc_day clk) ''mvp'') d (evaluate_window clk w d)"
  unfolding evaluate_window_def
  by (rule numbered_rules)
     (auto simp: check_traffic_rate_def check_relay_offline_def numbered_no_event
       intro!: numbered_rules numbered_traffic numbered_offline)

lemma mvp_step_numbered: "numbered mvp_seq (event_id (input_day i) ''mvp'') d (mvp_step i d)"
proof (cases i)
  case (Seen clk wl mac src dst port proto)
  have "numbered mvp_seq (event_id (utc_day clk) ''mvp'') d' (evaluate_observation wl clk obs d')"
    for obs d'
    unfolding evaluate_observation_def by (rule numbered_rules) (rule numbered_observation_rules)
  then show ?thesis using Seen by (simp add: Let_def numbered_def split: prod.split)
      (metis mvp.select_convs(9) mvp.surjective mvp.update_convs(5))
qed (simp_all add: numbered_modbus numbered_window)

interpretation mvp_ids: event_source mvp_step mvp_seq input_day "''mvp''"
  by unfold_locales (rule mvp_step_numbered)

subsection \<open>Alert-once rules\<close>

text \<open>
  The subject of an event of an alert-once rule: the MAC in lower case, the address, the pair,
  the destination, the scanning address, the asset or the unauthorised pair.
\<close>

definition mvp_subject :: "security_event \<Rightarrow> (string \<times> string) option" where
  "mvp_subject e =
     (if ev_rule e = ''OT-001'' then
        Some (''OT-001'', lower (py_str (case dict_get (ev_evidence e) ''mac'' of None \<Rightarrow> JNull | Some v \<Rightarrow> v)))
      else if ev_rule e = ''OT-002'' then Some (''OT-002'', ev_src_ip e)
      else if ev_rule e = ''OT-004'' then Some (''OT-004'', pair_text (ev_src_ip e) (ev_dst_ip e))
      else if ev_rule e = ''OT-005'' then
        Some (''OT-005'', ev_dst_ip e @ '':'' @ (case ev_dst_port e of None \<Rightarrow> [] | Some p \<Rightarrow> dec (nat p)))
      else if ev_rule e = ''OT-006'' then Some (''OT-006'', ev_src_ip e)
      else if ev_rule e = ''OT-009'' then Some (''OT-009'', ev_asset e)
      else if ev_rule e = ''OT-010'' then Some (''OT-010'', pair_text (ev_src_ip e) (ev_dst_ip e))
      else None)"

definition mvp_known :: "mvp \<Rightarrow> (string \<times> string) set" where
  "mvp_known d = {''OT-001''} \<times> known_macs (mvp_inventory d) \<union> {''OT-002''} \<times> known_ips (mvp_inventory d)
     \<union> {''OT-004''} \<times> known_pairs (mvp_inventory d) \<union> {''OT-005''} \<times> known_dst_ports (mvp_inventory d)
     \<union> {''OT-006''} \<times> alerted_port_scan d \<union> {''OT-009''} \<times> alerted_offline d
     \<union> {''OT-010''} \<times> alerted_unauthorized d"

lemma once_mvp_event:
  assumes "mvp_known d' = insert (r, k) (mvp_known d)" "(r, k) \<notin> mvp_known d"
    and "\<And>e. ev_rule e = r \<Longrightarrow> ev_src_ip e = arg_src_ip a \<Longrightarrow> ev_dst_ip e = arg_dst_ip a \<Longrightarrow>
      ev_asset e = arg_asset a \<Longrightarrow> ev_dst_port e = map_option int (arg_dst_port a) \<Longrightarrow>
      dict_get (ev_evidence e) ''mac'' =
       (if arg_mac a \<noteq> [] \<and> dict_get (arg_evidence a) ''mac'' = None then Some (JStr (arg_mac a))
        else dict_get (arg_evidence a) ''mac'') \<Longrightarrow> mvp_subject e = Some (r, k)"
  shows "once mvp_known mvp_subject d (mvp_event clk r a d')"
proof (rule mvp_event_cases [of clk r a d'])
  fix e assume e: "mvp_event clk r a d' = (d'\<lparr>mvp_seq := Suc (mvp_seq d')\<rparr>, [e])" "ev_rule e = r"
    "ev_src_ip e = arg_src_ip a" "ev_dst_ip e = arg_dst_ip a" "ev_asset e = arg_asset a"
    "ev_dst_port e = map_option int (arg_dst_port a)" "dict_get (ev_evidence e) ''mac'' =
       (if arg_mac a \<noteq> [] \<and> dict_get (arg_evidence a) ''mac'' = None then Some (JStr (arg_mac a))
        else dict_get (arg_evidence a) ''mac'')"
  have "mvp_known (d'\<lparr>mvp_seq := Suc (mvp_seq d')\<rparr>) = insert (r, k) (mvp_known d)"
    using assms(1) by (simp add: mvp_known_def)
  then show ?thesis
    unfolding e(1) by (rule once_new [where k = "(r, k)"]) (use assms(2) assms(3) [OF e(2-)] in auto)
qed

lemma once_mvp_other:
  assumes "mvp_known d \<subseteq> mvp_known d'" "r = ''OT-003'' \<or> r = ''OT-007'' \<or> r = ''OT-008''"
  shows "once mvp_known mvp_subject d (mvp_event clk r a d')"
proof (rule mvp_event_cases [of clk r a d'])
  fix e assume e: "mvp_event clk r a d' = (d'\<lparr>mvp_seq := Suc (mvp_seq d')\<rparr>, [e])" "ev_rule e = r"
  have "mvp_known (d'\<lparr>mvp_seq := Suc (mvp_seq d')\<rparr>) = mvp_known d'" by (simp add: mvp_known_def)
  moreover have "mvp_subject e = None" using assms(2) e(2) by (elim disjE) (simp_all add: mvp_subject_def)
  ultimately show ?thesis unfolding e(1) using assms(1) by (intro once_other) simp_all
qed

lemma once_no_event: "mvp_known d \<subseteq> mvp_known d' \<Longrightarrow> once mvp_known mvp_subject d (no_event d')"
  by (auto simp: no_event_def)

lemma some_text_simps: "some_text x \<Longrightarrow> text_of x \<noteq> []"
  by (simp add: some_text_text_of)

lemma once_ot001: "once mvp_known mvp_subject d (rule_ot001 clk obs d)"
  by (auto simp: rule_ot001_def Let_def default_args_def some_text_simps intro!: once_no_event once_mvp_event
      [where k = "lower (text_of (ob_src_mac obs))"]) (auto simp: mvp_known_def mvp_subject_def)


lemma once_ot002: "once mvp_known mvp_subject d (rule_ot002 wl clk obs d)"
  by (auto simp: rule_ot002_def Let_def default_args_def intro!: once_no_event once_mvp_event
      [where k = "text_of (ob_src_ip obs)"]) (auto simp: mvp_known_def mvp_subject_def)

lemma once_ot003: "once mvp_known mvp_subject d (rule_ot003 clk obs d)"
  by (auto simp: rule_ot003_def Let_def intro!: once_no_event once_mvp_other)

lemma once_ot004: "once mvp_known mvp_subject d (rule_ot004 clk obs d)"
  by (auto simp: rule_ot004_def Let_def default_args_def intro!: once_no_event once_mvp_event
      [where k = "pair_text (text_of (ob_src_ip obs)) (text_of (ob_dst_ip obs))"])
     (auto simp: mvp_known_def mvp_subject_def)

lemma once_ot005: "once mvp_known mvp_subject d (rule_ot005 clk obs d)"
  by (auto simp: rule_ot005_def Let_def default_args_def intro!: once_no_event once_mvp_event
      [where k = "text_of (ob_dst_ip obs) @ '':'' @ dec (the (ob_dst_port obs))"])
     (auto simp: mvp_known_def mvp_subject_def)

lemma once_ot006: "once mvp_known mvp_subject d (rule_ot006 clk obs d)"
proof -
  define ip where "ip = text_of (ob_src_ip obs)"
  obtain d2 un where st: "scan_step clk ip (the (ob_dst_port obs)) d = (d2, un)" by fastforce
  have k: "mvp_known d2 = mvp_known d" and a: "alerted_port_scan d2 = alerted_port_scan d"
    using scan_step_frame [of clk ip "the (ob_dst_port obs)" d] st by (simp_all add: mvp_known_def)
  have k2: "mvp_known (d2\<lparr>alerted_port_scan := insert ip (alerted_port_scan d)\<rparr>) =
      insert (''OT-006'', ip) (mvp_known d)"
    using k a by (auto simp: mvp_known_def)
  have fresh: "(''OT-006'', ip) \<in> mvp_known d \<Longrightarrow> ip \<in> alerted_port_scan d"
    by (simp add: mvp_known_def)
  show ?thesis
    by (simp add: rule_ot006_def Let_def ip_def [symmetric] st a k once_no_event)
       (intro impI once_mvp_event [OF k2], use fresh in
         \<open>auto simp: default_args_def mvp_subject_def\<close>)
qed

lemma once_ot010: "once mvp_known mvp_subject d (rule_ot010 clk obs d)"
  by (auto simp: rule_ot010_def Let_def default_args_def split: option.split intro!: once_no_event once_mvp_event
      [where k = "pair_text (text_of (ob_src_ip obs)) (text_of (ob_dst_ip obs))"])
     (auto simp: mvp_known_def mvp_subject_def)

lemma once_observation_rules:
  "f \<in> set [rule_ot001 clk obs, rule_ot002 wl clk obs, rule_ot003 clk obs, rule_ot004 clk obs,
       rule_ot005 clk obs, rule_ot006 clk obs, rule_ot010 clk obs] \<Longrightarrow>
     once mvp_known mvp_subject d (f d)"
  by (auto intro: once_ot001 once_ot002 once_ot003 once_ot004 once_ot005 once_ot006 once_ot010)

lemma once_modbus: "once mvp_known mvp_subject d (evaluate_modbus clk frame d)"
  by (auto simp: evaluate_modbus_def split: option.split intro!: once_no_event once_mvp_other)

lemma once_traffic: "once mvp_known mvp_subject d (traffic_rule clk w a d)"
  by (auto simp: traffic_rule_def Let_def split: option.split intro!: once_no_event once_mvp_other)

lemma once_offline: "once mvp_known mvp_subject d (offline_rule clk p d)"
proof -
  obtain addr a where p: "p = (addr, a)" by (cases p)
  define i where "i = (case as_id a of None \<Rightarrow> addr | Some i \<Rightarrow> i)"
  show ?thesis
    by (auto simp: p offline_rule_def Let_def default_args_def i_def [symmetric] intro!: once_no_event
        once_mvp_event [where k = i]) (auto simp: mvp_known_def mvp_subject_def)
qed

lemma once_window: "once mvp_known mvp_subject d (evaluate_window clk w d)"
  unfolding evaluate_window_def
  by (rule once_rules)
     (auto simp: check_traffic_rate_def check_relay_offline_def mvp_known_def reset_window_def
       intro!: once_no_event once_rules once_traffic once_offline)

lemma mvp_step_once: "once mvp_known mvp_subject d (mvp_step i d)"
proof (cases i)
  case (Seen clk wl mac src dst port proto)
  define iv where "iv = fst (observe (mono clk) mac src dst port proto (mvp_inventory d))"
  have "once mvp_known mvp_subject d' (evaluate_observation wl clk obs d')" for obs d'
    unfolding evaluate_observation_def by (rule once_rules) (rule once_observation_rules)
  moreover have "mvp_known (d\<lparr>mvp_inventory := iv\<rparr>) = mvp_known d"
    by (simp add: mvp_known_def iv_def)
  ultimately show ?thesis using Seen
    by (simp add: Let_def once_def iv_def split: prod.split) (metis fst_conv)
qed (simp_all add: once_modbus once_window)

interpretation mvp_once: once_source mvp_step mvp_known mvp_subject
  by unfold_locales (rule mvp_step_once)


subsection \<open>Which rule an event belongs to\<close>

definition emits_rule :: "string \<Rightarrow> 's \<times> security_event list \<Rightarrow> bool" where
  "emits_rule r res = (\<forall>e\<in>set (snd res). ev_rule e = r)"

lemma emits_mvp_event: "emits_rule r (mvp_event clk r a d)"
  by (rule mvp_event_cases [of clk r a d]) (simp add: emits_rule_def)

lemma emits_no_event: "emits_rule r (no_event d)"
  by (simp add: emits_rule_def no_event_def)

lemma emits_rules:
  "emits_rule ''OT-001'' (rule_ot001 clk obs d)" "emits_rule ''OT-002'' (rule_ot002 wl clk obs d)"
  "emits_rule ''OT-004'' (rule_ot004 clk obs d)" "emits_rule ''OT-005'' (rule_ot005 clk obs d)"
  "emits_rule ''OT-006'' (rule_ot006 clk obs d)" "emits_rule ''OT-010'' (rule_ot010 clk obs d)"
  by (auto simp: rule_defs rule_ot006_def Let_def emits_mvp_event emits_no_event
      split: option.split prod.split)

lemma mac_to_ip_rules:
  "mac_to_ip (mvp_inventory (fst (rule_ot001 clk obs d))) = mac_to_ip (mvp_inventory d)"
  "mac_to_ip (mvp_inventory (fst (rule_ot002 wl clk obs d))) = mac_to_ip (mvp_inventory d)"
  by (simp_all add: rule_ot001_def rule_ot002_def Let_def no_event_def)

lemma ot003_silent:
  assumes "dict_get (mac_to_ip (mvp_inventory d)) (lower (text_of (ob_src_mac obs))) =
             Some (text_of (ob_src_ip obs))
           \<or> \<not> some_text (ob_src_mac obs) \<or> \<not> some_text (ob_src_ip obs)"
  shows "snd (rule_ot003 clk obs d) = []"
  using assms by (auto simp: rule_ot003_def Let_def no_event_def)

subsection \<open>Relays that fall silent\<close>

definition relay_id :: "string \<times> ot_asset \<Rightarrow> string" where
  "relay_id p = (case as_id (snd p) of None \<Rightarrow> fst p | Some i \<Rightarrow> i)"

definition relay_silent :: "clock \<Rightarrow> mvp \<Rightarrow> string \<Rightarrow> bool" where
  "relay_silent clk d addr = (case dict_get (last_seen_by_ip (mvp_inventory d)) addr of
     None \<Rightarrow> True | Some t \<Rightarrow> 120 \<le> mono clk - t)"

lemma offline_rule_effect:
  "alerted_offline (fst (offline_rule clk p d)) =
     (if relay_silent clk d (fst p) then insert (relay_id p) (alerted_offline d) else alerted_offline d)"
  "mvp_inventory (fst (offline_rule clk p d)) = mvp_inventory d"
  by (cases p; auto simp: offline_rule_def Let_def no_event_def relay_id_def relay_silent_def
      silence_limit_def split: option.splits)+

lemma offline_rules_effect:
  "alerted_offline (fst (run_rules (map (offline_rule clk) ps) d)) =
     alerted_offline d \<union> relay_id ` {p \<in> set ps. relay_silent clk d (fst p)}"
proof (induction ps arbitrary: d)
  case (Cons p ps)
  have "relay_silent clk (fst (offline_rule clk p d)) = relay_silent clk d"
    by (rule ext) (simp add: relay_silent_def offline_rule_effect)
  then show ?case using Cons by (auto simp: offline_rule_effect)
qed simp

text \<open>The events: one for each asset that is newly found silent, naming a silent address of it.\<close>

definition relay_alert :: "clock \<Rightarrow> mvp \<Rightarrow> (string \<times> ot_asset) list \<Rightarrow> security_event \<Rightarrow> bool" where
  "relay_alert clk d ps e = (ev_rule e = ''OT-009'' \<and> ev_type e = ''RELAY_OFFLINE'' \<and>
     (\<exists>p\<in>set ps. relay_silent clk d (fst p) \<and> ev_dst_ip e = fst p \<and> ev_asset e = relay_id p))"

lemma offline_rule_events:
  "if relay_silent clk d (fst p) \<and> relay_id p \<notin> alerted_offline d
   then \<exists>e. snd (offline_rule clk p d) = [e] \<and> relay_alert clk d [p] e
   else snd (offline_rule clk p d) = []"
  by (cases p; auto simp: offline_rule_def Let_def no_event_def relay_id_def relay_silent_def relay_alert_def
      silence_limit_def mvp_event_def rule_meta_def RULE_META_def default_args_def split: option.splits)

lemma offline_rules_events:
  fixes clk
  defines "found \<equiv> \<lambda>d ps. relay_id ` {p \<in> set ps. relay_silent clk d (fst p)} - alerted_offline d"
  shows "(let es = snd (run_rules (map (offline_rule clk) ps) d) in
     list_all (relay_alert clk d ps) es \<and> distinct (map ev_asset es) \<and> set (map ev_asset es) = found d ps)"
proof (induction ps arbitrary: d)
  case (Cons p ps)
  define d1 where "d1 = fst (offline_rule clk p d)"
  define es where "es = snd (run_rules (map (offline_rule clk) ps) d1)"
  have silent: "relay_silent clk d1 = relay_silent clk d"
    by (rule ext) (simp add: relay_silent_def d1_def offline_rule_effect)
  have ih: "list_all (relay_alert clk d1 ps) es" "distinct (map ev_asset es)" "set (map ev_asset es) = found d1 ps"
    using Cons.IH [of d1] by (simp_all add: es_def Let_def)
  have all: "list_all (relay_alert clk d (p # ps)) es"
    using ih(1) by (auto simp: list_all_iff relay_alert_def silent)
  have run: "snd (run_rules (map (offline_rule clk) (p # ps)) d) = snd (offline_rule clk p d) @ es"
    by (simp add: es_def d1_def)
  show ?case
  proof (cases "relay_silent clk d (fst p) \<and> relay_id p \<notin> alerted_offline d")
    case True
    then obtain e where e: "snd (offline_rule clk p d) = [e]" "relay_alert clk d [p] e"
      using offline_rule_events [of clk d p, unfolded if_P [OF True]] by blast
    moreover have "alerted_offline d1 = insert (relay_id p) (alerted_offline d)"
      using True by (simp add: d1_def offline_rule_effect)
    moreover have "relay_alert clk d (p # ps) e" "ev_asset e = relay_id p"
      using e(2) by (auto simp: relay_alert_def)
    ultimately show ?thesis
      using all ih(2,3) True unfolding run by (auto simp: found_def silent)
  next
    case False
    have "snd (offline_rule clk p d) = []" using offline_rule_events [of clk d p, unfolded if_not_P [OF False]] .
    moreover have "alerted_offline d1 = alerted_offline d"
      using False by (auto simp: d1_def offline_rule_effect)
    ultimately show ?thesis
      using all ih(2,3) False unfolding run by (auto simp: found_def silent)
  qed
qed (simp add: found_def)

lemma traffic_rules_events:
  "list_all (\<lambda>e. ev_rule e = ''OT-008'') (snd (run_rules (map (traffic_rule clk w) as) d))"
proof (induction as arbitrary: d)
  case (Cons a as)
  have "list_all (\<lambda>e. ev_rule e = ''OT-008'') (snd (traffic_rule clk w a d))"
    by (auto simp: traffic_rule_def Let_def no_event_def mvp_event_def split: option.split prod.split)
  then show ?case using Cons by simp
qed simp

lemma traffic_frame:
  "alerted_offline (fst (traffic_rule clk w a d)) = alerted_offline d \<and>
   mvp_inventory (fst (traffic_rule clk w a d)) = mvp_inventory d \<and>
   mvp_policy (fst (traffic_rule clk w a d)) = mvp_policy d \<and>
   mvp_rules (fst (traffic_rule clk w a d)) = mvp_rules d \<and>
   mvp_started_at (fst (traffic_rule clk w a d)) = mvp_started_at d"
  by (auto simp: traffic_rule_def Let_def no_event_def split: option.split)

lemma traffic_rules_frame:
  fixes as clk w d
  defines "d' \<equiv> fst (run_rules (map (traffic_rule clk w) as) d)"
  shows "alerted_offline d' = alerted_offline d \<and> mvp_inventory d' = mvp_inventory d \<and>
     mvp_policy d' = mvp_policy d \<and> mvp_rules d' = mvp_rules d \<and> mvp_started_at d' = mvp_started_at d"
  unfolding d'_def by (induction as arbitrary: d) (simp_all add: traffic_frame)

section \<open>Properties\<close>

text \<open>
  C19. Over any run of the MVP detector (packets, Modbus frames and window ends in any order, on
  any days, from any state) no two events carry the same event id, and the alert-once rules keep
  their promise: OT-001 alerts at most once per MAC (in any letter case), OT-002 per address,
  OT-004 per pair, OT-005 per destination, OT-006 per scanning host, OT-009 per asset and OT-010
  per unauthorised pair, and never for a subject the detector knew at the start; what it knows
  only grows.
\<close>

theorem mvp_alerts_once:
  fixes inputs :: "mvp_input list" and d :: mvp
  defines "r \<equiv> emit_all mvp_step inputs d"
  shows "distinct (map ev_id (snd r)) \<and> distinct (List.map_filter mvp_subject (snd r)) \<and>
     set (List.map_filter mvp_subject (snd r)) \<inter> mvp_known d = {} \<and>
     mvp_known d \<subseteq> mvp_known (fst r)"
  using mvp_ids.run_ids_distinct [of inputs d] mvp_once.run_alerts_once [of inputs d]
    mvp_once.run_known_mono [of d inputs]
  by (simp add: r_def)

text \<open>
  C21. OT-003 (MAC/IP mapping changed) cannot fire on the packet path: the inventory stores the
  packet's own address under the MAC before the rule compares it with the stored one, so for a
  MAC in lower case, as Scapy prints it, no state of the detector and no packet makes the
  handler emit OT-003, not even when the MAC was seen with another address before.
\<close>

theorem ot003_never_on_packet_path:
  assumes "lower (text_of mac) = text_of mac"
  shows "''OT-003'' \<notin> set (map ev_rule (snd (mvp_step (Seen clk wl mac src dst port proto) d)))"
proof -
  define obs where "obs = \<lparr>ob_src_mac = mac, ob_src_ip = src, ob_dst_ip = dst, ob_dst_port = port,
    ob_protocol = proto\<rparr>"
  define iv where "iv = fst (observe (mono clk) mac src dst port proto (mvp_inventory d))"
  define d0 where "d0 = d\<lparr>mvp_inventory := iv\<rparr>"
  define d2 where "d2 = fst (rule_ot002 wl clk obs (fst (rule_ot001 clk obs d0)))"
  have "observe (mono clk) mac src dst port proto (mvp_inventory d) = (iv, obs)"
    unfolding iv_def obs_def by (rule prod_eqI) simp_all
  then have step: "mvp_step (Seen clk wl mac src dst port proto) d = evaluate_observation wl clk obs d0"
    by (simp add: d0_def)
  have "mac_to_ip (mvp_inventory d2) = mac_to_ip iv" by (simp add: d2_def mac_to_ip_rules d0_def)
  then have "snd (rule_ot003 clk obs d2) = []"
    using observe_mac_to_ip [of "mono clk" mac src dst port proto "mvp_inventory d" "text_of mac"] assms
    by (intro ot003_silent) (auto simp: obs_def iv_def)
  then show ?thesis
    unfolding step evaluate_observation_def
    by (auto simp: d2_def [symmetric] dest!: emits_rules [unfolded emits_rule_def, THEN bspec])
qed

theorem ot003_never_on_packet_path_witness:
  "''OT-003'' \<notin> set (map ev_rule (snd (mvp_step
     (Seen (clock_at 0) (\<lambda>_. False) (Some ''aa:bb'') (Some ''10.0.0.2'') None None None)
     ((mvp_init [] [] \<lparr>pol_assets = [], pol_allow = [], pol_thresholds = []\<rparr> {} 0)\<lparr>mvp_inventory := inventory_init\<lparr>mac_to_ip := [(''aa:bb'', ''10.0.0.1'')]\<rparr>\<rparr>))))"
  by (rule ot003_never_on_packet_path) (simp add: lower_def lower_char_def chr_code_def)

text \<open>
  C22. The port-scan rule fires exactly when it is enabled, the source has not been reported yet,
  and the number of distinct destination ports sampled from it inside the window, this packet
  included, has reached the configured limit.
\<close>

theorem port_scan_alert_iff:
  assumes "ob_src_ip obs = Some ip" and "ip \<noteq> []" and "ob_dst_port obs = Some port"
  shows "snd (rule_ot006 clk obs d) \<noteq> [] \<longleftrightarrow>
     mvp_enabled d ''OT-006'' \<and> ip \<notin> alerted_port_scan d \<and>
     scan_limit d \<le> int (card {p. \<exists>t. (t, p) \<in> insert (mono clk, port) (set (scan_samples (mvp_inventory d) ip))
                              \<and> mono clk - scan_window d \<le> t})"
proof -
  define d1 where "d1 = upd_inventory (record_port_scan_sample ip port (mono clk)) d"
  have w: "scan_window d1 = scan_window d" by (simp add: d1_def scan_window_def threshold_def)
  obtain iv un where u: "unique_ports_in_window ip (scan_window d) (mono clk) (mvp_inventory d1) = (iv, un)"
    by fastforce
  have st: "scan_step clk ip port d = (d1\<lparr>mvp_inventory := iv\<rparr>, un)"
    using u by (simp add: scan_step_def Let_def d1_def [symmetric] w)
  have lim: "scan_limit (d1\<lparr>mvp_inventory := iv\<rparr>) = scan_limit d"
    and al: "alerted_port_scan d1 = alerted_port_scan d"
    by (simp_all add: scan_limit_def threshold_def d1_def)
  have "set un = {p. \<exists>t. (t, p) \<in> insert (mono clk, port) (set (scan_samples (mvp_inventory d) ip))
                              \<and> mono clk - scan_window d \<le> t}"
    using unique_ports_set [of ip "scan_window d" "mono clk" "mvp_inventory d1"] u
    by (auto simp: d1_def)
  moreover have "distinct un"
    using unique_ports_distinct [of ip "scan_window d" "mono clk" "mvp_inventory d1"] u by simp
  ultimately have "length un = card {p. \<exists>t. (t, p) \<in> insert (mono clk, port)
      (set (scan_samples (mvp_inventory d) ip)) \<and> mono clk - scan_window d \<le> t}"
    by (metis distinct_card)
  moreover have "snd (mvp_event clk r a d') \<noteq> []" for r a d'
    by (rule mvp_event_cases [of clk r a d']) simp
  moreover have "snd (rule_ot006 clk obs d) \<noteq> [] \<longleftrightarrow> mvp_enabled d ''OT-006'' \<and>
      scan_limit d \<le> int (length un) \<and> ip \<notin> alerted_port_scan d"
    using assms calculation(2)
    by (simp add: rule_ot006_def Let_def st lim al no_event_def)
  ultimately show ?thesis by auto
qed

definition plain_policy :: ot_policy where
  "plain_policy = \<lparr>pol_assets = [], pol_allow = [], pol_thresholds = [(''port_scan_unique_ports'', 1)]\<rparr>"

theorem port_scan_alert_iff_witness:
  "snd (rule_ot006 (clock_at 5)
     \<lparr>ob_src_mac = None, ob_src_ip = Some ''h'', ob_dst_ip = None, ob_dst_port = Some 80, ob_protocol = None\<rparr>
     (mvp_init [] [] plain_policy {} 0)) \<noteq> []"
proof -
  have "{p. \<exists>t. (t::rat, p::nat) \<in> insert (5, 80) {} \<and> 5 - 60 \<le> t} = {80}" by auto
  then show ?thesis
    by (subst port_scan_alert_iff [where ip = "''h''" and port = 80])
       (auto simp: mvp_enabled_def mvp_init_def scan_limit_def scan_window_def threshold_def plain_policy_def
         trunc_rat_def scan_samples_def inventory_init_def)
qed


text \<open>
  C23. From the packet to the alert: a Modbus packet the parser accepts raises OT-007 exactly
  when the rule is enabled, the eighth payload byte is a write function code, the destination is
  a known asset, and either the source is not an allowed peer of it or the asset restricts its
  function codes and this one is not among them; it is then one single alert of that rule.
\<close>

theorem modbus_write_alert_iff:
  assumes "parse_modbus_tcp p = Some frame" and "pkt_tcp p = Some tcp"
  shows "map ev_rule (snd (evaluate_modbus clk frame d)) =
     (if mvp_enabled d ''OT-007'' \<and> unat (l4_payload tcp ! 7) \<in> WRITE_FUNCTION_CODES \<and>
         (\<exists>a. asset_for_ip d (mb_dst_ip frame) = Some a \<and>
            (mb_src_ip frame \<notin> set (as_allowed_peers a) \<or>
             as_allowed_fcs a \<noteq> [] \<and> unat (l4_payload tcp ! 7) \<notin> set (as_allowed_fcs a)))
      then [''OT-007''] else [])"
proof -
  have f: "function_code frame = unat (l4_payload tcp ! 7)"
    "is_write frame = (unat (l4_payload tcp ! 7) \<in> WRITE_FUNCTION_CODES)"
  proof -
    obtain tid uid fc w where q: "parse_modbus_payload (l4_payload tcp) = Some (tid, uid, fc, w)"
      and e: "function_code frame = fc" "is_write frame = w"
      using assms by (auto simp: parse_modbus_tcp_def split: option.splits if_splits)
    show "function_code frame = unat (l4_payload tcp ! 7)"
      "is_write frame = (unat (l4_payload tcp ! 7) \<in> WRITE_FUNCTION_CODES)"
      using parse_modbus_payload_Some(6,8) [OF q] e by simp_all
  qed
  have e: "map ev_rule (snd (mvp_event clk r a d)) = [r]" for r a
    by (rule mvp_event_cases [of clk r a d]) simp
  show ?thesis
    by (cases "asset_for_ip d (mb_dst_ip frame)") (auto simp: evaluate_modbus_def f e no_event_def)
qed

definition guarded_policy :: ot_policy where
  "guarded_policy = \<lparr>pol_assets = [\<lparr>as_id = Some ''relay-1'', as_addresses = [''10.0.0.9''],
     as_allowed_peers = [''10.0.0.1''], as_allowed_fcs = [], as_max_rate = None, as_write_count = JInt 0\<rparr>],
     pol_allow = [], pol_thresholds = []\<rparr>"

theorem modbus_write_alert_iff_witness:
  "\<exists>frame. parse_modbus_tcp modbus_write_packet = Some frame \<and>
     map ev_rule (snd (evaluate_modbus (clock_at 0) frame (mvp_init [] [] guarded_policy {} 0))) = [''OT-007'']"
proof -
  obtain tcp where "pkt_tcp modbus_write_packet = Some tcp" "l4_payload tcp ! 7 = 6"
    by (simp add: modbus_write_packet_def)
  then show ?thesis
    using modbus_write_alert_iff [OF modbus_write_packet_parses, of tcp "clock_at 0" "mvp_init [] [] guarded_policy {} 0"]
      modbus_write_packet_parses
    by (simp add: mvp_enabled_def mvp_init_def WRITE_FUNCTION_CODES_def asset_for_ip_def guarded_policy_def)
qed

text \<open>
  C20. Silent relays are all found and reported: at the end of a window, once the sensor has run for two
  minutes and OT-009 is enabled, the assets marked offline are exactly those marked before
  and those one of whose addresses was never seen or not for two minutes; and each newly marked asset
  gets one OT-009 event in the output of the window, with an address of it that is silent, and no
  other asset gets one.
\<close>

theorem relay_offline_complete:
  assumes "mvp_enabled d ''OT-009''" and "120 \<le> mono clk - mvp_started_at d"
  shows "(let silent = relay_id ` {p \<in> set (relay_addresses d). relay_silent clk d (fst p)};
       alerts = filter (\<lambda>e. ev_rule e = ''OT-009'') (snd (evaluate_window clk w d)) in
     alerted_offline (fst (evaluate_window clk w d)) = alerted_offline d \<union> silent \<and>
     distinct (map ev_asset alerts) \<and> ev_asset ` set alerts = silent - alerted_offline d \<and>
     (\<forall>e\<in>set alerts. relay_alert clk d (relay_addresses d) e))"
proof -
  define out where "out = (if mvp_enabled d ''OT-008'' then check_traffic_rate clk w d else no_event d)"
  define d1 where "d1 = fst out"
  have fr: "alerted_offline d1 = alerted_offline d" "mvp_inventory d1 = mvp_inventory d"
    "mvp_policy d1 = mvp_policy d" "mvp_rules d1 = mvp_rules d" "mvp_started_at d1 = mvp_started_at d"
    using traffic_rules_frame [of clk w "pol_assets (mvp_policy d)" d]
    by (simp_all add: d1_def out_def check_traffic_rate_def no_event_def)
  have traffic: "list_all (\<lambda>e. ev_rule e = ''OT-008'') (snd out)"
    using traffic_rules_events [of clk w "pol_assets (mvp_policy d)" d] by (simp add: out_def check_traffic_rate_def no_event_def)
  have s: "relay_addresses d1 = relay_addresses d" "relay_silent clk d1 = relay_silent clk d"
    "mvp_enabled d1 ''OT-009''"
    using assms(1) by (simp_all add: relay_addresses_def fr mvp_enabled_def relay_silent_def fun_eq_iff)
  define off where "off = run_rules (map (offline_rule clk) (relay_addresses d)) d1"
  have win: "fst (evaluate_window clk w d) = upd_inventory reset_window (fst off)"
    "snd (evaluate_window clk w d) = snd out @ snd off"
    using assms(2) fr(5) s(3)
    by (simp_all add: evaluate_window_def out_def [symmetric] d1_def [symmetric] check_relay_offline_def silence_limit_def
        no_event_def s(1) off_def)
  have events: "list_all (relay_alert clk d (relay_addresses d)) (snd off)" "distinct (map ev_asset (snd off))"
    "set (map ev_asset (snd off)) = relay_id ` {p \<in> set (relay_addresses d). relay_silent clk d (fst p)} - alerted_offline d"
    using offline_rules_events [of clk "relay_addresses d" d1]
    by (simp_all add: off_def Let_def s(2) fr(1) relay_alert_def [abs_def])
  have "filter (\<lambda>e. ev_rule e = ''OT-009'') (snd out) = []"
    using traffic by (auto simp: filter_empty_conv list_all_iff)
  moreover have "filter (\<lambda>e. ev_rule e = ''OT-009'') (snd off) = snd off"
    using events(1) by (auto simp: filter_id_conv list_all_iff relay_alert_def)
  ultimately show ?thesis
    using events by (simp add: win Let_def list_all_iff) (simp add: off_def offline_rules_effect fr s)
qed

theorem relay_offline_complete_witness:
  "(let alerts = filter (\<lambda>e. ev_rule e = ''OT-009'') (snd (evaluate_window (clock_at 130) 60
     (mvp_init [] [] guarded_policy {} 0))) in ev_asset ` set alerts = {''relay-1''})"
  using relay_offline_complete [of "mvp_init [] [] guarded_policy {} 0" "clock_at 130" 60]
  by (auto simp: Let_def mvp_enabled_def mvp_init_def relay_addresses_def guarded_policy_def relay_silent_def
       relay_id_def inventory_init_def)

end
