(* ===== verification/Isotime.thy ===== *)
theory Isotime
  imports PyValue
begin

text \<open>
  \<open>datetime.fromisoformat\<close> on the extended format (\<open>YYYY-MM-DD\<close>, any one separator,
  \<open>HH[:MM[:SS[.f]]]\<close> and an offset \<open>+HH[:MM[:SS]]\<close>), \<open>isoformat\<close>, and the instant of a
  value in microseconds since 1970. The basic and week formats newer Python versions also
  accept are read as invalid. A value without an offset is naive; Python refuses to compare it
  with an aware one.
\<close>

datatype py_datetime = Naive int | Aware int

record date_time =
  dt_year :: nat
  dt_month :: nat
  dt_day :: nat
  dt_hour :: nat
  dt_minute :: nat
  dt_second :: nat
  dt_micro :: nat
  dt_offset :: "int option"

fun is_leap :: "nat \<Rightarrow> bool" where
  "is_leap y = (y mod 4 = 0 \<and> (y mod 100 \<noteq> 0 \<or> y mod 400 = 0))"

definition days_in_month :: "nat \<Rightarrow> nat \<Rightarrow> nat" where
  "days_in_month y m = (if m = 2 then (if is_leap y then 29 else 28)
     else if m \<in> {4, 6, 9, 11} then 30 else 31)"

text \<open>Days since 1970-01-01 of a valid date.\<close>

definition epoch_days :: "nat \<Rightarrow> nat \<Rightarrow> nat \<Rightarrow> int" where
  "epoch_days y m d =
     (let p = int y - 1 in p * 365 + p div 4 - p div 100 + p div 400 +
        int (sum_list (map (days_in_month y) [1..<m])) + int d - 719163)"

definition valid_date :: "nat \<Rightarrow> nat \<Rightarrow> nat \<Rightarrow> bool" where
  "valid_date y m d = (1 \<le> y \<and> 1 \<le> m \<and> m \<le> 12 \<and> 1 \<le> d \<and> d \<le> days_in_month y m)"

definition two_digits :: "string \<Rightarrow> nat option" where
  "two_digits s = (if length s = 2 \<and> list_all is_digit s then Some (dec_val s) else None)"

definition parse_date :: "string \<Rightarrow> (nat \<times> nat \<times> nat) option" where
  "parse_date s =
     (if length s \<noteq> 10 \<or> s ! 4 \<noteq> CHR ''-'' \<or> s ! 7 \<noteq> CHR ''-'' \<or> \<not> list_all is_digit (take 4 s) then None
      else (case (two_digits (take 2 (drop 5 s)), two_digits (drop 8 s)) of
        (Some m, Some d) \<Rightarrow> let y = dec_val (take 4 s) in
           if valid_date y m d then Some (y, m, d) else None
      | _ \<Rightarrow> None))"

text \<open>Up to six digits of the fraction count.\<close>

definition micros :: "string \<Rightarrow> nat" where
  "micros f = dec_val (take 6 (f @ replicate 6 (CHR ''0'')))"

definition parse_clock :: "string \<Rightarrow> (nat \<times> nat \<times> nat \<times> nat) option" where
  "parse_clock s =
     (let whole = takeWhile (\<lambda>c. c \<noteq> CHR ''.'' \<and> c \<noteq> CHR '','') s; rest = drop (length whole) s;
          parts = map two_digits (split_on (CHR '':'') whole) in
      if list_ex (\<lambda>p. p = None) parts \<or> 3 < length parts then None
      else if rest \<noteq> [] \<and> (length parts \<noteq> 3 \<or> tl rest = [] \<or> \<not> list_all is_digit (tl rest)) then None
      else let vs = map the parts; h = vs ! 0; m = (if 2 \<le> length vs then vs ! 1 else 0);
               sec = (if 3 \<le> length vs then vs ! 2 else 0) in
        if 24 \<le> h \<or> 60 \<le> m \<or> 60 \<le> sec then None
        else Some (h, m, sec, if rest = [] then 0 else micros (tl rest)))"

definition clock_micros :: "nat \<times> nat \<times> nat \<times> nat \<Rightarrow> int" where
  "clock_micros = (\<lambda>(h, m, s, us). (int h * 3600 + int m * 60 + int s) * 1000000 + int us)"

definition parse_time :: "string \<Rightarrow> ((nat \<times> nat \<times> nat \<times> nat) \<times> int option) option" where
  "parse_time s =
     (let local = takeWhile (\<lambda>c. c \<noteq> CHR ''+'' \<and> c \<noteq> CHR ''-'') s; rest = drop (length local) s in
      case parse_clock local of None \<Rightarrow> None
      | Some t \<Rightarrow> (case rest of [] \<Rightarrow> Some (t, None)
          | sign # off \<Rightarrow> (case parse_clock off of None \<Rightarrow> None
              | Some z \<Rightarrow> Some (t, Some (if sign = CHR ''-'' then - clock_micros z else clock_micros z)))))"

definition mk_date_time :: "nat \<times> nat \<times> nat \<Rightarrow> (nat \<times> nat \<times> nat \<times> nat) \<Rightarrow> int option \<Rightarrow> date_time" where
  "mk_date_time = (\<lambda>(y, mo, d) (h, mi, s, us) off. \<lparr>dt_year = y, dt_month = mo, dt_day = d, dt_hour = h,
     dt_minute = mi, dt_second = s, dt_micro = us, dt_offset = off\<rparr>)"

definition fromisoformat :: "string \<Rightarrow> date_time option" where
  "fromisoformat s = (case parse_date (take 10 s) of None \<Rightarrow> None
     | Some d \<Rightarrow>
        if length s = 10 then Some (mk_date_time d (0, 0, 0, 0) None)
        else map_option (\<lambda>(t, off). mk_date_time d t off) (parse_time (drop 11 s)))"

definition instant :: "date_time \<Rightarrow> py_datetime" where
  "instant t = (let local = epoch_days (dt_year t) (dt_month t) (dt_day t) * 86400000000
                     + clock_micros (dt_hour t, dt_minute t, dt_second t, dt_micro t)
     in case dt_offset t of None \<Rightarrow> Naive local | Some z \<Rightarrow> Aware (local - z))"

definition iso_offset :: "int option \<Rightarrow> string" where
  "iso_offset off = (case off of None \<Rightarrow> []
     | Some z \<Rightarrow> let a = nat \<bar>z\<bar>; sec = a div 1000000 in
         (if z < 0 then ''-'' else ''+'') @ zpad 2 (sec div 3600) @ '':'' @ zpad 2 (sec div 60 mod 60)
         @ (if a mod 60000000 = 0 then [] else '':'' @ zpad 2 (sec mod 60)
            @ (if a mod 1000000 = 0 then [] else ''.'' @ zpad 6 (a mod 1000000))))"

definition isoformat :: "date_time \<Rightarrow> string" where
  "isoformat t = zpad 4 (dt_year t) @ ''-'' @ zpad 2 (dt_month t) @ ''-'' @ zpad 2 (dt_day t) @ ''T''
     @ zpad 2 (dt_hour t) @ '':'' @ zpad 2 (dt_minute t) @ '':'' @ zpad 2 (dt_second t)
     @ (if dt_micro t = 0 then [] else ''.'' @ zpad 6 (dt_micro t)) @ iso_offset (dt_offset t)"

text \<open>\<open>_parse_iso\<close> of the IoC caches, as the instant the caller compares.\<close>

definition parse_iso :: "string \<Rightarrow> py_datetime option" where
  "parse_iso value =
     (if value = [] then None
      else map_option instant (fromisoformat (concat (map (\<lambda>c. if c = CHR ''Z'' then ''+00:00'' else [c]) value))))"

section \<open>From an instant to the calendar\<close>

text \<open>
  \<open>datetime.fromtimestamp(t, tz=timezone.utc)\<close> of an instant in microseconds; the years of
  \<open>datetime\<close> end with 9999.
\<close>

definition year_start :: "nat \<Rightarrow> int" where
  "year_start y = epoch_days y 1 1"

definition year_of_days :: "int \<Rightarrow> nat option" where
  "year_of_days d = find (\<lambda>y. d < year_start (y + 1)) [1..<10000]"

definition days_before :: "nat \<Rightarrow> nat \<Rightarrow> nat" where
  "days_before y m = sum_list (map (days_in_month y) [1..<m])"

definition month_of_day :: "nat \<Rightarrow> nat \<Rightarrow> nat option" where
  "month_of_day y n = find (\<lambda>m. n < days_before y (m + 1)) [1..<13]"

definition civil_of_days :: "int \<Rightarrow> (nat \<times> nat \<times> nat) option" where
  "civil_of_days d = (case year_of_days d of None \<Rightarrow> None
     | Some y \<Rightarrow> if d < year_start y then None
         else let n = nat (d - year_start y) in
          (case month_of_day y n of None \<Rightarrow> None
           | Some m \<Rightarrow> Some (y, m, n - days_before y m + 1)))"

definition clock_of_micros :: "nat \<Rightarrow> nat \<times> nat \<times> nat \<times> nat" where
  "clock_of_micros us = (us div 3600000000, us div 60000000 mod 60, us div 1000000 mod 60, us mod 1000000)"

definition utc_of_micros :: "int \<Rightarrow> date_time option" where
  "utc_of_micros t = map_option (\<lambda>d. mk_date_time d (clock_of_micros (nat (t mod 86400000000))) (Some 0))
     (civil_of_days (t div 86400000000))"

definition utc_iso :: "int \<Rightarrow> string res" where
  "utc_iso t = (case utc_of_micros t of None \<Rightarrow> Inl ValueError | Some d \<Rightarrow> Inr (isoformat d))"

section \<open>Rendering and reading back\<close>

lemma find_SomeD: "find P xs = Some x \<Longrightarrow> x \<in> set xs \<and> P x"
  by (auto simp: find_Some_iff)

lemma days_before_Suc: "1 \<le> m \<Longrightarrow> days_before y (m + 1) = days_before y m + days_in_month y m"
  by (simp add: days_before_def)

lemma find_first_gt:
  assumes "find P [a..<b] = Some m" and "a < m"
  shows "\<not> P (m - 1)"
proof -
  obtain i where i: "i < length [a..<b]" "m = [a..<b] ! i" "\<forall>j<i. \<not> P ([a..<b] ! j)"
    using assms(1) by (auto simp: find_Some_iff)
  then have "m = a + i" "i < b - a" by (simp_all add: nth_upt)
  moreover from this have "0 < i" using assms(2) by simp
  ultimately show ?thesis using i(3) [rule_format, of "i - 1"] by simp
qed

lemma month_of_day_bounds:
  assumes "month_of_day y n = Some m"
  shows "1 \<le> m" "m \<le> 12" "days_before y m \<le> n" "n < days_before y m + days_in_month y m"
proof -
  have f: "find (\<lambda>m. n < days_before y (m + 1)) [1..<13] = Some m" using assms by (simp add: month_of_day_def)
  then have m: "m \<in> set [1..<13]" "n < days_before y (m + 1)" using find_SomeD [OF f] by auto
  show "1 \<le> m" "m \<le> 12" using m by auto
  show "n < days_before y m + days_in_month y m" using m days_before_Suc [of m y] by auto
  show "days_before y m \<le> n"
  proof (cases "m = 1")
    case True
    then show ?thesis by (simp add: days_before_def)
  next
    case False
    then have "\<not> n < days_before y (m - 1 + 1)" using find_first_gt [OF f] m by simp
    then show ?thesis using m False by simp
  qed
qed

lemma days_in_month_le: "days_in_month y m \<le> 31"
  by (simp add: days_in_month_def)

lemma civil_of_days_sound:
  assumes "civil_of_days d = Some (y, m, k)"
  shows "valid_date y m k \<and> y < 10000 \<and> m \<le> 12 \<and> k \<le> 31 \<and> epoch_days y m k = d"
proof -
  obtain n where y: "year_of_days d = Some y" and le: "year_start y \<le> d" and n: "n = nat (d - year_start y)"
    and m: "month_of_day y n = Some m" and k: "k = n - days_before y m + 1"
    using assms by (auto simp: civil_of_days_def Let_def split: option.splits if_splits)
  have yr: "1 \<le> y" "y < 10000" using find_SomeD [OF y [unfolded year_of_days_def]] by auto
  note b = month_of_day_bounds [OF m]
  have "epoch_days y m k = year_start y + int (days_before y m) + int k - 1"
    by (simp add: epoch_days_def year_start_def days_before_def Let_def)
  then have "epoch_days y m k = d" using b k n le by simp
  moreover have "k \<le> days_in_month y m" using b k by simp
  ultimately show ?thesis using yr b k days_in_month_le [of y m] by (auto simp: valid_date_def)
qed

lemma length_dec: "n < 10 ^ w \<Longrightarrow> 0 < w \<Longrightarrow> length (dec n) \<le> w"
proof (induction n arbitrary: w rule: dec.induct)
  case (1 n)
  show ?case
  proof (cases "n < 10")
    case True
    then show ?thesis using "1.prems" by (simp add: dec.simps [of n])
  next
    case False
    then obtain v where w: "w = Suc v" "0 < v" using "1.prems" by (cases w; cases "w - 1") auto
    then have "length (dec (n div 10)) \<le> v" using "1.IH" [OF False, of v] "1.prems" by auto
    then show ?thesis using False w by (simp add: dec.simps [of n])
  qed
qed

lemma length_zpad: "n < 10 ^ w \<Longrightarrow> 0 < w \<Longrightarrow> length (zpad w n) = w"
  using length_dec [of n w] by (simp add: zpad_def)

lemma zpad_all_digits: "c \<in> set (zpad w n) \<Longrightarrow> is_digit c"
  by (auto simp: zpad_def dest: dec_digits) (simp add: is_digit_def chr_code_def)

lemma two_digits_zpad: "n < 100 \<Longrightarrow> two_digits (zpad 2 n) = Some n"
  using length_zpad [of n 2] zpad_all_digits by (auto simp: two_digits_def list_all_iff)

lemma zpad2_cases: "n < 100 \<Longrightarrow> \<exists>a b. zpad 2 n = [a, b] \<and> is_digit a \<and> is_digit b \<and> two_digits [a, b] = Some n"
proof -
  assume n: "n < 100"
  obtain a b where "zpad 2 n = [a, b]" using length_zpad [of n 2] n
    by (cases "zpad 2 n"; cases "tl (zpad 2 n)") auto
  then show ?thesis using zpad_all_digits [of _ 2 n] two_digits_zpad [OF n] by auto
qed

lemma digit_no_mark: "is_digit c \<Longrightarrow> c \<notin> {CHR ''.'', CHR '','', CHR ''+'', CHR ''-'', CHR '':'', CHR ''Z''}"
  by (auto simp: is_digit_def chr_code_def)

lemma parse_date_zpad:
  assumes "valid_date y m d" "y < 10000" "m \<le> 12" "d \<le> 31"
  shows "parse_date (zpad 4 y @ ''-'' @ zpad 2 m @ ''-'' @ zpad 2 d) = Some (y, m, d)"
proof -
  have l4: "length (zpad 4 y) = 4" using length_zpad [of y 4] assms by simp
  obtain y1 y2 y3 y4 where y: "zpad 4 y = [y1, y2, y3, y4]"
    using l4 by (auto simp: length_Suc_conv numeral_eq_Suc)
  have dy: "is_digit y1" "is_digit y2" "is_digit y3" "is_digit y4" using zpad_all_digits [of _ 4 y] y by auto
  have vy: "dec_val [y1, y2, y3, y4] = y" using dec_val_zpad [of 4 y] y by simp
  obtain m1 m2 where m: "zpad 2 m = [m1, m2]" "two_digits [m1, m2] = Some m" using zpad2_cases [of m] assms by auto
  obtain d1 d2 where d: "zpad 2 d = [d1, d2]" "two_digits [d1, d2] = Some d" using zpad2_cases [of d] assms by auto
  show ?thesis using assms(1) dy vy m(2) d(2) unfolding y m(1) d(1) by (simp add: parse_date_def)
qed

lemma parse_clock_zpad:
  assumes "h < 24" "m < 60" "s < 60" "us < 1000000"
  shows "parse_clock (zpad 2 h @ '':'' @ zpad 2 m @ '':'' @ zpad 2 s @ (if us = 0 then [] else ''.'' @ zpad 6 us))
    = Some (h, m, s, us)"
proof -
  obtain h1 h2 where h: "zpad 2 h = [h1, h2]" "is_digit h1" "is_digit h2" "two_digits [h1, h2] = Some h" using zpad2_cases [of h] assms by auto
  obtain m1 m2 where m: "zpad 2 m = [m1, m2]" "is_digit m1" "is_digit m2" "two_digits [m1, m2] = Some m" using zpad2_cases [of m] assms by auto
  obtain s1 s2 where s: "zpad 2 s = [s1, s2]" "is_digit s1" "is_digit s2" "two_digits [s1, s2] = Some s" using zpad2_cases [of s] assms by auto
  note n = digit_no_mark [OF h(2)] digit_no_mark [OF h(3)] digit_no_mark [OF m(2)] digit_no_mark [OF m(3)]
    digit_no_mark [OF s(2)] digit_no_mark [OF s(3)]
  have six: "micros (zpad 6 us) = us" "zpad 6 us \<noteq> []" "list_all is_digit (zpad 6 us)"
    using length_zpad [of us 6] assms(4) zpad_all_digits [of _ 6 us] by (auto simp: micros_def list_all_iff)
  show ?thesis unfolding h(1) m(1) s(1)
    using n h(4) m(4) s(4) six assms by (simp add: parse_clock_def Let_def)
qed

lemma parse_time_zpad:
  assumes "h < 24" "m < 60" "s < 60" "us < 1000000"
  shows "parse_time (zpad 2 h @ '':'' @ zpad 2 m @ '':'' @ zpad 2 s @ (if us = 0 then [] else ''.'' @ zpad 6 us) @ ''+00:00'')
    = Some ((h, m, s, us), Some 0)"
proof -
  define t where "t = zpad 2 h @ '':'' @ zpad 2 m @ '':'' @ zpad 2 s @ (if us = 0 then [] else ''.'' @ zpad 6 us)"
  have "\<forall>c\<in>set t. c \<noteq> CHR ''+'' \<and> c \<noteq> CHR ''-''"
    unfolding t_def using zpad_all_digits digit_no_mark by (fastforce split: if_splits)
  then have "takeWhile (\<lambda>c. c \<noteq> CHR ''+'' \<and> c \<noteq> CHR ''-'') (t @ ''+00:00'') = t"
    by (subst takeWhile_append2) auto
  moreover have "parse_clock t = Some (h, m, s, us)" unfolding t_def by (rule parse_clock_zpad [OF assms])
  moreover have "parse_clock ''00:00'' = Some (0, 0, 0, 0)" by code_simp
  ultimately have "parse_time (t @ ''+00:00'') = Some ((h, m, s, us), Some 0)"
    by (simp add: parse_time_def Let_def clock_micros_def)
  then show ?thesis by (simp add: t_def)
qed

definition utc_valid :: "date_time \<Rightarrow> bool" where
  "utc_valid t = (valid_date (dt_year t) (dt_month t) (dt_day t) \<and> dt_year t < 10000 \<and> dt_month t \<le> 12 \<and> dt_day t \<le> 31 \<and>
     dt_hour t < 24 \<and> dt_minute t < 60 \<and> dt_second t < 60 \<and> dt_micro t < 1000000 \<and> dt_offset t = Some 0)"

text \<open>What \<open>isoformat\<close> writes for a time in UTC, \<open>fromisoformat\<close> reads as the same time.\<close>

lemma fromisoformat_isoformat:
  assumes "utc_valid t"
  shows "fromisoformat (isoformat t) = Some t"
proof -
  define ds where "ds = zpad 4 (dt_year t) @ ''-'' @ zpad 2 (dt_month t) @ ''-'' @ zpad 2 (dt_day t)"
  define ts where "ts = zpad 2 (dt_hour t) @ '':'' @ zpad 2 (dt_minute t) @ '':'' @ zpad 2 (dt_second t)
     @ (if dt_micro t = 0 then [] else ''.'' @ zpad 6 (dt_micro t)) @ ''+00:00''"
  have v: "valid_date (dt_year t) (dt_month t) (dt_day t)" "dt_year t < 10000" "dt_month t \<le> 12" "dt_day t \<le> 31"
    "dt_hour t < 24" "dt_minute t < 60" "dt_second t < 60" "dt_micro t < 1000000" "dt_offset t = Some 0"
    using assms by (simp_all add: utc_valid_def)
  have "iso_offset (Some 0) = ''+00:00''"
    by (simp add: iso_offset_def zpad_def dec.simps [of 0] digit_char_def)
  then have f: "isoformat t = ds @ ''T'' @ ts" by (simp add: isoformat_def ds_def ts_def v(9))
  have l: "length ds = 10" using v length_zpad [of "dt_year t" 4] length_zpad [of "dt_month t" 2] length_zpad [of "dt_day t" 2]
    by (simp add: ds_def)
  have "parse_date ds = Some (dt_year t, dt_month t, dt_day t)" unfolding ds_def by (rule parse_date_zpad) (use v in auto)
  moreover have "parse_time ts = Some ((dt_hour t, dt_minute t, dt_second t, dt_micro t), Some 0)"
    unfolding ts_def by (rule parse_time_zpad) (use v in auto)
  moreover have "take 10 (isoformat t) = ds" "drop 11 (isoformat t) = ts" "length (isoformat t) \<noteq> 10"
    using l by (simp_all add: f)
  moreover have "mk_date_time (dt_year t, dt_month t, dt_day t) (dt_hour t, dt_minute t, dt_second t, dt_micro t) (Some 0) = t"
    using v(9) by (simp add: mk_date_time_def)
  ultimately show ?thesis by (simp only: fromisoformat_def option.case option.map if_False prod.case)
qed

lemma hms_micros: "us = ((h * 60 + m) * 60 + s) * 1000000 + u \<Longrightarrow>
     int us = (int h * 3600 + int m * 60 + int s) * 1000000 + int u"
  by (simp add: algebra_simps)

lemma utc_of_micros_sound:
  assumes "utc_of_micros t = Some d"
  shows "utc_valid d \<and> instant d = Aware t"
proof -
  define us where "us = nat (t mod 86400000000)"
  obtain y m k where c: "civil_of_days (t div 86400000000) = Some (y, m, k)"
    and d: "d = mk_date_time (y, m, k) (clock_of_micros us) (Some 0)"
    using assms by (auto simp: utc_of_micros_def us_def)
  note s = civil_of_days_sound [OF c]
  have us: "us < 86400000000" "int us = t mod 86400000000" by (simp_all add: us_def)
  have "us div 60000000 = us div 3600000000 * 60 + us div 60000000 mod 60"
    "us div 1000000 = us div 60000000 * 60 + us div 1000000 mod 60"
    by (simp_all add: div_mult2_eq [of us 60000000 60, simplified] div_mult2_eq [of us 1000000 60, simplified])
  then have "us = ((us div 3600000000 * 60 + us div 60000000 mod 60) * 60 + us div 1000000 mod 60) * 1000000 + us mod 1000000"
    by simp
  then have "int us = (int (us div 3600000000) * 3600 + int (us div 60000000 mod 60) * 60 + int (us div 1000000 mod 60)) * 1000000
      + int (us mod 1000000)"
    by (rule hms_micros)
  then have "clock_micros (clock_of_micros us) = t mod 86400000000"
    using us(2) by (simp add: clock_micros_def clock_of_micros_def)
  then have "instant d = Aware t" using s
    by (simp add: d instant_def mk_date_time_def clock_of_micros_def)
  moreover have "us div 3600000000 < 24" using us(1) by (simp add: less_mult_imp_div_less)
  ultimately show ?thesis using s by (simp add: d utc_valid_def mk_date_time_def clock_of_micros_def)
qed

lemma utc_iso_sound: "utc_iso t = Inr s \<Longrightarrow> \<exists>d. s = isoformat d \<and> fromisoformat s = Some d \<and> instant d = Aware t"
  using utc_of_micros_sound [of t] by (auto simp: utc_iso_def fromisoformat_isoformat split: option.splits)

text \<open>Every instant of the years 1 to 9999 has a calendar time.\<close>

lemma year_start_nat:
  "year_start (Suc q) = int q * 365 + int (q div 4) - int (q div 100) + int (q div 400) - 719162"
  by (simp add: year_start_def epoch_days_def Let_def zdiv_int)

lemma days_in_year: "days_before y 13 = (if is_leap y then 366 else 365)"
  by (simp add: days_before_def days_in_month_def upt_conv_Cons del: is_leap.simps)

lemma leap_quotients:
  "int (Suc q div 4) - int (Suc q div 100) + int (Suc q div 400) =
     int (q div 4) - int (q div 100) + int (q div 400) + (if is_leap (Suc q) then 1 else 0)"
proof -
  have l: "Suc q mod 400 = 0 \<Longrightarrow> Suc q mod 100 = 0" "Suc q mod 100 = 0 \<Longrightarrow> Suc q mod 4 = 0" by presburger+
  have d: "int (Suc q div k) = int (q div k) + (if Suc q mod k = 0 then 1 else 0)" for k
    by (simp add: div_Suc)
  show ?thesis using l unfolding d is_leap.simps by (cases "Suc q mod 4 = 0"; cases "Suc q mod 100 = 0"; cases "Suc q mod 400 = 0") simp_all
qed

lemma year_start_Suc:
  assumes "1 \<le> y"
  shows "year_start (y + 1) = year_start y + int (days_before y 13)"
proof -
  obtain q where q: "y = Suc q" using assms by (cases y) auto
  have "year_start (Suc (Suc q)) = year_start (Suc q) + int (days_before (Suc q) 13)"
    using leap_quotients [of q] unfolding year_start_nat days_in_year by (auto simp del: is_leap.simps)
  then show ?thesis by (simp add: q)
qed

lemma civil_of_days_total:
  assumes "year_start 1 \<le> d" and "d < year_start 10000"
  shows "civil_of_days d \<noteq> None"
proof -
  have "9999 \<in> set [1..<10000] \<and> d < year_start (9999 + 1)" using assms(2) by simp
  then obtain y where y: "year_of_days d = Some y"
    unfolding year_of_days_def using find_None_iff [of "\<lambda>y. d < year_start (y + 1)" "[1..<10000]"] by fastforce
  have f: "find (\<lambda>y. d < year_start (y + 1)) [1..<10000] = Some y" using y by (simp add: year_of_days_def)
  then have r: "1 \<le> y" "d < year_start (y + 1)" using find_SomeD [OF f] by auto
  have le: "year_start y \<le> d"
  proof (cases "y = 1")
    case False
    then show ?thesis using find_first_gt [OF f] r by simp
  qed (use assms(1) in simp)
  have "nat (d - year_start y) < days_before y (12 + 1)" using r le year_start_Suc [of y] by simp
  moreover have "12 \<in> set [1..<13 :: nat]" by simp
  ultimately have "month_of_day y (nat (d - year_start y)) \<noteq> None"
    unfolding month_of_day_def find_None_iff by blast
  then show ?thesis using y le by (auto simp: civil_of_days_def Let_def)
qed

lemma div_less_of_mult: "t < b * k \<Longrightarrow> 0 < k \<Longrightarrow> t div k < (b :: int)"
  by (smt (verit) pos_mod_sign div_mult_mod_eq mult_right_mono)

lemma utc_iso_total:
  assumes "year_start 1 * 86400000000 \<le> t" and "t < year_start 10000 * 86400000000"
  shows "\<exists>s. utc_iso t = Inr s"
proof -
  have "year_start 1 \<le> t div 86400000000" using zdiv_mono1 [OF assms(1), of 86400000000] by simp
  moreover have "t div 86400000000 < year_start 10000" using assms(2) by (intro div_less_of_mult) simp_all
  ultimately show ?thesis using civil_of_days_total [of "t div 86400000000"]
    by (auto simp: utc_iso_def utc_of_micros_def split: option.splits)
qed

end
