(* ===== verification/Ioc.thy ===== *)
theory Ioc
  imports Isotime Stores Events Packet
begin

text \<open>
  The IoC cache of the packet sensor and the matcher of rule OT-019
  (\<open>policy/ioc_cache.py\<close>, \<open>detection/ioc.py\<close>): loading the cache with its expiry check,
  the look-up with hot reload, and the evaluation of a packet's two addresses with allow lists
  and the cooldown per address and direction.
\<close>

section \<open>The cache\<close>

record ioc_entry =
  ie_item_id :: string
  ie_confidence :: json
  ie_expires_at :: "py_datetime option"

text \<open>Modification times: no regular file, \<open>stat\<close> fails, or the time.\<close>

datatype mtime = NotFile | StatError | MTime pyfloat

record ioc_files =
  if_stamp :: mtime
  if_cache_mtime :: mtime
  if_cache :: jfile
  if_utc :: int

record ioc_cache =
  ic_interval :: pyfloat
  ic_ipv4 :: "(string, ioc_entry) dict"
  ic_version :: string
  ic_tenant :: string
  ic_etag :: string
  ic_last_mtime :: pyfloat
  ic_last_check :: pyfloat
  ic_loaded :: bool

definition ioc_cache_init :: "pyfloat \<Rightarrow> ioc_cache" where
  "ioc_cache_init reload_check_sec = \<lparr>ic_interval = reload_check_sec, ic_ipv4 = [], ic_version = [],
     ic_tenant = [], ic_etag = [], ic_last_mtime = 0, ic_last_check = 0, ic_loaded = False\<rparr>"

fun mtime_or_zero :: "mtime \<Rightarrow> pyfloat" where
  "mtime_or_zero (MTime t) = t"
| "mtime_or_zero _ = 0"

definition ioc_stamp :: "ioc_files \<Rightarrow> pyfloat" where
  "ioc_stamp f = (if if_stamp f \<noteq> NotFile then mtime_or_zero (if_stamp f)
     else if if_cache_mtime f \<noteq> NotFile then mtime_or_zero (if_cache_mtime f) else 0)"

text \<open>\<open>expires_at and expires_at <= now_utc\<close>; comparing a naive value raises TypeError.\<close>

definition is_expired :: "int \<Rightarrow> py_datetime option \<Rightarrow> bool res" where
  "is_expired utc e = (case e of None \<Rightarrow> Inr False | Some (Naive t) \<Rightarrow> Inl TypeError
     | Some (Aware t) \<Rightarrow> Inr (t \<le> utc))"

fun load_entries :: "int \<Rightarrow> (string \<times> json) list \<Rightarrow> (string, ioc_entry) dict \<Rightarrow> (string, ioc_entry) dict res" where
  "load_entries utc [] acc = Inr acc"
| "load_entries utc ((ip, meta) # rest) acc =
     (if \<not> is_obj meta then load_entries utc rest acc
      else let expires_at = parse_iso (str_or_empty (jget meta ''expires_at'')) in
        bind_res (is_expired utc expires_at) (\<lambda>expired.
          if expired then load_entries utc rest acc
          else load_entries utc rest (dict_put ip \<lparr>ie_item_id = str_or_empty (jget meta ''item_id''),
                 ie_confidence = jget meta ''confidence'', ie_expires_at = expires_at\<rparr> acc)))"

definition ioc_items :: "json \<Rightarrow> (string \<times> json) list res" where
  "ioc_items v = (let x = py_or (jget v ''ipv4'') (JObj []) in
     if is_obj x then Inr (obj_items x) else Inl AttributeError)"

definition ioc_parse :: "json \<Rightarrow> int \<Rightarrow> (string, ioc_entry) dict res" where
  "ioc_parse v utc = bind_res (ioc_items v) (\<lambda>items. load_entries utc items [])"

definition ioc_reload :: "bool \<Rightarrow> pyfloat \<Rightarrow> ioc_files \<Rightarrow> ioc_cache \<Rightarrow> bool res \<times> ioc_cache" where
  "ioc_reload force now f s =
     (if \<not> force \<and> ic_loaded s \<and> now - ic_last_check s < ic_interval s then (Inr False, s)
      else
        let s = s\<lparr>ic_last_check := now\<rparr>; stamp_mtime = ioc_stamp f in
        if ic_loaded s \<and> \<not> force \<and> stamp_mtime = ic_last_mtime s then (Inr False, s)
        else (case if_cache f of
            Absent \<Rightarrow> (Inr True, s\<lparr>ic_ipv4 := [], ic_version := [], ic_tenant := [], ic_etag := [],
                         ic_last_mtime := stamp_mtime, ic_loaded := True\<rparr>)
          | Unreadable \<Rightarrow> (Inr False, s)
          | Malformed \<Rightarrow> (Inr False, s)
          | Doc v \<Rightarrow>
              if \<not> is_obj v then (Inr False, s)
              else (case ioc_parse v (if_utc f) of
                  Inl e \<Rightarrow> (Inl e, s)
                | Inr ipv4 \<Rightarrow> (Inr True, s\<lparr>ic_ipv4 := ipv4, ic_version := str_or_empty (jget v ''artifact_version''),
                      ic_tenant := str_or_empty (jget v ''tenant_id''), ic_etag := str_or_empty (jget v ''etag''),
                      ic_last_mtime := stamp_mtime, ic_loaded := True\<rparr>))))"

definition lookup_ipv4 :: "pyfloat \<Rightarrow> ioc_files \<Rightarrow> string \<Rightarrow> ioc_cache \<Rightarrow> ioc_entry option res \<times> ioc_cache" where
  "lookup_ipv4 now f ip s =
     (if ip = [] then (Inr None, s)
      else (case ioc_reload False now f s of
          (Inl e, s) \<Rightarrow> (Inl e, s)
        | (Inr _, s) \<Rightarrow> (Inr (dict_get (ic_ipv4 s) ip), s)))"

section \<open>The matcher\<close>

record ioc_matcher =
  im_site :: string
  im_sensor :: string
  im_cache :: ioc_cache
  im_allow :: "json list"
  im_rules :: "string set"
  im_cooldown :: pyfloat
  im_seq :: nat
  im_last_alert :: "(string, pyfloat) dict"

definition ioc_matcher_init :: "string \<Rightarrow> string \<Rightarrow> ioc_cache \<Rightarrow> json list \<Rightarrow> string set \<Rightarrow> pyfloat \<Rightarrow> ioc_matcher" where
  "ioc_matcher_init site sensor cache allow rules cooldown_sec = \<lparr>im_site = site, im_sensor = sensor,
     im_cache = cache, im_allow = allow, im_rules = rules, im_cooldown = cooldown_sec, im_seq = 0,
     im_last_alert = []\<rparr>"

definition ioc_enabled :: "ioc_matcher \<Rightarrow> bool" where
  "ioc_enabled m = (im_rules m = {} \<or> ''OT-019'' \<in> im_rules m)"

definition global_allowlist_ips :: "ioc_matcher \<Rightarrow> string set" where
  "global_allowlist_ips m = set (map py_str (im_allow m))"

definition cooldown_key :: "string \<Rightarrow> string \<Rightarrow> string" where
  "cooldown_key ioc_value direction = ioc_value @ '':'' @ direction"

definition cooldown_active :: "pyfloat \<Rightarrow> string \<Rightarrow> ioc_matcher \<Rightarrow> bool" where
  "cooldown_active now key m = (case dict_get (im_last_alert m) key of None \<Rightarrow> False
     | Some t \<Rightarrow> now - t < im_cooldown m)"

definition mark_alert :: "pyfloat \<Rightarrow> string \<Rightarrow> ioc_matcher \<Rightarrow> ioc_matcher" where
  "mark_alert now key m = m\<lparr>im_last_alert := dict_put key now (im_last_alert m)\<rparr>"

record ioc_query =
  iq_src_ip :: "string option"
  iq_dst_ip :: "string option"
  iq_dst_port :: "nat option"
  iq_protocol :: "string option"

text \<open>The event number is taken before \<open>int(confidence)\<close> may raise.\<close>

definition clamp_risk :: "int \<Rightarrow> int" where
  "clamp_risk c = min 95 (max 70 c)"

definition ioc_event :: "clock \<Rightarrow> string \<Rightarrow> string \<Rightarrow> ioc_entry \<Rightarrow> ioc_query \<Rightarrow> ioc_matcher \<Rightarrow>
    security_event res \<times> ioc_matcher" where
  "ioc_event clk matched_ip direction entry q m =
     (let confidence = (if ie_confidence entry \<noteq> JNull then ie_confidence entry else JInt 80);
          seq = im_seq m + 1;
          m = m\<lparr>im_seq := seq\<rparr>
      in (bind_res (py_int confidence) (\<lambda>c. Inr
            \<lparr>ev_id = event_id (utc_day clk) ''ioc'' seq, ev_site = im_site m, ev_sensor = im_sensor m,
             ev_type = ''CTI_IOC_OBSERVED'', ev_severity = ''high'', ev_rule = ''OT-019'',
             ev_protocol = (if some_text (iq_protocol q) then text_of (iq_protocol q) else ''ip''),
             ev_description = ''CTI blacklist IPv4 observed on mirror (passive)'', ev_asset = [],
             ev_src_ip = text_of (iq_src_ip q), ev_dst_ip = text_of (iq_dst_ip q),
             ev_dst_port = map_option int (iq_dst_port q), ev_risk = clamp_risk c,
             ev_evidence = [(''ioc_type'', JStr ''ipv4''), (''ioc_value'', JStr matched_ip),
               (''intel_item_id'', JStr (ie_item_id entry)), (''artifact_version'', JStr (ic_version (im_cache m))),
               (''intel_tenant_id'', JStr (ic_tenant (im_cache m))), (''direction'', JStr direction),
               (''mirror_passive'', JBool True)],
             ev_evidence_ref = [], ev_timestamp = now_iso clk\<rparr>), m))"

text \<open>One turn of the loop over (direction, address).\<close>

definition ioc_direction :: "clock \<Rightarrow> ioc_files \<Rightarrow> (string \<Rightarrow> bool) \<Rightarrow> ioc_query \<Rightarrow> string \<Rightarrow> string option \<Rightarrow>
    ioc_matcher \<Rightarrow> security_event list res \<times> ioc_matcher" where
  "ioc_direction clk f wl q direction ip m =
     (if \<not> some_text ip \<or> text_of ip \<in> global_allowlist_ips m then (Inr [], m)
      else if wl (text_of ip) then (Inr [], m)
      else (case lookup_ipv4 (mono clk) f (text_of ip) (im_cache m) of
          (Inl e, c) \<Rightarrow> (Inl e, m\<lparr>im_cache := c\<rparr>)
        | (Inr None, c) \<Rightarrow> (Inr [], m\<lparr>im_cache := c\<rparr>)
        | (Inr (Some entry), c) \<Rightarrow>
            let m = m\<lparr>im_cache := c\<rparr>; key = cooldown_key (text_of ip) direction in
            if cooldown_active (mono clk) key m then (Inr [], m)
            else (case ioc_event clk (text_of ip) direction entry q (mark_alert (mono clk) key m) of
                (r, m) \<Rightarrow> (bind_res r (\<lambda>e. Inr [e]), m))))"

definition ioc_evaluate :: "clock \<Rightarrow> ioc_files \<Rightarrow> (string \<Rightarrow> bool) \<Rightarrow> ioc_query \<Rightarrow> ioc_matcher \<Rightarrow>
    security_event list res \<times> ioc_matcher" where
  "ioc_evaluate clk f wl q m =
     (if \<not> ioc_enabled m then (Inr [], m)
      else (case ioc_direction clk f wl q ''src'' (iq_src_ip q) m of
          (Inl e, m) \<Rightarrow> (Inl e, m)
        | (Inr es1, m) \<Rightarrow> (case ioc_direction clk f wl q ''dst'' (iq_dst_ip q) m of
              (Inl e, m) \<Rightarrow> (Inl e, m)
            | (Inr es2, m) \<Rightarrow> (Inr (es1 @ es2), m))))"

section \<open>Lemmas\<close>

subsection \<open>The cache as a reload store\<close>

definition ioc_content :: "ioc_cache \<Rightarrow> (string, ioc_entry) dict \<times> string \<times> string \<times> string" where
  "ioc_content s = (ic_ipv4 s, ic_version s, ic_tenant s, ic_etag s)"

definition ioc_readable :: "ioc_files \<Rightarrow> bool" where
  "ioc_readable f = (case if_cache f of Absent \<Rightarrow> True
     | Doc v \<Rightarrow> is_obj v \<and> (\<exists>d. ioc_parse v (if_utc f) = Inr d) | _ \<Rightarrow> False)"

definition ioc_load :: "ioc_files \<Rightarrow> (string, ioc_entry) dict \<times> string \<times> string \<times> string" where
  "ioc_load f = (case if_cache f of
     Doc v \<Rightarrow> ((case ioc_parse v (if_utc f) of Inr d \<Rightarrow> d | Inl _ \<Rightarrow> []), str_or_empty (jget v ''artifact_version''),
       str_or_empty (jget v ''tenant_id''), str_or_empty (jget v ''etag''))
   | _ \<Rightarrow> ([], [], [], []))"

interpretation ioc_rs: reload_store "\<lambda>force now f s. snd (ioc_reload force now f s)" ic_last_check
  ic_interval ioc_stamp ic_last_mtime ic_loaded ioc_readable ioc_load ioc_content
  by unfold_locales
     (auto simp: ioc_reload_def Let_def ioc_content_def ioc_readable_def ioc_load_def
       split: jfile.splits sum.splits)

definition unexpired :: "int \<Rightarrow> ioc_entry \<Rightarrow> bool" where
  "unexpired utc e = (case ie_expires_at e of None \<Rightarrow> True | Some (Aware t) \<Rightarrow> utc < t | Some (Naive t) \<Rightarrow> False)"

definition listed :: "(string \<times> json) list \<Rightarrow> string \<Rightarrow> ioc_entry \<Rightarrow> bool" where
  "listed items ip e = (\<exists>meta. (ip, meta) \<in> set items \<and> is_obj meta \<and>
     ie_item_id e = str_or_empty (jget meta ''item_id'') \<and>
     ie_expires_at e = parse_iso (str_or_empty (jget meta ''expires_at'')))"

lemma listed_Cons: "listed items ip e \<Longrightarrow> listed (x # items) ip e"
  by (auto simp: listed_def)

lemma load_entries_sound:
  "load_entries utc items acc = Inr d \<Longrightarrow> dict_get d ip = Some e \<Longrightarrow>
     dict_get acc ip = Some e \<or> (listed items ip e \<and> unexpired utc e)"
proof (induction utc items acc rule: load_entries.induct)
  case (2 utc a meta rest acc)
  show ?case
  proof (cases "is_obj meta")
    case False
    then show ?thesis using 2 listed_Cons by auto
  next
    case True
    define ex where "ex = parse_iso (str_or_empty (jget meta ''expires_at''))"
    obtain b where b: "is_expired utc ex = Inr b"
      using 2(4) True by (cases "is_expired utc ex") (auto simp: ex_def Let_def)
    define e' where "e' = \<lparr>ie_item_id = str_or_empty (jget meta ''item_id''),
                 ie_confidence = jget meta ''confidence'', ie_expires_at = ex\<rparr>"
    have n: "listed ((a, meta) # rest) a e'" using True by (auto simp: listed_def e'_def ex_def)
    show ?thesis
    proof (cases b)
      case True
      have "load_entries utc rest acc = Inr d"
        using 2(4) \<open>is_obj meta\<close> b True by (simp add: Let_def ex_def)
      then show ?thesis using 2(2) [OF _ ex_def True] \<open>is_obj meta\<close> 2(5) listed_Cons by blast
    next
      case False
      have r: "load_entries utc rest (dict_put a e' acc) = Inr d"
        using 2(4) \<open>is_obj meta\<close> b False by (simp add: Let_def ex_def e'_def)
      have "dict_get (dict_put a e' acc) ip = Some e \<or> (listed rest ip e \<and> unexpired utc e)"
        using 2(3) [OF _ ex_def False] \<open>is_obj meta\<close> r 2(5) by (simp add: e'_def)
      moreover have "unexpired utc e'"
        using b False by (auto simp: unexpired_def e'_def is_expired_def split: option.splits py_datetime.splits)
      ultimately show ?thesis using n listed_Cons by (auto split: if_splits)
    qed
  qed
qed simp

subsection \<open>Alerts\<close>

text \<open>The key an alert is about, and the alerts of one evaluation with the time they were raised.\<close>

definition alert_key :: "security_event \<Rightarrow> string" where
  "alert_key e = cooldown_key (evid_text e ''ioc_value'') (evid_text e ''direction'')"

lemma lookup_cache_frame:
  "lookup_ipv4 now f ip c = (r, c') \<Longrightarrow> ic_interval c' = ic_interval c"
  by (auto simp: lookup_ipv4_def ioc_reload_def Let_def split: if_splits sum.splits jfile.splits prod.splits)

text \<open>What one direction does: nothing but the cache, or one alert on a free key, which is marked.\<close>

definition ioc_frame :: "ioc_matcher \<Rightarrow> ioc_matcher \<Rightarrow> bool" where
  "ioc_frame m m' = (im_cooldown m' = im_cooldown m \<and> im_allow m' = im_allow m \<and> im_rules m' = im_rules m)"

lemma ioc_direction_cases:
  assumes "ioc_direction clk f wl q dir ip m = (r, m')"
  shows "ioc_frame m m' \<and>
    ((im_last_alert m' = im_last_alert m \<and> im_seq m' = im_seq m \<and> (\<forall>es. r = Inr es \<longrightarrow> es = [])) \<or>
     (some_text ip \<and> text_of ip \<notin> global_allowlist_ips m \<and> \<not> wl (text_of ip) \<and>
      \<not> cooldown_active (mono clk) (cooldown_key (text_of ip) dir) m \<and>
      im_last_alert m' = dict_put (cooldown_key (text_of ip) dir) (mono clk) (im_last_alert m) \<and>
      im_seq m' = Suc (im_seq m) \<and>
      (\<forall>es. r = Inr es \<longrightarrow> (\<exists>e. es = [e] \<and> alert_key e = cooldown_key (text_of ip) dir \<and>
         evid_text e ''ioc_value'' = text_of ip \<and> 70 \<le> ev_risk e \<and> ev_risk e \<le> 95 \<and>
         ev_id e = event_id (utc_day clk) ''ioc'' (Suc (im_seq m))))))"
proof -
  obtain c r0 where l: "lookup_ipv4 (mono clk) f (text_of ip) (im_cache m) = (r0, c)" by fastforce
  consider "\<not> some_text ip \<or> text_of ip \<in> global_allowlist_ips m \<or> wl (text_of ip) \<or> (\<forall>en. r0 \<noteq> Inr (Some en)) \<or>
      cooldown_active (mono clk) (cooldown_key (text_of ip) dir) (m\<lparr>im_cache := c\<rparr>)"
    | en where "some_text ip" "text_of ip \<notin> global_allowlist_ips m" "\<not> wl (text_of ip)" "r0 = Inr (Some en)"
      "\<not> cooldown_active (mono clk) (cooldown_key (text_of ip) dir) (m\<lparr>im_cache := c\<rparr>)" by blast
  then show ?thesis
  proof cases
    case 1
    then have "(r, m') = (Inr [], m) \<or> m' = m\<lparr>im_cache := c\<rparr> \<and> (\<forall>es. r = Inr es \<longrightarrow> es = [])"
      using assms l by (auto simp: ioc_direction_def Let_def split: if_splits sum.splits option.splits)
    then show ?thesis by (auto simp: ioc_frame_def)
  next
    case 2
    then have "cooldown_active (mono clk) (cooldown_key (text_of ip) dir) m = False"
      by (simp add: cooldown_active_def cong: option.case_cong)
    with 2 show ?thesis
      using assms l
      by (auto simp: ioc_direction_def Let_def ioc_event_def mark_alert_def ioc_frame_def alert_key_def evid_text_def
          clamp_risk_def bind_res_eq_Inr)
  qed
qed

lemma keys_differ: "cooldown_key a ''src'' \<noteq> cooldown_key b ''dst''"
  by (auto simp: cooldown_key_def dest: arg_cong [where f = last])

text \<open>
  The keys one evaluation alerts on: none of them on cooldown, all marked with the time of the
  evaluation, as is every key whose mark changed at all.
\<close>

definition step_alerts :: "clock \<Rightarrow> security_event list res \<Rightarrow> (pyfloat \<times> string) list" where
  "step_alerts clk r = (case r of Inl _ \<Rightarrow> [] | Inr es \<Rightarrow> map (\<lambda>e. (mono clk, alert_key e)) es)"

definition marks_ok :: "clock \<Rightarrow> ioc_matcher \<Rightarrow> ioc_matcher \<Rightarrow> bool" where
  "marks_ok clk m m' = (\<forall>k. dict_get (im_last_alert m') k = dict_get (im_last_alert m) k \<or>
     (dict_get (im_last_alert m') k = Some (mono clk) \<and> \<not> cooldown_active (mono clk) k m))"

lemma cooldown_frame:
  "im_last_alert m' = im_last_alert m \<Longrightarrow> im_cooldown m' = im_cooldown m \<Longrightarrow>
     cooldown_active t k m' = cooldown_active t k m"
  by (simp add: cooldown_active_def cong: option.case_cong)

lemma ioc_evaluate_step:
  assumes "ioc_evaluate clk f wl q m = (r, m')"
  shows "ioc_frame m m' \<and> marks_ok clk m m' \<and> distinct (step_alerts clk r) \<and>
    (\<forall>(t, k)\<in>set (step_alerts clk r). t = mono clk \<and> \<not> cooldown_active (mono clk) k m \<and>
       dict_get (im_last_alert m') k = Some (mono clk))"
proof (cases "ioc_enabled m")
  case False
  then show ?thesis using assms by (auto simp: ioc_evaluate_def ioc_frame_def marks_ok_def step_alerts_def)
next
  case True
  obtain r1 m1 where d1: "ioc_direction clk f wl q ''src'' (iq_src_ip q) m = (r1, m1)" by fastforce
  note c1 = ioc_direction_cases [OF d1]
  show ?thesis
  proof (cases r1)
    case (Inl e)
    then have "r = Inl e" "m' = m1" using assms True d1 by (simp_all add: ioc_evaluate_def)
    then show ?thesis using c1 by (auto simp: marks_ok_def step_alerts_def split: if_splits)
  next
    case (Inr es1)
    obtain r2 m2 where d2: "ioc_direction clk f wl q ''dst'' (iq_dst_ip q) m1 = (r2, m2)" by fastforce
    note c2 = ioc_direction_cases [OF d2]
    define k1 where "k1 = cooldown_key (text_of (iq_src_ip q)) ''src''"
    define k2 where "k2 = cooldown_key (text_of (iq_dst_ip q)) ''dst''"
    have k: "k1 \<noteq> k2" unfolding k1_def k2_def by (rule keys_differ)
    have m2: "m' = m2" and r: "r = bind_res r2 (\<lambda>es2. Inr (es1 @ es2))"
      using assms True d1 Inr d2 by (auto simp: ioc_evaluate_def split: sum.splits)
    have f: "ioc_frame m m2" using c1 c2 by (auto simp: ioc_frame_def)
    have a2: "cooldown_active (mono clk) k2 m1 = cooldown_active (mono clk) k2 m"
      using c1 k unfolding k1_def [symmetric] by (auto simp: cooldown_active_def ioc_frame_def cong: option.case_cong)
    have mk: "marks_ok clk m m2"
      using c1 c2 a2 k unfolding k1_def [symmetric] k2_def [symmetric] by (auto simp: marks_ok_def split: if_splits)
    have s: "step_alerts clk r = (case r2 of Inl _ \<Rightarrow> [] | Inr es2 \<Rightarrow> map (\<lambda>e. (mono clk, alert_key e)) (es1 @ es2))"
      by (cases r2) (simp_all add: r step_alerts_def)
    have "distinct (step_alerts clk r) \<and> (\<forall>(t, k)\<in>set (step_alerts clk r). t = mono clk \<and>
        \<not> cooldown_active (mono clk) k m \<and> dict_get (im_last_alert m2) k = Some (mono clk))"
    proof (cases r2)
      case (Inr es2)
      have e1: "es1 = [] \<or> (\<exists>e. es1 = [e] \<and> alert_key e = k1 \<and> \<not> cooldown_active (mono clk) k1 m \<and>
          dict_get (im_last_alert m1) k1 = Some (mono clk))"
        using c1 \<open>r1 = Inr es1\<close> unfolding k1_def by auto
      have e2: "es2 = [] \<or> (\<exists>e. es2 = [e] \<and> alert_key e = k2 \<and> \<not> cooldown_active (mono clk) k2 m \<and>
          dict_get (im_last_alert m2) k2 = Some (mono clk))"
        using c2 a2 Inr unfolding k2_def by auto
      have keep: "dict_get (im_last_alert m2) k1 = dict_get (im_last_alert m1) k1"
        using c2 k unfolding k2_def [symmetric] by auto
      show ?thesis using e1 e2 keep k Inr by (auto simp: s)
    qed (simp add: s)
    then show ?thesis using f mk m2 by simp
  qed
qed

fun ioc_alerts :: "(clock \<times> ioc_files \<times> (string \<Rightarrow> bool) \<times> ioc_query) list \<Rightarrow> ioc_matcher \<Rightarrow>
    (pyfloat \<times> string) list" where
  "ioc_alerts [] m = []"
| "ioc_alerts ((clk, f, wl, q) # rest) m = (case ioc_evaluate clk f wl q m of (r, m') \<Rightarrow>
     step_alerts clk r @ ioc_alerts rest m')"

lemma not_active: "\<not> cooldown_active t k m \<Longrightarrow> dict_get (im_last_alert m) k = Some t0 \<Longrightarrow> im_cooldown m \<le> t - t0"
  by (simp add: cooldown_active_def)

lemma ioc_alerts_spaced:
  assumes "0 \<le> im_cooldown m"
  shows "sorted_wrt (\<lambda>(t1, k1) (t2, k2). k1 = k2 \<longrightarrow> im_cooldown m \<le> t2 - t1) (ioc_alerts is m) \<and>
    (\<forall>(t, k)\<in>set (ioc_alerts is m). \<forall>t0. dict_get (im_last_alert m) k = Some t0 \<longrightarrow> im_cooldown m \<le> t - t0)"
  using assms
proof (induction "is" m rule: ioc_alerts.induct)
  case (2 clk f wl q rest m)
  obtain r m' where ev: "ioc_evaluate clk f wl q m = (r, m')" by fastforce
  note st = ioc_evaluate_step [OF ev]
  have cd: "im_cooldown m' = im_cooldown m" using st by (simp add: ioc_frame_def)
  have IH: "sorted_wrt (\<lambda>(t1, k1) (t2, k2). k1 = k2 \<longrightarrow> im_cooldown m \<le> t2 - t1) (ioc_alerts rest m')"
    "\<And>t k t0. (t, k) \<in> set (ioc_alerts rest m') \<Longrightarrow> dict_get (im_last_alert m') k = Some t0 \<Longrightarrow> im_cooldown m \<le> t - t0"
    using "2.IH" [OF ev [symmetric]] "2.prems" cd by auto
  have dist: "sorted_wrt (\<lambda>(t1, k1) (t2, k2). k1 = k2 \<longrightarrow> im_cooldown m \<le> t2 - t1) (step_alerts clk r)"
  proof -
    have "sorted_wrt (\<noteq>) (step_alerts clk r)" using st by (simp add: distinct_conv_nth sorted_wrt_iff_nth_less)
    moreover have "t = mono clk" if "(t, k) \<in> set (step_alerts clk r)" for t k using st that by blast
    ultimately show ?thesis by (elim sorted_wrt_mono_rel [rotated]) (clarsimp, metis)
  qed
  have later: "im_cooldown m \<le> t - t1" if "(t1, k) \<in> set (step_alerts clk r)" "(t, k) \<in> set (ioc_alerts rest m')" for t1 t k
    using st IH(2) [OF that(2)] that(1) by auto
  have old: "im_cooldown m \<le> t - t0" if new: "(t, k) \<in> set (ioc_alerts rest m')" and was: "dict_get (im_last_alert m) k = Some t0" for t k t0
  proof -
    have "marks_ok clk m m'" using st by simp
    then consider "dict_get (im_last_alert m') k = Some t0"
      | "dict_get (im_last_alert m') k = Some (mono clk)" "im_cooldown m \<le> mono clk - t0"
      using was not_active [of "mono clk" k m t0] unfolding marks_ok_def by metis
    then show ?thesis
    proof cases
      case 1
      then show ?thesis using IH(2) new by blast
    next
      case 2
      then show ?thesis using IH(2) [OF new] "2.prems" by fastforce
    qed
  qed
  show ?case using dist IH(1) later old st not_active
    by (auto simp: ev sorted_wrt_append)
qed simp

section \<open>The event numbers\<close>

text \<open>The matcher as an event source: an evaluation that raises emits nothing.\<close>

definition ioc_step :: "clock \<times> ioc_files \<times> (string \<Rightarrow> bool) \<times> ioc_query \<Rightarrow> ioc_matcher emitter" where
  "ioc_step i m = (case i of (clk, f, wl, q) \<Rightarrow> (case ioc_evaluate clk f wl q m of
     (r, m') \<Rightarrow> (m', case r of Inl _ \<Rightarrow> [] | Inr es \<Rightarrow> es)))"

lemma ioc_direction_numbered:
  assumes "ioc_direction clk f wl q dir ip m = (r, m')"
  shows "numbered im_seq (event_id (utc_day clk) ''ioc'') m (m', case r of Inl _ \<Rightarrow> [] | Inr es \<Rightarrow> es)"
  using ioc_direction_cases [OF assms]
  by (cases r) (auto simp: numbered_def intro: exI [of _ "[Suc (im_seq m)]"])

lemma ioc_step_numbered:
  "numbered im_seq (event_id (utc_day (fst i)) ''ioc'') m (ioc_step i m)"
proof -
  obtain clk f wl q where i: "i = (clk, f, wl, q)" by (cases i)
  obtain r1 m1 where d1: "ioc_direction clk f wl q ''src'' (iq_src_ip q) m = (r1, m1)" by fastforce
  obtain r2 m2 where d2: "ioc_direction clk f wl q ''dst'' (iq_dst_ip q) m1 = (r2, m2)" by fastforce
  note n1 = ioc_direction_numbered [OF d1] and n2 = ioc_direction_numbered [OF d2]
  have none: "numbered im_seq mk s (s', es) \<Longrightarrow> numbered im_seq mk s (s', [])" for mk s s' es
    by (auto simp: numbered_def intro: exI [of _ "[]"])
  show ?thesis
    using numbered_append [OF n1 n2] n1 none
    by (auto simp: i ioc_step_def ioc_evaluate_def d1 d2 numbered_none split: sum.splits)
qed

interpretation ioc_ids: event_source ioc_step im_seq "\<lambda>i. utc_day (fst i)" "''ioc''"
  by unfold_locales (rule ioc_step_numbered)

section \<open>Properties\<close>

text \<open>
  C27. The IoC cooldown holds over any run: two alerts for the same address in the same
  direction are never raised closer together than the cooldown, whatever packets, cache
  reloads, exceptions and clock readings lie between them, and all alerts of the run have
  different event ids.
\<close>

theorem ioc_cooldown_spacing:
  assumes "0 \<le> im_cooldown m"
  shows "sorted_wrt (\<lambda>(t1, k1) (t2, k2). k1 = k2 \<longrightarrow> im_cooldown m \<le> t2 - t1) (ioc_alerts is m) \<and>
     distinct (map ev_id (snd (emit_all ioc_step is m)))"
  using ioc_alerts_spaced [OF assms] ioc_ids.run_ids_distinct by blast

definition listed_host :: ioc_matcher where
  "listed_host = ioc_matcher_init [] [] ((ioc_cache_init 5)\<lparr>ic_loaded := True, ic_last_check := 1000,
     ic_ipv4 := [(''203.0.113.7'', \<lparr>ie_item_id = ''i1'', ie_confidence = JInt 99, ie_expires_at = None\<rparr>)]\<rparr>)
     [] {} 300"

definition quiet_files :: ioc_files where
  "quiet_files = \<lparr>if_stamp = NotFile, if_cache_mtime = NotFile, if_cache = Absent, if_utc = 0\<rparr>"

definition from_listed_host :: ioc_query where
  "from_listed_host = \<lparr>iq_src_ip = Some ''203.0.113.7'', iq_dst_ip = None, iq_dst_port = None, iq_protocol = None\<rparr>"

theorem ioc_cooldown_spacing_witness:
  "length (ioc_alerts [(clock_at 1000, quiet_files, \<lambda>_. False, from_listed_host),
                       (clock_at 1001, quiet_files, \<lambda>_. False, from_listed_host)] listed_host) = 1 \<and>
   sorted_wrt (\<lambda>(t1, k1) (t2, k2). k1 = k2 \<longrightarrow> 300 \<le> t2 - t1)
     (ioc_alerts [(clock_at 1000, quiet_files, \<lambda>_. False, from_listed_host),
                  (clock_at 1001, quiet_files, \<lambda>_. False, from_listed_host)] listed_host)"
proof -
  have m: "im_cooldown listed_host = 300" by (simp add: listed_host_def ioc_matcher_init_def)
  have "length (ioc_alerts [(clock_at 1000, quiet_files, \<lambda>_. False, from_listed_host),
                       (clock_at 1001, quiet_files, \<lambda>_. False, from_listed_host)] listed_host) = 1"
    by (simp add: listed_host_def ioc_matcher_init_def ioc_cache_init_def ioc_evaluate_def ioc_enabled_def
        ioc_direction_def from_listed_host_def global_allowlist_ips_def lookup_ipv4_def ioc_reload_def
        cooldown_active_def mark_alert_def ioc_event_def step_alerts_def alert_key_def evid_text_def cooldown_key_def)
  then show ?thesis using ioc_cooldown_spacing [of listed_host] m by (simp del: ioc_alerts.simps)
qed

text \<open>
  C26. Every OT-019 alert is about the packet: its address is the packet's source or
  destination, is on neither allow list, and its risk score lies between 70 and 95 whatever
  confidence the feed gives.
\<close>

theorem ioc_alert_sound:
  assumes "ioc_evaluate clk f wl q m = (Inr es, m')" and "e \<in> set es"
  shows "\<exists>ip\<in>{iq_src_ip q, iq_dst_ip q}. some_text ip \<and> evid_text e ''ioc_value'' = text_of ip \<and>
     text_of ip \<notin> global_allowlist_ips m \<and> \<not> wl (text_of ip) \<and> 70 \<le> ev_risk e \<and> ev_risk e \<le> 95"
proof -
  obtain r1 m1 where d1: "ioc_direction clk f wl q ''src'' (iq_src_ip q) m = (r1, m1)" by fastforce
  obtain r2 m2 where d2: "ioc_direction clk f wl q ''dst'' (iq_dst_ip q) m1 = (r2, m2)" by fastforce
  have "ioc_enabled m" using assms by (auto simp: ioc_evaluate_def split: if_splits)
  then obtain es1 es2 where r: "r1 = Inr es1" "r2 = Inr es2" "es = es1 @ es2"
    using assms(1) d1 d2 by (cases r1; cases r2) (simp_all add: ioc_evaluate_def)
  have g: "global_allowlist_ips m1 = global_allowlist_ips m"
    using ioc_direction_cases [OF d1] by (simp add: ioc_frame_def global_allowlist_ips_def)
  consider "e \<in> set es1" | "e \<in> set es2" using assms(2) r by auto
  then show ?thesis
  proof cases
    case 1
    then show ?thesis using ioc_direction_cases [OF d1] r(1) by (intro bexI [of _ "iq_src_ip q"]) auto
  next
    case 2
    then show ?thesis using ioc_direction_cases [OF d2] r(2) g by (intro bexI [of _ "iq_dst_ip q"]) auto
  qed
qed

theorem ioc_alert_sound_witness:
  "\<exists>e m'. ioc_evaluate (clock_at 1000) quiet_files (\<lambda>_. False) from_listed_host listed_host = (Inr [e], m') \<and>
     70 \<le> ev_risk e \<and> ev_risk e \<le> 95"
proof -
  have "\<exists>e m'. ioc_evaluate (clock_at 1000) quiet_files (\<lambda>_. False) from_listed_host listed_host = (Inr [e], m')"
    by (simp add: listed_host_def ioc_matcher_init_def ioc_cache_init_def ioc_evaluate_def ioc_enabled_def
        ioc_direction_def from_listed_host_def global_allowlist_ips_def lookup_ipv4_def ioc_reload_def
        cooldown_active_def mark_alert_def ioc_event_def cooldown_key_def)
  then show ?thesis using ioc_alert_sound [where f = quiet_files and q = from_listed_host and m = listed_host] by fastforce
qed

text \<open>
  What a reload puts in the cache is listed and alive: after a reload that read the file,
  every address the look-up finds is an entry of the file's \<open>ipv4\<close> object whose expiry time is
  absent, unreadable, or still ahead of the time of the load.
\<close>

theorem ioc_cache_sound:
  assumes "ioc_reload True now f s = (Inr b, s')" and "if_cache f = Doc (JObj d)"
    and "dict_get (ic_ipv4 s') ip = Some e"
  shows "\<exists>items. ioc_items (JObj d) = Inr items \<and> listed items ip e \<and> unexpired (if_utc f) e"
proof -
  obtain ipv4 where p: "ioc_parse (JObj d) (if_utc f) = Inr ipv4" "ic_ipv4 s' = ipv4"
    using assms(1,2) by (auto simp: ioc_reload_def Let_def split: sum.splits)
  then obtain items where "ioc_items (JObj d) = Inr items" "load_entries (if_utc f) items [] = Inr ipv4"
    by (auto simp: ioc_parse_def bind_res_eq_Inr)
  then show ?thesis using load_entries_sound [of "if_utc f" items "[]" ipv4 ip e] p assms(3) by simp
qed

theorem ioc_cache_sound_witness:
  "\<exists>items e. ioc_items (JObj [(''ipv4'', JObj [(''203.0.113.7'', JObj [(''item_id'', JStr ''i1'')])])]) = Inr items \<and>
     listed items ''203.0.113.7'' e \<and> unexpired 0 e"
proof -
  define f where "f = quiet_files\<lparr>if_cache := Doc (JObj [(''ipv4'', JObj [(''203.0.113.7'', JObj [(''item_id'', JStr ''i1'')])])])\<rparr>"
  have "\<exists>b s' e. ioc_reload True 1 f (ioc_cache_init 5) = (Inr b, s') \<and> dict_get (ic_ipv4 s') ''203.0.113.7'' = Some e"
    by (simp add: f_def quiet_files_def ioc_reload_def ioc_parse_def ioc_items_def py_or_def is_expired_def parse_iso_def Let_def) blast
  then obtain b s' e where "ioc_reload True 1 f (ioc_cache_init 5) = (Inr b, s')"
    "dict_get (ic_ipv4 s') ''203.0.113.7'' = Some e" by blast
  from ioc_cache_sound [OF this(1) _ this(2)] show ?thesis by (simp add: f_def quiet_files_def) blast
qed

end
