(* ===== verification/Buffers.thy ===== *)
theory Buffers
  imports Isotime Events
begin

text \<open>
  Bounded queues: the PCAP ring buffer and the event store of the packet sensor
  (\<open>evidence/ring_buffer.py\<close>, \<open>events/generator.py\<close>, \<open>live_stats.py\<close>) and the upload buffer of
  the edge agent (\<open>upload/buffer.py\<close>). Both buffers keep the newest entries in order; that
  promise is the locale \<open>bounded_fifo\<close>.
\<close>

section \<open>The contract\<close>

definition last_n :: "nat \<Rightarrow> 'a list \<Rightarrow> 'a list" where
  "last_n n xs = drop (length xs - n) xs"

lemma length_last_n [simp]: "length (last_n n xs) = min n (length xs)"
  by (simp add: last_n_def)

lemma map_last_n: "map f (last_n n xs) = last_n n (map f xs)"
  by (simp add: last_n_def drop_map)

lemma last_n_all: "length xs \<le> n \<Longrightarrow> last_n n xs = xs"
  by (simp add: last_n_def)

lemma last_n_snoc: "last_n n (last_n n xs @ [x]) = last_n n (xs @ [x])"
  by (cases "length xs < n") (auto simp: last_n_def Suc_diff_le)

locale bounded_fifo =
  fixes push :: "'x \<Rightarrow> 'q \<Rightarrow> 'q" and content :: "'q \<Rightarrow> 'e list" and entry :: "'x \<Rightarrow> 'e"
    and cap :: "'q \<Rightarrow> nat" and wf :: "'q \<Rightarrow> bool"
  assumes push_content: "wf q \<Longrightarrow> content (push x q) = last_n (cap q) (content q @ [entry x])"
    and push_cap: "cap (push x q) = cap q"
    and push_wf: "wf q \<Longrightarrow> wf (push x q)"
begin

text \<open>After any pushes the queue holds the last entries of everything pushed, in order.\<close>

lemma pushes_content:
  assumes "wf q" and "length (content q) \<le> cap q"
  shows "content (fold push xs q) = last_n (cap q) (content q @ map entry xs) \<and> wf (fold push xs q) \<and>
     cap (fold push xs q) = cap q"
proof (induction xs rule: rev_induct)
  case Nil
  then show ?case using assms by (simp add: last_n_all)
next
  case (snoc x xs)
  then show ?case
    using push_content [of "fold push xs q" x] push_wf [of "fold push xs q" x]
      last_n_snoc [of "cap q" "content q @ map entry xs" "entry x"]
    by (simp add: push_cap)
qed

lemma pushes_bounded:
  "wf q \<Longrightarrow> length (content q) \<le> cap q \<Longrightarrow> length (content (fold push xs q)) \<le> cap q"
  using pushes_content [of q xs] by simp

end

section \<open>The ring buffer\<close>

text \<open>Days since 1970 to a date, in the proleptic Gregorian calendar.\<close>

definition civil_of_days :: "int \<Rightarrow> nat \<times> nat \<times> nat" where
  "civil_of_days z0 =
     (let z = z0 + 719468; era = z div 146097; doe = z mod 146097;
          yoe = (doe - doe div 1460 + doe div 36524 - doe div 146096) div 365;
          doy = doe - (365 * yoe + yoe div 4 - yoe div 100); mp = (5 * doy + 2) div 153;
          d = doy - (153 * mp + 2) div 5 + 1; m = (if mp < 10 then mp + 3 else mp - 9)
      in (nat (yoe + era * 400 + (if m \<le> 2 then 1 else 0)), nat m, nat d))"

text \<open>\<open>_utc_iso\<close>: microseconds are rounded in, then dropped; time zero reads the clock.\<close>

definition utc_iso_of :: "pyfloat \<Rightarrow> pyfloat \<Rightarrow> string" where
  "utc_iso_of now ts = (let t = (if ts \<noteq> 0 then ts else now); sec = \<lfloor>py_round 6 t\<rfloor>; d = sec div 86400;
       s = nat (sec mod 86400) in
     isoformat (mk_date_time (civil_of_days d) (s div 3600, s div 60 mod 60, s mod 60, 0) (Some 0)))"

record ring_entry =
  re_captured_at :: pyfloat
  re_bytes :: bytes

record ring_buffer =
  rb_max :: nat
  rb_entries :: "ring_entry list"
  rb_last_ref :: string

definition ring_init :: "nat \<Rightarrow> ring_buffer" where
  "ring_init max_packets = \<lparr>rb_max = max_packets, rb_entries = [], rb_last_ref = []\<rparr>"

text \<open>\<open>while len(entries) > max_packets: popleft()\<close>\<close>

fun pop_while :: "nat \<Rightarrow> 'a list \<Rightarrow> 'a list" where
  "pop_while n [] = []"
| "pop_while n (x # xs) = (if n < length (x # xs) then pop_while n xs else x # xs)"

definition ring_append :: "pyfloat \<Rightarrow> bytes \<times> pyfloat option \<Rightarrow> ring_buffer \<Rightarrow> ring_buffer" where
  "ring_append now = (\<lambda>(packet_bytes, captured_at) rb.
     let ts = (case captured_at of Some t \<Rightarrow> t | None \<Rightarrow> now);
         entries = rb_entries rb @ [\<lparr>re_captured_at = ts, re_bytes = packet_bytes\<rparr>]
     in rb\<lparr>rb_entries := pop_while (rb_max rb) entries,
           rb_last_ref := ''local-ringbuffer://'' @ utc_iso_of now ts\<rparr>)"

definition ring_count :: "ring_buffer \<Rightarrow> nat" where
  "ring_count rb = length (rb_entries rb)"

definition ring_window :: "ring_buffer \<Rightarrow> pyfloat \<Rightarrow> pyfloat \<Rightarrow> pyfloat \<Rightarrow> bytes list" where
  "ring_window rb center_ts before_sec after_sec =
     (let start = center_ts - before_sec; stop = center_ts + after_sec in
      map re_bytes (filter (\<lambda>e. start \<le> re_captured_at e \<and> re_captured_at e \<le> stop) (rb_entries rb)))"

lemma pop_while_last_n: "pop_while n xs = last_n n xs"
proof (induction xs)
  case (Cons x xs)
  show ?case
  proof (cases "n < length (x # xs)")
    case True
    then have "length (x # xs) - n = Suc (length xs - n)" by simp
    then show ?thesis using Cons True by (simp add: last_n_def)
  next
    case False
    then show ?thesis by (simp add: last_n_def)
  qed
qed (simp add: last_n_def)

definition ring_entry_of :: "pyfloat \<Rightarrow> bytes \<times> pyfloat option \<Rightarrow> ring_entry" where
  "ring_entry_of now x = \<lparr>re_captured_at = (case snd x of Some t \<Rightarrow> t | None \<Rightarrow> now), re_bytes = fst x\<rparr>"

interpretation ring_bf: bounded_fifo "ring_append now" rb_entries "ring_entry_of now" rb_max "\<lambda>_. True"
  for now
  by unfold_locales (auto simp: ring_append_def pop_while_last_n ring_entry_of_def Let_def split: prod.splits)

section \<open>The event store\<close>

text \<open>The store file is the list of objects appended to it; the event is changed in place.\<close>

definition attach_evidence :: "ring_buffer option \<Rightarrow> security_event \<Rightarrow> security_event" where
  "attach_evidence ring e =
     (case ring of None \<Rightarrow> e
      | Some rb \<Rightarrow>
         if ev_evidence_ref e = [] \<and> rb_last_ref rb \<noteq> [] then
           e\<lparr>ev_evidence_ref := rb_last_ref rb,
             ev_evidence := (if dict_get (ev_evidence e) ''pcap_ref'' = None
                             then dict_put ''pcap_ref'' (JStr (rb_last_ref rb)) (ev_evidence e)
                             else ev_evidence e)\<rparr>
         else e)"

definition store_append :: "ring_buffer option \<Rightarrow> security_event \<Rightarrow> json list \<Rightarrow> json list \<times> security_event" where
  "store_append ring e file =
     (let e = attach_evidence ring e in (file @ [JObj (event_to_dict e)], e))"

definition read_recent :: "int \<Rightarrow> json list \<Rightarrow> json list" where
  "read_recent limit file = (if 0 < limit then last_n (nat limit) file else drop (nat (- limit)) file)"

section \<open>Live statistics\<close>

record live_tracker =
  lt_prev_total :: int
  lt_prev_at :: pyfloat

definition live_enrich :: "clock \<Rightarrow> json \<Rightarrow> live_tracker \<Rightarrow> json res \<times> live_tracker" where
  "live_enrich clk snap t =
     (case py_int (py_or (jget snap ''total_packets'') (JInt 0)) of
        Inl e \<Rightarrow> (Inl e, t)
      | Inr n \<Rightarrow>
          let delta = max (n - lt_prev_total t) 0; elapsed = max (mono clk - lt_prev_at t) (1 / 1000);
              out = dict_put ''updated_at'' (JStr (now_iso clk))
                     (dict_put ''instant_rate'' (JFloat (py_round 2 (of_int delta / elapsed))) (obj_items snap))
          in (Inr (JObj out), \<lparr>lt_prev_total = n, lt_prev_at = mono clk\<rparr>))"

section \<open>The upload buffer\<close>

text \<open>The table \<open>pending_uploads\<close>: rows of id, kind and payload; ids are never reused.\<close>

record upload_buffer =
  ub_max :: nat
  ub_next_id :: nat
  ub_rows :: "(nat \<times> string \<times> json) list"

definition upload_init :: "nat \<Rightarrow> upload_buffer" where
  "upload_init max_events = \<lparr>ub_max = max_events, ub_next_id = 1, ub_rows = []\<rparr>"

definition oldest_ids :: "nat \<Rightarrow> (nat \<times> string \<times> json) list \<Rightarrow> nat set" where
  "oldest_ids n rows = set (take n (sort (map fst rows)))"

definition upload_enqueue :: "string \<times> json \<Rightarrow> upload_buffer \<Rightarrow> upload_buffer" where
  "upload_enqueue = (\<lambda>(kind, payload) ub.
     let rows = ub_rows ub @ [(ub_next_id ub, kind, payload)];
         n = length rows in
     ub\<lparr>ub_next_id := ub_next_id ub + 1,
        ub_rows := (if ub_max ub < n
                    then filter (\<lambda>r. fst r \<notin> oldest_ids (n - ub_max ub) rows) rows else rows)\<rparr>)"

definition upload_pending :: "upload_buffer \<Rightarrow> (nat \<times> string \<times> json) list" where
  "upload_pending ub = sort_key fst (ub_rows ub)"

definition upload_remove :: "nat \<Rightarrow> upload_buffer \<Rightarrow> upload_buffer" where
  "upload_remove i ub = ub\<lparr>ub_rows := filter (\<lambda>r. fst r \<noteq> i) (ub_rows ub)\<rparr>"

definition row_has_event :: "string \<Rightarrow> nat \<times> string \<times> json \<Rightarrow> bool" where
  "row_has_event eid r = (fst (snd r) = ''event'' \<and> py_str (jget (snd (snd r)) ''event_id'') = eid)"

definition upload_remove_by_event_id :: "string \<Rightarrow> upload_buffer \<Rightarrow> upload_buffer" where
  "upload_remove_by_event_id eid ub =
     (if eid = [] then ub
      else fold upload_remove (map fst (filter (row_has_event eid) (ub_rows ub))) ub)"

text \<open>Ids increase along the rows and lie below the next one.\<close>

definition upload_wf :: "upload_buffer \<Rightarrow> bool" where
  "upload_wf ub = (sorted_wrt (<) (map fst (ub_rows ub)) \<and> (\<forall>r\<in>set (ub_rows ub). fst r < ub_next_id ub))"

lemma upload_wf_init: "upload_wf (upload_init n)"
  by (simp add: upload_wf_def upload_init_def)

lemma drop_oldest:
  assumes "sorted_wrt (<) (map fst rows)"
  shows "filter (\<lambda>r. fst r \<notin> oldest_ids n rows) rows = drop n rows"
proof -
  have s: "sort (map fst rows) = map fst rows"
    using assms by (simp add: sorted_sort_id strict_sorted_imp_sorted)
  have d: "distinct (map fst rows)" using assms by (simp add: strict_sorted_iff)
  have "filter (\<lambda>r. fst r \<notin> oldest_ids n rows) (take n rows) = []"
    by (auto simp: oldest_ids_def s filter_empty_conv take_map)
  moreover have "filter (\<lambda>r. fst r \<notin> oldest_ids n rows) (drop n rows) = drop n rows"
  proof -
    have "set (take n (map fst rows)) \<inter> set (drop n (map fst rows)) = {}"
      using d by (simp add: set_take_disj_set_drop_if_distinct)
    then show ?thesis by (auto simp: oldest_ids_def s filter_id_conv drop_map)
  qed
  ultimately show ?thesis by (metis append_Nil append_take_drop_id filter_append)
qed

lemma upload_enqueue_rows:
  assumes "upload_wf ub"
  shows "ub_rows (upload_enqueue x ub) = last_n (ub_max ub) (ub_rows ub @ [(ub_next_id ub, x)]) \<and>
     upload_wf (upload_enqueue x ub)"
proof -
  obtain kind payload where x: "x = (kind, payload)" by fastforce
  define rows where "rows = ub_rows ub @ [(ub_next_id ub, kind, payload)]"
  have s: "sorted_wrt (<) (map fst rows)"
    using assms by (simp add: upload_wf_def rows_def sorted_wrt_append)
  have len: "length rows = Suc (length (ub_rows ub))" by (simp add: rows_def)
  have r: "ub_rows (upload_enqueue x ub) = last_n (ub_max ub) rows"
    using len drop_oldest [OF s] by (simp add: x upload_enqueue_def Let_def rows_def [symmetric] last_n_def not_less)
  have "sorted_wrt (<) (map fst (last_n (ub_max ub) rows))"
    using s by (simp add: last_n_def drop_map [symmetric] sorted_wrt_drop)
  moreover have "set (last_n (ub_max ub) rows) \<subseteq> set rows" by (simp add: last_n_def set_drop_subset)
  moreover have "\<forall>r\<in>set rows. fst r < Suc (ub_next_id ub)"
    using assms by (auto simp: upload_wf_def rows_def less_SucI)
  ultimately have "\<forall>r\<in>set (last_n (ub_max ub) rows). fst r < Suc (ub_next_id ub)"
    and "sorted_wrt (<) (map fst (last_n (ub_max ub) rows))" by blast+
  then have "upload_wf (upload_enqueue x ub)"
    unfolding upload_wf_def r by (simp add: x upload_enqueue_def Let_def)
  then show ?thesis using r by (simp add: rows_def x)
qed

lemma upload_enqueue_max [simp]: "ub_max (upload_enqueue x ub) = ub_max ub"
  by (simp add: upload_enqueue_def Let_def split: prod.split)

definition upload_content :: "upload_buffer \<Rightarrow> (string \<times> json) list" where
  "upload_content ub = map snd (upload_pending ub)"

lemma upload_pending_rows: "upload_wf ub \<Longrightarrow> upload_pending ub = ub_rows ub"
  by (simp add: upload_pending_def upload_wf_def sorted_sort_id strict_sorted_imp_sorted
      sort_key_id_if_sorted)

interpretation upload_bf: bounded_fifo upload_enqueue upload_content "\<lambda>x. x" ub_max upload_wf
proof (unfold_locales, goal_cases)
  case (1 ub x)
  then show ?case using upload_enqueue_rows [of ub x]
    by (simp add: upload_content_def upload_pending_rows map_last_n)
qed (simp_all add: upload_enqueue_rows)

lemma upload_remove_wf: "upload_wf ub \<Longrightarrow> upload_wf (upload_remove i ub)"
  by (auto simp: upload_wf_def upload_remove_def sorted_wrt_map sorted_wrt_filter)

lemma upload_remove_fold:
  "ub_rows (fold upload_remove ids ub) = filter (\<lambda>r. fst r \<notin> set ids) (ub_rows ub)"
  "ub_max (fold upload_remove ids ub) = ub_max ub"
  "upload_wf ub \<Longrightarrow> upload_wf (fold upload_remove ids ub)"
  by (induction ids arbitrary: ub) (auto simp: upload_remove_def filter_filter upload_remove_wf [unfolded upload_remove_def]
      intro: filter_cong)

lemma upload_remove_by_event_rows:
  assumes "upload_wf ub" and "eid \<noteq> []"
  shows "ub_rows (upload_remove_by_event_id eid ub) = filter (\<lambda>r. \<not> row_has_event eid r) (ub_rows ub)"
proof -
  have d: "distinct (map fst (ub_rows ub))" using assms(1) by (simp add: upload_wf_def strict_sorted_iff)
  have "fst r \<in> fst ` {x \<in> set (ub_rows ub). row_has_event eid x} \<longleftrightarrow> row_has_event eid r"
    if "r \<in> set (ub_rows ub)" for r
    using d that by (auto simp: distinct_map inj_on_def)
  then show ?thesis
    using assms(2) by (auto simp: upload_remove_by_event_id_def upload_remove_fold intro!: filter_cong)
qed

section \<open>Runs of the upload buffer\<close>

datatype upload_op = Enqueue "string \<times> json" | Remove nat | RemoveByEvent string

fun upload_do :: "upload_op \<Rightarrow> upload_buffer \<Rightarrow> upload_buffer" where
  "upload_do (Enqueue x) ub = upload_enqueue x ub"
| "upload_do (Remove i) ub = upload_remove i ub"
| "upload_do (RemoveByEvent eid) ub = upload_remove_by_event_id eid ub"

lemma length_filter_bound: "length xs \<le> k \<Longrightarrow> length (filter P xs) \<le> k"
  by (rule le_trans [OF length_filter_le])

lemma upload_do_inv:
  "upload_wf ub \<Longrightarrow> length (ub_rows ub) \<le> ub_max ub \<Longrightarrow>
     upload_wf (upload_do op ub) \<and> length (ub_rows (upload_do op ub)) \<le> ub_max (upload_do op ub) \<and>
     ub_max (upload_do op ub) = ub_max ub"
proof (cases op)
  case (Enqueue x)
  then show "upload_wf ub \<Longrightarrow> length (ub_rows ub) \<le> ub_max ub \<Longrightarrow> ?thesis"
    using upload_enqueue_rows [of ub x] by simp
next
  case (Remove i)
  then show "upload_wf ub \<Longrightarrow> length (ub_rows ub) \<le> ub_max ub \<Longrightarrow> ?thesis"
    using upload_remove_wf [of ub i]
    by (simp add: upload_remove_def length_filter_bound)
next
  case (RemoveByEvent eid)
  then show "upload_wf ub \<Longrightarrow> length (ub_rows ub) \<le> ub_max ub \<Longrightarrow> ?thesis"
    by (simp add: upload_remove_by_event_id_def upload_remove_fold length_filter_bound)
qed

lemma upload_run_inv:
  "upload_wf ub \<Longrightarrow> length (ub_rows ub) \<le> ub_max ub \<Longrightarrow>
     upload_wf (fold upload_do ops ub) \<and> length (ub_rows (fold upload_do ops ub)) \<le> ub_max ub \<and>
     ub_max (fold upload_do ops ub) = ub_max ub"
proof (induction ops arbitrary: ub)
  case (Cons op ops)
  then show ?case using upload_do_inv [of ub op] by fastforce
qed simp

section \<open>Properties\<close>

text \<open>
  C34. The ring buffer holds the newest packets: after any appends to an empty buffer of
  \<open>n\<close> packets, its entries are the last \<open>n\<close> packets appended, in order, so a window query
  returns exactly those of them captured inside the window.
\<close>

theorem ring_keeps_newest:
  "rb_entries (fold (ring_append now) xs (ring_init n)) = last_n n (map (ring_entry_of now) xs) \<and>
   ring_count (fold (ring_append now) xs (ring_init n)) \<le> n \<and>
   ring_window (fold (ring_append now) xs (ring_init n)) c b a =
     map re_bytes (filter (\<lambda>e. c - b \<le> re_captured_at e \<and> re_captured_at e \<le> c + a)
       (last_n n (map (ring_entry_of now) xs)))"
  using ring_bf.pushes_content [of "ring_init n" now xs]
  by (simp add: ring_init_def ring_count_def ring_window_def)

text \<open>
  C35. The upload buffer is a bounded queue whatever was done to it: after any run of
  enqueues and removals it holds at most its maximum, the pending list is in the order of
  insertion, an enqueue appends and drops only the oldest overflow, and removing an event id
  takes out exactly the queued events that carry it.
\<close>

theorem upload_buffer_run:
  fixes ops :: "upload_op list" and n :: nat
  defines "ub \<equiv> fold upload_do ops (upload_init n)"
  shows "length (upload_pending ub) \<le> n \<and> sorted_wrt (<) (map fst (upload_pending ub)) \<and>
     upload_content (upload_enqueue x ub) = last_n n (upload_content ub @ [x]) \<and>
     upload_pending (upload_remove_by_event_id eid ub) =
       (if eid = [] then upload_pending ub else filter (\<lambda>r. \<not> row_has_event eid r) (upload_pending ub))"
proof -
  have inv: "upload_wf ub" "length (ub_rows ub) \<le> n" "ub_max ub = n"
    using upload_run_inv [OF upload_wf_init [of n], of ops] by (simp_all add: ub_def upload_init_def)
  have "upload_wf (upload_remove_by_event_id eid ub)"
    using inv(1) by (simp add: upload_remove_by_event_id_def upload_remove_fold)
  then have "upload_pending (upload_remove_by_event_id eid ub) =
       (if eid = [] then upload_pending ub else filter (\<lambda>r. \<not> row_has_event eid r) (upload_pending ub))"
    using upload_remove_by_event_rows [OF inv(1)] inv(1)
    by (simp add: upload_pending_rows) (simp add: upload_remove_by_event_id_def)
  then show ?thesis
    using inv upload_bf.push_content [OF inv(1), of x] by (simp add: upload_pending_rows) (simp add: upload_wf_def)
qed

end
