(* ===== verification/Coverage.thy ===== *)
theory Coverage
  imports Events
begin

text \<open>
  Detection coverage: the rule registry (\<open>detection/rules.py\<close>), the ATT&CK table with its
  keyword fallback (\<open>coverage/mitre_map.py\<close>) and the tally of emitted events
  (\<open>coverage/counter.py\<close>).
\<close>

section \<open>Rule registry\<close>

definition RULES :: "(string \<times> string \<times> string) list" where
  "RULES =
    [(''OT-001'', ''New MAC detected'', ''medium''), (''OT-002'', ''New IP detected'', ''medium''),
     (''OT-003'', ''MAC/IP mapping changed'', ''high''), (''OT-004'', ''New communication pair'', ''medium''),
     (''OT-005'', ''New destination port'', ''medium''), (''OT-006'', ''Port scan behavior'', ''high''),
     (''OT-007'', ''Unexpected Modbus write'', ''high''), (''OT-008'', ''Abnormal traffic rate'', ''medium''),
     (''OT-009'', ''Relay offline'', ''high''), (''OT-010'', ''Unauthorized host accessing relay'', ''high'')]"

definition IEC61850_RULES :: "(string \<times> string \<times> string) list" where
  "IEC61850_RULES =
    [(''OT-011'', ''New GOOSE publisher'', ''medium''), (''OT-012'', ''GOOSE test bit in production'', ''high''),
     (''OT-013'', ''GOOSE stNum anomaly'', ''medium''), (''OT-014'', ''New MMS client to IED'', ''medium''),
     (''OT-015'', ''MMS session rate anomaly'', ''medium''), (''OT-016'', ''Unexpected MMS write'', ''high''),
     (''OT-017'', ''GOOSE silence (IED offline)'', ''high''), (''OT-018'', ''Unauthorized MMS to relay IED'', ''high'')]"

definition CTI_RULES :: "(string \<times> string \<times> string) list" where
  "CTI_RULES = [(''OT-019'', ''CTI IOC observed'', ''high'')]"

section \<open>Techniques\<close>

record technique =
  tq_id :: string
  tq_name :: string
  tq_tactic :: string

definition tq :: "string \<Rightarrow> string \<Rightarrow> string \<Rightarrow> technique" where
  "tq i n t = \<lparr>tq_id = i, tq_name = n, tq_tactic = t\<rparr>"

definition MITRE_ICS :: "(string, technique list) dict" where
  "MITRE_ICS =
    [(''OT-001'', [tq ''T0840'' ''Network Connection Enumeration'' ''Discovery'']),
     (''OT-002'', [tq ''T0840'' ''Network Connection Enumeration'' ''Discovery'']),
     (''OT-003'', [tq ''T0830'' ''Adversary-in-the-Middle'' ''Collection'']),
     (''OT-004'', [tq ''T0840'' ''Network Connection Enumeration'' ''Discovery'']),
     (''OT-005'', [tq ''T0846'' ''Remote System Discovery'' ''Discovery'']),
     (''OT-006'', [tq ''T0846'' ''Remote System Discovery'' ''Discovery'']),
     (''OT-007'', [tq ''T0855'' ''Unauthorized Command Message'' ''Impair Process Control'',
                   tq ''T0836'' ''Modify Parameter'' ''Impair Process Control'']),
     (''OT-008'', [tq ''T0814'' ''Denial of Service'' ''Inhibit Response Function'']),
     (''OT-009'', [tq ''T0816'' ''Device Restart/Shutdown'' ''Inhibit Response Function'']),
     (''OT-010'', [tq ''T0859'' ''Valid Accounts'' ''Lateral Movement'',
                   tq ''T0855'' ''Unauthorized Command Message'' ''Impair Process Control'']),
     (''OT-011'', [tq ''T0856'' ''Spoof Reporting Message'' ''Impair Process Control'']),
     (''OT-012'', [tq ''T0855'' ''Unauthorized Command Message'' ''Impair Process Control'',
                   tq ''T0856'' ''Spoof Reporting Message'' ''Impair Process Control'']),
     (''OT-013'', [tq ''T0856'' ''Spoof Reporting Message'' ''Impair Process Control'']),
     (''OT-014'', [tq ''T0859'' ''Valid Accounts'' ''Lateral Movement'',
                   tq ''T0855'' ''Unauthorized Command Message'' ''Impair Process Control'']),
     (''OT-015'', [tq ''T0814'' ''Denial of Service'' ''Inhibit Response Function'']),
     (''OT-016'', [tq ''T0855'' ''Unauthorized Command Message'' ''Impair Process Control'',
                   tq ''T0836'' ''Modify Parameter'' ''Impair Process Control'']),
     (''OT-017'', [tq ''T0813'' ''Denial of Control'' ''Inhibit Response Function'',
                   tq ''T0815'' ''Denial of View'' ''Inhibit Response Function'']),
     (''OT-018'', [tq ''T0859'' ''Valid Accounts'' ''Lateral Movement'',
                   tq ''T0855'' ''Unauthorized Command Message'' ''Impair Process Control'']),
     (''OT-019'', [tq ''T0885'' ''Commonly Used Port'' ''Command and Control''])]"

definition KEYWORD_FALLBACK :: "(string, technique list) dict" where
  "KEYWORD_FALLBACK =
    [(''GOOSE'', [tq ''T0856'' ''Spoof Reporting Message'' ''Impair Process Control'']),
     (''MMS'', [tq ''T0855'' ''Unauthorized Command Message'' ''Impair Process Control'']),
     (''MODBUS'', [tq ''T0836'' ''Modify Parameter'' ''Impair Process Control'']),
     (''IOC'', [tq ''T0885'' ''Commonly Used Port'' ''Command and Control'']),
     (''SCAN'', [tq ''T0846'' ''Remote System Discovery'' ''Discovery'']),
     (''DEFAULT'', [tq ''T0840'' ''Network Connection Enumeration'' ''Discovery''])]"

definition fallback :: "string \<Rightarrow> technique list" where
  "fallback key = (case dict_get KEYWORD_FALLBACK key of Some ts \<Rightarrow> ts | None \<Rightarrow> [])"

definition techniques_for :: "string \<Rightarrow> string \<Rightarrow> string \<Rightarrow> technique list" where
  "techniques_for rule_id event_type description =
     (let rid = upper (strip rule_id) in
      case dict_get MITRE_ICS rid of Some ts \<Rightarrow> ts
      | None \<Rightarrow>
          let blob = upper (rule_id @ '' '' @ event_type @ '' '' @ description) in
          (case find (\<lambda>key. is_infix key blob) [''GOOSE'', ''MMS'', ''MODBUS'', ''IOC'', ''SCAN''] of
             Some key \<Rightarrow> fallback key | None \<Rightarrow> fallback ''DEFAULT''))"

section \<open>The tally\<close>

record rule_tally =
  rt_count :: nat
  rt_severity :: string
  rt_first_seen :: string
  rt_last_seen :: string

record tech_tally =
  tt_count :: nat
  tt_name :: string
  tt_tactic :: string
  tt_rules :: "string list"
  tt_first_seen :: string
  tt_last_seen :: string

record coverage =
  cv_sensor :: string
  cv_site :: string
  cv_enabled :: bool
  cv_since :: string
  cv_total :: nat
  cv_rules :: "(string, rule_tally) dict"
  cv_techs :: "(string, tech_tally) dict"
  cv_dirty :: bool

definition coverage_init :: "string \<Rightarrow> string \<Rightarrow> bool \<Rightarrow> string \<Rightarrow> coverage" where
  "coverage_init sensor site enabled since = \<lparr>cv_sensor = sensor, cv_site = site, cv_enabled = enabled,
     cv_since = since, cv_total = 0, cv_rules = [], cv_techs = [], cv_dirty = False\<rparr>"

definition tally_rule :: "string \<Rightarrow> string \<Rightarrow> string \<Rightarrow> (string, rule_tally) dict \<Rightarrow> (string, rule_tally) dict" where
  "tally_rule rule_id severity now rules =
     (case dict_get rules rule_id of
        None \<Rightarrow> dict_put rule_id \<lparr>rt_count = 1, rt_severity = severity, rt_first_seen = now, rt_last_seen = now\<rparr> rules
      | Some r \<Rightarrow> dict_put rule_id (r\<lparr>rt_count := rt_count r + 1, rt_last_seen := now,
            rt_severity := (if severity \<noteq> [] then severity else rt_severity r)\<rparr>) rules)"

definition tally_tech :: "string \<Rightarrow> string \<Rightarrow> technique \<Rightarrow> (string, tech_tally) dict \<Rightarrow> (string, tech_tally) dict" where
  "tally_tech rule_id now tech techs =
     (if tq_id tech = [] then techs
      else (case dict_get techs (tq_id tech) of
        None \<Rightarrow> dict_put (tq_id tech) \<lparr>tt_count = 1, tt_name = tq_name tech, tt_tactic = tq_tactic tech,
            tt_rules = [rule_id], tt_first_seen = now, tt_last_seen = now\<rparr> techs
      | Some e \<Rightarrow> dict_put (tq_id tech) (e\<lparr>tt_count := tt_count e + 1, tt_last_seen := now,
            tt_rules := (if rule_id \<in> set (tt_rules e) then tt_rules e else tt_rules e @ [rule_id])\<rparr>) techs))"

definition coverage_record :: "string \<Rightarrow> security_event \<Rightarrow> coverage \<Rightarrow> coverage" where
  "coverage_record utc_now e c =
     (if \<not> cv_enabled c then c
      else if ev_rule e = [] then c
      else let now = (if ev_timestamp e \<noteq> [] then ev_timestamp e else utc_now) in
        c\<lparr>cv_total := cv_total c + 1,
          cv_rules := tally_rule (ev_rule e) (ev_severity e) now (cv_rules c),
          cv_techs := fold (tally_tech (ev_rule e) now)
             (techniques_for (ev_rule e) (ev_type e) (ev_description e)) (cv_techs c),
          cv_dirty := True\<rparr>)"

definition rule_json :: "rule_tally \<Rightarrow> json" where
  "rule_json r = JObj [(''count'', JInt (int (rt_count r))), (''severity'', JStr (rt_severity r)),
     (''first_seen'', JStr (rt_first_seen r)), (''last_seen'', JStr (rt_last_seen r))]"

definition tech_json :: "tech_tally \<Rightarrow> json" where
  "tech_json t = JObj [(''count'', JInt (int (tt_count t))), (''name'', JStr (tt_name t)),
     (''tactic'', JStr (tt_tactic t)), (''rules'', JList (map JStr (tt_rules t))),
     (''first_seen'', JStr (tt_first_seen t)), (''last_seen'', JStr (tt_last_seen t))]"

definition sorted_items :: "(string \<times> 'a) list \<Rightarrow> (string \<times> 'a) list" where
  "sorted_items d = sort_key fst d"

definition coverage_snapshot :: "string \<Rightarrow> coverage \<Rightarrow> json" where
  "coverage_snapshot now c = JObj [(''schema'', JStr ''ot-edge.coverage.v1''), (''sensor_id'', JStr (cv_sensor c)),
     (''site_id'', JStr (cv_site c)), (''since'', JStr (cv_since c)), (''generated_at'', JStr now),
     (''totals'', JObj [(''events'', JInt (int (cv_total c))), (''rules_hit'', JInt (int (length (cv_rules c)))),
        (''techniques_hit'', JInt (int (length (cv_techs c))))]),
     (''rules'', JObj (map (\<lambda>(k, v). (k, rule_json v)) (sorted_items (cv_rules c)))),
     (''techniques'', JObj (map (\<lambda>(k, v). (k, tech_json v)) (sorted_items (cv_techs c))))]"

text \<open>The file after a flush; \<open>write_ok\<close> tells whether the atomic write succeeds.\<close>

definition coverage_flush :: "bool \<Rightarrow> bool \<Rightarrow> string \<Rightarrow> json option \<Rightarrow> coverage \<Rightarrow> bool \<times> json option \<times> coverage" where
  "coverage_flush force write_ok now file c =
     (if \<not> cv_enabled c then (False, file, c)
      else if \<not> force \<and> \<not> cv_dirty c then (False, file, c)
      else if write_ok then (True, Some (coverage_snapshot now c), c\<lparr>cv_dirty := False\<rparr>)
      else (False, file, c))"

section \<open>Lemmas\<close>

definition count_of :: "coverage \<Rightarrow> string \<Rightarrow> nat" where
  "count_of c r = (case dict_get (cv_rules c) r of None \<Rightarrow> 0 | Some t \<Rightarrow> rt_count t)"

definition rules_total :: "coverage \<Rightarrow> nat" where
  "rules_total c = sum_list (map (\<lambda>p. rt_count (snd p)) (cv_rules c))"

lemma sum_put_new:
  "dict_get d k = None \<Longrightarrow> sum_list (map (\<lambda>p. f (snd p)) (dict_put k v d)) = sum_list (map (\<lambda>p. f (snd p)) d) + (f v :: nat)"
  by (induction d) (auto split: if_splits)

lemma sum_put_old:
  "dict_get d k = Some u \<Longrightarrow>
     sum_list (map (\<lambda>p. f (snd p)) (dict_put k v d)) + f u = sum_list (map (\<lambda>p. f (snd p)) d) + (f v :: nat)"
  by (induction d) (auto split: if_splits)

lemma tally_rule_sum:
  "sum_list (map (\<lambda>p. rt_count (snd p)) (tally_rule r sev now rules)) = Suc (sum_list (map (\<lambda>p. rt_count (snd p)) rules))"
proof (cases "dict_get rules r")
  case None
  then show ?thesis by (simp add: tally_rule_def sum_put_new)
next
  case (Some t)
  then show ?thesis
    using sum_put_old [OF Some, of rt_count "t\<lparr>rt_count := rt_count t + 1, rt_last_seen := now,
            rt_severity := (if sev \<noteq> [] then sev else rt_severity t)\<rparr>"]
    by (simp add: tally_rule_def)
qed

lemma tally_rule_count:
  "(case dict_get (tally_rule r sev now rules) r' of None \<Rightarrow> 0 | Some t \<Rightarrow> rt_count t) =
     (case dict_get rules r' of None \<Rightarrow> 0 | Some t \<Rightarrow> rt_count t) + (if r' = r then 1 else 0)"
  by (simp add: tally_rule_def split: option.split)

lemma tally_rule_wf: "dict_wf rules \<Longrightarrow> dict_wf (tally_rule r sev now rules)"
  by (simp add: tally_rule_def split: option.split)

definition counted :: "security_event \<Rightarrow> bool" where
  "counted e = (ev_rule e \<noteq> [])"

definition tech_inv :: "(string, tech_tally) dict \<Rightarrow> bool" where
  "tech_inv techs = (dict_wf techs \<and> (\<forall>p\<in>set techs. fst p \<noteq> [] \<and> distinct (tt_rules (snd p)) \<and>
     tt_rules (snd p) \<noteq> [] \<and> length (tt_rules (snd p)) \<le> tt_count (snd p)))"

lemma tally_tech_inv: "tech_inv techs \<Longrightarrow> tech_inv (tally_tech r now t techs)"
proof (cases "tq_id t = []")
  case False
  assume i: "tech_inv techs"
  have "\<exists>v. tally_tech r now t techs = dict_put (tq_id t) v techs \<and> distinct (tt_rules v) \<and>
      tt_rules v \<noteq> [] \<and> length (tt_rules v) \<le> tt_count v"
  proof (cases "dict_get techs (tq_id t)")
    case None
    then have "tally_tech r now t techs = dict_put (tq_id t) \<lparr>tt_count = 1, tt_name = tq_name t,
        tt_tactic = tq_tactic t, tt_rules = [r], tt_first_seen = now, tt_last_seen = now\<rparr> techs"
      using False by (simp add: tally_tech_def)
    then show ?thesis
      by (intro exI [of _ "\<lparr>tt_count = 1, tt_name = tq_name t, tt_tactic = tq_tactic t, tt_rules = [r],
        tt_first_seen = now, tt_last_seen = now\<rparr>"]) simp
  next
    case (Some e)
    then have "(tq_id t, e) \<in> set techs" by (rule dict_get_SomeD)
    then have "distinct (tt_rules e)" "tt_rules e \<noteq> []" "length (tt_rules e) \<le> tt_count e"
      using i by (auto simp: tech_inv_def)
    then show ?thesis using False Some unfolding tally_tech_def by (simp, intro exI conjI refl) auto
  qed
  then obtain v where v: "tally_tech r now t techs = dict_put (tq_id t) v techs" "distinct (tt_rules v)"
    "tt_rules v \<noteq> []" "length (tt_rules v) \<le> tt_count v" by blast
  have "\<forall>p\<in>set (dict_put (tq_id t) v techs). fst p \<noteq> [] \<and> distinct (tt_rules (snd p)) \<and>
      tt_rules (snd p) \<noteq> [] \<and> length (tt_rules (snd p)) \<le> tt_count (snd p)"
    by (rule dict_put_Ball) (use i v False in \<open>simp_all add: tech_inv_def\<close>)
  then show ?thesis using i by (simp add: tech_inv_def v(1))
qed (simp add: tally_tech_def)

lemma tally_techs_inv: "tech_inv techs \<Longrightarrow> tech_inv (fold (tally_tech r now) ts techs)"
  by (induction ts arbitrary: techs) (auto intro: tally_tech_inv)

section \<open>Properties\<close>

text \<open>
  The tally is exact: after recording any events on an enabled fresh counter, every rule's
  count is the number of those events that name it, the total is the number of events that name
  any rule and the sum of the counts, and every technique listed has at least one rule, each of
  its rules once, and a count no smaller than their number.
\<close>

theorem coverage_exact:
  fixes es :: "security_event list" and sensor site since :: string and nw :: "security_event \<Rightarrow> string"
  defines "c \<equiv> fold (\<lambda>e. coverage_record (nw e) e) es (coverage_init sensor site True since)"
  shows "cv_total c = length (filter counted es) \<and> rules_total c = cv_total c \<and>
     (\<forall>r. count_of c r = length (filter (\<lambda>e. counted e \<and> ev_rule e = r) es)) \<and>
     dict_wf (cv_rules c) \<and> tech_inv (cv_techs c)"
proof -
  have gen: "cv_enabled c0 \<Longrightarrow> dict_wf (cv_rules c0) \<Longrightarrow> tech_inv (cv_techs c0) \<Longrightarrow>
     rules_total c0 = cv_total c0 \<Longrightarrow>
     (let c = fold (\<lambda>e. coverage_record (nw e) e) es c0 in
       cv_total c = cv_total c0 + length (filter counted es) \<and> rules_total c = cv_total c \<and>
       (\<forall>r. count_of c r = count_of c0 r + length (filter (\<lambda>e. counted e \<and> ev_rule e = r) es)) \<and>
       dict_wf (cv_rules c) \<and> tech_inv (cv_techs c))" for c0 es
  proof (induction es arbitrary: c0)
    case (Cons e es)
    define c1 where "c1 = coverage_record (nw e) e c0"
    have s: "cv_enabled c1" "dict_wf (cv_rules c1)" "tech_inv (cv_techs c1)" "rules_total c1 = cv_total c1"
      "cv_total c1 = cv_total c0 + (if counted e then 1 else 0)"
      "\<And>r. count_of c1 r = count_of c0 r + (if counted e \<and> ev_rule e = r then 1 else 0)"
      using Cons.prems
      by (auto simp: c1_def coverage_record_def Let_def counted_def tally_rule_wf tally_techs_inv rules_total_def
          tally_rule_sum count_of_def tally_rule_count)
    show ?case using Cons.IH [OF s(1-4)] s(5,6) by (simp add: c1_def [symmetric] Let_def)
  qed (simp add: Let_def)
  show ?thesis
    using gen [of "coverage_init sensor site True since" es]
    by (simp add: coverage_init_def c_def Let_def rules_total_def tech_inv_def count_of_def)
qed

text \<open>
  Every rule of the registry maps to ATT&CK techniques by its own entry: whatever the
  event's type and text, the techniques are the table's, at least one, with an id each.
\<close>

theorem registry_has_techniques:
  "\<forall>r\<in>set (map fst (RULES @ IEC61850_RULES @ CTI_RULES)).
     (\<exists>ts. dict_get MITRE_ICS r = Some ts \<and> techniques_for r etype descr = ts \<and> ts \<noteq> [] \<and>
        list_all (\<lambda>t. tq_id t \<noteq> []) ts)"
proof -
  have "list_all (\<lambda>r. upper (strip r) = r \<and> (case dict_get MITRE_ICS r of None \<Rightarrow> False
      | Some ts \<Rightarrow> ts \<noteq> [] \<and> list_all (\<lambda>t. tq_id t \<noteq> []) ts))
     (map fst (RULES @ IEC61850_RULES @ CTI_RULES))"
    by code_simp
  then show ?thesis
    by (force simp: list_all_iff techniques_for_def Let_def split: option.splits)
qed

theorem registry_has_techniques_witness:
  "\<exists>ts. dict_get MITRE_ICS ''OT-015'' = Some ts \<and> techniques_for ''OT-015'' ''X'' ''Y'' = ts \<and> ts \<noteq> [] \<and>
     list_all (\<lambda>t. tq_id t \<noteq> []) ts"
  by (rule registry_has_techniques [THEN bspec]) (simp add: RULES_def IEC61850_RULES_def CTI_RULES_def)

end
