(* ===== verification/Pipeline.thy ===== *)
theory Pipeline
  imports Baseline Features Mvp Ioc Buffers Coverage
begin

text \<open>
  The packet pipeline of the sensor (\<open>pipeline/processor.py\<close>) composed of the parsers, the
  detectors, the policy stores, the baseline collector and the event store, and the capture
  loop that drives it (\<open>capture/interface.py\<close>, \<open>capture/xdp_reader.py\<close>). An exception is
  a value beside the state it leaves; the clock and what the policy files hold are inputs of
  every call. The code calls \<open>process\<close> in the capture thread and \<open>flush_features\<close> in the main thread, without
  a lock between them; here each call of \<open>process\<close> is one step, and \<open>flush_features\<close> is two, up to the
  published window and the reset of the counters, between which other steps can come.
\<close>

section \<open>Policies as the detectors read them\<close>

text \<open>
  The detectors read the policy object field by field. The readers give None where a field
  has another type than the shipped policy's; the pipeline then fails when the policy is
  installed, where the code fails at the field's first use.
\<close>

definition num_value :: "json \<Rightarrow> pyfloat option" where
  "num_value v = (case v of JInt i \<Rightarrow> Some (of_int i) | JFloat r \<Rightarrow> Some r | _ \<Rightarrow> None)"

definition nat_value :: "json \<Rightarrow> nat option" where
  "nat_value v = (case v of JInt i \<Rightarrow> if 0 \<le> i then Some (nat i) else None | _ \<Rightarrow> None)"

definition list_field :: "(json \<Rightarrow> 'a option) \<Rightarrow> json \<Rightarrow> string \<Rightarrow> 'a list option" where
  "list_field f v k = (case jget_default v k (JList []) of JList xs \<Rightarrow> those (map f xs) | _ \<Rightarrow> None)"

definition obj_field_items :: "json \<Rightarrow> string \<Rightarrow> (string \<times> json) list option" where
  "obj_field_items v k = (case jget_default v k (JObj []) of JObj d \<Rightarrow> Some d | _ \<Rightarrow> None)"

definition max_rate_of :: "json \<Rightarrow> pyfloat option option" where
  "max_rate_of v = (case obj_field_items v ''normal_packet_rate_per_min'' of None \<Rightarrow> None
     | Some d \<Rightarrow> if jget (JObj d) ''max'' = JNull then Some None
                 else map_option Some (num_value (jget (JObj d) ''max'')))"

definition ot_asset_of :: "json \<Rightarrow> ot_asset option" where
  "ot_asset_of v =
     (case (list_field text_value v ''addresses'', list_field text_value v ''allowed_peers'',
            list_field nat_value v ''allowed_modbus_function_codes'', max_rate_of v) of
        (Some addrs, Some peers, Some fcs, Some rate) \<Rightarrow> Some
          \<lparr>as_id = (if jhas v ''asset_id'' then Some (py_str (jget v ''asset_id'')) else None),
           as_addresses = addrs, as_allowed_peers = peers, as_allowed_fcs = fcs, as_max_rate = rate,
           as_write_count = jget_default v ''normal_write_count_per_hour'' (JInt 0)\<rparr>
      | _ \<Rightarrow> None)"

definition allow_list_of :: "string \<times> json \<Rightarrow> (string \<times> json list) option" where
  "allow_list_of = (\<lambda>(k, v). case v of JList xs \<Rightarrow> Some (k, xs) | _ \<Rightarrow> None)"

definition threshold_of :: "string \<times> json \<Rightarrow> (string \<times> pyfloat) option" where
  "threshold_of = (\<lambda>(k, v). map_option (Pair k) (num_value v))"

definition ot_policy_of :: "json \<Rightarrow> ot_policy option" where
  "ot_policy_of policy =
     (case (list_field ot_asset_of policy ''assets'', obj_field_items policy ''global_allowlists'',
            obj_field_items policy ''thresholds'') of
        (Some assets, Some allow, Some th) \<Rightarrow>
          (case (those (map allow_list_of allow), those (map threshold_of th)) of
             (Some al, Some ths) \<Rightarrow> Some \<lparr>pol_assets = assets, pol_allow = al, pol_thresholds = ths\<rparr>
           | _ \<Rightarrow> None)
      | _ \<Rightarrow> None)"

definition allowlist_ips_of :: "ot_policy \<Rightarrow> json list" where
  "allowlist_ips_of pol = (case dict_get (pol_allow pol) ''ip'' of None \<Rightarrow> [] | Some vs \<Rightarrow> vs)"

section \<open>State\<close>

record pipeline =
  pp_l2 :: l2_stats
  pp_l3 :: l3_stats
  pp_goose :: goose_stats
  pp_mms :: mms_stats
  pp_sensor :: string
  pp_window_sec :: int
  pp_mode :: mode_store
  pp_policy :: policy_store
  pp_listfile :: enforcer
  pp_mvp :: mvp
  pp_detector :: iec
  pp_ioc :: "ioc_matcher option"
  pp_ring :: ring_buffer
  pp_baseline :: collector
  pp_events :: "json list"
  pp_coverage :: coverage
  pp_coverage_file :: "json option"
  pp_features :: feature_publisher
  pp_outputs :: "window_output list"

text \<open>What one call sees of the outside: the clock readings and the files.\<close>

record surroundings =
  su_clock :: clock
  su_wall :: pyfloat
  su_mode :: mode_files
  su_policy :: policy_files
  su_allow :: allow_files
  su_ioc :: ioc_files
  su_write_ok :: bool

abbreviation su_now :: "surroundings \<Rightarrow> pyfloat" where
  "su_now u \<equiv> mono (su_clock u)"

text \<open>The constructor's arguments that reach the state.\<close>

record pipeline_config =
  pc_sensor :: string
  pc_site :: string
  pc_rules :: "string set"
  pc_window_sec :: int
  pc_ring_max :: nat
  pc_ioc_enabled :: bool
  pc_ioc_cooldown :: pyfloat
  pc_ioc_reload :: pyfloat
  pc_policy_reload :: pyfloat
  pc_mode_reload :: pyfloat
  pc_list_reload :: pyfloat
  pc_prefix :: string
  pc_edgex_device :: string
  pc_edgex_topic :: string
  pc_coverage :: bool

definition pipeline_assemble :: "pipeline_config \<Rightarrow> surroundings \<Rightarrow> policy_store \<Rightarrow> enforcer \<Rightarrow> ot_policy \<Rightarrow> iec_policy \<Rightarrow>
    string set \<Rightarrow> pipeline" where
  "pipeline_assemble cfg u store listfile ot ie enabled =
     \<lparr>pp_l2 = l2_init, pp_l3 = l3_init, pp_goose = goose_init, pp_mms = mms_init, pp_sensor = pc_sensor cfg,
      pp_window_sec = pc_window_sec cfg,
      pp_mode = mode_store_init (pc_mode_reload cfg) ''listen'' (su_now u) (su_mode u), pp_policy = store,
      pp_listfile = listfile,
      pp_mvp = mvp_init (pc_site cfg) (pc_sensor cfg) ot enabled (su_now u),
      pp_detector = iec_init (pc_site cfg) (pc_sensor cfg) ie enabled,
      pp_ioc = (if pc_ioc_enabled cfg then Some (ioc_matcher_init (pc_site cfg) (pc_sensor cfg)
                  (ioc_cache_init (pc_ioc_reload cfg)) (allowlist_ips_of ot) enabled (pc_ioc_cooldown cfg)) else None),
      pp_ring = ring_init (pc_ring_max cfg), pp_baseline = collector_init [] (pc_sensor cfg), pp_events = [],
      pp_coverage = coverage_init (pc_sensor cfg) (pc_site cfg) (pc_coverage cfg) (now_iso (su_clock u)),
      pp_coverage_file = None,
      pp_features = feature_publisher_init (pc_sensor cfg) (pc_site cfg) (pc_prefix cfg) (pc_edgex_device cfg) (pc_edgex_topic cfg),
      pp_outputs = []\<rparr>"

definition pipeline_init :: "pipeline_config \<Rightarrow> surroundings \<Rightarrow> pipeline res" where
  "pipeline_init cfg u =
     (case policy_store_init (pc_policy_reload cfg) True (su_now u) (su_policy u) of
        (Inl e, s) \<Rightarrow> Inl e
      | (Inr _, s) \<Rightarrow> (case store_policy (su_now u) (su_policy u) s of
            (Inl e, s) \<Rightarrow> Inl e
          | (Inr policy, s) \<Rightarrow> (case store_rules_enabled (su_now u) (su_policy u) s of
                (Inl e, s) \<Rightarrow> Inl e
              | (Inr rules, s) \<Rightarrow> (case enforcer_reload True (su_now u) (su_allow u) (enforcer_init (pc_list_reload cfg)) of
                    (Inl e, l) \<Rightarrow> Inl e
                  | (Inr _, l) \<Rightarrow> (case (ot_policy_of policy, iec_policy_of policy) of
                        (Some ot, Some ie) \<Rightarrow> Inr (pipeline_assemble cfg u s l ot ie
                           (if rules \<noteq> {} then rules else pc_rules cfg))
                      | _ \<Rightarrow> Inl TypeError)))))"

section \<open>Steps that may raise\<close>

type_synonym step = "pipeline \<Rightarrow> py_error option \<times> pipeline"

definition then_step :: "step \<Rightarrow> step \<Rightarrow> step" where
  "then_step f g p = (case f p of (Some e, p1) \<Rightarrow> (Some e, p1) | (None, p1) \<Rightarrow> g p1)"

fun do_steps :: "step list \<Rightarrow> step" where
  "do_steps [] p = (None, p)"
| "do_steps (f # fs) p = then_step f (do_steps fs) p"

definition plain_step :: "(pipeline \<Rightarrow> pipeline) \<Rightarrow> step" where
  "plain_step f p = (None, f p)"

definition drop_value :: "'a res \<times> pipeline \<Rightarrow> py_error option \<times> pipeline" where
  "drop_value r = (case r of (Inl e, p) \<Rightarrow> (Some e, p) | (Inr _, p) \<Rightarrow> (None, p))"

section \<open>Reloads\<close>

definition install_policy :: "json \<Rightarrow> string set \<Rightarrow> pipeline \<Rightarrow> bool res \<times> pipeline" where
  "install_policy policy enabled p =
     (case (ot_policy_of policy, iec_policy_of policy) of
        (Some ot, Some ie) \<Rightarrow> (Inr True, p\<lparr>
            pp_mvp := (pp_mvp p)\<lparr>mvp_policy := ot, mvp_rules := (if enabled \<noteq> {} then enabled else mvp_rules (pp_mvp p))\<rparr>,
            pp_detector := (pp_detector p)\<lparr>iec_pol := ie, iec_rules := (if enabled \<noteq> {} then enabled else iec_rules (pp_detector p))\<rparr>,
            pp_ioc := map_option (\<lambda>m. m\<lparr>im_allow := allowlist_ips_of ot,
               im_rules := (if enabled \<noteq> {} then enabled else im_rules m)\<rparr>) (pp_ioc p)\<rparr>)
      | _ \<Rightarrow> (Inl TypeError, p))"

definition reload_detection_policy :: "surroundings \<Rightarrow> pipeline \<Rightarrow> bool res \<times> pipeline" where
  "reload_detection_policy u p =
     (case enforcer_reload False (su_now u) (su_allow u) (pp_listfile p) of
        (Inl e, l) \<Rightarrow> (Inl e, p\<lparr>pp_listfile := l\<rparr>)
      | (Inr _, l) \<Rightarrow>
          let p = p\<lparr>pp_listfile := l\<rparr> in
          (case policy_reload False (su_now u) (su_policy u) (pp_policy p) of
             (Inl e, s) \<Rightarrow> (Inl e, p\<lparr>pp_policy := s\<rparr>)
           | (Inr changed, s) \<Rightarrow>
               if \<not> changed then (Inr False, p\<lparr>pp_policy := s\<rparr>)
               else (case store_policy (su_now u) (su_policy u) s of
                    (Inl e, s) \<Rightarrow> (Inl e, p\<lparr>pp_policy := s\<rparr>)
                  | (Inr policy, s) \<Rightarrow> (case store_rules_enabled (su_now u) (su_policy u) s of
                        (Inl e, s) \<Rightarrow> (Inl e, p\<lparr>pp_policy := s\<rparr>)
                      | (Inr enabled, s) \<Rightarrow> install_policy policy enabled (p\<lparr>pp_policy := s\<rparr>)))))"

text \<open>The log line after a change asks for the mode, which tries a reload again.\<close>

definition reload_operational_mode :: "surroundings \<Rightarrow> pipeline \<Rightarrow> pipeline" where
  "reload_operational_mode u p = p\<lparr>pp_mode :=
     (case mode_reload False (su_now u) (su_mode u) (pp_mode p) of
        (changed, s) \<Rightarrow> if changed then fst (store_mode (su_now u) (su_mode u) s) else s)\<rparr>"

definition reload_listfile :: "surroundings \<Rightarrow> step" where
  "reload_listfile u p = (case enforcer_reload False (su_now u) (su_allow u) (pp_listfile p) of
       (r, l) \<Rightarrow> drop_value (r, p\<lparr>pp_listfile := l\<rparr>))"

section \<open>Emitting events\<close>

definition emit_one :: "surroundings \<Rightarrow> security_event \<Rightarrow> pipeline \<Rightarrow> pipeline" where
  "emit_one u e p = (case store_append (Some (pp_ring p)) e (pp_events p) of
     (file, e) \<Rightarrow> p\<lparr>pp_events := file,
        pp_coverage := coverage_record (now_iso (su_clock u)) e (pp_coverage p)\<rparr>)"

definition emit_events :: "surroundings \<Rightarrow> security_event list \<Rightarrow> pipeline \<Rightarrow> pipeline" where
  "emit_events u es p = (case alerts_enabled (su_now u) (su_mode u) (pp_mode p) of
     (ms, on) \<Rightarrow> let p = p\<lparr>pp_mode := ms\<rparr> in if on then fold (emit_one u) es p else p)"

section \<open>One packet\<close>

definition ring_step :: "surroundings \<Rightarrow> packet \<Rightarrow> pipeline \<Rightarrow> pipeline" where
  "ring_step u pkt p = (let b = (case pkt_bytes pkt of None \<Rightarrow> [] | Some b \<Rightarrow> b) in
     if b \<noteq> [] then p\<lparr>pp_ring := ring_append (su_wall u) (b, None) (pp_ring p)\<rparr> else p)"

definition layer_step :: "surroundings \<Rightarrow> bool \<Rightarrow> packet \<Rightarrow> pipeline \<Rightarrow> pipeline" where
  "layer_step u accumulate pkt p =
     (let src_mac = fst (parse_ethernet pkt);
          p = p\<lparr>pp_l2 := record_l2 (pp_l2 p) src_mac\<rparr>;
          (src_ip, dst_ip, version) = parse_ip pkt;
          p = p\<lparr>pp_l3 := record_l3 (pp_l3 p) src_ip version\<rparr>;
          p = (if accumulate then p\<lparr>pp_baseline :=
                 feed_endpoints (su_now u) src_mac src_ip dst_ip (note_packet (pp_baseline p))\<rparr> else p)
      in (case parse_transport pkt of None \<Rightarrow> p
          | Some flow \<Rightarrow> if accumulate
              then p\<lparr>pp_baseline := feed_transport (su_now u) flow (pp_baseline p)\<rparr> else p))"

definition packet_query :: "packet \<Rightarrow> ioc_query" where
  "packet_query pkt = (case parse_ip pkt of (src_ip, dst_ip, version) \<Rightarrow>
     \<lparr>iq_src_ip = src_ip, iq_dst_ip = dst_ip, iq_dst_port = map_option f_dst_port (parse_transport pkt),
      iq_protocol = map_option f_protocol (parse_transport pkt)\<rparr>)"

definition cti_step :: "surroundings \<Rightarrow> packet \<Rightarrow> step" where
  "cti_step u pkt p = (case pp_ioc p of None \<Rightarrow> (None, p)
     | Some m \<Rightarrow> (case ioc_evaluate (su_clock u) (su_ioc u) (is_ip_whitelisted (pp_listfile p)) (packet_query pkt) m of
           (Inl e, m) \<Rightarrow> (Some e, p\<lparr>pp_ioc := Some m\<rparr>)
         | (Inr es, m) \<Rightarrow> (None, emit_events u es (p\<lparr>pp_ioc := Some m\<rparr>))))"

definition observe_step :: "surroundings \<Rightarrow> packet \<Rightarrow> pipeline \<Rightarrow> pipeline" where
  "observe_step u pkt p =
     (let q = packet_query pkt; d = pp_mvp p;
          (iv, ob) = observe (su_now u) (fst (parse_ethernet pkt)) (iq_src_ip q) (iq_dst_ip q) (iq_dst_port q)
             (iq_protocol q) (mvp_inventory d);
          (d, es) = evaluate_observation (is_ip_whitelisted (pp_listfile p)) (su_clock u) ob (d\<lparr>mvp_inventory := iv\<rparr>)
      in emit_events u es (p\<lparr>pp_mvp := d\<rparr>))"

definition modbus_step :: "surroundings \<Rightarrow> bool \<Rightarrow> packet \<Rightarrow> pipeline \<Rightarrow> pipeline" where
  "modbus_step u accumulate pkt p = (case parse_modbus_tcp pkt of None \<Rightarrow> p
     | Some frame \<Rightarrow>
         let p = (if accumulate then p\<lparr>pp_baseline := feed_modbus (su_now u) frame (pp_baseline p)\<rparr> else p);
             (d, es) = evaluate_modbus (su_clock u) frame (pp_mvp p)
         in emit_events u es (p\<lparr>pp_mvp := d\<rparr>))"

definition goose_step :: "surroundings \<Rightarrow> bool \<Rightarrow> packet \<Rightarrow> step" where
  "goose_step u accumulate pkt p = (case parse_goose_packet pkt of
       Inl e \<Rightarrow> (Some e, p)
     | Inr None \<Rightarrow> (None, p)
     | Inr (Some frame) \<Rightarrow>
         let p = p\<lparr>pp_goose := record_goose (pp_goose p) frame\<rparr>;
             p = (if accumulate then p\<lparr>pp_baseline := feed_goose (su_now u) frame (pp_baseline p)\<rparr> else p);
             (d, es) = evaluate_goose (su_clock u) frame (pp_detector p)
         in (None, emit_events u es (p\<lparr>pp_detector := d\<rparr>)))"

definition mms_step :: "surroundings \<Rightarrow> bool \<Rightarrow> packet \<Rightarrow> pipeline \<Rightarrow> pipeline" where
  "mms_step u accumulate pkt p = (case parse_mms_packet pkt of None \<Rightarrow> p
     | Some ob \<Rightarrow>
         let p = p\<lparr>pp_mms := record_mms (pp_mms p) ob\<rparr>;
             p = (if accumulate then p\<lparr>pp_baseline := feed_mms (su_now u) ob (pp_baseline p)\<rparr> else p);
             (d, es) = evaluate_mms (su_clock u) ob (pp_detector p)
         in emit_events u es (p\<lparr>pp_detector := d\<rparr>))"

definition handle_layers :: "surroundings \<Rightarrow> packet \<Rightarrow> step" where
  "handle_layers u pkt p =
     (case baseline_accumulation_enabled (su_now u) (su_mode u) (pp_mode p) of (ms, accumulate) \<Rightarrow>
        do_steps [plain_step (ring_step u pkt), plain_step (layer_step u accumulate pkt), cti_step u pkt,
          plain_step (observe_step u pkt), plain_step (modbus_step u accumulate pkt), goose_step u accumulate pkt,
          plain_step (mms_step u accumulate pkt)] (p\<lparr>pp_mode := ms\<rparr>))"

definition process :: "surroundings \<Rightarrow> packet \<Rightarrow> step" where
  "process u pkt = do_steps [\<lambda>p. drop_value (reload_detection_policy u p), plain_step (reload_operational_mode u),
     reload_listfile u, handle_layers u pkt]"

section \<open>Windows and the live baseline\<close>

definition flush_publish :: "surroundings \<Rightarrow> pipeline \<Rightarrow> pipeline" where
  "flush_publish u p =
     (let (d, es) = evaluate_window (su_clock u) (pp_window_sec p) (pp_mvp p);
          p = emit_events u es (p\<lparr>pp_mvp := d\<rparr>);
          p = p\<lparr>pp_outputs := pp_outputs p @ [publish_window (pp_features p) (now_iso (su_clock u)) (pp_l2 p)
                 (pp_window_sec p) (pp_goose p) (pp_mms p)]\<rparr>;
          (ms, on) = alerts_enabled (su_now u) (su_mode u) (pp_mode p);
          p = p\<lparr>pp_mode := ms\<rparr>
      in if on then (case coverage_flush False (su_write_ok u) (now_iso (su_clock u)) (pp_coverage_file p) (pp_coverage p) of
                 (ok, file, c) \<Rightarrow> p\<lparr>pp_coverage_file := file, pp_coverage := c\<rparr>) else p)"

definition flush_reset :: "pipeline \<Rightarrow> pipeline" where
  "flush_reset p = p\<lparr>pp_l2 := reset_l2_window (pp_l2 p)\<rparr>"

definition flush_features :: "surroundings \<Rightarrow> pipeline \<Rightarrow> pipeline" where
  "flush_features u p = flush_reset (flush_publish u p)"

definition live_baseline_snapshot :: "(string \<Rightarrow> string) \<Rightarrow> surroundings \<Rightarrow> pyfloat option \<Rightarrow> pipeline \<Rightarrow> json res \<times> pipeline" where
  "live_baseline_snapshot digest u window p =
     (let p = p\<lparr>pp_mode := snd (mode_reload False (su_now u) (su_mode u) (pp_mode p))\<rparr>;
          p = p\<lparr>pp_baseline := (pp_baseline p)\<lparr>bc_tenant := str_or_empty (jget (md_artifact (pp_mode p)) ''tenant_id''),
             bc_sensor := pp_sensor p\<rparr>\<rparr>
      in (to_candidate digest (su_now u) (now_iso (su_clock u)) ''live_observed'' ''live'' window (pp_baseline p), p))"

section \<open>The capture loop\<close>

text \<open>
  \<open>handle_packet\<close> on one frame after the other; an exception leaves the loop, and the
  frames behind it are not read.
\<close>

fun capture_run :: "(surroundings \<times> packet) list \<Rightarrow> step" where
  "capture_run [] p = (None, p)"
| "capture_run ((u, pkt) # rest) p = then_step (process u pkt) (capture_run rest) p"

section \<open>The mode during one call\<close>

definition mode_now :: "surroundings \<Rightarrow> pipeline \<Rightarrow> string" where
  "mode_now u p = snd (store_mode (su_now u) (su_mode u) (pp_mode p))"

text \<open>Within one call the files do not change, so asking again gives the same mode.\<close>

lemma mode_reload_again:
  "md_artifact (snd (mode_reload False now f (snd (mode_reload False now f s)))) = md_artifact (snd (mode_reload False now f s))"
  by (simp add: mode_reload_def Let_def)

lemma store_mode_again: "snd (store_mode now f (fst (store_mode now f s))) = snd (store_mode now f s)"
  by (simp add: store_mode_def mode_of_def mode_reload_again mode_default_kept Let_def)

lemma mode_reload_fst: "snd (mode_reload False now f s) = fst (store_mode now f s)"
  by (simp add: store_mode_def Let_def)

lemma mode_now_store [simp]:
  "mode_now u (p\<lparr>pp_mode := fst (store_mode (su_now u) (su_mode u) (pp_mode p))\<rparr>) = mode_now u p"
  by (simp add: mode_now_def store_mode_again)

lemma mode_now_cong: "pp_mode p' = pp_mode p \<Longrightarrow> mode_now u p' = mode_now u p"
  by (simp add: mode_now_def)

lemma alerts_enabled_eq: "alerts_enabled now f s = (fst (store_mode now f s), snd (store_mode now f s) = ''detect'')"
  by (simp add: alerts_enabled_def split: prod.split)

lemma accumulation_eq:
  "baseline_accumulation_enabled now f s = (fst (store_mode now f s), snd (store_mode now f s) = ''learning'')"
  by (simp add: baseline_accumulation_enabled_def split: prod.split)

section \<open>Invariants over steps\<close>

lemma do_steps_inv:
  "(\<And>f p. f \<in> set fs \<Longrightarrow> I p \<Longrightarrow> I (snd (f p))) \<Longrightarrow> I p \<Longrightarrow> I (snd (do_steps fs p))"
proof (induction fs arbitrary: p)
  case (Cons f fs)
  obtain r p1 where f: "f p = (r, p1)" by fastforce
  have "I (snd (f p))" using Cons.prems by simp
  then have "I p1" using f by simp
  then have "I (snd (do_steps fs p1))" by (intro Cons.IH) (use Cons.prems(1) in simp_all)
  then show ?case using f \<open>I p1\<close> by (cases r) (simp_all add: then_step_def)
qed simp

lemma emit_one_frame [simp]:
  "pp_mode (emit_one u e p) = pp_mode p" "pp_baseline (emit_one u e p) = pp_baseline p"
  "pp_l2 (emit_one u e p) = pp_l2 p" "pp_l3 (emit_one u e p) = pp_l3 p"
  "pp_goose (emit_one u e p) = pp_goose p" "pp_mms (emit_one u e p) = pp_mms p"
  by (simp_all add: emit_one_def split: prod.split)

lemma fold_emit_frame [simp]:
  "pp_mode (fold (emit_one u) es p) = pp_mode p" "pp_baseline (fold (emit_one u) es p) = pp_baseline p"
  "pp_l2 (fold (emit_one u) es p) = pp_l2 p" "pp_l3 (fold (emit_one u) es p) = pp_l3 p"
  "pp_goose (fold (emit_one u) es p) = pp_goose p" "pp_mms (fold (emit_one u) es p) = pp_mms p"
  by (induction es arbitrary: p) simp_all

lemma emit_events_frame [simp]:
  "pp_mode (emit_events u es p) = fst (store_mode (su_now u) (su_mode u) (pp_mode p))"
  "pp_baseline (emit_events u es p) = pp_baseline p"
  "pp_l2 (emit_events u es p) = pp_l2 p" "pp_l3 (emit_events u es p) = pp_l3 p"
  "pp_goose (emit_events u es p) = pp_goose p" "pp_mms (emit_events u es p) = pp_mms p"
  by (simp_all add: emit_events_def alerts_enabled_eq Let_def)

lemma emit_events_off:
  "mode_now u p \<noteq> ''detect'' \<Longrightarrow> pp_events (emit_events u es p) = pp_events p \<and> pp_coverage (emit_events u es p) = pp_coverage p"
  by (simp add: emit_events_def alerts_enabled_eq mode_now_def Let_def)

lemma mode_now_emit [simp]: "mode_now u (emit_events u es p) = mode_now u p"
  by (simp add: mode_now_def store_mode_again)

text \<open>Nothing is reported outside detection, nothing is learned outside learning.\<close>

definition gated :: "surroundings \<Rightarrow> pipeline \<Rightarrow> pipeline \<Rightarrow> bool" where
  "gated u p0 p = (mode_now u p = mode_now u p0 \<and>
     (mode_now u p0 \<noteq> ''detect'' \<longrightarrow> pp_events p = pp_events p0 \<and> pp_coverage p = pp_coverage p0) \<and>
     (mode_now u p0 \<noteq> ''learning'' \<longrightarrow> pp_baseline p = pp_baseline p0))"

lemma gated_emit: "gated u p0 p \<Longrightarrow> gated u p0 (emit_events u es p)"
  using emit_events_off [of u p es] by (simp add: gated_def)

lemma mode_now_upd [simp]:
  "mode_now u (p\<lparr>pp_l2 := a\<rparr>) = mode_now u p" "mode_now u (p\<lparr>pp_l3 := b\<rparr>) = mode_now u p"
  "mode_now u (p\<lparr>pp_goose := c\<rparr>) = mode_now u p" "mode_now u (p\<lparr>pp_mms := d\<rparr>) = mode_now u p"
  "mode_now u (p\<lparr>pp_policy := e\<rparr>) = mode_now u p" "mode_now u (p\<lparr>pp_listfile := f\<rparr>) = mode_now u p"
  "mode_now u (p\<lparr>pp_mvp := g\<rparr>) = mode_now u p" "mode_now u (p\<lparr>pp_detector := h\<rparr>) = mode_now u p"
  "mode_now u (p\<lparr>pp_ioc := k\<rparr>) = mode_now u p" "mode_now u (p\<lparr>pp_ring := l\<rparr>) = mode_now u p"
  "mode_now u (p\<lparr>pp_baseline := m\<rparr>) = mode_now u p"
  by (simp_all add: mode_now_def)

lemma gated_upd [simp]:
  "gated u p0 (p\<lparr>pp_l2 := a\<rparr>) = gated u p0 p" "gated u p0 (p\<lparr>pp_l3 := b\<rparr>) = gated u p0 p"
  "gated u p0 (p\<lparr>pp_goose := c\<rparr>) = gated u p0 p" "gated u p0 (p\<lparr>pp_mms := d\<rparr>) = gated u p0 p"
  "gated u p0 (p\<lparr>pp_policy := e\<rparr>) = gated u p0 p" "gated u p0 (p\<lparr>pp_listfile := f\<rparr>) = gated u p0 p"
  "gated u p0 (p\<lparr>pp_mvp := g\<rparr>) = gated u p0 p" "gated u p0 (p\<lparr>pp_detector := h\<rparr>) = gated u p0 p"
  "gated u p0 (p\<lparr>pp_ioc := k\<rparr>) = gated u p0 p" "gated u p0 (p\<lparr>pp_ring := l\<rparr>) = gated u p0 p"
  by (simp_all add: gated_def)

lemma gated_baseline: "gated u p0 p \<Longrightarrow> mode_now u p0 = ''learning'' \<Longrightarrow> gated u p0 (p\<lparr>pp_baseline := b\<rparr>)"
  by (simp add: gated_def)

lemma gated_steps:
  "gated u p0 p \<Longrightarrow> gated u p0 (ring_step u pkt p)"
  "gated u p0 p \<Longrightarrow> acc \<longrightarrow> mode_now u p0 = ''learning'' \<Longrightarrow> gated u p0 (layer_step u acc pkt p)"
  "gated u p0 p \<Longrightarrow> gated u p0 (snd (cti_step u pkt p))"
  "gated u p0 p \<Longrightarrow> gated u p0 (observe_step u pkt p)"
  "gated u p0 p \<Longrightarrow> acc \<longrightarrow> mode_now u p0 = ''learning'' \<Longrightarrow> gated u p0 (modbus_step u acc pkt p)"
  "gated u p0 p \<Longrightarrow> acc \<longrightarrow> mode_now u p0 = ''learning'' \<Longrightarrow> gated u p0 (snd (goose_step u acc pkt p))"
  "gated u p0 p \<Longrightarrow> acc \<longrightarrow> mode_now u p0 = ''learning'' \<Longrightarrow> gated u p0 (mms_step u acc pkt p)"
  by (simp_all add: ring_step_def layer_step_def cti_step_def observe_step_def modbus_step_def goose_step_def mms_step_def
      Let_def gated_emit gated_baseline split: option.split prod.split sum.split)

lemma gated_layers:
  assumes "gated u p0 p"
  shows "gated u p0 (snd (handle_layers u pkt p))"
proof -
  define acc where "acc = (mode_now u p = ''learning'')"
  have a: "acc \<longrightarrow> mode_now u p0 = ''learning''" using assms by (simp add: acc_def gated_def)
  have "gated u p0 (p\<lparr>pp_mode := fst (store_mode (su_now u) (su_mode u) (pp_mode p))\<rparr>)"
    using assms by (simp add: gated_def)
  moreover have "handle_layers u pkt p = do_steps [plain_step (ring_step u pkt), plain_step (layer_step u acc pkt),
      cti_step u pkt, plain_step (observe_step u pkt), plain_step (modbus_step u acc pkt), goose_step u acc pkt,
      plain_step (mms_step u acc pkt)] (p\<lparr>pp_mode := fst (store_mode (su_now u) (su_mode u) (pp_mode p))\<rparr>)"
    by (simp add: handle_layers_def accumulation_eq acc_def mode_now_def)
  ultimately show ?thesis
    using a by (simp only:) (rule do_steps_inv, auto simp: plain_step_def intro: gated_steps)
qed

lemma install_policy_frame:
  "pp_mode (snd (install_policy policy en p)) = pp_mode p" "pp_events (snd (install_policy policy en p)) = pp_events p"
  "pp_coverage (snd (install_policy policy en p)) = pp_coverage p" "pp_baseline (snd (install_policy policy en p)) = pp_baseline p"
  "pp_l2 (snd (install_policy policy en p)) = pp_l2 p" "pp_l3 (snd (install_policy policy en p)) = pp_l3 p"
  "pp_goose (snd (install_policy policy en p)) = pp_goose p" "pp_mms (snd (install_policy policy en p)) = pp_mms p"
  by (simp_all add: install_policy_def split: option.split)

lemma reload_policy_frame:
  "pp_mode (snd (reload_detection_policy u p)) = pp_mode p" "pp_events (snd (reload_detection_policy u p)) = pp_events p"
  "pp_coverage (snd (reload_detection_policy u p)) = pp_coverage p"
  "pp_baseline (snd (reload_detection_policy u p)) = pp_baseline p"
  "pp_l2 (snd (reload_detection_policy u p)) = pp_l2 p" "pp_l3 (snd (reload_detection_policy u p)) = pp_l3 p"
  "pp_goose (snd (reload_detection_policy u p)) = pp_goose p" "pp_mms (snd (reload_detection_policy u p)) = pp_mms p"
  by (simp_all add: reload_detection_policy_def install_policy_frame Let_def split: prod.split sum.split)

lemma snd_drop_value [simp]: "snd (drop_value r) = snd r"
  by (simp add: drop_value_def split: prod.split sum.split)

lemma mode_reloaded:
  "(case mode_reload False (su_now u) (su_mode u) (pp_mode p) of
      (changed, s) \<Rightarrow> if changed then fst (store_mode (su_now u) (su_mode u) s) else s) \<in>
     {fst (store_mode (su_now u) (su_mode u) (pp_mode p)),
      fst (store_mode (su_now u) (su_mode u) (fst (store_mode (su_now u) (su_mode u) (pp_mode p))))}"
  by (simp add: store_mode_def Let_def split: prod.split)

lemma gated_mode: "gated u p0 p \<Longrightarrow> gated u p0 (reload_operational_mode u p)"
proof -
  assume g: "gated u p0 p"
  define p1 where "p1 = p\<lparr>pp_mode := fst (store_mode (su_now u) (su_mode u) (pp_mode p))\<rparr>"
  have "reload_operational_mode u p \<in> {p1, p1\<lparr>pp_mode := fst (store_mode (su_now u) (su_mode u) (pp_mode p1))\<rparr>}"
    using mode_reloaded [of u p] by (auto simp: reload_operational_mode_def p1_def)
  moreover have "gated u p0 p1" "gated u p0 (p1\<lparr>pp_mode := fst (store_mode (su_now u) (su_mode u) (pp_mode p1))\<rparr>)"
    using g unfolding p1_def by (simp_all add: gated_def) (simp_all add: mode_now_def store_mode_again)
  ultimately show ?thesis by auto
qed

lemma gated_process: "gated u p (snd (process u pkt p))"
  unfolding process_def
proof (rule do_steps_inv)
  fix f p1
  assume f: "f \<in> set [\<lambda>p. drop_value (reload_detection_policy u p), plain_step (reload_operational_mode u),
      reload_listfile u, handle_layers u pkt]" and g: "gated u p p1"
  then consider "f = (\<lambda>p. drop_value (reload_detection_policy u p))" | "f = plain_step (reload_operational_mode u)"
    | "f = reload_listfile u" | "f = handle_layers u pkt" by auto
  then show "gated u p (snd (f p1))"
  proof cases
    case 1
    then show ?thesis using g by (simp add: gated_def reload_policy_frame mode_now_cong [OF reload_policy_frame(1)])
  next
    case 2
    then show ?thesis using g by (simp add: plain_step_def gated_mode)
  next
    case 3
    then show ?thesis using g by (simp add: reload_listfile_def split: prod.split)
  next
    case 4
    then show ?thesis using g by (simp add: gated_layers)
  qed
qed (simp add: gated_def)

section \<open>The statistics agree\<close>

definition stats_inv :: "pipeline \<Rightarrow> bool" where
  "stats_inv p = (l2_inv (pp_l2 p) \<and> l3_inv (pp_l3 p) \<and> goose_inv (pp_goose p) \<and> mms_inv (pp_mms p))"

text \<open>Only the layer step touches the packet counters.\<close>

lemma same_l2:
  "pp_l2 (ring_step u pkt p) = pp_l2 p" "pp_l2 (snd (cti_step u pkt p)) = pp_l2 p" "pp_l2 (observe_step u pkt p) = pp_l2 p"
  "pp_l2 (modbus_step u acc pkt p) = pp_l2 p" "pp_l2 (snd (goose_step u acc pkt p)) = pp_l2 p"
  "pp_l2 (mms_step u acc pkt p) = pp_l2 p" "pp_l2 (reload_operational_mode u p) = pp_l2 p"
  "pp_l2 (snd (reload_listfile u p)) = pp_l2 p"
  by (simp_all add: ring_step_def cti_step_def observe_step_def modbus_step_def goose_step_def mms_step_def
      reload_operational_mode_def reload_listfile_def Let_def split: option.split prod.split sum.split)

lemma layer_step_l2: "pp_l2 (layer_step u acc pkt p) = record_l2 (pp_l2 p) (fst (parse_ethernet pkt))"
  by (simp add: layer_step_def Let_def split: option.split prod.split)

lemma stats_steps:
  "stats_inv p \<Longrightarrow> stats_inv (ring_step u pkt p)" "stats_inv p \<Longrightarrow> stats_inv (layer_step u acc pkt p)"
  "stats_inv p \<Longrightarrow> stats_inv (snd (cti_step u pkt p))" "stats_inv p \<Longrightarrow> stats_inv (observe_step u pkt p)"
  "stats_inv p \<Longrightarrow> stats_inv (modbus_step u acc pkt p)" "stats_inv p \<Longrightarrow> stats_inv (snd (goose_step u acc pkt p))"
  "stats_inv p \<Longrightarrow> stats_inv (mms_step u acc pkt p)" "stats_inv p \<Longrightarrow> stats_inv (reload_operational_mode u p)"
  "stats_inv p \<Longrightarrow> stats_inv (snd (reload_listfile u p))"
  by (auto simp: stats_inv_def ring_step_def layer_step_def cti_step_def observe_step_def modbus_step_def goose_step_def
      mms_step_def reload_operational_mode_def reload_listfile_def Let_def
      split: option.split prod.split sum.split intro: inv_rules)

lemma stats_layers: "stats_inv p \<Longrightarrow> stats_inv (snd (handle_layers u pkt p))"
proof -
  assume "stats_inv p"
  then have "stats_inv (p\<lparr>pp_mode := fst (store_mode (su_now u) (su_mode u) (pp_mode p))\<rparr>)"
    by (simp add: stats_inv_def)
  then show ?thesis
    unfolding handle_layers_def accumulation_eq prod.case
    by (rule do_steps_inv [rotated]) (auto simp: plain_step_def intro: stats_steps)
qed

lemma stats_process: "stats_inv p \<Longrightarrow> stats_inv (snd (process u pkt p))"
  unfolding process_def
  by (rule do_steps_inv) (auto simp: plain_step_def intro: stats_steps stats_layers, simp add: stats_inv_def reload_policy_frame)

lemma stats_run: "stats_inv p \<Longrightarrow> stats_inv (snd (capture_run xs p))"
proof (induction xs arbitrary: p)
  case (Cons x xs)
  obtain u pkt where x: "x = (u, pkt)" by fastforce
  obtain r p1 where r: "process u pkt p = (r, p1)" by fastforce
  have "stats_inv p1" using stats_process [OF Cons.prems, of u pkt] r by simp
  then show ?case using Cons.IH r by (cases r) (simp_all add: x then_step_def)
qed simp

section \<open>Calls that return\<close>

lemma then_step_ok: "fst (then_step f g p) = None \<Longrightarrow> fst (f p) = None \<and> then_step f g p = g (snd (f p))"
  by (simp add: then_step_def split: prod.splits option.splits)

lemma do_steps_result: "fst (do_steps fs p) = None \<Longrightarrow> snd (do_steps fs p) = fold (\<lambda>f p. snd (f p)) fs p"
proof (induction fs arbitrary: p)
  case (Cons f fs)
  then show ?case using then_step_ok [of f "do_steps fs" p] by simp
qed simp

lemma do_steps_all_ok: "fst (do_steps (f # fs) p) = None \<Longrightarrow> fst (do_steps fs (snd (f p))) = None"
  using then_step_ok [of f "do_steps fs" p] by simp

definition reloaded :: "surroundings \<Rightarrow> pipeline \<Rightarrow> pipeline" where
  "reloaded u p = (let p = snd (reload_listfile u (reload_operational_mode u (snd (reload_detection_policy u p))))
     in p\<lparr>pp_mode := fst (store_mode (su_now u) (su_mode u) (pp_mode p))\<rparr>)"

lemma reloaded_frame:
  "pp_baseline (reloaded u p) = pp_baseline p" "pp_l2 (reloaded u p) = pp_l2 p"
  by (simp_all add: reloaded_def reload_listfile_def reload_operational_mode_def reload_policy_frame Let_def split: prod.split)

lemma handle_layers_ok:
  assumes "fst (handle_layers u pkt p) = None"
  defines "acc \<equiv> mode_now u p = ''learning''"
  shows "snd (handle_layers u pkt p) = mms_step u acc pkt (snd (goose_step u acc pkt (modbus_step u acc pkt (observe_step u pkt
     (snd (cti_step u pkt (layer_step u acc pkt (ring_step u pkt (p\<lparr>pp_mode := fst (store_mode (su_now u) (su_mode u) (pp_mode p))\<rparr>)))))))))"
proof -
  have "handle_layers u pkt p = do_steps [plain_step (ring_step u pkt), plain_step (layer_step u acc pkt),
      cti_step u pkt, plain_step (observe_step u pkt), plain_step (modbus_step u acc pkt), goose_step u acc pkt,
      plain_step (mms_step u acc pkt)] (p\<lparr>pp_mode := fst (store_mode (su_now u) (su_mode u) (pp_mode p))\<rparr>)"
    by (simp add: handle_layers_def accumulation_eq acc_def mode_now_def)
  from do_steps_result [OF assms(1) [unfolded this], folded this] show ?thesis by (simp add: plain_step_def)
qed

lemma process_ok:
  assumes "fst (process u pkt p) = None"
  defines "q \<equiv> snd (reload_listfile u (reload_operational_mode u (snd (reload_detection_policy u p))))"
  shows "snd (process u pkt p) = snd (handle_layers u pkt q)" and "fst (handle_layers u pkt q) = None"
    and "mode_now u q = mode_now u p"
proof -
  have "fst (do_steps [handle_layers u pkt] q) = None"
    using assms(1) unfolding process_def q_def
    by (drule_tac do_steps_all_ok, drule_tac do_steps_all_ok, drule_tac do_steps_all_ok) (simp add: plain_step_def)
  then show "fst (handle_layers u pkt q) = None" by (simp add: then_step_def split: prod.splits option.splits)
  show "snd (process u pkt p) = snd (handle_layers u pkt q)"
    using do_steps_result [OF assms(1) [unfolded process_def]] by (simp add: process_def plain_step_def q_def)
  have "gated u p (snd (reload_detection_policy u p))"
    by (simp add: gated_def reload_policy_frame mode_now_cong [OF reload_policy_frame(1)])
  from gated_mode [OF this] have "gated u p q" by (simp add: q_def reload_listfile_def split: prod.split)
  then show "mode_now u q = mode_now u p" by (simp add: gated_def)
qed

definition learned_from :: "surroundings \<Rightarrow> packet \<Rightarrow> collector \<Rightarrow> collector" where
  "learned_from u pkt c =
     (let c = (case parse_ip pkt of (a, b, v) \<Rightarrow> feed_endpoints (su_now u) (fst (parse_ethernet pkt)) a b (note_packet c));
          c = (case parse_transport pkt of None \<Rightarrow> c | Some fl \<Rightarrow> feed_transport (su_now u) fl c);
          c = (case parse_modbus_tcp pkt of None \<Rightarrow> c | Some fr \<Rightarrow> feed_modbus (su_now u) fr c);
          c = (case parse_goose_packet pkt of Inr (Some f) \<Rightarrow> feed_goose (su_now u) f c | _ \<Rightarrow> c)
      in (case parse_mms_packet pkt of None \<Rightarrow> c | Some ob \<Rightarrow> feed_mms (su_now u) ob c))"

lemma same_baseline:
  "pp_baseline (ring_step u pkt p) = pp_baseline p" "pp_baseline (snd (cti_step u pkt p)) = pp_baseline p"
  "pp_baseline (observe_step u pkt p) = pp_baseline p"
  by (simp_all add: ring_step_def cti_step_def observe_step_def Let_def split: option.split prod.split sum.split)

lemma learning_baseline:
  "pp_baseline (layer_step u True pkt p) =
     (let c = (case parse_ip pkt of (a, b, v) \<Rightarrow>
        feed_endpoints (su_now u) (fst (parse_ethernet pkt)) a b (note_packet (pp_baseline p)))
      in (case parse_transport pkt of None \<Rightarrow> c | Some fl \<Rightarrow> feed_transport (su_now u) fl c))"
  "pp_baseline (modbus_step u True pkt p) =
     (case parse_modbus_tcp pkt of None \<Rightarrow> pp_baseline p | Some fr \<Rightarrow> feed_modbus (su_now u) fr (pp_baseline p))"
  "pp_baseline (snd (goose_step u True pkt p)) =
     (case parse_goose_packet pkt of Inr (Some f) \<Rightarrow> feed_goose (su_now u) f (pp_baseline p) | _ \<Rightarrow> pp_baseline p)"
  "pp_baseline (mms_step u True pkt p) =
     (case parse_mms_packet pkt of None \<Rightarrow> pp_baseline p | Some ob \<Rightarrow> feed_mms (su_now u) ob (pp_baseline p))"
  by (simp_all add: layer_step_def modbus_step_def goose_step_def mms_step_def Let_def
      split: option.split prod.split sum.split)

lemma process_learns:
  assumes "fst (process u pkt p) = None" and "mode_now u p = ''learning''"
  shows "pp_baseline (snd (process u pkt p)) = learned_from u pkt (pp_baseline p)"
proof -
  define q where "q = snd (reload_listfile u (reload_operational_mode u (snd (reload_detection_policy u p))))"
  have b: "pp_baseline q = pp_baseline p"
    by (simp add: q_def reload_listfile_def reload_operational_mode_def reload_policy_frame split: prod.split)
  note ok = process_ok [OF assms(1), folded q_def]
  show ?thesis
    unfolding ok(1) handle_layers_ok [OF ok(2)]
    by (simp add: ok(3) assms(2) same_baseline learning_baseline b learned_from_def Let_def
        cong: option.case_cong sum.case_cong)
qed

text \<open>The feeds of one packet write different fields, so their order does not matter.\<close>

lemma feeds_commute:
  "feed_mms t ob (feed_modbus t fr c) = feed_modbus t fr (feed_mms t ob c)"
  "feed_mms t ob (feed_transport t fl c) = feed_transport t fl (feed_mms t ob c)"
  "feed_modbus t fr (feed_transport t fl c) = feed_transport t fl (feed_modbus t fr c)"
  by (simp_all add: feed_mms_def feed_modbus_def feed_transport_def Let_def split: option.split prod.split)

lemma learned_from_collect:
  "parse_goose_packet pkt = Inr None \<Longrightarrow> learned_from u pkt c = collect (su_now u) pkt c"
  by (simp add: learned_from_def collect_def feed_upper_def Let_def feeds_commute split: option.split prod.split)

lemma process_l2:
  assumes "fst (process u pkt p) = None"
  shows "pp_l2 (snd (process u pkt p)) = record_l2 (pp_l2 p) (fst (parse_ethernet pkt))"
proof -
  define q where "q = snd (reload_listfile u (reload_operational_mode u (snd (reload_detection_policy u p))))"
  have "pp_l2 q = pp_l2 p" by (simp add: q_def same_l2 reload_policy_frame)
  then show ?thesis
    using process_ok [OF assms, folded q_def] handle_layers_ok [of u pkt q] by (simp add: same_l2 layer_step_l2)
qed

lemma do_steps_stuck: "f \<in> set fs \<Longrightarrow> (\<And>q. fst (f q) \<noteq> None) \<Longrightarrow> fst (do_steps fs p) \<noteq> None"
proof (induction fs arbitrary: p)
  case (Cons g fs)
  obtain r p1 where g: "g p = (r, p1)" by fastforce
  show ?case
  proof (cases "g = f")
    case True
    then have "fst (g p) \<noteq> None" using Cons.prems(2) by simp
    then show ?thesis by (auto simp: then_step_def split: prod.split option.split)
  next
    case False
    then have "fst (do_steps fs p1) \<noteq> None" using Cons by simp
    then show ?thesis using g by (cases r) (simp_all add: then_step_def)
  qed
qed simp

lemma process_malformed:
  assumes "parse_goose_packet pkt = Inl e"
  shows "fst (process u pkt p) \<noteq> None"
proof -
  have g: "fst (goose_step u acc pkt q) \<noteq> None" for acc q using assms by (simp add: goose_step_def)
  have "fst (handle_layers u pkt q) \<noteq> None" for q
    unfolding handle_layers_def accumulation_eq prod.case
    by (rule do_steps_stuck [where f = "goose_step u (snd (store_mode (su_now u) (su_mode u) (pp_mode q)) = ''learning'') pkt"])
      (simp_all only: g list.set insert_iff simp_thms)
  then show ?thesis
    unfolding process_def by (intro do_steps_stuck [where f = "handle_layers u pkt"]) (simp_all only: list.set insert_iff simp_thms)
qed

lemma then_step_assoc: "then_step (then_step f g) h p = then_step f (then_step g h) p"
  by (simp add: then_step_def split: prod.split option.split)

lemma capture_run_append: "capture_run (xs @ ys) p = then_step (capture_run xs) (capture_run ys) p"
proof (induction xs arbitrary: p)
  case (Cons x xs)
  obtain u pkt where x: "x = (u, pkt)" by fastforce
  show ?case by (simp add: x then_step_assoc) (simp add: then_step_def Cons.IH split: prod.split option.split)
qed (simp add: then_step_def)

lemma capture_run_stuck:
  assumes "parse_goose_packet bad = Inl e"
  shows "fst (capture_run ((u, bad) # ys) p) \<noteq> None" and "capture_run ((u, bad) # ys) p = process u bad p"
proof -
  obtain r p1 where r: "process u bad p = (Some r, p1)"
    using process_malformed [OF assms, of u p] by (cases "process u bad p") auto
  then show "fst (capture_run ((u, bad) # ys) p) \<noteq> None" "capture_run ((u, bad) # ys) p = process u bad p"
    by (simp_all add: then_step_def)
qed

lemma capture_one: "fst (capture_run [(u, pkt)] p) = fst (process u pkt p)"
  by (cases "process u pkt p") (auto simp: then_step_def split: option.split)

lemma capture_run_l2:
  "fst (capture_run xs p) = None \<Longrightarrow> window_total (pp_l2 (snd (capture_run xs p))) = window_total (pp_l2 p) + length xs"
proof (induction xs arbitrary: p)
  case (Cons x xs)
  obtain u pkt where x: "x = (u, pkt)" by fastforce
  have f: "fst (process u pkt p) = None" "capture_run (x # xs) p = capture_run xs (snd (process u pkt p))"
    using Cons.prems then_step_ok [of "process u pkt" "capture_run xs" p] by (simp_all add: x)
  have "window_total (pp_l2 (snd (process u pkt p))) = window_total (pp_l2 p) + 1"
    by (simp add: process_l2 [OF f(1)] record_l2_def Let_def)
  then show ?case using Cons.IH [of "snd (process u pkt p)"] Cons.prems f by simp
qed simp

lemma flush_gated:
  "mode_now u p \<noteq> ''detect'' \<Longrightarrow> pp_events (flush_features u p) = pp_events p \<and> pp_coverage (flush_features u p) = pp_coverage p"
  using emit_events_off [of u]
  by (auto simp: flush_features_def flush_reset_def flush_publish_def alerts_enabled_eq Let_def mode_now_def store_mode_again split: prod.split)

lemma flush_window:
  "\<exists>fp n w g m os. pp_outputs (flush_features u p) = os @ [publish_window fp n (pp_l2 p) w g m]"
  "pp_l2 (flush_features u p) = reset_l2_window (pp_l2 p)" "pp_l3 (flush_features u p) = pp_l3 p"
  "pp_goose (flush_features u p) = pp_goose p" "pp_mms (flush_features u p) = pp_mms p"
  by (simp_all add: flush_features_def flush_reset_def flush_publish_def alerts_enabled_eq Let_def split: prod.split) blast

lemma flush_publish_window:
  "\<exists>fp n w g m os. pp_outputs (flush_publish u p) = os @ [publish_window fp n (pp_l2 p) w g m]"
  "pp_l2 (flush_publish u p) = pp_l2 p"
  by (simp_all add: flush_publish_def alerts_enabled_eq Let_def split: prod.split) blast

text \<open>The packet count of the window a flush has just published.\<close>

definition published_count :: "pipeline \<Rightarrow> json" where
  "published_count p = jget (snd (hd (wo_files (last (pp_outputs p))))) ''packet_count''"

lemma published_count_flush: "published_count (flush_publish u p) = JInt (int (window_total (pp_l2 p)))"
proof -
  obtain fp n w g m os where o: "pp_outputs (flush_publish u p) = os @ [publish_window fp n (pp_l2 p) w g m]"
    using flush_publish_window(1) by blast
  show ?thesis by (simp add: published_count_def o publish_window_first jget_packet_count jnat_def)
qed

section \<open>Properties\<close>

text \<open>
  C13. The mode gates the pipeline: unless the mode in force when a packet is handled, or a
  window flushed, is detection, no event reaches the event store and the coverage counters do
  not move; and unless it is learning, the live baseline does not change. This holds also
  when the call ends in an exception.
\<close>

theorem mode_gates_pipeline:
  "(mode_now u p \<noteq> ''detect'' \<longrightarrow> pp_events (snd (process u pkt p)) = pp_events p \<and>
       pp_coverage (snd (process u pkt p)) = pp_coverage p \<and> pp_events (flush_features u p) = pp_events p \<and>
       pp_coverage (flush_features u p) = pp_coverage p) \<and>
   (mode_now u p \<noteq> ''learning'' \<longrightarrow> pp_baseline (snd (process u pkt p)) = pp_baseline p)"
  using gated_process [of u p pkt] flush_gated [of u p] by (simp add: gated_def)

text \<open>Mode files and policy files of a sensor that learns, and of one that listens.\<close>

definition demo_surroundings :: "string \<Rightarrow> surroundings" where
  "demo_surroundings m = \<lparr>su_clock = clock_at 100, su_wall = 1000,
     su_mode = \<lparr>mf_mode = Doc (JObj [(''mode'', JStr m)]), mf_stamp = Text ''1''\<rparr>,
     su_policy = \<lparr>df_policy = Doc (JObj [(''version'', JStr ''v'')]), df_stamp = Text ''1'', df_fallback = Absent,
       df_profile = \<lparr>pf_profile = Absent, pf_stamp = NoFile\<rparr>\<rparr>,
     su_allow = \<lparr>af_cache = Absent, af_mtime = None\<rparr>,
     su_ioc = \<lparr>if_stamp = NotFile, if_cache_mtime = NotFile, if_cache = Absent, if_utc = 0\<rparr>, su_write_ok = True\<rparr>"

definition demo_config :: pipeline_config where
  "demo_config = \<lparr>pc_sensor = ''n'', pc_site = ''s'', pc_rules = {}, pc_window_sec = 60, pc_ring_max = 10,
     pc_ioc_enabled = False, pc_ioc_cooldown = 300, pc_ioc_reload = 5, pc_policy_reload = 5, pc_mode_reload = 5,
     pc_list_reload = 5, pc_prefix = ''p'', pc_edgex_device = ''d'', pc_edgex_topic = ''t'', pc_coverage = True\<rparr>"

definition demo_pipeline :: "string \<Rightarrow> pipeline" where
  "demo_pipeline m = pipeline_assemble demo_config (demo_surroundings m)
     (snd (policy_store_init 5 True 100 (su_policy (demo_surroundings m)))) (enforcer_init 5)
     \<lparr>pol_assets = [], pol_allow = [], pol_thresholds = []\<rparr>
     \<lparr>goose_publishers = [], mms_ieds = [], iec_thresholds = []\<rparr> {}"

lemma demo_mode: "mode_now (demo_surroundings m) (demo_pipeline m) = mode_of (pp_mode (demo_pipeline m))"
  by (simp add: demo_pipeline_def demo_surroundings_def demo_config_def pipeline_assemble_def mode_now_def store_mode_def
      mode_store_init_def mode_reload_def Let_def)

theorem mode_gates_pipeline_witness:
  "pp_events (snd (process (demo_surroundings ''listen'') mms_session (demo_pipeline ''listen''))) = []"
proof -
  have "mode_now (demo_surroundings ''listen'') (demo_pipeline ''listen'') \<noteq> ''detect''"
    unfolding demo_mode
    by (simp add: demo_pipeline_def demo_surroundings_def demo_config_def pipeline_assemble_def mode_store_init_def
        mode_reload_def mode_of_def py_or_def strip_def lstrip_def rstrip_def is_space_def chr_code_def Let_def
        lower_def lower_char_def VALID_MODES_def obj_or_empty_def)
  moreover have "pp_events (demo_pipeline ''listen'') = []" by (simp add: demo_pipeline_def pipeline_assemble_def)
  ultimately show ?thesis using mode_gates_pipeline [of "demo_surroundings ''listen''" "demo_pipeline ''listen''" mms_session] by simp
qed

lemma do_steps_return:
  "(\<And>f q. f \<in> set fs \<Longrightarrow> I q \<Longrightarrow> fst (f q) = None \<and> I (snd (f q))) \<Longrightarrow> I p \<Longrightarrow> fst (do_steps fs p) = None"
proof (induction fs arbitrary: p)
  case (Cons f fs)
  obtain r p1 where f: "f p = (r, p1)" by fastforce
  have "r = None \<and> I p1" using Cons.prems f by (metis fst_conv snd_conv list.set_intros(1))
  then show ?case using Cons.IH [of p1] Cons.prems(1) f by (simp add: then_step_def)
qed simp

lemma emit_ioc [simp]: "pp_ioc (emit_events u es p) = pp_ioc p"
proof -
  have "pp_ioc (fold (emit_one u) es q) = pp_ioc q" for q
    by (induction es arbitrary: q) (simp_all add: emit_one_def split: prod.split)
  then show ?thesis by (simp add: emit_events_def alerts_enabled_eq Let_def)
qed

lemma handle_layers_returns:
  assumes "pp_ioc p = None" and "parse_goose_packet pkt = Inr g"
  shows "fst (handle_layers u pkt p) = None"
  unfolding handle_layers_def accumulation_eq prod.case
  by (rule do_steps_return [where I = "\<lambda>q. pp_ioc q = None"])
    (use assms in \<open>auto simp: plain_step_def ring_step_def layer_step_def cti_step_def observe_step_def modbus_step_def
      goose_step_def mms_step_def Let_def split: option.split prod.split\<close>)

lemma demo_su: "su_clock (demo_surroundings m) = clock_at 100"
  "su_allow (demo_surroundings m) = \<lparr>af_cache = Absent, af_mtime = None\<rparr>"
  by (simp_all add: demo_surroundings_def)

lemma then_step_fst: "fst (then_step f g p) = (case fst (f p) of None \<Rightarrow> fst (g (snd (f p))) | Some e \<Rightarrow> Some e)"
  by (simp add: then_step_def split: prod.split option.split)

lemma demo_process_like:
  assumes "parse_goose_packet pkt = Inr g" and "pp_ioc p = None" and "pp_policy p = pp_policy (demo_pipeline m)"
  shows "fst (process (demo_surroundings m) pkt p) = None"
proof -
  have l: "\<exists>b l. enforcer_reload False t \<lparr>af_cache = Absent, af_mtime = None\<rparr> e = (Inr b, l)" for t e
    by (cases "t - en_last_check e < en_interval e"; cases "enforcer_mtime \<lparr>af_cache = Absent, af_mtime = None\<rparr> = en_stamp_mtime e \<and> allow_ips e \<noteq> {}")
      (auto simp: enforcer_reload_def enforcer_load_def Let_def)
  obtain b1 l1 where 1: "enforcer_reload False (su_now (demo_surroundings m)) \<lparr>af_cache = Absent, af_mtime = None\<rparr> (pp_listfile p) = (Inr b1, l1)"
    using l by blast
  obtain b2 l2 where 2: "enforcer_reload False (su_now (demo_surroundings m)) \<lparr>af_cache = Absent, af_mtime = None\<rparr> l1 = (Inr b2, l2)"
    using l by blast
  have "policy_reload False (su_now (demo_surroundings m)) (su_policy (demo_surroundings m)) (pp_policy (demo_pipeline m)) =
      (Inr False, pp_policy (demo_pipeline m))"
    by (simp add: demo_surroundings_def demo_pipeline_def demo_config_def pipeline_assemble_def policy_store_init_def policy_reload_def
        install_baseline_def apply_thresholds_def
        profile_reload_def profile_store_new_def ask_profile_def profile_baseline_def obj_field_def obj_or_empty_def
        observed_to_detection_baseline_def choose_baseline_def rules_of_def default_policy_def Let_def)
  then have "fst (do_steps [\<lambda>p. drop_value (reload_detection_policy (demo_surroundings m) p),
      plain_step (reload_operational_mode (demo_surroundings m)), reload_listfile (demo_surroundings m),
      handle_layers (demo_surroundings m) pkt] p) = None"
    using handle_layers_returns [OF _ assms(1)] 1 2
    by (simp add: reload_detection_policy_def reload_operational_mode_def reload_listfile_def then_step_fst plain_step_def
        drop_value_def demo_su assms(2,3) Let_def)
  then show ?thesis by (simp only: process_def)
qed

lemma demo_process: "parse_goose_packet pkt = Inr g \<Longrightarrow> fst (process (demo_surroundings m) pkt (demo_pipeline m)) = None"
  by (rule demo_process_like) (simp_all add: demo_pipeline_def pipeline_assemble_def demo_config_def)

lemma flush_publish_frame:
  "pp_ioc (flush_publish u p) = pp_ioc p" "pp_policy (flush_publish u p) = pp_policy p"
proof -
  have "pp_ioc (fold (emit_one u) es p) = pp_ioc p \<and> pp_policy (fold (emit_one u) es p) = pp_policy p" for es p
    by (induction es arbitrary: p) (simp_all add: emit_one_def split: prod.split)
  then show "pp_ioc (flush_publish u p) = pp_ioc p" "pp_policy (flush_publish u p) = pp_policy p"
    by (simp_all add: flush_publish_def emit_events_def alerts_enabled_eq Let_def split: prod.split)
qed

lemma demo_no_goose: "parse_goose_packet mms_session = Inr None"
  by (simp add: mms_session_def parse_goose_packet_def extract_l2_payload_def)

text \<open>
  C14. One malformed GOOSE frame ends the capture: whatever was processed before it, the
  capture loop stops with an exception at a frame whose GOOSE PDU does not parse, and no
  frame behind it is read. (The collector that learns from a file counts the error and goes on.)
\<close>

theorem malformed_goose_ends_capture:
  assumes "parse_goose_packet bad = Inl e" and "fst (capture_run xs p) = None"
  shows "fst (capture_run (xs @ (u, bad) # ys) p) \<noteq> None \<and>
     snd (capture_run (xs @ (u, bad) # ys) p) = snd (process u bad (snd (capture_run xs p)))"
proof -
  obtain p1 where p1: "capture_run xs p = (None, p1)" using assms(2) by (cases "capture_run xs p") auto
  then have "capture_run (xs @ (u, bad) # ys) p = capture_run ((u, bad) # ys) p1"
    by (simp only: capture_run_append then_step_def prod.case option.case)
  then show ?thesis using capture_run_stuck [OF assms(1)] p1 by (simp del: capture_run.simps)
qed

definition broken_goose :: packet where
  "broken_goose = ether_packet ''aa'' 0x88B8 [0, 3, 0, 11, 0, 0, 0, 0, 0x61, 1, 0x80]"

theorem malformed_goose_ends_capture_witness:
  "fst (capture_run ([(demo_surroundings ''detect'', mms_session)] @ (demo_surroundings ''detect'', broken_goose) #
     [(demo_surroundings ''detect'', mms_session)]) (demo_pipeline ''detect'')) \<noteq> None"
proof -
  have "\<exists>e. parse_goose_packet broken_goose = Inl e"
    by (simp add: broken_goose_def ether_packet_def parse_goose_packet_def extract_l2_payload_def GOOSE_ETHERTYPE_def
        parse_goose_wire_def goose_pdu_of_def be_val_def parse_goose_pdu_def read_tlv_def read_length_def Let_def pdu_loop.simps)
  then obtain e where e: "parse_goose_packet broken_goose = Inl e" ..
  have "fst (capture_run [(demo_surroundings ''detect'', mms_session)] (demo_pipeline ''detect'')) = None"
    using demo_process [OF demo_no_goose, of "''detect''"] by (simp only: capture_one)
  from malformed_goose_ends_capture [OF e this] show ?thesis by blast
qed

text \<open>
  Without a flush in between every packet is counted once: after a capture that ended without an exception,
  the window counter, and so the summary the next flush writes, counts the packets handled since the last
  flush; and the L2, L3, GOOSE and MMS records each keep their own invariant.
\<close>

theorem window_counts_every_packet:
  assumes "window_total (pp_l2 p) = 0" and "stats_inv p" and "fst (capture_run xs p) = None"
  shows "jget (snd (hd (wo_files (last (pp_outputs (flush_features u (snd (capture_run xs p)))))))) ''packet_count''
       = JInt (int (length xs)) \<and>
     stats_inv (flush_features u (snd (capture_run xs p))) \<and>
     window_total (pp_l2 (flush_features u (snd (capture_run xs p)))) = 0"
proof -
  define q where "q = snd (capture_run xs p)"
  obtain fp n w g m os where o: "pp_outputs (flush_features u q) = os @ [publish_window fp n (pp_l2 q) w g m]"
    using flush_window(1) by blast
  have "window_total (pp_l2 q) = length xs" using capture_run_l2 [OF assms(3)] assms(1) by (simp add: q_def)
  moreover have "stats_inv (flush_features u q)"
    using stats_run [OF assms(2), of xs] by (simp add: q_def stats_inv_def flush_window l2_inv_reset)
  ultimately show ?thesis
    by (simp add: q_def [symmetric] o publish_window_first jget_packet_count jnat_def flush_window reset_l2_window_def)
qed

text \<open>
  C15. What a window counts, and what no window counts: of the packets handled without an exception, the ones
  since the last reset are exactly the count of the window a flush publishes; the ones the capture thread
  handles between that publication and the reset of the counters, which the main thread does at the end of
  the same \<open>flush_features\<close>, are in neither that window nor the next.
\<close>

theorem flush_loses_packets:
  assumes "window_total (pp_l2 p) = 0" and "capture_run before p = (None, p1)"
    and "capture_run during (flush_publish u p1) = (None, p2)" and "capture_run behind (flush_reset p2) = (None, p3)"
  shows "published_count (flush_publish u p1) = JInt (int (length before)) \<and>
     published_count (flush_publish u' p3) = JInt (int (length behind))"
proof -
  have "window_total (pp_l2 p1) = length before"
    using capture_run_l2 [of before p] assms(1,2) by simp
  moreover have "window_total (pp_l2 p3) = length behind"
    using capture_run_l2 [of behind "flush_reset p2"] assms(4) by (simp add: flush_reset_def reset_l2_window_def)
  ultimately show ?thesis by (simp add: published_count_flush)
qed

theorem flush_loses_packets_witness:
  "\<exists>p2. capture_run [(demo_surroundings ''listen'', mms_session)] (flush_publish (demo_surroundings ''listen'') (demo_pipeline ''listen'')) = (None, p2) \<and>
     published_count (flush_publish (demo_surroundings ''listen'') (demo_pipeline ''listen'')) = JInt 0 \<and>
     published_count (flush_publish (demo_surroundings ''listen'') (flush_reset p2)) = JInt 0"
proof -
  let ?u = "demo_surroundings ''listen''" and ?p = "demo_pipeline ''listen''"
  have f: "pp_ioc ?p = None" by (simp add: demo_pipeline_def pipeline_assemble_def demo_config_def)
  have "fst (process ?u mms_session (flush_publish ?u ?p)) = None"
    by (rule demo_process_like [OF demo_no_goose]) (simp_all add: flush_publish_frame f)
  then obtain p2 where r: "capture_run [(?u, mms_session)] (flush_publish ?u ?p) = (None, p2)"
    by (metis capture_one prod.collapse)
  have z: "window_total (pp_l2 ?p) = 0" by (simp add: demo_pipeline_def pipeline_assemble_def l2_init_def)
  have none: "capture_run [] x = (None, x)" for x by simp
  show ?thesis using flush_loses_packets [OF z none r none, of ?u] r by (simp del: capture_run.simps(2))
qed

text \<open>
  C17. Live learning is learning: in learning mode, a packet without a GOOSE message that the
  pipeline handles without an exception changes the live baseline exactly as the collector
  that learns from a capture file does.
\<close>

theorem live_learning_is_collecting:
  assumes "fst (process u pkt p) = None" and "mode_now u p = ''learning''" and "parse_goose_packet pkt = Inr None"
  shows "pp_baseline (snd (process u pkt p)) = collect (su_now u) pkt (pp_baseline p)"
  using process_learns [OF assms(1,2)] learned_from_collect [OF assms(3)] by simp

theorem live_learning_is_collecting_witness:
  "pp_baseline (snd (process (demo_surroundings ''learning'') mms_session (demo_pipeline ''learning''))) =
     collect 100 mms_session (collector_init [] ''n'')"
proof -
  have "mode_now (demo_surroundings ''learning'') (demo_pipeline ''learning'') = ''learning''"
    unfolding demo_mode
    by (simp add: demo_pipeline_def demo_surroundings_def demo_config_def pipeline_assemble_def mode_store_init_def
        mode_reload_def mode_of_def py_or_def strip_def lstrip_def rstrip_def is_space_def chr_code_def Let_def
        lower_def lower_char_def VALID_MODES_def obj_or_empty_def)
  from live_learning_is_collecting [OF demo_process [OF demo_no_goose] this demo_no_goose]
  show ?thesis by (simp add: demo_pipeline_def pipeline_assemble_def demo_config_def demo_surroundings_def)
qed

end
