(* ===== verification/Jsontext.thy ===== *)
theory Jsontext
  imports PyValue
begin

text \<open>
  JSON as text: \<open>json.dumps(v, ensure_ascii=False)\<close> with the default separators, \<open>json.loads\<close> and
  \<open>str.splitlines()\<close>, which the queue files of the edge agent go through. The reader is a
  recursive descent with fuel; twice the length of the text is enough for every text, as each
  second call consumes a character. The literals \<open>NaN\<close> and \<open>Infinity\<close>, which Python reads
  as floats, have no rational value and are read as malformed; so are escapes above U+00FF.
\<close>

section \<open>Writing\<close>

definition esc_char :: "char \<Rightarrow> string" where
  "esc_char c = (let n = chr_code c in
     if n = 34 \<or> n = 92 then [CHR 0x5C, c]
     else if n = 10 then [CHR 0x5C, CHR ''n'']
     else if n = 13 then [CHR 0x5C, CHR ''r'']
     else if n = 9 then [CHR 0x5C, CHR ''t'']
     else if n = 8 then [CHR 0x5C, CHR ''b'']
     else if n = 12 then [CHR 0x5C, CHR ''f'']
     else if n < 32 then [CHR 0x5C, CHR ''u'', CHR ''0'', CHR ''0'', hex_digit (n div 16), hex_digit (n mod 16)]
     else [c])"

definition quoted :: "string \<Rightarrow> string" where
  "quoted s = CHR 0x22 # concat (map esc_char s) @ [CHR 0x22]"

fun dumps :: "json \<Rightarrow> string" where
  "dumps JNull = ''null''"
| "dumps (JBool b) = (if b then ''true'' else ''false'')"
| "dumps (JInt i) = dec_int i"
| "dumps (JFloat r) = repr_float r"
| "dumps (JStr s) = quoted s"
| "dumps (JList xs) = ''['' @ join_with '', '' (map dumps xs) @ '']''"
| "dumps (JObj d) = ''{'' @ join_with '', '' (map (\<lambda>(k, v). quoted k @ '': '' @ dumps v) d) @ ''}''"

section \<open>Reading\<close>

definition json_ws :: "char \<Rightarrow> bool" where
  "json_ws c = (chr_code c \<in> {32, 9, 10, 13})"

definition skip_ws :: "string \<Rightarrow> string" where
  "skip_ws s = dropWhile json_ws s"

definition hex_val :: "char \<Rightarrow> nat option" where
  "hex_val c = (let n = chr_code c in
     if is_digit c then Some (n - 48)
     else if 97 \<le> n \<and> n \<le> 102 then Some (n - 87)
     else if 65 \<le> n \<and> n \<le> 70 then Some (n - 55) else None)"

definition simple_escape :: "char \<Rightarrow> char option" where
  "simple_escape c = (let n = chr_code c in
     if n = 34 \<or> n = 92 \<or> n = 47 then Some c
     else if n = 98 then Some (char_of (8 :: nat)) else if n = 102 then Some (char_of (12 :: nat))
     else if n = 110 then Some (char_of (10 :: nat)) else if n = 114 then Some (char_of (13 :: nat))
     else if n = 116 then Some (char_of (9 :: nat)) else None)"

fun hex4 :: "string \<Rightarrow> nat option" where
  "hex4 [a, b, c, d] = (case (hex_val a, hex_val b, hex_val c, hex_val d) of
     (Some p, Some q, Some r, Some s) \<Rightarrow> Some (((p * 16 + q) * 16 + r) * 16 + s) | _ \<Rightarrow> None)"
| "hex4 _ = None"

definition cons_fst :: "'a \<Rightarrow> ('a list \<times> 'b) option \<Rightarrow> ('a list \<times> 'b) option" where
  "cons_fst x r = map_option (\<lambda>(xs, t). (x # xs, t)) r"

text \<open>The text behind an opening quote: the string and what follows the closing one.\<close>

fun str_body :: "nat \<Rightarrow> string \<Rightarrow> (string \<times> string) option" where
  "str_body 0 s = None"
| "str_body (Suc n) [] = None"
| "str_body (Suc n) (c # cs) =
     (if chr_code c = 34 then Some ([], cs)
      else if chr_code c < 32 then None
      else if chr_code c \<noteq> 92 then cons_fst c (str_body n cs)
      else (case cs of [] \<Rightarrow> None
        | e # es \<Rightarrow>
           if chr_code e = 117 then (case hex4 (take 4 es) of
               Some v \<Rightarrow> if v < 256 then cons_fst (char_of v) (str_body n (drop 4 es)) else None
             | None \<Rightarrow> None)
           else (case simple_escape e of Some x \<Rightarrow> cons_fst x (str_body n es) | None \<Rightarrow> None)))"

definition digits_of :: "string \<Rightarrow> string" where
  "digits_of s = takeWhile is_digit s"

definition frac_part :: "string \<Rightarrow> string \<times> string" where
  "frac_part s = (case s of c # cs \<Rightarrow>
       if chr_code c = 46 \<and> digits_of cs \<noteq> [] then (digits_of cs, drop (length (digits_of cs)) cs) else ([], s)
     | [] \<Rightarrow> ([], []))"

definition exp_part :: "string \<Rightarrow> int option \<times> string" where
  "exp_part s = (case s of c # cs \<Rightarrow>
       if chr_code c \<in> {101, 69} then
         (let sign = (case cs of d # _ \<Rightarrow> if chr_code d \<in> {43, 45} then [d] else [] | [] \<Rightarrow> []);
              ds = digits_of (drop (length sign) cs) in
          if ds = [] then (None, s)
          else (Some (if map chr_code sign = [45] then - int (dec_val ds) else int (dec_val ds)),
                drop (length sign + length ds) cs))
       else (None, s)
     | [] \<Rightarrow> (None, []))"

definition power_of_ten :: "int \<Rightarrow> rat" where
  "power_of_ten e = (if e < 0 then 1 / 10 ^ nat (- e) else 10 ^ nat e)"

text \<open>A zero stands alone: no digit follows a leading zero.\<close>

definition lead_digits :: "string \<Rightarrow> string" where
  "lead_digits t = (if map chr_code (take 1 t) = [48] then take 1 t else digits_of t)"

definition unsigned :: "string \<Rightarrow> (json \<times> string) option" where
  "unsigned t =
     (let ds = lead_digits t; (fr, r) = frac_part (drop (length ds) t); (ex, r) = exp_part r in
      if ds = [] then None
      else if fr = [] \<and> ex = None then Some (JInt (int (dec_val ds)), r)
      else Some (JFloat ((of_nat (dec_val ds) + of_nat (dec_val fr) / 10 ^ length fr)
                         * power_of_ten (case ex of None \<Rightarrow> 0 | Some e \<Rightarrow> e)), r))"

fun negated :: "json \<Rightarrow> json" where
  "negated (JInt i) = JInt (- i)"
| "negated (JFloat r) = JFloat (- r)"
| "negated v = v"

definition number :: "string \<Rightarrow> (json \<times> string) option" where
  "number s = (if map chr_code (take 1 s) = [45] then map_option (\<lambda>(v, r). (negated v, r)) (unsigned (drop 1 s))
     else unsigned s)"

fun jvalue :: "nat \<Rightarrow> string \<Rightarrow> (json \<times> string) option"
  and jelems :: "nat \<Rightarrow> string \<Rightarrow> (json list \<times> string) option"
  and jmembers :: "nat \<Rightarrow> string \<Rightarrow> ((string \<times> json) list \<times> string) option" where
  "jvalue 0 s = None"
| "jvalue (Suc n) s = (case s of [] \<Rightarrow> None
     | c # cs \<Rightarrow>
        if chr_code c = 34 then map_option (\<lambda>(t, r). (JStr t, r)) (str_body (length s) cs)
        else if chr_code c = 123 then (case skip_ws cs of [] \<Rightarrow> None
          | d # ds \<Rightarrow> if chr_code d = 125 then Some (JObj [], ds)
              else map_option (\<lambda>(m, r). (JObj (dict_update [] m), r)) (jmembers n (d # ds)))
        else if chr_code c = 91 then (case skip_ws cs of [] \<Rightarrow> None
          | d # ds \<Rightarrow> if chr_code d = 93 then Some (JList [], ds)
              else map_option (\<lambda>(xs, r). (JList xs, r)) (jelems n (d # ds)))
        else if take 4 s = ''null'' then Some (JNull, drop 4 s)
        else if take 4 s = ''true'' then Some (JBool True, drop 4 s)
        else if take 5 s = ''false'' then Some (JBool False, drop 5 s)
        else number s)"
| "jelems 0 s = None"
| "jelems (Suc n) s = (case jvalue n s of None \<Rightarrow> None
     | Some (v, r) \<Rightarrow> (case skip_ws r of [] \<Rightarrow> None
        | c # cs \<Rightarrow> if chr_code c = 93 then Some ([v], cs)
            else if chr_code c = 44 then cons_fst v (jelems n (skip_ws cs)) else None))"
| "jmembers 0 s = None"
| "jmembers (Suc n) s = (case s of [] \<Rightarrow> None
     | q # qs \<Rightarrow> if chr_code q \<noteq> 34 then None
        else (case str_body (length s) qs of None \<Rightarrow> None
          | Some (k, r) \<Rightarrow> (case skip_ws r of [] \<Rightarrow> None
             | c # cs \<Rightarrow> if chr_code c \<noteq> 58 then None
                else (case jvalue n (skip_ws cs) of None \<Rightarrow> None
                  | Some (v, r) \<Rightarrow> (case skip_ws r of [] \<Rightarrow> None
                     | c # cs \<Rightarrow> if chr_code c = 125 then Some ([(k, v)], cs)
                         else if chr_code c = 44 then cons_fst (k, v) (jmembers n (skip_ws cs)) else None)))))"

definition loads :: "string \<Rightarrow> json option" where
  "loads s = (case jvalue (2 * length s + 2) (skip_ws s) of
       Some (v, r) \<Rightarrow> if skip_ws r = [] then Some v else None
     | None \<Rightarrow> None)"

section \<open>Lines of a text\<close>

text \<open>\<open>str.splitlines()\<close>: unlike \<open>bytes.splitlines()\<close> it also ends a line at the other separators of
  Unicode, of which U+000B, U+000C, U+001C to U+001E and U+0085 are below U+0100.\<close>

definition line_break :: "char \<Rightarrow> bool" where
  "line_break c = (chr_code c \<in> {10, 11, 12, 13, 28, 29, 30, 133})"

fun text_lines_from :: "string \<Rightarrow> string \<Rightarrow> bool \<Rightarrow> string list" where
  "text_lines_from [] acc cr = (if acc = [] then [] else [acc])"
| "text_lines_from (c # cs) acc cr =
     (if cr \<and> chr_code c = 10 then text_lines_from cs [] False
      else if line_break c then acc # text_lines_from cs [] (chr_code c = 13)
      else text_lines_from cs (acc @ [c]) False)"

definition text_lines :: "string \<Rightarrow> string list" where
  "text_lines s = text_lines_from s [] False"

section \<open>Reading back what was written\<close>

text \<open>Values without floats, whose dicts have distinct keys, are read back as they were.\<close>

fun plain :: "json \<Rightarrow> bool" where
  "plain (JFloat r) = False"
| "plain (JList xs) = list_all plain xs"
| "plain (JObj d) = (distinct (map fst d) \<and> list_all (\<lambda>(k, v). plain v) d)"
| "plain _ = True"

lemma less16_cases: "(d :: nat) < 16 \<Longrightarrow> d \<in> set [0..<16]"
  by simp

lemma hex_val_hex_digit [simp]: "d < 16 \<Longrightarrow> hex_val (hex_digit d) = Some d"
  by (drule less16_cases) (auto simp: upt_conv_Cons hex_val_def hex_digit_def is_digit_def chr_code_def)

lemma chr_code_inj: "chr_code c = chr_code d \<longleftrightarrow> c = d"
  by (simp add: chr_code_def)

lemma chr_code_less: "chr_code c < 256"
  using of_char_mod_256 [of c, where 'a = nat] mod_less_divisor [of 256 "of_char c :: nat"] by (simp add: chr_code_def)

lemma char_of_chr_code [simp]: "char_of (chr_code c) = c"
  by (simp add: chr_code_def)

lemma cons_fst_Some [simp]: "cons_fst x (Some (xs, t)) = Some (x # xs, t)" "cons_fst x None = None"
  by (simp_all add: cons_fst_def)

lemma short_escape:
  "c \<in> char_of ` {10, 13, 9, 8, 12 :: nat} \<Longrightarrow> str_body (Suc m) (esc_char c @ rest) = cons_fst c (str_body m rest)"
  by (auto simp: esc_char_def simple_escape_def chr_code_def)

lemma take4: "take 4 (a # b # c # d # r) = [a, b, c, d]"
  by (simp add: numeral_eq_Suc)

lemma str_body_char: "str_body (Suc m) (esc_char c @ rest) = cons_fst c (str_body m rest)"
proof -
  have code: "chr_code (CHR 0x5C) = 92" "chr_code (CHR ''u'') = 117" "hex_val (CHR ''0'') = Some 0"
    by (simp_all add: chr_code_def hex_val_def is_digit_def)
  consider (q) "chr_code c = 34 \<or> chr_code c = 92" | (s) "chr_code c \<in> {10, 13, 9, 8, 12}"
    | (u) "chr_code c < 32" "chr_code c \<notin> {10, 13, 9, 8, 12}" | (plain) "32 \<le> chr_code c" "chr_code c \<notin> {34, 92}" by fastforce
  then show ?thesis
  proof cases
    case q
    then show ?thesis by (auto simp: esc_char_def simple_escape_def code Let_def)
  next
    case u
    then have "chr_code c \<noteq> 34" "chr_code c \<noteq> 92" by auto
    moreover have "hex4 (take 4 (CHR ''0'' # CHR ''0'' # hex_digit (chr_code c div 16) # hex_digit (chr_code c mod 16) # rest))
        = Some (chr_code c div 16 * 16 + chr_code c mod 16)"
      using u by (simp add: code take4)
    ultimately show ?thesis using u
      by (simp add: esc_char_def code Let_def del: hex4.simps)
  next
    case plain
    then show ?thesis by (simp add: esc_char_def Let_def)
  next
    case s
    then have "c \<in> char_of ` {10, 13, 9, 8, 12 :: nat}"
      by (intro image_eqI [of c char_of "chr_code c"]) simp_all
    then show ?thesis by (rule short_escape)
  qed
qed

lemma str_body_quoted:
  "length s < n \<Longrightarrow> str_body n (concat (map esc_char s) @ CHR 0x22 # rest) = Some (s, rest)"
proof (induction s arbitrary: n)
  case Nil
  then show ?case by (cases n) (simp_all add: chr_code_def)
next
  case (Cons c s)
  then obtain m where m: "n = Suc m" "length s < m" by (cases n) auto
  show ?case using Cons.IH [OF m(2)] by (simp add: m(1) str_body_char del: str_body.simps)
qed


lemma length_concat_esc: "length s \<le> length (concat (map esc_char s))"
proof (induction s)
  case (Cons c s)
  have "1 \<le> length (esc_char c)" by (simp add: esc_char_def Let_def)
  then show ?case using Cons by simp
qed simp

subsection \<open>Numbers\<close>

text \<open>What may follow a value inside a list or an object, or at the end of the text.\<close>

definition ends :: "string \<Rightarrow> bool" where
  "ends rest = (case rest of [] \<Rightarrow> True | c # _ \<Rightarrow> chr_code c \<in> {44, 93, 125})"

lemma dec_no_zero: "0 < n \<Longrightarrow> chr_code (hd (dec n)) \<noteq> 48"
proof (induction n rule: dec.induct)
  case (1 n)
  show ?case
  proof (cases "n < 10")
    case True
    have "digit_val (digit_char n) = n" using True by simp
    moreover have "dec n = [digit_char n]" using True by (simp add: dec.simps [of n])
    ultimately show ?thesis using "1.prems" by (auto simp: digit_val_def)
  next
    case False
    then have "dec n = dec (n div 10) @ [digit_char (n mod 10)]" by (simp add: dec.simps [of n])
    moreover have "0 < n div 10" using False by simp
    ultimately show ?thesis using "1.IH" [OF False] by simp
  qed
qed

lemma dec_zero: "dec 0 = ''0''"
  by (simp add: dec.simps [of 0] digit_char_def)

lemma digits_of_append: "\<forall>c\<in>set s. is_digit c \<Longrightarrow> ends rest \<Longrightarrow> digits_of (s @ rest) = s"
proof (induction s)
  case Nil
  then show ?case by (cases rest) (auto simp: digits_of_def ends_def is_digit_def)
qed (simp add: digits_of_def)

lemma frac_ends: "ends rest \<Longrightarrow> frac_part rest = ([], rest)"
  by (auto simp: frac_part_def ends_def split: list.splits)

lemma exp_ends: "ends rest \<Longrightarrow> exp_part rest = (None, rest)"
  by (auto simp: exp_part_def ends_def split: list.splits)

lemma lead_digits_dec: "ends rest \<Longrightarrow> lead_digits (dec n @ rest) = dec n"
proof (cases "n = 0")
  case True
  then show ?thesis by (simp add: lead_digits_def dec_zero) (simp add: chr_code_def)
next
  case False
  assume e: "ends rest"
  obtain c cs where d: "dec n = c # cs" by (cases "dec n") auto
  then have "chr_code c \<noteq> 48" using dec_no_zero [of n] False by simp
  then show ?thesis using digits_of_append [OF _ e, of "dec n"] dec_digits [of _ n] d by (simp add: lead_digits_def)
qed

lemma unsigned_dec: "ends rest \<Longrightarrow> unsigned (dec n @ rest) = Some (JInt (int n), rest)"
  by (simp add: unsigned_def lead_digits_dec frac_ends exp_ends)

lemma dec_not_minus: "map chr_code (take 1 (dec n @ rest)) \<noteq> [45]"
  using dec_digits [of "hd (dec n)" n] by (cases "dec n") (auto simp: is_digit_def)

lemma number_dec_int: "ends rest \<Longrightarrow> number (dec_int i @ rest) = Some (JInt i, rest)"
  using dec_not_minus [of "nat i" rest]
  by (auto simp: number_def dec_int_def unsigned_dec) (simp_all add: chr_code_def)

subsection \<open>Values\<close>

definition starter :: "string \<Rightarrow> bool" where
  "starter s = (case s of [] \<Rightarrow> False | c # _ \<Rightarrow> \<not> json_ws c \<and> chr_code c \<notin> {93, 125})"

lemma skip_ws_starter [simp]: "starter s \<Longrightarrow> skip_ws (s @ rest) = s @ rest"
  by (cases s) (auto simp: starter_def skip_ws_def)

lemma starter_dec_int: "starter (dec_int i)"
proof -
  obtain c cs where d: "dec (nat i) = c # cs" by (cases "dec (nat i)") auto
  have "is_digit c" using dec_digits [of c "nat i"] d by simp
  then have "\<not> json_ws c \<and> chr_code c \<notin> {93, 125}" by (auto simp: json_ws_def is_digit_def)
  moreover have "\<not> json_ws (CHR ''-'') \<and> chr_code (CHR ''-'') \<notin> {93, 125}" by (simp add: json_ws_def chr_code_def)
  ultimately show ?thesis using d by (simp add: dec_int_def starter_def)
qed

lemma starter_quoted: "starter (quoted s)"
  by (simp add: starter_def quoted_def json_ws_def chr_code_def)

lemma starter_dumps: "plain v \<Longrightarrow> starter (dumps v)"
  by (cases v) (auto simp: starter_dec_int starter_quoted, auto simp: starter_def json_ws_def chr_code_def)

lemma punctuation: "chr_code (CHR 0x22) = 34" "chr_code (CHR ''{'') = 123" "chr_code (CHR ''}'') = 125"
  "chr_code (CHR ''['') = 91" "chr_code (CHR '']'') = 93" "chr_code (CHR '','') = 44" "chr_code (CHR '':'') = 58"
  by (simp_all add: chr_code_def)

lemma skip_ws_space: "skip_ws (CHR '' '' # s) = skip_ws s"
  "skip_ws (CHR '','' # s) = CHR '','' # s" "skip_ws (CHR '']'' # s) = CHR '']'' # s"
  "skip_ws (CHR ''}'' # s) = CHR ''}'' # s" "skip_ws (CHR '':'' # s) = CHR '':'' # s"
  by (simp_all add: skip_ws_def json_ws_def chr_code_def)

lemma jvalue_number:
  assumes "ends rest"
  shows "jvalue (Suc n) (dec_int i @ rest) = Some (JInt i, rest)"
proof -
  obtain c cs where d: "dec_int i = c # cs" by (cases "dec_int i") (auto simp: dec_int_def split: if_splits)
  have "is_digit c \<or> chr_code c = 45"
  proof (cases "i < 0")
    case True
    then show ?thesis using d by (auto simp: dec_int_def chr_code_def)
  next
    case False
    then show ?thesis using d dec_digits [of c "nat i"] by (simp add: dec_int_def)
  qed
  then have "chr_code c \<notin> {34, 123, 91, 110, 116, 102}" by (auto simp: is_digit_def)
  moreover have "chr_code (CHR ''n'') = 110" "chr_code (CHR ''t'') = 116" "chr_code (CHR ''f'') = 102"
    by (simp_all add: chr_code_def)
  ultimately show ?thesis using number_dec_int [OF assms, of i] d
    by auto
qed

lemma str_body_after_quote: "length s < n \<Longrightarrow> str_body n (tl (quoted s) @ rest) = Some (s, rest)"
  using str_body_quoted [of s n rest] by (simp add: quoted_def)

lemma jvalue_string: "jvalue (Suc n) (quoted s @ rest) = Some (JStr s, rest)"
  using str_body_quoted [of s "length (quoted s @ rest)" rest] length_concat_esc [of s]
  by (simp add: quoted_def punctuation)

lemma join_Cons2: "join_with sep (w # w' # ws) = w @ sep @ join_with sep (w' # ws)"
  by simp

definition reads_back :: "json \<Rightarrow> bool" where
  "reads_back v = (\<forall>n rest. length (dumps v) < n \<longrightarrow> ends rest \<longrightarrow> jvalue n (dumps v @ rest) = Some (v, rest))"

lemma reads_backD: "reads_back v \<Longrightarrow> length (dumps v) < n \<Longrightarrow> ends rest \<Longrightarrow> jvalue n (dumps v @ rest) = Some (v, rest)"
  by (simp add: reads_back_def)

lemma ends_punctuation: "ends (CHR '','' # s)" "ends (CHR '']'' # s)" "ends (CHR ''}'' # s)" "ends []"
  by (simp_all add: ends_def punctuation)

lemma jelems_dumps:
  assumes "xs \<noteq> []" and "\<forall>x\<in>set xs. plain x \<and> reads_back x"
    and "length (join_with '', '' (map dumps xs)) + 1 < n"
  shows "jelems n (join_with '', '' (map dumps xs) @ CHR '']'' # rest) = Some (xs, rest)"
  using assms
proof (induction xs arbitrary: n)
  case (Cons x xs)
  then obtain m where n: "n = Suc m" by (cases n) auto
  show ?case
  proof (cases xs)
    case Nil
    have "jvalue m (dumps x @ CHR '']'' # rest) = Some (x, CHR '']'' # rest)"
      by (rule reads_backD) (use Cons.prems Nil n in \<open>simp_all add: ends_punctuation\<close>)
    then show ?thesis using Nil by (simp add: n skip_ws_space punctuation)
  next
    case (Cons y ys)
    let ?t = "join_with '', '' (map dumps xs) @ CHR '']'' # rest"
    have "jvalue m (dumps x @ CHR '','' # CHR '' '' # ?t) = Some (x, CHR '','' # CHR '' '' # ?t)"
      by (rule reads_backD) (use Cons.prems Cons n in \<open>simp_all add: ends_punctuation\<close>)
    moreover have "jelems m ?t = Some (xs, rest)"
      by (rule Cons.IH) (use Cons.prems Cons n in simp_all)
    moreover have "skip_ws ?t = ?t"
    proof -
      have "starter (dumps y)" using Cons.prems Cons by (simp add: starter_dumps)
      moreover obtain z where "?t = dumps y @ z" using Cons by (cases ys) auto
      ultimately show ?thesis by simp
    qed
    ultimately show ?thesis using Cons by (simp add: n skip_ws_space punctuation)
  qed
qed simp

abbreviation dumps_member :: "string \<times> json \<Rightarrow> string" where
  "dumps_member \<equiv> \<lambda>(k, v). quoted k @ '': '' @ dumps v"

lemma length_quoted: "length s + 2 \<le> length (quoted s)"
  using length_concat_esc [of s] by (simp add: quoted_def)

lemma jmembers_dumps:
  assumes "d \<noteq> []" and "\<forall>(k, v)\<in>set d. plain v \<and> reads_back v"
    and "length (join_with '', '' (map dumps_member d)) + 1 < n"
  shows "jmembers n (join_with '', '' (map dumps_member d) @ CHR ''}'' # rest) = Some (d, rest)"
  using assms
proof (induction d arbitrary: n)
  case (Cons p d)
  then obtain m where n: "n = Suc m" by (cases n) auto
  obtain k v where p: "p = (k, v)" by fastforce
  have pl: "plain v" and rb: "reads_back v" using Cons.prems(2) by (simp_all add: p)
  have key: "str_body (length (quoted k @ s)) (concat (map esc_char k) @ CHR 0x22 # s) = Some (k, s)" for s
    using length_quoted [of k] by (intro str_body_quoted) simp
  have ws: "skip_ws (dumps v @ s) = dumps v @ s" for s using pl by (simp add: starter_dumps)
  show ?case
  proof (cases d)
    case Nil
    have "jvalue m (dumps v @ CHR ''}'' # rest) = Some (v, CHR ''}'' # rest)"
      by (rule reads_backD [OF rb]) (use Cons.prems Nil n p in \<open>simp_all add: ends_punctuation\<close>)
    then show ?thesis using Nil ws [of "CHR ''}'' # rest"] key [of "'': '' @ dumps v @ CHR ''}'' # rest"]
      by (simp add: n p skip_ws_space punctuation quoted_def)
  next
    case (Cons y ys)
    let ?t = "join_with '', '' (map dumps_member d) @ CHR ''}'' # rest"
    have "jvalue m (dumps v @ CHR '','' # CHR '' '' # ?t) = Some (v, CHR '','' # CHR '' '' # ?t)"
      by (rule reads_backD [OF rb]) (use Cons.prems Cons n p in \<open>simp_all add: ends_punctuation\<close>)
    moreover have "jmembers m ?t = Some (d, rest)"
      by (rule Cons.IH) (use Cons.prems Cons n p in simp_all)
    moreover have "skip_ws ?t = ?t"
    proof -
      obtain z where "?t = quoted (fst y) @ z" using Cons by (cases ys; cases y) auto
      then show ?thesis by (simp add: starter_quoted)
    qed
    ultimately show ?thesis
      using Cons ws [of "CHR '','' # CHR '' '' # ?t"] key [of "'': '' @ dumps v @ CHR '','' # CHR '' '' # ?t"]
      by (simp add: n p skip_ws_space punctuation quoted_def)
  qed
qed simp

lemma dict_put_new: "dict_get d k = None \<Longrightarrow> dict_put k v d = d @ [(k, v)]"
  by (induction d) (auto split: if_splits)

lemma dict_update_append: "distinct (map fst (a @ b)) \<Longrightarrow> dict_update a b = a @ b"
proof (induction b arbitrary: a)
  case (Cons p b)
  obtain k v where p: "p = (k, v)" by fastforce
  have "dict_put k v a = a @ [(k, v)]"
    using Cons.prems by (intro dict_put_new) (auto simp: p dict_get_def map_of_eq_None_iff)
  then show ?case using Cons.IH [of "a @ [(k, v)]"] Cons.prems by (simp add: p dict_update_def)
qed simp

lemma dict_update_Nil_distinct: "distinct (map fst d) \<Longrightarrow> dict_update [] d = d"
  using dict_update_append [of "[]" d] by simp

lemma reads_back_literal: "plain v \<Longrightarrow> v = JNull \<or> v = JBool b \<Longrightarrow> reads_back v"
  unfolding reads_back_def
proof (intro allI impI)
  fix n rest assume a: "plain v" "v = JNull \<or> v = JBool b" "length (dumps v) < n" "ends rest"
  then obtain m where n: "n = Suc m" by (cases n) auto
  have "chr_code (CHR ''n'') = 110" "chr_code (CHR ''t'') = 116" "chr_code (CHR ''f'') = 102" by (simp_all add: chr_code_def)
  then show "jvalue n (dumps v @ rest) = Some (v, rest)" using a(2) by (cases b) (auto simp: n)
qed

lemma reads_back_list:
  assumes "\<And>x. x \<in> set xs \<Longrightarrow> plain x \<and> reads_back x"
  shows "reads_back (JList xs)"
  unfolding reads_back_def
proof (intro allI impI)
  fix n rest assume a: "length (dumps (JList xs)) < n" "ends rest"
  then obtain m where n: "n = Suc m" by (cases n) auto
  show "jvalue n (dumps (JList xs) @ rest) = Some (JList xs, rest)"
  proof (cases xs)
    case Nil
    then show ?thesis by (simp add: n punctuation skip_ws_space)
  next
    case (Cons y ys)
    let ?t = "join_with '', '' (map dumps xs) @ CHR '']'' # rest"
    have e: "jelems m ?t = Some (xs, rest)"
      by (rule jelems_dumps) (use assms Cons a n in auto)
    obtain z where z: "?t = dumps y @ z" using Cons by (cases ys) auto
    have s: "starter (dumps y)" using assms [of y] Cons by (simp add: starter_dumps)
    then obtain c cs where c: "dumps y = c # cs" by (cases "dumps y") (auto simp: starter_def)
    have "skip_ws ?t = c # cs @ z" "chr_code c \<noteq> 93" using z s c by (auto simp: starter_def skip_ws_def)
    then show ?thesis using e z c by (simp add: n punctuation)
  qed
qed

lemma reads_back_object:
  assumes "distinct (map fst d)" and "\<And>k x. (k, x) \<in> set d \<Longrightarrow> plain x \<and> reads_back x"
  shows "reads_back (JObj d)"
  unfolding reads_back_def
proof (intro allI impI)
  fix n rest assume a: "length (dumps (JObj d)) < n" "ends rest"
  then obtain m where n: "n = Suc m" by (cases n) auto
  show "jvalue n (dumps (JObj d) @ rest) = Some (JObj d, rest)"
  proof (cases d)
    case Nil
    then show ?thesis by (simp add: n punctuation skip_ws_space)
  next
    case (Cons y ys)
    let ?t = "join_with '', '' (map dumps_member d) @ CHR ''}'' # rest"
    have e: "jmembers m ?t = Some (d, rest)"
      by (rule jmembers_dumps) (use assms(2) Cons a n in auto)
    obtain z where z: "?t = quoted (fst y) @ z" using Cons by (cases ys; cases y) auto
    then obtain cs where "?t = CHR 0x22 # cs" by (simp add: quoted_def)
    moreover from this have "skip_ws ?t = ?t" by (simp add: skip_ws_def json_ws_def punctuation)
    ultimately show ?thesis using e by (simp add: n punctuation dict_update_Nil_distinct [OF assms(1)])
  qed
qed

lemma reads_back_plain: "plain v \<Longrightarrow> reads_back v"
proof (induction v)
  case (JInt i)
  show ?case unfolding reads_back_def
  proof (intro allI impI)
    fix n rest assume "length (dumps (JInt i)) < n" "ends rest"
    then show "jvalue n (dumps (JInt i) @ rest) = Some (JInt i, rest)" by (cases n) (simp_all add: jvalue_number del: jvalue.simps(2))
  qed
next
  case (JStr s)
  show ?case unfolding reads_back_def
  proof (intro allI impI)
    fix n rest assume "length (dumps (JStr s)) < n" "ends rest"
    then show "jvalue n (dumps (JStr s) @ rest) = Some (JStr s, rest)" by (cases n) (simp_all add: jvalue_string del: jvalue.simps(2))
  qed
next
  case (JList xs)
  then show ?case by (intro reads_back_list) (auto simp: list_all_iff)
next
  case (JObj d)
  then show ?case by (intro reads_back_object) (fastforce simp: list_all_iff)+
qed (simp_all add: reads_back_literal)

theorem loads_dumps: "plain v \<Longrightarrow> loads (dumps v) = Some v"
proof -
  assume v: "plain v"
  have "jvalue (2 * length (dumps v) + 2) (dumps v @ []) = Some (v, [])"
    by (rule reads_backD [OF reads_back_plain [OF v]]) (simp_all add: ends_punctuation)
  moreover have "skip_ws (dumps v) = dumps v" using skip_ws_starter [OF starter_dumps [OF v], of "[]"] by simp
  ultimately show ?thesis by (simp add: loads_def skip_ws_def)
qed

section \<open>One value per line\<close>

text \<open>
  \<open>json.dumps\<close> escapes every separator \<open>str.splitlines()\<close> knows but U+0085 (and, above U+00FF, two
  more): a value is on one line when its texts are free of it.
\<close>

definition nel_free :: "string \<Rightarrow> bool" where
  "nel_free s = (CHR 0x85 \<notin> set s)"

fun one_line :: "json \<Rightarrow> bool" where
  "one_line (JStr s) = nel_free s"
| "one_line (JList xs) = list_all one_line xs"
| "one_line (JObj d) = list_all (\<lambda>(k, v). nel_free k \<and> one_line v) d"
| "one_line _ = True"

definition unbroken :: "string \<Rightarrow> bool" where
  "unbroken s = (\<forall>c\<in>set s. \<not> line_break c)"

lemma unbroken_simps [simp]:
  "unbroken []" "unbroken (c # s) \<longleftrightarrow> \<not> line_break c \<and> unbroken s" "unbroken (s @ s') \<longleftrightarrow> unbroken s \<and> unbroken s'"
  by (auto simp: unbroken_def)

lemma unbroken_join: "unbroken sep \<Longrightarrow> \<forall>w\<in>set ws. unbroken w \<Longrightarrow> unbroken (join_with sep ws)"
  by (induction sep ws rule: join_with.induct) auto

lemma unbroken_hex: "d < 16 \<Longrightarrow> \<not> line_break (hex_digit d)"
  by (drule less16_cases) (auto simp: upt_conv_Cons hex_digit_def line_break_def chr_code_def)

lemma unbroken_esc: "c \<noteq> CHR 0x85 \<Longrightarrow> unbroken (esc_char c)"
proof -
  assume "c \<noteq> CHR 0x85"
  moreover have "chr_code (CHR 0x85) = 133" by (simp add: chr_code_def)
  ultimately have "chr_code c \<noteq> 133" using chr_code_inj [of c "CHR 0x85"] by auto
  moreover have "\<not> line_break (CHR 0x5C)" "\<not> line_break (CHR ''n'')" "\<not> line_break (CHR ''r'')" "\<not> line_break (CHR ''t'')"
    "\<not> line_break (CHR ''b'')" "\<not> line_break (CHR ''f'')" "\<not> line_break (CHR ''u'')" "\<not> line_break (CHR ''0'')"
    by (simp_all add: line_break_def chr_code_def)
  ultimately show ?thesis by (auto simp: esc_char_def Let_def unbroken_hex) (auto simp: line_break_def)
qed

lemma unbroken_quoted: "nel_free s \<Longrightarrow> unbroken (quoted s)"
proof -
  assume "nel_free s"
  then have "unbroken (concat (map esc_char s))" by (induction s) (auto simp: nel_free_def unbroken_esc)
  then show ?thesis by (simp add: quoted_def) (simp add: line_break_def chr_code_def)
qed

lemma unbroken_dec_int: "unbroken (dec_int i)"
proof -
  have "\<not> line_break c" if "is_digit c" for c using that by (auto simp: line_break_def is_digit_def)
  then have "unbroken (dec n)" for n using dec_digits [of _ n] by (simp add: unbroken_def)
  then show ?thesis by (simp add: dec_int_def) (simp add: line_break_def chr_code_def)
qed

lemma dumps_unbroken: "plain v \<Longrightarrow> one_line v \<Longrightarrow> unbroken (dumps v)"
proof (induction v)
  case (JList xs)
  then have "unbroken (join_with '', '' (map dumps xs))"
    by (intro unbroken_join) (auto simp: list_all_iff line_break_def chr_code_def)
  then show ?case by (simp add: line_break_def chr_code_def)
next
  case (JObj d)
  have "unbroken (quoted k @ '': '' @ dumps v)" if "(k, v) \<in> set d" for k v
    using JObj that by (fastforce simp: list_all_iff unbroken_quoted line_break_def chr_code_def)
  then have "unbroken (join_with '', '' (map dumps_member d))"
    by (intro unbroken_join) (auto simp: line_break_def chr_code_def)
  then show ?case by (simp add: line_break_def chr_code_def)
qed (auto simp: unbroken_quoted unbroken_dec_int line_break_def chr_code_def)

lemma text_lines_from_line:
  "unbroken l \<Longrightarrow> text_lines_from (l @ CHR 0x0A # rest) acc False = (acc @ l) # text_lines_from rest [] False"
  by (induction l arbitrary: acc) (simp_all add: line_break_def chr_code_def)

lemma text_lines_concat: "\<forall>l\<in>set ls. unbroken l \<Longrightarrow> text_lines (concat (map (\<lambda>l. l @ [CHR 0x0A]) ls)) = ls"
  unfolding text_lines_def by (induction ls) (simp_all add: text_lines_from_line)

lemma strip_object: "strip (dumps (JObj d)) = dumps (JObj d)"
  by (rule strip_id) (simp_all add: is_space_def chr_code_def)

end
