(* ===== verification/Rulesync.thy ===== *)
theory Rulesync
  imports Jsontext
begin

text \<open>
  Signed rule bundles on the edge: \<open>policy/feed_signing.py\<close>, \<open>policy/ids_rule_sync.py\<close> and the
  acknowledgements of \<open>policy/policy_ack.py\<close>. SHA-256, HMAC and base64 are arguments, as are the
  HTTP answer of the control plane and what the reload and health commands return for the rules
  file they find. The rules files, their backups, the status file and the acknowledgements sent
  are the state. Building the request (URL, headers other than If-None-Match) is not modelled.
  In the program pulls come from two threads without a lock, the MQTT callback
  (\<open>policy/ids_rule_mqtt_subscriber.py\<close>) and the main loop; here a pull is one step, so that
  pulls follow one another and never overlap.
\<close>

section \<open>Signatures\<close>

record crypto =
  cr_sha256 :: "bytes \<Rightarrow> bytes"
  cr_hmac :: "bytes \<Rightarrow> bytes \<Rightarrow> bytes"
  cr_b64 :: "bytes \<Rightarrow> string"

text \<open>\<open>s.encode("utf-8")\<close> for characters below U+0100.\<close>

definition utf8_char :: "char \<Rightarrow> bytes" where
  "utf8_char c = (let n = chr_code c in
     if n < 128 then [of_nat n] else [of_nat (192 + n div 64), of_nat (128 + n mod 64)])"

definition utf8 :: "string \<Rightarrow> bytes" where
  "utf8 s = concat (map utf8_char s)"

definition hex_text :: "bytes \<Rightarrow> string" where
  "hex_text bs = concat (map (\<lambda>b. [hex_digit (unat b div 16), hex_digit (unat b mod 16)]) bs)"

definition DEV_FALLBACK_SECRET :: string where
  "DEV_FALLBACK_SECRET = ''sensel-ot-feed-dev-secret''"

definition derive_feed_key :: "crypto \<Rightarrow> string \<Rightarrow> string \<Rightarrow> bytes" where
  "derive_feed_key cr tenant base_secret =
     cr_sha256 cr (utf8 ((if base_secret = [] then DEV_FALLBACK_SECRET else base_secret) @ '':'' @ tenant @ '':ot-feed''))"

definition sha256_hex :: "crypto \<Rightarrow> bytes \<Rightarrow> string" where
  "sha256_hex cr body = hex_text (cr_sha256 cr body)"

definition sign_artifact :: "crypto \<Rightarrow> string \<Rightarrow> string \<Rightarrow> bytes \<Rightarrow> string" where
  "sign_artifact cr tenant base_secret body = cr_b64 cr (cr_hmac cr (derive_feed_key cr tenant base_secret) body)"

text \<open>\<open>hmac.compare_digest\<close> takes only ASCII texts.\<close>

definition ascii :: "string \<Rightarrow> bool" where
  "ascii s = list_all (\<lambda>c. chr_code c < 128) s"

definition verify_artifact :: "crypto \<Rightarrow> string \<Rightarrow> string \<Rightarrow> bytes \<Rightarrow> string \<Rightarrow> bool res" where
  "verify_artifact cr tenant base_secret body signature =
     (if signature = [] then Inr False
      else let expected = sign_artifact cr tenant base_secret body in
        if \<not> ascii expected \<or> \<not> ascii signature then Inl TypeError else Inr (expected = signature))"

section \<open>Versions\<close>

datatype version_part = VInt int | VStr string

text \<open>\<open>str.isdigit()\<close> also holds of the superscript digits.\<close>

definition py_isdigit :: "char \<Rightarrow> bool" where
  "py_isdigit c = (is_digit c \<or> chr_code c \<in> {178, 179, 185})"

definition part_of :: "string \<Rightarrow> version_part" where
  "part_of p = (case parse_int p of Inr n \<Rightarrow> VInt n | Inl _ \<Rightarrow> VStr p)"

definition version_sort_key :: "string \<Rightarrow> version_part list" where
  "version_sort_key version =
     (let v = strip version in
      if v = [] then [VInt 0]
      else let v = (if lower (take 1 v) = ''v'' \<and> 1 < length v \<and> py_isdigit (v ! 1) then drop 1 v else v) in
        map part_of (split_on (CHR ''.'') v))"

text \<open>\<open><\<close> of tuples: the first difference decides; an int and a str have no order.\<close>

fun key_less :: "version_part list \<Rightarrow> version_part list \<Rightarrow> bool res" where
  "key_less [] ys = Inr (ys \<noteq> [])"
| "key_less (x # xs) [] = Inr False"
| "key_less (x # xs) (y # ys) =
     (if x = y then key_less xs ys
      else case (x, y) of (VInt a, VInt b) \<Rightarrow> Inr (a < b) | (VStr a, VStr b) \<Rightarrow> Inr (a < b) | _ \<Rightarrow> Inl TypeError)"

section \<open>State\<close>

record ids_rule_result =
  ir_rule_ok :: bool
  ir_changed :: bool
  ir_engine :: string
  ir_code :: int
  ir_version :: string
  ir_rule_count :: int
  ir_rolled_back :: bool
  ir_tenant :: string
  ir_rule_error :: "string option"

record rule_config =
  rc_enabled :: bool
  rc_engines :: "string list"
  rc_feed_tenant :: string
  rc_tenant :: string
  rc_require_tenant :: bool
  rc_secret :: string
  rc_reload_cmd :: string
  rc_health_cmd :: string
  rc_timeout :: int

record rule_state =
  ru_files :: "string \<Rightarrow> string option"
  ru_backups :: "string \<Rightarrow> string option"
  ru_status :: jfile
  ru_acks :: "json list"

text \<open>
  How a command ends. \<open>CmdRaises\<close> are the exceptions \<open>_run_cmd\<close> does not catch: \<open>cmd.format\<close> raises
  KeyError, IndexError or ValueError for a brace that is not one of its two fields, and with \<open>text=True\<close> an
  output that is not UTF-8 raises UnicodeDecodeError.
\<close>

datatype cmd_outcome = CmdTimeout | CmdOsError string | CmdExit int string string | CmdRaises py_error

datatype feed_reply = FeedError string
  | FeedReply (fr_code: int) (fr_text: string) (fr_body: bytes) (fr_signature: string) (fr_version: string) (fr_etag: string)

record rule_world =
  rw_now :: string
  rw_crypto :: crypto
  rw_feed :: "string \<Rightarrow> string option \<Rightarrow> feed_reply"
  rw_decode :: "bytes \<Rightarrow> string"
  rw_run :: "string \<Rightarrow> string \<Rightarrow> string option \<Rightarrow> cmd_outcome"

definition SUPPORTED_ENGINES :: "string list" where
  "SUPPORTED_ENGINES = [''suricata'', ''snort'']"

definition HEALTHCHECK_REQUIRED :: string where
  "HEALTHCHECK_REQUIRED =
     ''IDS_RULE_HEALTHCHECK_CMD is required when ids_rule_enabled (e.g. suricata -T -S {path})''"

definition sync_engines :: "string list \<Rightarrow> string list" where
  "sync_engines es = (let ok = filter (\<lambda>e. e \<in> set SUPPORTED_ENGINES) (map (\<lambda>e. lower (strip e)) es) in
     if ok = [] then [''suricata''] else ok)"

definition count_rules :: "string \<Rightarrow> int" where
  "count_rules text = int (length (filter (\<lambda>l. let s = strip l in s \<noteq> [] \<and> hd s \<noteq> CHR ''#'') (text_lines text)))"

definition rule_result :: "bool \<Rightarrow> bool \<Rightarrow> string \<Rightarrow> int \<Rightarrow> string \<Rightarrow> string \<Rightarrow> string option \<Rightarrow> ids_rule_result" where
  "rule_result ok changed engine code tenant version e = \<lparr>ir_rule_ok = ok, ir_changed = changed, ir_engine = engine,
     ir_code = code, ir_version = version, ir_rule_count = 0, ir_rolled_back = False, ir_tenant = tenant, ir_rule_error = e\<rparr>"

definition json_opt :: "string option \<Rightarrow> json" where
  "json_opt x = (case x of None \<Rightarrow> JNull | Some s \<Rightarrow> JStr s)"

definition ids_rule_ack_payload :: "ids_rule_result \<Rightarrow> json" where
  "ids_rule_ack_payload r =
     (let (status, outcome) = (if ir_rule_ok r \<and> ir_changed r then (''ack'', ''applied'')
          else if ir_rolled_back r then (''nack'', ''rolled_back'') else (''nack'', ''rejected'')) in
      JObj [(''schema_version'', JStr ''ot_policy_ack.v1''), (''artifact_type'', JStr ''ids_rule''),
        (''engine'', JStr (ir_engine r)), (''status'', JStr status), (''outcome'', JStr outcome),
        (''version'', JStr (ir_version r)), (''rule_count'', JInt (ir_rule_count r)),
        (''rolled_back'', JBool (ir_rolled_back r)), (''tenant_id'', JStr (ir_tenant r)),
        (''error'', json_opt (ir_rule_error r))])"

definition emit_ack :: "ids_rule_result \<Rightarrow> rule_state \<Rightarrow> ids_rule_result res \<times> rule_state" where
  "emit_ack r s = (Inr r, s\<lparr>ru_acks := ru_acks s @ [ids_rule_ack_payload r]\<rparr>)"

definition resolve_feed_tenant :: "rule_config \<Rightarrow> string option" where
  "resolve_feed_tenant cfg =
     (let override = strip (rc_feed_tenant cfg); tenant = strip (rc_tenant cfg) in
      if override \<noteq> [] then Some override
      else if tenant \<noteq> [] \<and> tenant \<noteq> ''default'' then Some tenant
      else if rc_require_tenant cfg then None
      else if tenant = [] then None else Some tenant)"

text \<open>The status file: one entry per engine.\<close>

definition write_status :: "rule_world \<Rightarrow> string \<Rightarrow> json \<Rightarrow> rule_state \<Rightarrow> rule_state" where
  "write_status w engine entry s =
     (let status = read_object (ru_status s); engines = obj_items (obj_or_empty (jget status ''engines''));
          status = dict_put ''engines'' (JObj (dict_put engine entry engines)) (obj_items status) in
      s\<lparr>ru_status := Doc (JObj (dict_put ''updated_at'' (JStr (rw_now w)) status))\<rparr>)"

text \<open>\<open>status.get("engines", {}).get(engine) or {}\<close>, whose \<open>get\<close> is called next.\<close>

definition current_entry :: "string \<Rightarrow> rule_state \<Rightarrow> json res" where
  "current_entry engine s =
     bind_res (jget_res (jget_default (read_object (ru_status s)) ''engines'' (JObj [])) engine) (\<lambda>v.
       let e = py_or v (JObj []) in if is_obj e then Inr e else Inl AttributeError)"

definition current_version :: "string \<Rightarrow> rule_state \<Rightarrow> string res" where
  "current_version engine s = bind_res (current_entry engine s) (\<lambda>e. Inr (str_or_empty (jget e ''version'')))"

definition current_etag :: "string \<Rightarrow> rule_state \<Rightarrow> string res" where
  "current_etag engine s = bind_res (current_entry engine s) (\<lambda>e. Inr (str_or_empty (jget e ''etag'')))"

text \<open>A command sees the rules file of its engine; an empty one succeeds unless it is required.\<close>

definition run_cmd :: "rule_config \<Rightarrow> rule_world \<Rightarrow> string \<Rightarrow> bool \<Rightarrow> string \<Rightarrow> string option \<Rightarrow>
    (bool \<times> string) res" where
  "run_cmd cfg w cmd required engine file =
     (if cmd = [] then Inr (if required then (False, HEALTHCHECK_REQUIRED) else (True, []))
      else case rw_run w cmd engine file of
        CmdTimeout \<Rightarrow> Inr (False, ''timeout after '' @ dec_int (rc_timeout cfg) @ ''s'')
      | CmdOsError e \<Rightarrow> Inr (False, e)
      | CmdRaises e \<Rightarrow> Inl e
      | CmdExit code err out \<Rightarrow>
          if code \<noteq> 0 then (let detail = take 300 (strip (if err \<noteq> [] then err else out)) in
              Inr (False, if detail = [] then ''exit '' @ dec_int code else detail))
          else Inr (True, []))"

section \<open>Applying a bundle\<close>

definition entry_int :: "json \<Rightarrow> string \<Rightarrow> int res" where
  "entry_int e k = py_int (py_or (jget e k) (JInt 0))"

definition text_or_empty :: "json \<Rightarrow> json" where
  "text_or_empty v = py_or v (JStr [])"

definition with_newline :: "string \<Rightarrow> string" where
  "with_newline content = (if content \<noteq> [] \<and> last content = CHR 0x0A then content else content @ [CHR 0x0A])"

definition reject_stale :: "rule_world \<Rightarrow> string \<Rightarrow> string \<Rightarrow> int \<Rightarrow> string \<Rightarrow> json \<Rightarrow> rule_state \<Rightarrow>
    ids_rule_result res \<times> rule_state" where
  "reject_stale w engine tenant code version current s =
     (let active = str_or_empty (jget current ''version'');
          msg = take 300 (''stale version rejected: '' @ version @ '' < active '' @ active) in
      case entry_int current ''rule_count'' of Inl e \<Rightarrow> (Inl e, s)
      | Inr n \<Rightarrow>
         let entry = JObj [(''engine'', JStr engine), (''tenant_id'', JStr tenant), (''version'', JStr active),
               (''etag'', text_or_empty (jget current ''etag'')), (''rule_count'', JInt n),
               (''ok'', JBool (truthy (jget current ''ok''))), (''rolled_back'', JBool False),
               (''applied_at'', JStr (rw_now w)), (''error'', JStr msg), (''rejected_version'', JStr version)] in
         emit_ack (rule_result False False engine code tenant version (Some msg)) (write_status w engine entry s))"

text \<open>Writing the new file, the two commands, and the way back when one of them fails.\<close>

definition place_rules :: "string \<Rightarrow> string \<Rightarrow> rule_state \<Rightarrow> rule_state" where
  "place_rules content engine s =
     (let s = (case ru_files s engine of None \<Rightarrow> s | Some old \<Rightarrow> s\<lparr>ru_backups := (ru_backups s)(engine := Some old)\<rparr>) in
      s\<lparr>ru_files := (ru_files s)(engine := Some (with_newline content))\<rparr>)"

text \<open>The failure of the first command that fails, None when both succeed; either of them may raise.\<close>

definition check_rules :: "rule_config \<Rightarrow> rule_world \<Rightarrow> string \<Rightarrow> string option \<Rightarrow> string option res" where
  "check_rules cfg w engine rules =
     bind_res (run_cmd cfg w (rc_reload_cmd cfg) False engine rules) (\<lambda>(ok, e).
       if \<not> ok then Inr (Some (''reload failed: '' @ e))
       else bind_res (run_cmd cfg w (rc_health_cmd cfg) True engine rules) (\<lambda>(ok, e).
         Inr (if ok then None else Some (''healthcheck failed: '' @ e))))"

text \<open>
  The way back: the backup is copied over the new file and the reload command runs once more, its answer
  ignored but not what it raises. Without a previous file the new one is removed.
\<close>

definition restore_rules :: "rule_config \<Rightarrow> rule_world \<Rightarrow> string \<Rightarrow> bool \<Rightarrow> rule_state \<Rightarrow> bool res \<times> rule_state" where
  "restore_rules cfg w engine had_previous s =
     (if had_previous \<and> ru_backups s engine \<noteq> None
      then (let s = s\<lparr>ru_files := (ru_files s)(engine := ru_backups s engine)\<rparr> in
        (bind_res (run_cmd cfg w (rc_reload_cmd cfg) False engine (ru_files s engine)) (\<lambda>_. Inr True), s))
      else (Inr False, s\<lparr>ru_files := (ru_files s)(engine := None)\<rparr>))"

definition applied_entry :: "rule_world \<Rightarrow> string \<Rightarrow> string \<Rightarrow> string \<Rightarrow> string \<Rightarrow> int \<Rightarrow> json" where
  "applied_entry w engine tenant version etag n =
     JObj [(''engine'', JStr engine), (''tenant_id'', JStr tenant), (''version'', JStr version),
       (''etag'', JStr etag), (''rule_count'', JInt n), (''ok'', JBool True),
       (''rolled_back'', JBool False), (''applied_at'', JStr (rw_now w)), (''error'', JNull)]"

definition failed_entry :: "rule_world \<Rightarrow> string \<Rightarrow> string \<Rightarrow> string \<Rightarrow> bool \<Rightarrow> string \<Rightarrow> int \<Rightarrow> json \<Rightarrow> json" where
  "failed_entry w engine tenant version rolled_back failure n current =
     JObj [(''engine'', JStr engine), (''tenant_id'', JStr tenant),
       (''version'', text_or_empty (jget current ''version'')), (''etag'', text_or_empty (jget current ''etag'')),
       (''rule_count'', JInt n), (''ok'', JBool False), (''rolled_back'', JBool rolled_back),
       (''applied_at'', JStr (rw_now w)), (''error'', JStr failure), (''rejected_version'', JStr version)]"

definition install_rules :: "rule_config \<Rightarrow> rule_world \<Rightarrow> string \<Rightarrow> string \<Rightarrow> string \<Rightarrow> string \<Rightarrow> string \<Rightarrow> int \<Rightarrow> json \<Rightarrow>
    rule_state \<Rightarrow> ids_rule_result res \<times> rule_state" where
  "install_rules cfg w content engine tenant version etag code current s =
     (let had_previous = (ru_files s engine \<noteq> None); s = place_rules content engine s in
      case check_rules cfg w engine (ru_files s engine) of
        Inl e \<Rightarrow> (Inl e, s)
      | Inr None \<Rightarrow> (let n = count_rules content in
          emit_ack ((rule_result True True engine code tenant version None)\<lparr>ir_rule_count := n\<rparr>)
            (write_status w engine (applied_entry w engine tenant version etag n) s))
      | Inr (Some failure) \<Rightarrow> (case restore_rules cfg w engine had_previous s of
           (Inl e, s) \<Rightarrow> (Inl e, s)
         | (Inr rolled_back, s) \<Rightarrow>
         (case entry_int current ''rule_count'' of Inl e \<Rightarrow> (Inl e, s)
          | Inr n \<Rightarrow> (let failure = take 300 failure in
             emit_ack ((rule_result False False engine code tenant version (Some failure))\<lparr>ir_rolled_back := rolled_back\<rparr>)
               (write_status w engine (failed_entry w engine tenant version rolled_back failure n current) s)))))"

definition apply_rules :: "rule_config \<Rightarrow> rule_world \<Rightarrow> string \<Rightarrow> string \<Rightarrow> string \<Rightarrow> string \<Rightarrow> string \<Rightarrow> int \<Rightarrow>
    rule_state \<Rightarrow> ids_rule_result res \<times> rule_state" where
  "apply_rules cfg w content engine0 tenant version0 etag0 code s =
     (let engine = lower (strip engine0);
          etag = (if etag0 = [] then sha256_hex (rw_crypto w) (utf8 content) else etag0);
          version = (if version0 = [] then take 12 etag else version0) in
      case current_entry engine s of Inl e \<Rightarrow> (Inl e, s)
      | Inr current \<Rightarrow>
        let active = str_or_empty (jget current ''version'') in
        if str_or_empty (jget current ''etag'') = etag \<and> active = version \<and> truthy (jget current ''ok'')
        then (bind_res (entry_int current ''rule_count'') (\<lambda>n.
                Inr ((rule_result True False engine code tenant version None)\<lparr>ir_rule_count := n\<rparr>)), s)
        else if rc_enabled cfg \<and> rc_health_cmd cfg = []
        then emit_ack (rule_result False False engine code tenant version (Some HEALTHCHECK_REQUIRED)) s
        else (case (if active = [] then Inr False else key_less (version_sort_key version) (version_sort_key active)) of
            Inl e \<Rightarrow> (Inl e, s)
          | Inr True \<Rightarrow> reject_stale w engine tenant code version current s
          | Inr False \<Rightarrow> install_rules cfg w content engine tenant version etag code current s))"

section \<open>Pulling the feed\<close>

definition unquoted :: "string \<Rightarrow> string" where
  "unquoted s = (let t = strip s in rev (dropWhile (\<lambda>c. c = CHR 0x22) (rev (dropWhile (\<lambda>c. c = CHR 0x22) t))))"

definition pull_rules :: "rule_config \<Rightarrow> rule_world \<Rightarrow> bool \<Rightarrow> string \<Rightarrow> rule_state \<Rightarrow> ids_rule_result res \<times> rule_state" where
  "pull_rules cfg w force engine0 s =
     (let engine = lower (strip engine0) in
      if \<not> rc_enabled cfg then (Inr (rule_result True False engine 0 [] [] (Some ''ids_rule_disabled'')), s)
      else if engine \<notin> set SUPPORTED_ENGINES
      then (Inr (rule_result False False engine 0 [] [] (Some (''unsupported engine: '' @ engine))), s)
      else case resolve_feed_tenant cfg of
        None \<Rightarrow> (Inr (rule_result False False engine 0 [] []
                 (Some ''tenant_id unresolved (set POLICY_SYNC_TENANT_ID or register sensor)'')), s)
      | Some tenant \<Rightarrow> (case current_etag engine s of Inl e \<Rightarrow> (Inl e, s)
        | Inr etag \<Rightarrow> (case rw_feed w engine (if etag \<noteq> [] \<and> \<not> force then Some etag else None) of
            FeedError e \<Rightarrow> (Inr (rule_result False False engine 0 tenant [] (Some e)), s)
          | FeedReply code text body sig ver et \<Rightarrow>
             if code = 304 then (bind_res (current_version engine s) (\<lambda>v. Inr (rule_result True False engine 304 tenant v None)), s)
             else if code = 404 then (Inr (rule_result True False engine 404 tenant [] (Some ''no active rule bundle'')), s)
             else if 400 \<le> code then (Inr (rule_result False False engine code tenant []
                    (Some (if take 300 text = [] then ''HTTP '' @ dec_int code else take 300 text))), s)
             else (case verify_artifact (rw_crypto w) tenant (rc_secret cfg) body sig of
                 Inl e \<Rightarrow> (Inl e, s)
               | Inr False \<Rightarrow> emit_ack (rule_result False False engine code tenant [] (Some ''signature verification failed'')) s
               | Inr True \<Rightarrow> apply_rules cfg w (rw_decode w body) engine tenant (strip ver)
                    (if unquoted et = [] then sha256_hex (rw_crypto w) body else unquoted et) code s))))"

fun sync_all :: "rule_config \<Rightarrow> rule_world \<Rightarrow> bool \<Rightarrow> string list \<Rightarrow> rule_state \<Rightarrow> ids_rule_result list res \<times> rule_state" where
  "sync_all cfg w force [] s = (Inr [], s)"
| "sync_all cfg w force (e # es) s = (case pull_rules cfg w force e s of (Inl x, s) \<Rightarrow> (Inl x, s)
     | (Inr r, s) \<Rightarrow> (case sync_all cfg w force es s of (Inl x, s) \<Rightarrow> (Inl x, s) | (Inr rs, s) \<Rightarrow> (Inr (r # rs), s)))"

section \<open>What a call leaves behind\<close>

definition succeeds :: "(bool \<times> string) res \<Rightarrow> bool" where
  "succeeds r = gives fst r"

text \<open>Both commands succeed on the rules; the first of them that does not raises.\<close>

definition passes :: "rule_config \<Rightarrow> rule_world \<Rightarrow> string \<Rightarrow> string \<Rightarrow> bool" where
  "passes cfg w engine rules = (succeeds (run_cmd cfg w (rc_reload_cmd cfg) False engine (Some rules)) \<and>
     succeeds (run_cmd cfg w (rc_health_cmd cfg) True engine (Some rules)))"

definition command_raises :: "rule_config \<Rightarrow> rule_world \<Rightarrow> string \<Rightarrow> string \<Rightarrow> bool" where
  "command_raises cfg w engine rules = (isl (run_cmd cfg w (rc_reload_cmd cfg) False engine (Some rules)) \<or>
     succeeds (run_cmd cfg w (rc_reload_cmd cfg) False engine (Some rules)) \<and>
     isl (run_cmd cfg w (rc_health_cmd cfg) True engine (Some rules)))"

definition applied :: "ids_rule_result res \<Rightarrow> bool" where
  "applied r = (case r of Inr x \<Rightarrow> ir_rule_ok x \<and> ir_changed x | Inl _ \<Rightarrow> False)"

lemma applied_simps [simp]: "\<not> applied (Inl e)" "applied (Inr x) \<longleftrightarrow> ir_rule_ok x \<and> ir_changed x"
  by (simp_all add: applied_def)

lemma rule_result_simps [simp]:
  "ir_rule_ok (rule_result a b c d e f g) = a" "ir_changed (rule_result a b c d e f g) = b"
  "ir_version (rule_result a b c d e f g) = f" "ir_engine (rule_result a b c d e f g) = c"
  by (simp_all add: rule_result_def)

lemma emit_ack_simps [simp]:
  "fst (emit_ack r s) = Inr r" "ru_files (snd (emit_ack r s)) = ru_files s"
  "ru_status (snd (emit_ack r s)) = ru_status s"
  by (simp_all add: emit_ack_def)

lemma write_status_files [simp]: "ru_files (write_status w engine entry s) = ru_files s"
  by (simp add: write_status_def Let_def)

lemma current_entry_status: "ru_status s' = ru_status s \<Longrightarrow> current_entry g s' = current_entry g s"
  by (simp add: current_entry_def)

text \<open>After a write the engine has the entry written and every other one the entry it had.\<close>

lemma current_entry_write:
  assumes "current_entry engine s = Inr c" and "is_obj entry" and "truthy entry"
  shows "current_entry g (write_status w engine entry s) = (if g = engine then Inr entry else current_entry g s)"
proof -
  define status where "status = read_object (ru_status s)"
  obtain d where d: "jget_default status ''engines'' (JObj []) = JObj d"
    using assms(1) by (auto simp: current_entry_def jget_res_def status_def [symmetric] bind_res_eq_Inr is_obj_iff split: if_splits)
  then have o: "obj_items (obj_or_empty (jget status ''engines'')) = d"
    by (cases "dict_get (obj_items status) ''engines''") (auto simp: jget_default_def jget_def obj_or_empty_def)
  define st where "st = ru_status (write_status w engine entry s)"
  have st: "jget_default (read_object st) ''engines'' (JObj []) = JObj (dict_put engine entry d)"
    using o by (simp add: st_def write_status_def Let_def status_def [symmetric] jget_default_def) (simp add: obj_or_empty_def)
  show ?thesis using assms(2,3) d
    by (auto simp: current_entry_def st_def [symmetric] st status_def [symmetric] jget_res_def jget_def py_or_def
        split: option.splits)
qed

lemma current_version_write:
  assumes "current_entry engine s = Inr c" and "is_obj entry" and "truthy entry"
  shows "current_version g (write_status w engine entry s) =
      (if g = engine then Inr (str_or_empty (jget entry ''version'')) else current_version g s)"
    and "current_etag g (write_status w engine entry s) =
      (if g = engine then Inr (str_or_empty (jget entry ''etag'')) else current_etag g s)"
  by (simp_all add: current_version_def current_etag_def current_entry_write [OF assms])

lemma str_text_or_empty [simp]: "str_or_empty (text_or_empty v) = str_or_empty v"
  by (auto simp: text_or_empty_def py_or_def str_or_empty_def)

definition same_versions :: "rule_state \<Rightarrow> rule_state \<Rightarrow> bool" where
  "same_versions s s' = (\<forall>g. current_version g s' = current_version g s \<and> current_etag g s' = current_etag g s)"

lemma same_versions_refl: "ru_status s' = ru_status s \<Longrightarrow> same_versions s s'"
  by (simp add: same_versions_def current_version_def current_etag_def current_entry_status [of s' s])

lemma same_versions_write:
  assumes "current_entry engine s0 = Inr c" and "ru_status s0 = ru_status s" and "is_obj entry" and "truthy entry"
    and "str_or_empty (jget entry ''version'') = str_or_empty (jget c ''version'')"
    and "str_or_empty (jget entry ''etag'') = str_or_empty (jget c ''etag'')"
  shows "same_versions s (write_status w engine entry s0)"
proof -
  have "current_version g s0 = current_version g s" "current_etag g s0 = current_etag g s" for g
    by (simp_all add: current_version_def current_etag_def current_entry_status [OF assms(2)])
  moreover have "current_version engine s0 = Inr (str_or_empty (jget c ''version''))"
    "current_etag engine s0 = Inr (str_or_empty (jget c ''etag''))"
    using assms(1) by (simp_all add: current_version_def current_etag_def)
  ultimately show ?thesis
    using current_version_write [OF assms(1,3,4)] assms(5,6) by (simp add: same_versions_def)
qed

lemma str_or_empty_id: "str_or_empty (JStr (str_or_empty v)) = str_or_empty v"
  by simp

text \<open>The outcomes of the three ways an apply can end.\<close>

definition outcome_ok :: "rule_config \<Rightarrow> rule_world \<Rightarrow> string \<Rightarrow> string \<Rightarrow> rule_state \<Rightarrow> ids_rule_result res \<times> rule_state \<Rightarrow> bool" where
  "outcome_ok cfg w engine file s out = (
     if applied (fst out) then
       passes cfg w engine file \<and> ru_files (snd out) = (ru_files s)(engine \<mapsto> file) \<and>
       (\<forall>x. fst out = Inr x \<longrightarrow> current_version engine (snd out) = Inr (ir_version x))
     else ru_files (snd out) = ru_files s \<and> same_versions s (snd out))"

text \<open>A command that raises goes past the rollback: the new file stays, and nothing is recorded or reported.\<close>

definition left_behind :: "string \<Rightarrow> string \<Rightarrow> rule_state \<Rightarrow> ids_rule_result res \<times> rule_state \<Rightarrow> bool" where
  "left_behind engine file s out = (isl (fst out) \<and> ru_files (snd out) = (ru_files s)(engine \<mapsto> file) \<and>
     ru_status (snd out) = ru_status s \<and> ru_acks (snd out) = ru_acks s)"

lemma same_versions_emit [simp]: "same_versions s (snd (emit_ack r s')) = same_versions s s'"
  unfolding same_versions_def current_version_def current_etag_def
  using current_entry_status [of "snd (emit_ack r s')" s'] by simp

lemma reject_stale_outcome:
  assumes "current_entry engine s = Inr c"
  shows "outcome_ok cfg w engine file s (reject_stale w engine tenant code version c s)"
proof (cases "entry_int c ''rule_count''")
  case (Inr n)
  define entry where "entry = (let active = str_or_empty (jget c ''version'');
      msg = take 300 (''stale version rejected: '' @ version @ '' < active '' @ active) in
      JObj [(''engine'', JStr engine), (''tenant_id'', JStr tenant), (''version'', JStr active),
               (''etag'', text_or_empty (jget c ''etag'')), (''rule_count'', JInt n),
               (''ok'', JBool (truthy (jget c ''ok''))), (''rolled_back'', JBool False),
               (''applied_at'', JStr (rw_now w)), (''error'', JStr msg), (''rejected_version'', JStr version)])"
  have "same_versions s (write_status w engine entry s)"
    by (rule same_versions_write [OF assms]) (simp_all add: entry_def Let_def)
  then show ?thesis
    by (simp add: outcome_ok_def reject_stale_def Inr Let_def entry_def)
qed (simp add: outcome_ok_def reject_stale_def Let_def same_versions_refl)

lemma run_cmd_cases:
  obtains (raised) e where "run_cmd cfg w cmd required engine rules = Inl e"
  | (failed) d where "run_cmd cfg w cmd required engine rules = Inr (False, d)"
  | (ran) d where "run_cmd cfg w cmd required engine rules = Inr (True, d)"
  by (cases "run_cmd cfg w cmd required engine rules") auto

lemma check_passes:
  "check_rules cfg w engine (Some rules) = Inr None \<longleftrightarrow> passes cfg w engine rules"
  "isl (check_rules cfg w engine (Some rules)) \<longleftrightarrow> command_raises cfg w engine rules"
  by (auto simp: check_rules_def passes_def command_raises_def succeeds_def gives_def bind_res_def
      split: sum.splits prod.splits if_splits)

lemma place_rules_simps [simp]:
  "ru_files (place_rules content engine s) = (ru_files s)(engine \<mapsto> with_newline content)"
  "ru_status (place_rules content engine s) = ru_status s"
  "ru_acks (place_rules content engine s) = ru_acks s"
  by (auto simp: place_rules_def Let_def split: option.split)

text \<open>Putting the backup back undoes the placing.\<close>

lemma restore_place:
  assumes "restore_rules cfg w engine (ru_files s engine \<noteq> None) (place_rules content engine s) = (b, s')"
  shows "ru_files s' = ru_files s" and "ru_status s' = ru_status s"
  using assms by (auto simp: restore_rules_def place_rules_def Let_def fun_eq_iff split: option.splits if_splits)

lemma passes_not_raises: "passes cfg w engine rules \<Longrightarrow> \<not> command_raises cfg w engine rules"
  using check_passes [of cfg w engine rules] by auto

lemma install_rules_outcome:
  assumes "current_entry engine s = Inr c"
  shows "if command_raises cfg w engine (with_newline content)
    then left_behind engine (with_newline content) s (install_rules cfg w content engine tenant version etag code c s)
    else outcome_ok cfg w engine (with_newline content) s (install_rules cfg w content engine tenant version etag code c s)"
proof (cases "check_rules cfg w engine (Some (with_newline content))")
  case (Inl e)
  then show ?thesis using check_passes(2) [of cfg w engine "with_newline content"]
    by (simp add: install_rules_def Let_def left_behind_def)
next
  case (Inr answer)
  then have quiet: "\<not> command_raises cfg w engine (with_newline content)"
    using check_passes(2) [of cfg w engine "with_newline content"] by simp
  show ?thesis
  proof (cases answer)
    case None
    have e: "current_entry engine (place_rules content engine s) = Inr c"
      using assms by (simp add: current_entry_def)
    have "current_version engine (snd (emit_ack r s')) = current_version engine s'" for r s'
      by (simp add: current_version_def current_entry_def)
    then show ?thesis using None Inr e quiet check_passes(1) [of cfg w engine "with_newline content"]
      by (simp add: install_rules_def outcome_ok_def Let_def applied_entry_def current_version_write(1) [OF e])
  next
    case (Some failure)
    obtain b s' where r: "restore_rules cfg w engine (ru_files s engine \<noteq> None) (place_rules content engine s) = (b, s')" by fastforce
    note undone = restore_place [OF r]
    have e: "current_entry engine s' = Inr c" using assms current_entry_status [OF undone(2)] by simp
    have w: "same_versions s (write_status w engine (failed_entry w engine tenant version b' failure' n c) s')" for b' failure' n
      by (rule same_versions_write [OF e undone(2)]) (simp_all add: failed_entry_def)
    show ?thesis
      using undone w r quiet by (simp add: install_rules_def Inr Some Let_def outcome_ok_def same_versions_refl split: sum.split)
  qed
qed

lemma outcome_nothing:
  "\<not> applied r \<Longrightarrow> ru_files s' = ru_files s \<Longrightarrow> ru_status s' = ru_status s \<Longrightarrow> outcome_ok cfg w engine rules s (r, s')"
  by (simp add: outcome_ok_def same_versions_refl)

section \<open>When a bundle is applied\<close>

definition bundle_etag :: "rule_world \<Rightarrow> string \<Rightarrow> string \<Rightarrow> string" where
  "bundle_etag w content etag = (if etag = [] then sha256_hex (rw_crypto w) (utf8 content) else etag)"

definition bundle_version :: "rule_world \<Rightarrow> string \<Rightarrow> string \<Rightarrow> string \<Rightarrow> string" where
  "bundle_version w content version etag = (if version = [] then take 12 (bundle_etag w content etag) else version)"

definition is_active :: "rule_world \<Rightarrow> string \<Rightarrow> string \<Rightarrow> string \<Rightarrow> json \<Rightarrow> bool" where
  "is_active w content version etag c = (str_or_empty (jget c ''etag'') = bundle_etag w content etag \<and>
     str_or_empty (jget c ''version'') = bundle_version w content version etag \<and> truthy (jget c ''ok''))"

definition not_older :: "string \<Rightarrow> string \<Rightarrow> bool" where
  "not_older version active = (active = [] \<or> key_less (version_sort_key version) (version_sort_key active) = Inr False)"

text \<open>The bundle is written out and the commands run on it.\<close>

definition installs :: "rule_config \<Rightarrow> rule_world \<Rightarrow> string \<Rightarrow> string \<Rightarrow> string \<Rightarrow> json \<Rightarrow> bool" where
  "installs cfg w content version etag c = (\<not> is_active w content version etag c \<and>
     (rc_enabled cfg \<longrightarrow> rc_health_cmd cfg \<noteq> []) \<and>
     not_older (bundle_version w content version etag) (str_or_empty (jget c ''version'')))"

lemma install_applied: "applied (fst (install_rules cfg w content engine tenant version etag code c s))
    \<longleftrightarrow> passes cfg w engine (with_newline content)"
proof (cases "check_rules cfg w engine (Some (with_newline content))")
  case (Inl e)
  then show ?thesis using check_passes(1) [of cfg w engine "with_newline content"]
    by (simp add: install_rules_def Let_def)
next
  case (Inr answer)
  then show ?thesis using check_passes(1) [of cfg w engine "with_newline content"]
    by (cases answer) (simp_all add: install_rules_def Let_def split: prod.split sum.split)
qed

lemma stale_not_applied: "\<not> applied (fst (reject_stale w engine tenant code version c s))"
  by (simp add: reject_stale_def Let_def split: sum.split)

text \<open>A call either installs the bundle or leaves the files and the versions alone.\<close>

lemma apply_rules_cases:
  assumes "current_entry (lower (strip engine)) s = Inr c"
  shows "installs cfg w content version etag c \<Longrightarrow> apply_rules cfg w content engine tenant version etag code s =
      install_rules cfg w content (lower (strip engine)) tenant (bundle_version w content version etag) (bundle_etag w content etag) code c s"
    and "\<not> installs cfg w content version etag c \<Longrightarrow>
      \<not> applied (fst (apply_rules cfg w content engine tenant version etag code s)) \<and>
      outcome_ok cfg w (lower (strip engine)) (with_newline content) s (apply_rules cfg w content engine tenant version etag code s)"
proof -
  let ?a = "str_or_empty (jget c ''version'')" and ?v = "bundle_version w content version etag" and ?e = "lower (strip engine)"
  let ?less = "if ?a = [] then Inr False else key_less (version_sort_key ?v) (version_sort_key ?a)"
  have run: "apply_rules cfg w content engine tenant version etag code s =
     (if is_active w content version etag c
        then (bind_res (entry_int c ''rule_count'') (\<lambda>n.
                Inr ((rule_result True False ?e code tenant ?v None)\<lparr>ir_rule_count := n\<rparr>)), s)
        else if rc_enabled cfg \<and> rc_health_cmd cfg = []
        then emit_ack (rule_result False False ?e code tenant ?v (Some HEALTHCHECK_REQUIRED)) s
        else (case ?less of Inl e \<Rightarrow> (Inl e, s) | Inr True \<Rightarrow> reject_stale w ?e tenant code ?v c s
          | Inr False \<Rightarrow> install_rules cfg w content ?e tenant ?v (bundle_etag w content etag) code c s))"
    by (simp only: apply_rules_def Let_def assms sum.case is_active_def bundle_version_def bundle_etag_def)
  have newer: "not_older ?v ?a \<longleftrightarrow> ?less = Inr False"
    by (auto simp: not_older_def)
  show "apply_rules cfg w content engine tenant version etag code s =
      install_rules cfg w content ?e tenant ?v (bundle_etag w content etag) code c s" if "installs cfg w content version etag c"
    using that unfolding run installs_def newer by auto
  have active: "\<not> applied (bind_res r (\<lambda>n. Inr ((rule_result True False a b d v None)\<lparr>ir_rule_count := n\<rparr>)))" for r a b d v
    by (cases r) simp_all
  have blocked: "emit_ack r s = (Inr r, snd (emit_ack r s))" for r by (simp add: emit_ack_def)
  have other: "\<not> applied (fst out) \<and> outcome_ok cfg w ?e (with_newline content) s out"
    if "?less \<noteq> Inr False"
      "out = (case ?less of Inl e \<Rightarrow> (Inl e, s) | Inr True \<Rightarrow> reject_stale w ?e tenant code ?v c s
          | Inr False \<Rightarrow> install_rules cfg w content ?e tenant ?v (bundle_etag w content etag) code c s)" for out
  proof (cases ?less)
    case (Inl e)
    then show ?thesis unfolding that(2) by (simp only: Inl sum.case) (simp add: outcome_nothing)
  next
    case (Inr b)
    then have b using that(1) by (cases b) (simp_all only: not_True_eq_False simp_thms)
    then show ?thesis unfolding that(2)
      by (simp only: Inr sum.case bool.case) (simp add: stale_not_applied reject_stale_outcome [OF assms])
  qed
  show "\<not> applied (fst (apply_rules cfg w content engine tenant version etag code s)) \<and>
      outcome_ok cfg w ?e (with_newline content) s (apply_rules cfg w content engine tenant version etag code s)"
    if no: "\<not> installs cfg w content version etag c"
  proof (cases "is_active w content version etag c")
    case True
    then show ?thesis by (simp add: run active outcome_nothing)
  next
    case inactive: False
    show ?thesis
    proof (cases "rc_enabled cfg \<and> rc_health_cmd cfg = []")
      case True
      have "outcome_ok cfg w ?e (with_newline content) s (emit_ack r s)" if "\<not> applied (Inr r)" for r
        by (subst blocked, rule outcome_nothing) (use that in simp_all)
      then show ?thesis using True inactive by (simp add: run)
    next
      case False
      then have "?less \<noteq> Inr False" using no inactive unfolding installs_def newer by blast
      then show ?thesis unfolding run if_not_P [OF inactive] if_not_P [OF False] by (rule other) (rule refl)
    qed
  qed
qed

section \<open>The feed\<close>

text \<open>The body of an answer of the feed that carried the tenant's signature over exactly those bytes.\<close>

definition signed_rules :: "rule_config \<Rightarrow> rule_world \<Rightarrow> string \<Rightarrow> string \<Rightarrow> bool" where
  "signed_rules cfg w engine rules = (\<exists>tenant known code text body sig ver et.
     resolve_feed_tenant cfg = Some tenant \<and> rw_feed w engine known = FeedReply code text body sig ver et \<and>
     sig \<noteq> [] \<and> sig = sign_artifact (rw_crypto w) tenant (rc_secret cfg) body \<and>
     rules = with_newline (rw_decode w body))"

lemma verify_signed: "verify_artifact cr tenant secret body sig = Inr True \<Longrightarrow> sig \<noteq> [] \<and> sig = sign_artifact cr tenant secret body"
  by (auto simp: verify_artifact_def Let_def split: if_splits)

lemma lower_strip: "strip (lower s) = lower (strip s)"
proof -
  have sp: "is_space (lower_char c) = is_space c" for c
    by (auto simp: lower_char_def is_space_def chr_code_def Let_def of_char_of)
  have l: "lstrip (lower s) = lower (lstrip s)" for s
    by (induction s) (auto simp: lstrip_def lower_def sp)
  have "rstrip (lower s) = lower (rstrip s)" for s
    using l [of "rev s"] by (simp add: rstrip_def lstrip_def lower_def rev_map [symmetric])
  then show ?thesis by (simp add: strip_def l)
qed

lemma apply_rules_files:
  "ru_files (snd (apply_rules cfg w content engine tenant version etag code s)) = ru_files s \<or>
   ru_files (snd (apply_rules cfg w content engine tenant version etag code s)) =
       (ru_files s)(lower (strip engine) \<mapsto> with_newline content) \<and>
     (passes cfg w (lower (strip engine)) (with_newline content) \<or>
      command_raises cfg w (lower (strip engine)) (with_newline content))"
proof (cases "current_entry (lower (strip engine)) s")
  case (Inl e)
  then show ?thesis by (simp add: apply_rules_def Let_def)
next
  case (Inr c)
  show ?thesis
  proof (cases "installs cfg w content version etag c")
    case True
    then show ?thesis
      using install_rules_outcome [OF Inr, of cfg w content tenant "bundle_version w content version etag"
          "bundle_etag w content etag" code]
      by (auto simp: apply_rules_cases(1) [OF Inr] outcome_ok_def left_behind_def split: if_splits)
  next
    case False
    then show ?thesis
      using apply_rules_cases(2) [OF Inr False, of tenant code] by (auto simp: outcome_ok_def)
  qed
qed

lemma pull_rules_outcome:
  "ru_files (snd (pull_rules cfg w force engine s)) = ru_files s \<or>
   (\<exists>rules. ru_files (snd (pull_rules cfg w force engine s)) = (ru_files s)(lower (strip engine) \<mapsto> rules) \<and>
      signed_rules cfg w (lower (strip engine)) rules \<and>
      (passes cfg w (lower (strip engine)) rules \<or> command_raises cfg w (lower (strip engine)) rules))"
proof (cases "ru_files (snd (pull_rules cfg w force engine s)) = ru_files s")
  case False
  let ?e = "lower (strip engine)"
  obtain tenant known code detail body mac ver et where
    a: "resolve_feed_tenant cfg = Some tenant" "rw_feed w ?e known = FeedReply code detail body mac ver et"
       "verify_artifact (rw_crypto w) tenant (rc_secret cfg) body mac = Inr True"
    and p: "pull_rules cfg w force engine s = apply_rules cfg w (rw_decode w body) ?e tenant (strip ver)
                    (if unquoted et = [] then sha256_hex (rw_crypto w) body else unquoted et) code s"
    using False by (auto simp: pull_rules_def Let_def emit_ack_def split: if_splits option.splits sum.splits feed_reply.splits bool.splits)
  have n: "lower (strip ?e) = ?e" by (simp add: lower_strip [symmetric])
  have v: "signed_rules cfg w ?e (with_newline (rw_decode w body))"
    unfolding signed_rules_def using a(1,2) verify_signed [OF a(3)] by blast
  show ?thesis
    using apply_rules_files [of cfg w "rw_decode w body" ?e tenant "strip ver"
        "if unquoted et = [] then sha256_hex (rw_crypto w) body else unquoted et" code s] False v
    unfolding p n by blast
qed simp

definition rule_run :: "rule_config \<Rightarrow> (rule_world \<times> bool \<times> string) list \<Rightarrow> rule_state \<Rightarrow> rule_state" where
  "rule_run cfg steps s = fold (\<lambda>(w, force, e) s. snd (pull_rules cfg w force e s)) steps s"

lemma rule_run_Cons [simp]:
  "rule_run cfg ((w, force, e) # steps) s = rule_run cfg steps (snd (pull_rules cfg w force e s))"
  "rule_run cfg [] s = s"
  by (simp_all add: rule_run_def)

section \<open>Properties\<close>

text \<open>
  C3. In any sequence of pulls, one after the other, a rules file is either the one that was there before,
  or the body of an answer that carried the tenant's HMAC signature over exactly those bytes, and then the
  reload and the health command succeeded on it, or one of them raised: a command whose text or output is
  not what Python can format or decode leaves a signed file that nothing has checked.
\<close>

theorem rules_file_vetted:
  "ru_files (rule_run cfg steps s) g = ru_files s g \<or>
   (\<exists>w\<in>fst ` set steps. \<exists>rules. ru_files (rule_run cfg steps s) g = Some rules \<and> signed_rules cfg w g rules \<and>
      (passes cfg w g rules \<or> command_raises cfg w g rules))"
proof (induction steps arbitrary: s)
  case (Cons p steps)
  obtain w force e where p: "p = (w, force, e)" by (cases p) auto
  let ?s = "snd (pull_rules cfg w force e s)"
  from Cons.IH [of ?s] show ?case
  proof
    assume same: "ru_files (rule_run cfg steps ?s) g = ru_files ?s g"
    from pull_rules_outcome [of cfg w force e s] show ?thesis
      using same by (auto simp: p)
  next
    assume "\<exists>w\<in>fst ` set steps. \<exists>rules. ru_files (rule_run cfg steps ?s) g = Some rules \<and> signed_rules cfg w g rules \<and>
      (passes cfg w g rules \<or> command_raises cfg w g rules)"
    then show ?thesis by (auto simp: p)
  qed
qed simp

text \<open>
  C4. A bundle is written out when it is not the active one, a health command is configured and its version
  is not below the active one; it is applied when, moreover, both commands succeed on it, and then the rules
  file is the bundle. When a command raises on it, the call raises with the new file in place and neither the
  status nor an acknowledgement says so. In every other case every rules file and the version and etag
  recorded for every engine are what they were before the call: a failed bundle has been rolled back.
\<close>

theorem rules_apply_outcome:
  assumes "current_entry (lower (strip engine)) s = Inr c" and "apply_rules cfg w content engine tenant version etag code s = (r, s')"
  shows "(applied r \<longleftrightarrow> installs cfg w content version etag c \<and> passes cfg w (lower (strip engine)) (with_newline content)) \<and>
     (if applied r then ru_files s' = (ru_files s)(lower (strip engine) \<mapsto> with_newline content)
      else if installs cfg w content version etag c \<and> command_raises cfg w (lower (strip engine)) (with_newline content)
      then isl r \<and> ru_files s' = (ru_files s)(lower (strip engine) \<mapsto> with_newline content) \<and>
        ru_status s' = ru_status s \<and> ru_acks s' = ru_acks s
      else ru_files s' = ru_files s \<and> same_versions s s')"
proof (cases "installs cfg w content version etag c")
  case True
  note run = apply_rules_cases(1) [OF assms(1) True, of tenant code, unfolded assms(2)]
  show ?thesis
    using install_rules_outcome [OF assms(1), of cfg w content tenant "bundle_version w content version etag"
        "bundle_etag w content etag" code]
      install_applied [of cfg w content "lower (strip engine)" tenant "bundle_version w content version etag"
        "bundle_etag w content etag" code c s] True passes_not_raises [of cfg w "lower (strip engine)" "with_newline content"]
    unfolding run [symmetric] by (auto simp: outcome_ok_def left_behind_def split: if_splits)
next
  case False
  then show ?thesis using apply_rules_cases(2) [OF assms(1) False, of tenant code] unfolding assms(2)
    by (auto simp: outcome_ok_def split: if_splits)
qed

definition demo_crypto :: crypto where
  "demo_crypto = \<lparr>cr_sha256 = (\<lambda>b. replicate 6 (if length b = 7 then 187 else 170)), cr_hmac = (\<lambda>k b. k @ b), cr_b64 = (\<lambda>b. map (\<lambda>_. CHR ''A'') b)\<rparr>"

definition demo_rule_world :: "int \<Rightarrow> rule_world" where
  "demo_rule_world status = \<lparr>rw_now = ''2026-01-01T00:00:00Z'', rw_crypto = demo_crypto,
     rw_feed = (\<lambda>e known. FeedError ''down''), rw_decode = (\<lambda>b. []), rw_run = (\<lambda>cmd e rules. CmdExit status [] [])\<rparr>"

definition demo_rule_config :: rule_config where
  "demo_rule_config = \<lparr>rc_enabled = True, rc_engines = [''suricata''], rc_feed_tenant = ''t1'', rc_tenant = [],
     rc_require_tenant = True, rc_secret = ''key'', rc_reload_cmd = [], rc_health_cmd = ''check'', rc_timeout = 30\<rparr>"

definition fresh_rules :: rule_state where
  "fresh_rules = \<lparr>ru_files = (\<lambda>_. None), ru_backups = (\<lambda>_. None), ru_status = Absent, ru_acks = []\<rparr>"

definition apply_demo :: "int \<Rightarrow> string \<Rightarrow> string \<Rightarrow> rule_state \<Rightarrow> ids_rule_result res \<times> rule_state" where
  "apply_demo status content version s =
     apply_rules demo_rule_config (demo_rule_world status) content ''suricata'' ''t1'' version [] 200 s"

theorem rules_apply_outcome_witness:
  "ru_files (snd (apply_demo 1 ''alert b'' ''v2'' (snd (apply_demo 0 ''alert'' ''v1'' fresh_rules)))) =
     ru_files (snd (apply_demo 0 ''alert'' ''v1'' fresh_rules))"
proof -
  have "(case current_entry (lower (strip ''suricata'')) (snd (apply_demo 0 ''alert'' ''v1'' fresh_rules)) of Inl _ \<Rightarrow> False | Inr _ \<Rightarrow> True)"
    by code_simp
  then obtain c where c: "current_entry (lower (strip ''suricata'')) (snd (apply_demo 0 ''alert'' ''v1'' fresh_rules)) = Inr c"
    by (auto split: sum.splits)
  have q: "\<not> command_raises demo_rule_config (demo_rule_world 1) e rules" for e rules
    by (simp add: command_raises_def succeeds_def gives_def run_cmd_def demo_rule_config_def demo_rule_world_def)
  have n: "\<not> passes demo_rule_config (demo_rule_world 1) e rules" for e rules
    by (simp add: passes_def succeeds_def gives_def run_cmd_def demo_rule_config_def demo_rule_world_def)
  show ?thesis unfolding apply_demo_def [of 1]
    using rules_apply_outcome [OF c prod.collapse [symmetric], of demo_rule_config "demo_rule_world 1" "''alert b''" "''t1''" "''v2''" "[]" 200]
    by (simp only: n q HOL.simp_thms if_False split: if_split_asm)
qed

text \<open>
  An example: a bundle the control plane sends without a version header is given the first twelve hex
  digits of its hash as version, and hashes are then compared as versions. With hashes for which that
  comparison goes the wrong way a correct new bundle is not applied, and one that follows a bundle with a
  dated version raises TypeError, as a number has no order with a text.
\<close>

theorem unversioned_bundle_blocked:
  "(let first = apply_demo 0 ''alert a'' [] fresh_rules; second = apply_demo 0 ''alert bc'' [] (snd first) in
      applied (fst first) \<and> \<not> applied (fst second) \<and> ru_files (snd second) ''suricata'' = Some (''alert a'' @ [CHR 0x0A])) \<and>
   (let first = apply_demo 0 ''alert a'' ''2026.06.20'' fresh_rules; second = apply_demo 0 ''alert bc'' [] (snd first) in
      applied (fst first) \<and> fst second = Inl TypeError \<and> ru_files (snd second) ''suricata'' = Some (''alert a'' @ [CHR 0x0A]))"
  by code_simp

end
