(* ===== verification/Policysync.thy ===== *)
theory Policysync
  imports Rulesync Stores
begin

text \<open>
  The artifacts the control plane pushes to the edge agent over MQTT, and the files the agent makes
  of them: the operational mode and learning session (\<open>policy/operational_mode_sync.py\<close>), the
  baseline profile (\<open>policy/baseline_profile_sync.py\<close>), the detection policy
  (\<open>policy/detection_policy_sync.py\<close>) and the topology overrides with their merge into a snapshot
  (\<open>policy/topology_override_sync.py\<close>, \<open>policy/topology_override_merge.py\<close>,
  \<open>northbound/topology_delta.py\<close>). The files are the state, \<open>now\<close> is the text of the UTC clock,
  read once per call. A file is what \<open>json.loads\<close> makes of it: the values written are read back
  as they are.
\<close>

section \<open>The contract of a push\<close>

text \<open>
  \<open>push now a s\<close> applies artifact \<open>a\<close> to the files \<open>s\<close>. For the artifacts that carry their own
  version the same one again, at any later time, is accepted, reported as no change, and changes
  nothing.
\<close>

locale artifact_push =
  fixes push :: "string \<Rightarrow> 'a \<Rightarrow> 's \<Rightarrow> 'r \<times> 's" and ok :: "'r \<Rightarrow> bool" and changed :: "'r \<Rightarrow> bool"
    and versioned :: "'a \<Rightarrow> 's \<Rightarrow> bool"
  assumes unchanged_keeps: "\<not> changed (fst (push now a s)) \<Longrightarrow> snd (push now a s) = s"
    and repeated: "versioned a s \<Longrightarrow> changed (fst (push now a s)) \<Longrightarrow>
      ok (fst (push now' a (snd (push now a s)))) \<and> \<not> changed (fst (push now' a (snd (push now a s))))"
begin

lemma repeat_settled:
  assumes "\<And>now. \<not> changed (fst (push now a s))"
  shows "fold (\<lambda>t s. snd (push t a s)) ts s = s"
  by (induction ts) (simp_all add: assms unchanged_keeps)

text \<open>A message delivered any number of times leaves what its first delivery left.\<close>

lemma redelivery:
  assumes "versioned a s" and "changed (fst (push now a s))"
  shows "fold (\<lambda>t s. snd (push t a s)) ts (snd (push now a s)) = snd (push now a s)"
  by (rule repeat_settled) (use repeated [OF assms] in blast)

end

section \<open>Operational mode\<close>

record mode_result =
  mr_ok :: bool
  mr_changed :: bool
  mr_mode :: string
  mr_session_id :: string
  mr_tenant :: string
  mr_error :: "string option"

definition mode_refused :: "bool \<Rightarrow> string \<Rightarrow> mode_result" where
  "mode_refused ok e = \<lparr>mr_ok = ok, mr_changed = False, mr_mode = [], mr_session_id = [], mr_tenant = [], mr_error = Some e\<rparr>"

definition mode_accepted :: "bool \<Rightarrow> string \<Rightarrow> string \<Rightarrow> string \<Rightarrow> mode_result" where
  "mode_accepted changed mode session tenant =
     \<lparr>mr_ok = True, mr_changed = changed, mr_mode = mode, mr_session_id = session, mr_tenant = tenant, mr_error = None\<rparr>"

record mode_sync =
  my_mode :: jfile
  my_stamp :: tfile
  my_session :: jfile

record sync_config =
  sy_enabled :: bool
  sy_sensor_id :: string

definition MODE_SCHEMA :: string where
  "MODE_SCHEMA = ''sensel.operational_mode.v1''"

definition stamp_text :: "string \<Rightarrow> string \<Rightarrow> string" where
  "stamp_text now version = now @ [CHR 0x0A] @ version @ [CHR 0x0A]"

definition session_kind :: "string \<Rightarrow> json" where
  "session_kind mode = (if mode = ''listen'' then JStr ''observe'' else if mode = ''learning'' then JStr ''learn'' else JNull)"

definition ensure_defaults :: "sync_config \<Rightarrow> string \<Rightarrow> mode_sync \<Rightarrow> bool \<times> mode_sync" where
  "ensure_defaults cfg now s =
     (if \<not> sy_enabled cfg \<or> my_mode s \<noteq> Absent then (False, s)
      else (True, s\<lparr>my_mode := Doc (JObj [(''schema'', JStr MODE_SCHEMA), (''schema_version'', JStr MODE_SCHEMA),
              (''sensor_id'', JStr (sy_sensor_id cfg)), (''mode'', JStr ''listen''), (''session_id'', JNull),
              (''baseline_profile_id'', JNull), (''updated_at'', JStr now), (''source'', JStr ''edge_default'')]),
            my_stamp := Text (stamp_text now ''listen-default'')\<rparr>))"

definition write_session :: "sync_config \<Rightarrow> string \<Rightarrow> string \<Rightarrow> string \<Rightarrow> string \<Rightarrow> json \<Rightarrow> jfile" where
  "write_session cfg now session mode tenant capture = Doc (JObj
     [(''schema'', JStr ''sensel.learning_session.v1''), (''session_id'', JStr session), (''session_kind'', session_kind mode),
      (''operational_mode'', JStr mode), (''tenant_id'', JStr tenant), (''sensor_id'', JStr (sy_sensor_id cfg)),
      (''status'', JStr ''active''), (''capture_interface'', py_or (jget capture ''interface'') (JStr [])),
      (''bpf_filter'', py_or (jget capture ''bpf_filter'') (JStr [])), (''updated_at'', JStr now)])"

definition clear_session :: "string \<Rightarrow> jfile \<Rightarrow> jfile" where
  "clear_session abort f = (case f of Absent \<Rightarrow> Absent
     | Doc v \<Rightarrow> if abort \<noteq> [] \<and> is_obj v \<and> str_or_empty (jget v ''session_id'') \<noteq> abort then f else Absent
     | _ \<Rightarrow> Absent)"

definition capture_block :: "json \<Rightarrow> json" where
  "capture_block capture = (if is_obj capture
     then JObj [(''interface'', JStr (strip (str_or_empty (jget capture ''interface'')))),
                (''bpf_filter'', JStr (strip (str_or_empty (jget capture ''bpf_filter''))))]
     else JObj [])"

definition first_text :: "json list \<Rightarrow> string \<Rightarrow> string" where
  "first_text vs d = py_str (foldr py_or vs (JStr d))"

definition session_text :: "json \<Rightarrow> string" where
  "session_text v = (if truthy v then strip (py_str v) else [])"

text \<open>The artifact is the one stored: mode, session, tenant and version agree and nothing is to be aborted.\<close>

definition mode_known :: "json \<Rightarrow> string \<Rightarrow> string \<Rightarrow> string \<Rightarrow> string \<Rightarrow> string \<Rightarrow> bool" where
  "mode_known existing mode session tenant version abort = (truthy existing \<and>
     str_or_empty (jget existing ''mode'') = mode \<and> str_or_empty (jget existing ''session_id'') = session \<and>
     str_or_empty (jget existing ''tenant_id'') = tenant \<and>
     str_or_empty (py_or (jget existing ''version'') (jget existing ''updated_at'')) = version \<and> abort = [])"

text \<open>
  The texts are those of the model, so that writing the file cannot fail: in the program a text with a lone
  surrogate in the artifact makes \<open>write_text\<close> raise once the file is already empty.
\<close>

definition mode_payload :: "sync_config \<Rightarrow> string \<Rightarrow> json \<Rightarrow> json \<Rightarrow> string \<Rightarrow> string \<Rightarrow> string \<Rightarrow> string \<Rightarrow> string \<Rightarrow> json" where
  "mode_payload cfg now artifact existing tenant mode session version source = JObj
     [(''schema'', JStr (first_text [jget artifact ''schema''] MODE_SCHEMA)),
      (''schema_version'', JStr (first_text [jget artifact ''schema_version''] MODE_SCHEMA)),
      (''tenant_id'', JStr tenant), (''sensor_id'', JStr (sy_sensor_id cfg)),
      (''site_id'', JStr (strip (first_text [jget artifact ''site_id'', jget existing ''site_id''] []))),
      (''mode'', JStr mode), (''session_id'', if session = [] then JNull else JStr session),
      (''baseline_profile_id'', py_or (jget artifact ''baseline_profile_id'') (jget existing ''baseline_profile_id'')),
      (''baseline_profile_version'', py_or (jget artifact ''baseline_profile_version'') (jget existing ''baseline_profile_version'')),
      (''capture'', py_or (capture_block (jget artifact ''capture'')) (py_or (jget existing ''capture'') (JObj []))),
      (''version'', JStr version), (''updated_at'', JStr now), (''source'', JStr source)]"

definition next_session :: "sync_config \<Rightarrow> string \<Rightarrow> string \<Rightarrow> string \<Rightarrow> string \<Rightarrow> string \<Rightarrow> json \<Rightarrow> jfile \<Rightarrow> jfile" where
  "next_session cfg now abort mode session tenant capture f =
     (if abort \<noteq> [] then clear_session abort f
      else if mode \<in> {''listen'', ''learning''} \<and> session \<noteq> [] then write_session cfg now session mode tenant capture
      else if mode \<in> {''detect'', ''idle''} then clear_session [] f
      else f)"

definition apply_mode :: "sync_config \<Rightarrow> string \<Rightarrow> string \<Rightarrow> string \<Rightarrow> json \<Rightarrow> mode_sync \<Rightarrow> mode_result \<times> mode_sync" where
  "apply_mode cfg tenant source now artifact s =
     (let sensor = strip (str_or_empty (jget artifact ''sensor_id''));
          mode = lower (strip (str_or_empty (jget artifact ''mode'')));
          session = session_text (jget artifact ''session_id'');
          abort = strip (str_or_empty (jget artifact ''abort_session_id''));
          existing = read_object (my_mode s);
          version = first_text [jget artifact ''version'', jget artifact ''updated_at''] now in
      if \<not> sy_enabled cfg then (mode_refused True ''operational_mode_disabled'', s)
      else if \<not> is_obj artifact then (mode_refused False ''payload is not an object'', s)
      else if sensor \<noteq> [] \<and> sensor \<noteq> sy_sensor_id cfg
      then (mode_refused False (''sensor_id mismatch: expected '' @ sy_sensor_id cfg), s)
      else if mode \<notin> VALID_MODES then (mode_refused False (''invalid mode: '' @ repr_str mode), s)
      else if mode_known existing mode session tenant version abort then (mode_accepted False mode session tenant, s)
      else (mode_accepted True mode session tenant,
        s\<lparr>my_mode := Doc (mode_payload cfg now artifact existing tenant mode session version source),
          my_stamp := Text (stamp_text now version),
          my_session := next_session cfg now abort mode session tenant (capture_block (jget artifact ''capture'')) (my_session s)\<rparr>))"

section \<open>Baseline profile\<close>

record profile_result =
  pr_ok :: bool
  pr_changed :: bool
  pr_profile_id :: string
  pr_version :: string
  pr_tenant :: string
  pr_error :: "string option"

definition profile_refused :: "bool \<Rightarrow> string \<Rightarrow> profile_result" where
  "profile_refused ok e = \<lparr>pr_ok = ok, pr_changed = False, pr_profile_id = [], pr_version = [], pr_tenant = [], pr_error = Some e\<rparr>"

definition profile_accepted :: "bool \<Rightarrow> string \<Rightarrow> string \<Rightarrow> string \<Rightarrow> profile_result" where
  "profile_accepted changed pid version tenant =
     \<lparr>pr_ok = True, pr_changed = changed, pr_profile_id = pid, pr_version = version, pr_tenant = tenant, pr_error = None\<rparr>"

record file_sync =
  fy_file :: jfile
  fy_stamp :: tfile

definition PROFILE_SCHEMA :: string where
  "PROFILE_SCHEMA = ''sensel.baseline.profile.v1''"

definition profile_payload :: "sync_config \<Rightarrow> string \<Rightarrow> json \<Rightarrow> json \<Rightarrow> string \<Rightarrow> string \<Rightarrow> string \<Rightarrow> string \<Rightarrow> json" where
  "profile_payload cfg now artifact existing tenant pid version source = JObj
     [(''schema'', JStr (first_text [jget artifact ''schema''] PROFILE_SCHEMA)),
      (''schema_version'', JStr (first_text [jget artifact ''schema_version''] PROFILE_SCHEMA)),
      (''tenant_id'', JStr tenant), (''profile_id'', JStr pid), (''sensor_id'', JStr (sy_sensor_id cfg)),
      (''site_id'', JStr (strip (first_text [jget artifact ''site_id'', jget existing ''site_id''] []))),
      (''version'', JStr version), (''observed'', obj_or_empty (jget artifact ''observed'')), (''updated_at'', JStr now),
      (''source'', JStr source)]"

definition apply_profile :: "sync_config \<Rightarrow> string \<Rightarrow> string \<Rightarrow> string \<Rightarrow> json \<Rightarrow> file_sync \<Rightarrow> profile_result \<times> file_sync" where
  "apply_profile cfg tenant source now artifact s =
     (let pid = strip (str_or_empty (jget artifact ''profile_id''));
          sensor = strip (str_or_empty (jget artifact ''sensor_id''));
          version = first_text [jget artifact ''version'', jget artifact ''updated_at''] now;
          existing = read_object (fy_file s); observed = jget artifact ''observed'' in
      if \<not> sy_enabled cfg then (profile_refused True ''baseline_profile_disabled'', s)
      else if \<not> is_obj artifact then (profile_refused False ''payload is not an object'', s)
      else if pid = [] then (profile_refused False ''profile_id required'', s)
      else if sensor \<noteq> [] \<and> sensor \<noteq> sy_sensor_id cfg
      then (profile_refused False (''sensor_id mismatch: expected '' @ sy_sensor_id cfg), s)
      else if truthy existing \<and> str_or_empty (jget existing ''profile_id'') = pid \<and>
              str_or_empty (jget existing ''version'') = version \<and> str_or_empty (jget existing ''tenant_id'') = tenant
      then (profile_accepted False pid version tenant, s)
      else if observed \<noteq> JNull \<and> \<not> is_obj observed then (profile_refused False ''observed must be an object'', s)
      else (profile_accepted True pid version tenant,
        s\<lparr>fy_file := Doc (profile_payload cfg now artifact existing tenant pid version source),
          fy_stamp := Text (stamp_text now version)\<rparr>))"

section \<open>Detection policy\<close>

record policy_result =
  po_ok :: bool
  po_changed :: bool
  po_version :: string
  po_site :: string
  po_tenant :: string
  po_error :: "string option"

definition policy_refused :: "bool \<Rightarrow> string \<Rightarrow> policy_result" where
  "policy_refused ok e = \<lparr>po_ok = ok, po_changed = False, po_version = [], po_site = [], po_tenant = [], po_error = Some e\<rparr>"

definition policy_accepted :: "bool \<Rightarrow> string \<Rightarrow> string \<Rightarrow> string \<Rightarrow> policy_result" where
  "policy_accepted changed version site tenant =
     \<lparr>po_ok = True, po_changed = changed, po_version = version, po_site = site, po_tenant = tenant, po_error = None\<rparr>"

definition POLICY_SCHEMA :: string where
  "POLICY_SCHEMA = ''ot_detection_policy.v1''"

definition POLICY_SCHEMA_V2 :: string where
  "POLICY_SCHEMA_V2 = ''ot_detection_policy.v2''"

definition read_version :: "jfile \<Rightarrow> string" where
  "read_version f = str_or_empty (jget (read_object f) ''version'')"

text \<open>The stored policy as it is, an object or not; a file that cannot be read counts as empty.\<close>

fun stored_policy :: "jfile \<Rightarrow> json" where
  "stored_policy (Doc v) = v"
| "stored_policy _ = JObj []"

definition policy_known :: "json \<Rightarrow> string \<Rightarrow> string \<Rightarrow> bool res" where
  "policy_known existing version tenant =
     (if \<not> truthy existing \<or> version = [] then Inr False
      else bind_res (jget_res existing ''version'') (\<lambda>v.
        if str_or_empty v \<noteq> version then Inr False
        else bind_res (jget_res existing ''tenant_id'') (\<lambda>t. Inr (str_or_empty t = tenant))))"

text \<open>A key the artifact brings, else the one stored when it is not empty.\<close>

definition brought_or_kept :: "string \<Rightarrow> json option \<Rightarrow> json \<Rightarrow> (string \<times> json) list res" where
  "brought_or_kept k brought existing = (case brought of Some v \<Rightarrow> Inr [(k, v)]
     | None \<Rightarrow> bind_res (jget_res existing k) (\<lambda>v. Inr (if truthy v then [(k, v)] else [])))"

definition non_null :: "json \<Rightarrow> json option" where
  "non_null v = (if v = JNull then None else Some v)"

definition upper_rules :: "json \<Rightarrow> json option" where
  "upper_rules rules = (if rules = JNull then None
     else Some (JList (map (\<lambda>r. JStr (upper (strip (py_str r)))) (filter (\<lambda>r. strip (py_str r) \<noteq> []) (list_items rules)))))"

definition policy_parts :: "string \<Rightarrow> json \<Rightarrow> json \<Rightarrow> (string \<times> json) list res" where
  "policy_parts schema artifact existing =
     (let baseline = non_null (jget artifact ''baseline''); thresholds = non_null (jget artifact ''thresholds'') in
      bind_res (brought_or_kept ''rules_enabled'' (upper_rules (jget artifact ''rules_enabled'')) existing) (\<lambda>rules.
      bind_res (if schema = POLICY_SCHEMA_V2 then brought_or_kept ''thresholds'' thresholds existing
                else bind_res (brought_or_kept ''baseline'' baseline existing) (\<lambda>b.
                  Inr (b @ (case thresholds of None \<Rightarrow> [] | Some v \<Rightarrow> [(''thresholds'', v)])))) (\<lambda>rest.
        Inr (rules @ rest))))"

definition policy_payload :: "string \<Rightarrow> json \<Rightarrow> string \<Rightarrow> string \<Rightarrow> string \<Rightarrow> string \<Rightarrow> string \<Rightarrow> (string \<times> json) list \<Rightarrow> json" where
  "policy_payload now artifact schema tenant site version source parts = JObj
     ([(''schema_version'', JStr schema), (''tenant_id'', JStr tenant), (''site_id'', JStr site),
       (''sensor_id'', jget artifact ''sensor_id''), (''version'', JStr version),
       (''generated_at'', JStr (first_text [jget artifact ''generated_at''] now)), (''updated_at'', JStr now),
       (''source'', JStr source)] @ parts)"

definition policy_refusal :: "sync_config \<Rightarrow> json \<Rightarrow> string \<Rightarrow> policy_result option" where
  "policy_refusal cfg artifact schema =
     (let rules = jget artifact ''rules_enabled''; baseline = jget artifact ''baseline'';
          thresholds = jget artifact ''thresholds'' in
      if \<not> sy_enabled cfg then Some (policy_refused True ''detection_policy_disabled'')
      else if \<not> is_obj artifact then Some (policy_refused False ''payload is not an object'')
      else if schema \<notin> {POLICY_SCHEMA, POLICY_SCHEMA_V2}
      then Some (policy_refused False (''unsupported schema_version: '' @ schema))
      else if rules \<noteq> JNull \<and> \<not> is_list rules then Some (policy_refused False ''rules_enabled must be a list'')
      else if baseline \<noteq> JNull \<and> \<not> is_obj baseline then Some (policy_refused False ''baseline must be an object'')
      else if thresholds \<noteq> JNull \<and> \<not> is_obj thresholds then Some (policy_refused False ''thresholds must be an object'')
      else None)"

definition apply_policy :: "sync_config \<Rightarrow> string \<Rightarrow> string \<Rightarrow> string \<Rightarrow> json \<Rightarrow> file_sync \<Rightarrow> policy_result res \<times> file_sync" where
  "apply_policy cfg tenant source now artifact s =
     (let version = strip (str_or_empty (py_or (jget artifact ''version'') (jget artifact ''artifact_version'')));
          site = strip (str_or_empty (jget artifact ''site_id''));
          schema = strip (first_text [jget artifact ''schema_version''] POLICY_SCHEMA);
          existing = stored_policy (fy_file s) in
      case policy_refusal cfg artifact schema of Some r \<Rightarrow> (Inr r, s)
      | None \<Rightarrow> (case policy_known existing version tenant of Inl e \<Rightarrow> (Inl e, s)
      | Inr True \<Rightarrow> (Inr (policy_accepted False version site tenant), s)
      | Inr False \<Rightarrow> (case policy_parts schema artifact existing of Inl e \<Rightarrow> (Inl e, s)
         | Inr parts \<Rightarrow>
            let stored_version = (if version = [] then now else version) in
            (Inr (policy_accepted True stored_version site tenant),
             s\<lparr>fy_file := Doc (policy_payload now artifact schema tenant site stored_version source parts),
               fy_stamp := Text (stamp_text now stored_version)\<rparr>))))"

section \<open>Topology overrides\<close>

definition OVERRIDE_SCHEMA :: string where
  "OVERRIDE_SCHEMA = ''sensel.ot_topology.override.v1''"

definition STORE_SCHEMA :: string where
  "STORE_SCHEMA = ''sensel.ot_topology.override_store.v1''"

record override_result =
  or_ok :: bool
  or_changed :: bool
  or_asset_id :: string
  or_tenant :: string
  or_error :: "string option"

definition override_refused :: "bool \<Rightarrow> string \<Rightarrow> string \<Rightarrow> override_result" where
  "override_refused ok asset e = \<lparr>or_ok = ok, or_changed = False, or_asset_id = asset, or_tenant = [], or_error = Some e\<rparr>"

definition override_accepted :: "bool \<Rightarrow> string \<Rightarrow> string \<Rightarrow> override_result" where
  "override_accepted changed asset tenant =
     \<lparr>or_ok = True, or_changed = changed, or_asset_id = asset, or_tenant = tenant, or_error = None\<rparr>"

definition empty_overrides :: json where
  "empty_overrides = JObj [(''schema'', JStr STORE_SCHEMA), (''overrides'', JObj [])]"

definition override_state :: "jfile \<Rightarrow> json" where
  "override_state f = (case f of Doc v \<Rightarrow>
       if \<not> is_obj v then empty_overrides
       else if \<not> is_obj (jget v ''overrides'') then JObj (dict_put ''overrides'' (JObj []) (obj_items v)) else v
     | _ \<Rightarrow> empty_overrides)"

definition get_override :: "jfile \<Rightarrow> string \<Rightarrow> json" where
  "get_override f asset = obj_or_empty (jget (py_or (jget (override_state f) ''overrides'') (JObj [])) asset)"

definition merge_patch :: "(string \<times> json) list \<Rightarrow> (string, json) dict \<Rightarrow> (string, json) dict" where
  "merge_patch patch old = fold (\<lambda>(k, v) d. if v = JNull then d
     else let t = strip (py_str v) in if t = [] then d else dict_put k (JStr t) d) patch old"

definition override_entry :: "sync_config \<Rightarrow> string \<Rightarrow> json \<Rightarrow> string \<Rightarrow> string \<Rightarrow> string \<Rightarrow> string \<Rightarrow> (string, json) dict \<Rightarrow> json" where
  "override_entry cfg now artifact asset tenant sensor source patch = JObj
     [(''asset_id'', JStr asset),
      (''tenant_id'', JStr (if tenant = [] then str_or_empty (jget artifact ''tenant_id'') else tenant)),
      (''sensor_id'', JStr (if sensor = [] then sy_sensor_id cfg else sensor)), (''patch'', JObj patch),
      (''manual_override'', JBool True), (''evidence_sources'', JList [JStr ''manual_tag'']),
      (''issued_at'', JStr (first_text [jget artifact ''issued_at''] now)),
      (''issued_by_user_id'', jget artifact ''issued_by_user_id''), (''source'', JStr source), (''schema'', JStr OVERRIDE_SCHEMA)]"

definition override_refusal :: "sync_config \<Rightarrow> json \<Rightarrow> override_result option" where
  "override_refusal cfg artifact =
     (let schema = strip (str_or_empty (jget artifact ''schema'')); asset = strip (str_or_empty (jget artifact ''asset_id''));
          sensor = strip (str_or_empty (jget artifact ''sensor_id'')); patch = jget artifact ''patch'' in
      if schema \<noteq> [] \<and> schema \<noteq> OVERRIDE_SCHEMA then Some (override_refused False [] (''unsupported schema '' @ schema))
      else if asset = [] then Some (override_refused False [] ''asset_id required'')
      else if sensor \<noteq> [] \<and> sensor \<noteq> sy_sensor_id cfg
      then Some (override_refused False [] (''sensor mismatch payload='' @ sensor @ '' local='' @ sy_sensor_id cfg))
      else if \<not> is_obj patch \<or> \<not> truthy patch then Some (override_refused False asset ''patch required'')
      else None)"

definition override_doc :: "sync_config \<Rightarrow> string \<Rightarrow> string \<Rightarrow> (string \<times> json) list \<Rightarrow> json" where
  "override_doc cfg now tenant overrides = JObj [(''schema'', JStr STORE_SCHEMA), (''tenant_id'', JStr tenant),
     (''sensor_id'', JStr (sy_sensor_id cfg)), (''updated_at'', JStr now), (''overrides'', JObj overrides)]"

definition overrides_of :: "jfile \<Rightarrow> (string \<times> json) list" where
  "overrides_of f = obj_items (jget (override_state f) ''overrides'')"

definition apply_override :: "sync_config \<Rightarrow> string \<Rightarrow> string \<Rightarrow> string \<Rightarrow> json \<Rightarrow> file_sync \<Rightarrow> override_result res \<times> file_sync" where
  "apply_override cfg tenant source now artifact s =
     (let asset = strip (str_or_empty (jget artifact ''asset_id'')); overrides = overrides_of (fy_file s);
          existing = obj_or_empty (jget (JObj overrides) asset) in
      if \<not> sy_enabled cfg then (Inr (override_refused True [] ''topology_override_disabled''), s)
      else if \<not> is_obj artifact then (Inl AttributeError, s)
      else case override_refusal cfg artifact of Some r \<Rightarrow> (Inr r, s)
      | None \<Rightarrow> (case py_dict (py_or (jget existing ''patch'') (JObj [])) of Inl e \<Rightarrow> (Inl e, s)
      | Inr old \<Rightarrow>
         let entry = override_entry cfg now artifact asset tenant (strip (str_or_empty (jget artifact ''sensor_id''))) source
                       (merge_patch (obj_items (jget artifact ''patch'')) old);
             entry_tenant = py_str (jget entry ''tenant_id'') in
         if py_eq existing entry then (Inr (override_accepted False asset entry_tenant), s)
         else (Inr (override_accepted True asset entry_tenant),
           s\<lparr>fy_file := Doc (override_doc cfg now entry_tenant (dict_put asset entry overrides)),
             fy_stamp := Text (stamp_text now (asset @ '':'' @ py_str (jget entry ''issued_at'')))\<rparr>)))"

subsection \<open>Overrides in a snapshot\<close>

definition manual_entry :: "json \<Rightarrow> json list" where
  "manual_entry entry = (let patch = jget entry ''patch'' in
     if \<not> is_obj entry \<or> \<not> is_obj patch \<or> \<not> truthy patch then []
     else [JObj [(''asset_id'', JStr (str_or_empty (jget entry ''asset_id''))), (''patch'', JObj (obj_items patch)),
            (''manual_override'', JBool True), (''evidence_sources'', JList [JStr ''manual_tag'']),
            (''issued_at'', jget entry ''issued_at''), (''source'', py_or (jget entry ''source'') (JStr ''mqtt''))]])"

definition build_manual_override_list :: "json \<Rightarrow> json list" where
  "build_manual_override_list state = (let overrides = jget state ''overrides'' in
     if \<not> is_obj overrides then [] else concat (map (\<lambda>p. manual_entry (snd p)) (obj_items overrides)))"

definition merge_manual_overrides :: "json \<Rightarrow> json \<Rightarrow> json" where
  "merge_manual_overrides snapshot state = (let manual = build_manual_override_list state in
     if manual = [] then snapshot
     else let observed = obj_items (obj_or_empty (jget snapshot ''observed'')) in
       JObj (dict_put ''observed'' (JObj (dict_put ''topology_manual_overrides'' (JList manual) observed)) (obj_items snapshot)))"

subsection \<open>Growth of the topology\<close>

definition py_len :: "json \<Rightarrow> int res" where
  "py_len v = bind_res (py_list v) (\<lambda>xs. Inr (int (length xs)))"

definition topology_count :: "json \<Rightarrow> string \<Rightarrow> int res" where
  "topology_count topo k = py_len (py_or (jget topo k) (JList []))"

definition read_topology_counts :: "jfile \<Rightarrow> (int \<times> int \<times> int) res" where
  "read_topology_counts f =
     (let topo = obj_or_empty (jget (obj_or_empty (jget (read_object f) ''observed'')) ''topology'') in
      bind_res (topology_count topo ''assets'') (\<lambda>a. bind_res (topology_count topo ''conduits'') (\<lambda>c.
      bind_res (topology_count topo ''external_entities'') (\<lambda>e. Inr (a, c, e)))))"

definition grown :: "json \<Rightarrow> string \<Rightarrow> int \<Rightarrow> int res" where
  "grown prev k current = bind_res (py_int (py_or (jget prev k) (JInt 0))) (\<lambda>n. Inr (max 0 (current - n)))"

definition compute_topology_delta :: "jfile \<Rightarrow> json \<Rightarrow> (int \<times> int \<times> int) option res" where
  "compute_topology_delta f prev_counts = bind_res (read_topology_counts f) (\<lambda>(a, c, e).
     if a = 0 \<and> c = 0 \<and> e = 0 then Inr None
     else let prev = obj_or_empty prev_counts in
       bind_res (grown prev ''assets'' a) (\<lambda>da. bind_res (grown prev ''conduits'' c) (\<lambda>dc.
       bind_res (grown prev ''external'' e) (\<lambda>de. Inr (Some (da, dc, de))))))"

section \<open>Lemmas\<close>

subsection \<open>Texts taken from an artifact\<close>

lemma repr_nonempty [simp]: "repr v \<noteq> []"
  by (cases v) (auto simp: dec_int_def repr_float_def repr_str_def Let_def)

lemma py_str_truthy: "truthy v \<Longrightarrow> py_str v \<noteq> []"
  by (cases v) (simp_all flip: repr.simps)

lemma py_str_or: "py_str (py_or v (JStr d)) = [] \<Longrightarrow> d = []"
  by (auto simp: py_or_def split: if_splits dest: py_str_truthy)

lemma first_text_nonempty: "d \<noteq> [] \<Longrightarrow> first_text vs d \<noteq> []"
  by (induction vs) (auto simp: first_text_def py_or_def dest: py_str_truthy)

text \<open>A value among the candidates that counts makes the default irrelevant.\<close>

lemma first_text_fixed: "list_ex truthy vs \<Longrightarrow> first_text vs d = first_text vs d'"
  by (induction vs) (auto simp: first_text_def py_or_def)

lemma first_text_fixed_nonempty: "list_ex truthy vs \<Longrightarrow> first_text vs d \<noteq> []"
  by (induction vs) (auto simp: first_text_def py_or_def dest: py_str_truthy)

lemma py_or_text [simp]: "py_or (JStr t) v = (if t = [] then v else JStr t)"
  by (simp add: py_or_def)

lemma read_written [simp]: "read_object (Doc (JObj d)) = JObj d"
  by (simp add: obj_or_empty_def)

subsection \<open>Every push keeps the contract\<close>

text \<open>The artifacts an enabled agent takes, and what it does with them.\<close>

definition mode_of_artifact :: "json \<Rightarrow> string" where
  "mode_of_artifact a = lower (strip (str_or_empty (jget a ''mode'')))"

definition takes_mode :: "sync_config \<Rightarrow> json \<Rightarrow> bool" where
  "takes_mode cfg a = (sy_enabled cfg \<and> is_obj a \<and> mode_of_artifact a \<in> VALID_MODES \<and>
     strip (str_or_empty (jget a ''sensor_id'')) \<in> {[], sy_sensor_id cfg})"

definition stored_mode :: "sync_config \<Rightarrow> string \<Rightarrow> string \<Rightarrow> string \<Rightarrow> json \<Rightarrow> mode_sync \<Rightarrow> mode_sync" where
  "stored_mode cfg tenant source now a s =
     (let abort = strip (str_or_empty (jget a ''abort_session_id'')); session = session_text (jget a ''session_id'');
          version = first_text [jget a ''version'', jget a ''updated_at''] now in
      s\<lparr>my_mode := Doc (mode_payload cfg now a (read_object (my_mode s)) tenant (mode_of_artifact a) session version source),
        my_stamp := Text (stamp_text now version),
        my_session := next_session cfg now abort (mode_of_artifact a) session tenant (capture_block (jget a ''capture'')) (my_session s)\<rparr>)"

definition knows_mode :: "string \<Rightarrow> string \<Rightarrow> json \<Rightarrow> mode_sync \<Rightarrow> bool" where
  "knows_mode tenant now a s = mode_known (read_object (my_mode s)) (mode_of_artifact a) (session_text (jget a ''session_id''))
     tenant (first_text [jget a ''version'', jget a ''updated_at''] now) (strip (str_or_empty (jget a ''abort_session_id'')))"

lemma apply_mode_taken: "takes_mode cfg a \<Longrightarrow> apply_mode cfg tenant source now a s =
    (mode_accepted (\<not> knows_mode tenant now a s) (mode_of_artifact a) (session_text (jget a ''session_id'')) tenant,
     if knows_mode tenant now a s then s else stored_mode cfg tenant source now a s)"
  by (auto simp: takes_mode_def apply_mode_def Let_def mode_of_artifact_def knows_mode_def stored_mode_def)

lemma apply_mode_refused: "\<not> takes_mode cfg a \<Longrightarrow> \<exists>ok e. apply_mode cfg tenant source now a s = (mode_refused ok e, s)"
  by (auto simp: takes_mode_def apply_mode_def Let_def mode_of_artifact_def)

lemma mode_result_simps [simp]:
  "mr_changed (mode_accepted c m i t) = c" "mr_ok (mode_accepted c m i t)" "mr_error (mode_accepted c m i t) = None"
  "mr_mode (mode_accepted c m i t) = m" "\<not> mr_changed (mode_refused ok e)" "mr_error (mode_refused ok e) = Some e"
  by (simp_all add: mode_accepted_def mode_refused_def)

lemma stored_mode_known:
  assumes "list_ex truthy [jget a ''version'', jget a ''updated_at'']" and "str_or_empty (jget a ''abort_session_id'') = []"
  shows "knows_mode tenant now' a (stored_mode cfg tenant source now a s)"
proof -
  have "first_text [jget a ''version'', jget a ''updated_at''] now' = first_text [jget a ''version'', jget a ''updated_at''] now"
    "first_text [jget a ''version'', jget a ''updated_at''] now \<noteq> []"
    by (rule first_text_fixed [OF assms(1)], rule first_text_fixed_nonempty [OF assms(1)])
  moreover have "strip (str_or_empty (jget a ''abort_session_id'')) = []"
    by (simp add: assms(2) strip_def lstrip_def rstrip_def)
  ultimately show ?thesis
    by (simp add: knows_mode_def stored_mode_def Let_def mode_known_def mode_payload_def obj_or_empty_def)
qed

interpretation mode_push: artifact_push "apply_mode cfg tenant source" mr_ok mr_changed
  "\<lambda>a s. list_ex truthy [jget a ''version'', jget a ''updated_at''] \<and> str_or_empty (jget a ''abort_session_id'') = []"
proof
  fix now a and s :: mode_sync
  show "snd (apply_mode cfg tenant source now a s) = s" if "\<not> mr_changed (fst (apply_mode cfg tenant source now a s))"
    using that apply_mode_taken [of cfg a tenant source now s] apply_mode_refused [of cfg a tenant source now s]
    by (cases "takes_mode cfg a") (auto split: if_splits)
next
  fix a now now' and s :: mode_sync
  assume v: "list_ex truthy [jget a ''version'', jget a ''updated_at''] \<and> str_or_empty (jget a ''abort_session_id'') = []"
    and c: "mr_changed (fst (apply_mode cfg tenant source now a s))"
  then have "takes_mode cfg a"
    using apply_mode_refused [of cfg a tenant source now s] by (metis fst_conv mode_result_simps(5))
  moreover have "\<not> knows_mode tenant now a s" using c apply_mode_taken [OF calculation] by simp
  ultimately show "mr_ok (fst (apply_mode cfg tenant source now' a (snd (apply_mode cfg tenant source now a s)))) \<and>
      \<not> mr_changed (fst (apply_mode cfg tenant source now' a (snd (apply_mode cfg tenant source now a s))))"
    using v by (simp add: apply_mode_taken stored_mode_known)
qed

lemma profile_result_simps [simp]:
  "pr_changed (profile_accepted c i v t) = c" "pr_ok (profile_accepted c i v t)" "\<not> pr_changed (profile_refused ok e)"
  by (simp_all add: profile_accepted_def profile_refused_def)

interpretation profile_push: artifact_push "apply_profile cfg tenant source" pr_ok pr_changed
  "\<lambda>a s. list_ex truthy [jget a ''version'', jget a ''updated_at'']"
proof
  fix now a and s :: file_sync
  show "snd (apply_profile cfg tenant source now a s) = s" if "\<not> pr_changed (fst (apply_profile cfg tenant source now a s))"
    using that by (auto simp: apply_profile_def Let_def split: if_splits)
next
  fix a now now' and s :: file_sync
  assume v: "list_ex truthy [jget a ''version'', jget a ''updated_at'']"
    and c: "pr_changed (fst (apply_profile cfg tenant source now a s))"
  have k: "first_text [jget a ''version'', jget a ''updated_at''] now' = first_text [jget a ''version'', jget a ''updated_at''] now"
    by (rule first_text_fixed [OF v])
  have p: "profile_payload cfg now a e tenant pid ver source \<noteq> JNull" "truthy (profile_payload cfg now a e tenant pid ver source)"
    "jget (profile_payload cfg now a e tenant pid ver source) ''profile_id'' = JStr pid"
    "jget (profile_payload cfg now a e tenant pid ver source) ''version'' = JStr ver"
    "jget (profile_payload cfg now a e tenant pid ver source) ''tenant_id'' = JStr tenant"
    "is_obj (profile_payload cfg now a e tenant pid ver source)" for e pid ver
    by (simp_all add: profile_payload_def)
  show "pr_ok (fst (apply_profile cfg tenant source now' a (snd (apply_profile cfg tenant source now a s)))) \<and>
      \<not> pr_changed (fst (apply_profile cfg tenant source now' a (snd (apply_profile cfg tenant source now a s))))"
    using c by (auto simp: apply_profile_def Let_def k p obj_or_empty_def split: if_splits)
qed

lemma policy_result_simps [simp]:
  "po_changed (policy_accepted c v si t) = c" "po_ok (policy_accepted c v si t)" "\<not> po_changed (policy_refused ok e)"
  by (simp_all add: policy_accepted_def policy_refused_def)

lemma policy_payload_known:
  "version \<noteq> [] \<Longrightarrow> policy_known (policy_payload now a schema tenant site version source parts) version tenant = Inr True"
  by (simp add: policy_known_def policy_payload_def jget_res_def)

lemma policy_refusal_unchanged: "policy_refusal cfg a schema = Some r \<Longrightarrow> \<not> po_changed r"
  by (auto simp: policy_refusal_def Let_def split: if_splits)

lemma apply_policy_unchanged:
  "\<not> gives po_changed (fst (apply_policy cfg tenant source now a s)) \<Longrightarrow> snd (apply_policy cfg tenant source now a s) = s"
  by (auto simp: apply_policy_def Let_def split: option.splits sum.splits bool.splits)

lemma apply_policy_changed:
  assumes "gives po_changed (fst (apply_policy cfg tenant source now a s))"
  obtains parts version schema where
    "version = strip (str_or_empty (py_or (jget a ''version'') (jget a ''artifact_version'')))"
    "schema = strip (first_text [jget a ''schema_version''] POLICY_SCHEMA)"
    "policy_refusal cfg a schema = None" "policy_parts schema a (stored_policy (fy_file s)) = Inr parts"
    "snd (apply_policy cfg tenant source now a s) = s\<lparr>fy_file := Doc (policy_payload now a schema tenant
       (strip (str_or_empty (jget a ''site_id''))) (if version = [] then now else version) source parts),
       fy_stamp := Text (stamp_text now (if version = [] then now else version))\<rparr>"
  using assms that
  by (simp add: apply_policy_def Let_def policy_refusal_unchanged split: option.splits sum.splits bool.splits)

interpretation policy_push: artifact_push "apply_policy cfg tenant source" "gives po_ok" "gives po_changed"
  "\<lambda>a s. strip (str_or_empty (py_or (jget a ''version'') (jget a ''artifact_version''))) \<noteq> []"
proof
  fix now a and s :: file_sync
  show "snd (apply_policy cfg tenant source now a s) = s" if "\<not> gives po_changed (fst (apply_policy cfg tenant source now a s))"
    by (rule apply_policy_unchanged [OF that])
next
  fix a now now' and s :: file_sync
  assume v: "strip (str_or_empty (py_or (jget a ''version'') (jget a ''artifact_version''))) \<noteq> []"
    and c: "gives po_changed (fst (apply_policy cfg tenant source now a s))"
  from c obtain parts version schema where p:
    "version = strip (str_or_empty (py_or (jget a ''version'') (jget a ''artifact_version'')))"
    "schema = strip (first_text [jget a ''schema_version''] POLICY_SCHEMA)" "policy_refusal cfg a schema = None"
    "snd (apply_policy cfg tenant source now a s) = s\<lparr>fy_file := Doc (policy_payload now a schema tenant
       (strip (str_or_empty (jget a ''site_id''))) (if version = [] then now else version) source parts),
       fy_stamp := Text (stamp_text now (if version = [] then now else version))\<rparr>"
    by (rule apply_policy_changed)
  have "version \<noteq> []" using v p(1) by simp
  then show "gives po_ok (fst (apply_policy cfg tenant source now' a (snd (apply_policy cfg tenant source now a s)))) \<and>
      \<not> gives po_changed (fst (apply_policy cfg tenant source now' a (snd (apply_policy cfg tenant source now a s))))"
    unfolding p(4) using p(3)
    by (simp add: apply_policy_def [of cfg tenant source now'] Let_def policy_payload_known p(1,2) [symmetric])
qed

subsection \<open>Patches\<close>

definition patch_texts :: "(string \<times> json) list \<Rightarrow> (string \<times> json) list" where
  "patch_texts patch = map (\<lambda>(k, v). (k, JStr (strip (py_str v)))) (filter (\<lambda>(k, v). v \<noteq> JNull \<and> strip (py_str v) \<noteq> []) patch)"

lemma merge_patch_update: "merge_patch patch old = dict_update old (patch_texts patch)"
  unfolding merge_patch_def patch_texts_def dict_update_def
  by (induction patch arbitrary: old) (auto simp: Let_def split: if_splits)

lemma patch_texts_distinct: "distinct (map fst patch) \<Longrightarrow> distinct (map fst (patch_texts patch))"
  by (auto simp: patch_texts_def distinct_map comp_def inj_on_def split_beta intro: distinct_filter)

lemma patch_texts_lookup:
  assumes "distinct (map fst patch)"
  shows "map_of (patch_texts patch) k = (case map_of patch k of None \<Rightarrow> None
    | Some v \<Rightarrow> if v = JNull \<or> strip (py_str v) = [] then None else Some (JStr (strip (py_str v))))"
  using assms
proof (induction patch)
  case (Cons p patch)
  moreover have "map_of patch (fst p) = None" using Cons.prems by (simp add: map_of_eq_None_iff)
  ultimately show ?case by (cases p) (auto simp: patch_texts_def)
qed (simp add: patch_texts_def)

lemma dict_put_kept: "dict_get d k = Some v \<Longrightarrow> dict_put k v d = d"
  by (induction d) (auto split: if_splits)

lemma dict_update_same: "(\<And>k v. (k, v) \<in> set b \<Longrightarrow> dict_get a k = Some v) \<Longrightarrow> dict_update a b = a"
  by (induction b) (auto simp: dict_update_def dict_put_kept)

lemma map_of_rev_distinct:
  assumes "distinct (map fst xs)"
  shows "map_of (rev xs) = map_of xs"
proof
  fix k
  have d: "distinct (map fst (rev xs))" using assms by (metis distinct_rev rev_map)
  have "map_of (rev xs) k = Some v \<longleftrightarrow> map_of xs k = Some v" for v
    by (simp add: map_of_eq_Some_iff [OF d] map_of_eq_Some_iff [OF assms])
  then show "map_of (rev xs) k = map_of xs k" by (cases "map_of xs k") (auto intro: option.exhaust)
qed

lemma merge_patch_again:
  assumes "distinct (map fst patch)"
  shows "merge_patch patch (merge_patch patch old) = merge_patch patch old"
proof -
  have d: "distinct (map fst (patch_texts patch))" by (rule patch_texts_distinct [OF assms])
  have "map_of (rev (patch_texts patch)) k = Some v" if "(k, v) \<in> set (patch_texts patch)" for k v
    using that map_of_rev_distinct [OF d] by (simp add: d)
  then show ?thesis
    by (simp add: merge_patch_update dict_get_update dict_update_same)
qed

lemma override_result_simps [simp]:
  "or_changed (override_accepted c i t) = c" "or_ok (override_accepted c i t)" "\<not> or_changed (override_refused ok i e)"
  by (simp_all add: override_accepted_def override_refused_def)

lemma override_refusal_unchanged: "override_refusal cfg a = Some r \<Longrightarrow> \<not> or_changed r"
  by (auto simp: override_refusal_def Let_def split: if_splits)

lemma apply_override_unchanged:
  "\<not> gives or_changed (fst (apply_override cfg tenant source now a s)) \<Longrightarrow> snd (apply_override cfg tenant source now a s) = s"
  by (auto simp: apply_override_def Let_def split: option.splits sum.splits if_splits)

definition artifact_entry :: "sync_config \<Rightarrow> string \<Rightarrow> string \<Rightarrow> string \<Rightarrow> json \<Rightarrow> (string \<times> json) list \<Rightarrow> json" where
  "artifact_entry cfg tenant source now a old = override_entry cfg now a (strip (str_or_empty (jget a ''asset_id''))) tenant
     (strip (str_or_empty (jget a ''sensor_id''))) source (merge_patch (obj_items (jget a ''patch'')) old)"

lemma get_override_eq: "get_override f asset = obj_or_empty (jget (JObj (overrides_of f)) asset)"
proof (cases "jget (override_state f) ''overrides''")
  case (JObj d)
  then show ?thesis by (cases d) (simp_all add: get_override_def overrides_of_def py_or_def)
qed (simp_all add: get_override_def overrides_of_def py_or_def jget_def)

lemma apply_override_changed:
  assumes "gives or_changed (fst (apply_override cfg tenant source now a s))"
  obtains old entry asset where "asset = strip (str_or_empty (jget a ''asset_id''))" "entry = artifact_entry cfg tenant source now a old"
    "sy_enabled cfg" "is_obj a" "override_refusal cfg a = None"
    "py_dict (py_or (jget (get_override (fy_file s) asset) ''patch'') (JObj [])) = Inr old"
    "snd (apply_override cfg tenant source now a s) =
       s\<lparr>fy_file := Doc (override_doc cfg now (py_str (jget entry ''tenant_id'')) (dict_put asset entry (overrides_of (fy_file s)))),
         fy_stamp := Text (stamp_text now (asset @ '':'' @ py_str (jget entry ''issued_at'')))\<rparr>"
  using assms that
  by (auto simp: apply_override_def Let_def override_refusal_unchanged artifact_entry_def get_override_eq
      split: option.splits sum.splits if_splits)

lemma overrides_of_doc [simp]: "overrides_of (Doc (override_doc cfg now tenant d)) = d"
  by (simp add: overrides_of_def override_doc_def override_state_def)

lemma artifact_entry_again:
  assumes "truthy (jget a ''issued_at'')" and "distinct (map fst (obj_items (jget a ''patch'')))"
  shows "artifact_entry cfg tenant source now' a (merge_patch (obj_items (jget a ''patch'')) old) = artifact_entry cfg tenant source now a old"
  using assms
  by (simp add: artifact_entry_def override_entry_def merge_patch_again first_text_def py_or_def)

lemma artifact_entry_simps [simp]:
  "is_obj (artifact_entry cfg tenant source now a old)"
  "jget (artifact_entry cfg tenant source now a old) ''patch'' = JObj (merge_patch (obj_items (jget a ''patch'')) old)"
  by (simp_all add: artifact_entry_def override_entry_def)

lemma py_dict_patch [simp]: "py_dict (py_or (JObj d) (JObj [])) = Inr d"
  by (simp add: py_or_def)

interpretation override_push: artifact_push "apply_override cfg tenant source" "gives or_ok" "gives or_changed"
  "\<lambda>a s. truthy (jget a ''issued_at'') \<and> distinct (map fst (obj_items (jget a ''patch'')))"
proof
  fix now a and s :: file_sync
  show "snd (apply_override cfg tenant source now a s) = s"
    if "\<not> gives or_changed (fst (apply_override cfg tenant source now a s))"
    by (rule apply_override_unchanged [OF that])
next
  fix a now now' and s :: file_sync
  assume v: "truthy (jget a ''issued_at'') \<and> distinct (map fst (obj_items (jget a ''patch'')))"
    and "gives or_changed (fst (apply_override cfg tenant source now a s))"
  from this(2) obtain old entry asset where p: "asset = strip (str_or_empty (jget a ''asset_id''))"
    "entry = artifact_entry cfg tenant source now a old" "sy_enabled cfg" "is_obj a" "override_refusal cfg a = None"
    "snd (apply_override cfg tenant source now a s) =
       s\<lparr>fy_file := Doc (override_doc cfg now (py_str (jget entry ''tenant_id'')) (dict_put asset entry (overrides_of (fy_file s)))),
         fy_stamp := Text (stamp_text now (asset @ '':'' @ py_str (jget entry ''issued_at'')))\<rparr>"
    by (rule apply_override_changed)
  have e: "obj_or_empty (jget (JObj (dict_put asset entry d)) asset) = entry" for d
    by (simp add: jget_def obj_or_empty_def p(2))
  have "jget entry ''patch'' = JObj (merge_patch (obj_items (jget a ''patch'')) old)"
    "artifact_entry cfg tenant source now' a (merge_patch (obj_items (jget a ''patch'')) old) = entry"
    using v by (simp_all add: p(2) artifact_entry_again)
  then show "gives or_ok (fst (apply_override cfg tenant source now' a (snd (apply_override cfg tenant source now a s)))) \<and>
      \<not> gives or_changed (fst (apply_override cfg tenant source now' a (snd (apply_override cfg tenant source now a s))))"
    unfolding p(6) using p(3-5)
    by (simp add: apply_override_def [of cfg tenant source now'] Let_def p(1) [symmetric] e artifact_entry_def)
qed

subsection \<open>The form of the mode files\<close>

definition mode_doc_ok :: "sync_config \<Rightarrow> json \<Rightarrow> bool" where
  "mode_doc_ok cfg v = (is_obj v \<and> jget v ''mode'' \<in> JStr ` VALID_MODES \<and> jget v ''sensor_id'' = JStr (sy_sensor_id cfg) \<and>
     (jget v ''session_id'' = JNull \<or> (\<exists>i. i \<noteq> [] \<and> jget v ''session_id'' = JStr i)) \<and>
     (\<exists>u. jget v ''updated_at'' = JStr u) \<and> (\<exists>u. jget v ''source'' = JStr u))"

definition session_doc_ok :: "sync_config \<Rightarrow> json \<Rightarrow> bool" where
  "session_doc_ok cfg v = (is_obj v \<and> jget v ''status'' = JStr ''active'' \<and> jget v ''sensor_id'' = JStr (sy_sensor_id cfg) \<and>
     (\<exists>i. i \<noteq> [] \<and> jget v ''session_id'' = JStr i) \<and>
     (jget v ''operational_mode'' = JStr ''listen'' \<and> jget v ''session_kind'' = JStr ''observe'' \<or>
      jget v ''operational_mode'' = JStr ''learning'' \<and> jget v ''session_kind'' = JStr ''learn''))"

definition file_ok :: "(json \<Rightarrow> bool) \<Rightarrow> jfile \<Rightarrow> bool" where
  "file_ok P f = (case f of Absent \<Rightarrow> True | Doc v \<Rightarrow> P v | _ \<Rightarrow> False)"

definition mode_sync_ok :: "sync_config \<Rightarrow> mode_sync \<Rightarrow> bool" where
  "mode_sync_ok cfg s = (file_ok (mode_doc_ok cfg) (my_mode s) \<and> file_ok (session_doc_ok cfg) (my_session s))"

lemma mode_payload_ok: "mode \<in> VALID_MODES \<Longrightarrow> mode_doc_ok cfg (mode_payload cfg now a e tenant mode session version source)"
  by (simp add: mode_doc_ok_def mode_payload_def)

lemma write_session_ok:
  "mode \<in> {''listen'', ''learning''} \<Longrightarrow> session \<noteq> [] \<Longrightarrow> file_ok (session_doc_ok cfg) (write_session cfg now session mode tenant capture)"
  by (auto simp: file_ok_def write_session_def session_doc_ok_def session_kind_def)

lemma clear_session_ok: "file_ok P f \<Longrightarrow> file_ok P (clear_session abort f)"
  by (auto simp: file_ok_def clear_session_def split: jfile.splits)

lemma next_session_ok: "file_ok (session_doc_ok cfg) f \<Longrightarrow>
    file_ok (session_doc_ok cfg) (next_session cfg now abort mode session tenant capture f)"
  by (simp add: next_session_def clear_session_ok write_session_ok)

lemma apply_mode_ok: "mode_sync_ok cfg s \<Longrightarrow> mode_sync_ok cfg (snd (apply_mode cfg tenant source now a s))"
proof (cases "takes_mode cfg a")
  case True
  then have "mode_of_artifact a \<in> VALID_MODES" by (simp add: takes_mode_def)
  moreover assume "mode_sync_ok cfg s"
  ultimately show ?thesis
    by (simp add: apply_mode_taken [OF True] mode_sync_ok_def stored_mode_def Let_def next_session_ok mode_payload_ok)
      (simp add: file_ok_def mode_payload_ok)
next
  case False
  moreover assume "mode_sync_ok cfg s"
  ultimately show ?thesis using apply_mode_refused [OF False, of tenant source now s] by auto
qed

lemma ensure_defaults_ok: "mode_sync_ok cfg s \<Longrightarrow> mode_sync_ok cfg (snd (ensure_defaults cfg now s))"
  by (auto simp: ensure_defaults_def mode_sync_ok_def file_ok_def mode_doc_ok_def VALID_MODES_def)

text \<open>What happens to the files: the agent starts, or an artifact arrives.\<close>

datatype mode_event = Started string | Pushed string string string json

fun mode_event_step :: "sync_config \<Rightarrow> mode_event \<Rightarrow> mode_sync \<Rightarrow> mode_sync" where
  "mode_event_step cfg (Started now) s = snd (ensure_defaults cfg now s)"
| "mode_event_step cfg (Pushed tenant source now a) s = snd (apply_mode cfg tenant source now a s)"

definition no_mode_files :: mode_sync where
  "no_mode_files = \<lparr>my_mode = Absent, my_stamp = NoFile, my_session = Absent\<rparr>"

lemma mode_run_ok: "mode_sync_ok cfg s \<Longrightarrow> mode_sync_ok cfg (fold (mode_event_step cfg) es s)"
proof (induction es arbitrary: s)
  case (Cons e es)
  then show ?case by (cases e) (simp_all add: apply_mode_ok ensure_defaults_ok)
qed simp

section \<open>Properties\<close>

text \<open>
  C6. Whatever artifacts arrive, and however often the agent starts, the files it writes for the
  sensor keep their form: the mode file is absent or names one of the four modes, this sensor, and
  a session that is null or a non-empty text; the session file is absent or describes an active
  session of the listen or learning mode with the kind that belongs to it.
\<close>

theorem mode_files_typed: "mode_sync_ok cfg (fold (mode_event_step cfg) es no_mode_files)"
  by (rule mode_run_ok) (simp add: mode_sync_ok_def no_mode_files_def file_ok_def)

lemma valid_mode_text: "m \<in> VALID_MODES \<Longrightarrow> lower (strip m) = m \<and> m \<noteq> []"
  by (auto simp: VALID_MODES_def strip_def lstrip_def rstrip_def is_space_def chr_code_def lower_def lower_char_def)

lemma applied_mode_file:
  assumes "takes_mode cfg a"
  shows "str_or_empty (jget (read_object (my_mode (snd (apply_mode cfg tenant source now a s)))) ''mode'') = mode_of_artifact a"
proof (cases "knows_mode tenant now a s")
  case True
  then show ?thesis by (simp add: apply_mode_taken [OF assms] knows_mode_def mode_known_def)
next
  case False
  then show ?thesis
    by (simp add: apply_mode_taken [OF assms] stored_mode_def Let_def mode_payload_def obj_or_empty_def)
qed

text \<open>
  C5. An operational mode the agent accepts is the mode the packet sensor runs in: after an
  artifact was applied without an error, changed or known, a sensor whose stamp is not the one on
  disk and whose reload interval has passed answers exactly the mode the result names.
\<close>

theorem mode_push_reaches_sensor:
  assumes "apply_mode cfg tenant source now a s = (r, s')" and "mr_error r = None"
    and "md_interval st \<le> t - md_last_check st" and "read_stamp (my_stamp s') \<noteq> md_last_stamp st"
  shows "snd (store_mode t \<lparr>mf_mode = my_mode s', mf_stamp = my_stamp s'\<rparr> st) = mr_mode r \<and> mr_mode r \<in> VALID_MODES"
proof -
  have taken: "takes_mode cfg a"
    using assms(1,2) apply_mode_refused [of cfg a tenant source now s] by (metis fst_conv mode_result_simps(6) option.distinct(1))
  have r: "mr_mode r = mode_of_artifact a" "mr_mode r \<in> VALID_MODES"
    using assms(1) taken by (auto simp: apply_mode_taken [OF taken] takes_mode_def split: if_splits)
  have "md_artifact (snd (mode_reload False t \<lparr>mf_mode = my_mode s', mf_stamp = my_stamp s'\<rparr> st)) = read_object (my_mode s')"
    using mode_rs.loaded [of False st t "\<lparr>mf_mode = my_mode s', mf_stamp = my_stamp s'\<rparr>"] assms(3,4) by simp
  then show ?thesis
    using applied_mode_file [OF taken, of tenant source now s] assms(1) r valid_mode_text [OF r(2)]
    by (simp add: store_mode_def Let_def mode_of_def str_or_empty_def py_or_def split: if_splits)
qed

definition demo_sync :: sync_config where
  "demo_sync = \<lparr>sy_enabled = True, sy_sensor_id = ''edge-1''\<rparr>"

theorem mode_push_reaches_sensor_witness:
  "snd (store_mode 10 \<lparr>mf_mode = my_mode (snd (apply_mode demo_sync ''t1'' ''mqtt'' ''2026-01-01T00:00:00Z''
        (JObj [(''mode'', JStr '' Detect'')]) no_mode_files)),
       mf_stamp = my_stamp (snd (apply_mode demo_sync ''t1'' ''mqtt'' ''2026-01-01T00:00:00Z''
        (JObj [(''mode'', JStr '' Detect'')]) no_mode_files))\<rparr>
     (mode_store_init 5 ''listen'' 1 \<lparr>mf_mode = Absent, mf_stamp = NoFile\<rparr>)) \<in> VALID_MODES"
proof -
  have "snd (store_mode 10 \<lparr>mf_mode = my_mode (snd (apply_mode demo_sync ''t1'' ''mqtt'' ''2026-01-01T00:00:00Z''
        (JObj [(''mode'', JStr '' Detect'')]) no_mode_files)),
       mf_stamp = my_stamp (snd (apply_mode demo_sync ''t1'' ''mqtt'' ''2026-01-01T00:00:00Z''
        (JObj [(''mode'', JStr '' Detect'')]) no_mode_files))\<rparr>
     (mode_store_init 5 ''listen'' 1 \<lparr>mf_mode = Absent, mf_stamp = NoFile\<rparr>)) =
     mr_mode (fst (apply_mode demo_sync ''t1'' ''mqtt'' ''2026-01-01T00:00:00Z'' (JObj [(''mode'', JStr '' Detect'')]) no_mode_files)) \<and>
     mr_mode (fst (apply_mode demo_sync ''t1'' ''mqtt'' ''2026-01-01T00:00:00Z'' (JObj [(''mode'', JStr '' Detect'')]) no_mode_files))
       \<in> VALID_MODES"
  proof (rule mode_push_reaches_sensor [OF prod.collapse [symmetric]])
    show "mr_error (fst (apply_mode demo_sync ''t1'' ''mqtt'' ''2026-01-01T00:00:00Z'' (JObj [(''mode'', JStr '' Detect'')]) no_mode_files)) = None"
      by code_simp
    show "read_stamp (my_stamp (snd (apply_mode demo_sync ''t1'' ''mqtt'' ''2026-01-01T00:00:00Z'' (JObj [(''mode'', JStr '' Detect'')]) no_mode_files)))
        \<noteq> md_last_stamp (mode_store_init 5 ''listen'' 1 \<lparr>mf_mode = Absent, mf_stamp = NoFile\<rparr>)"
      by code_simp
    show "md_interval (mode_store_init 5 ''listen'' 1 \<lparr>mf_mode = Absent, mf_stamp = NoFile\<rparr>)
        \<le> 10 - md_last_check (mode_store_init 5 ''listen'' 1 \<lparr>mf_mode = Absent, mf_stamp = NoFile\<rparr>)"
      by (simp add: mode_store_init_def mode_reload_def Let_def)
  qed
  then show ?thesis by (metis (lifting))
qed

lemma merged_lookup:
  assumes "distinct (map fst patch)"
  shows "jget (JObj (merge_patch patch old)) k = (let v = jget (JObj patch) k in
     if v = JNull \<or> strip (py_str v) = [] then jget (JObj old) k else JStr (strip (py_str v)))"
  using patch_texts_lookup [OF assms, of k]
  by (simp add: merge_patch_update jget_def dict_get_update map_of_rev_distinct [OF patch_texts_distinct [OF assms]])
    (simp add: dict_get_def jget_def Let_def split: option.split)

lemma old_patch_lookup: "py_dict (py_or v (JObj [])) = Inr old \<Longrightarrow> jget (JObj old) k = jget v k"
  by (cases v) (auto simp: py_or_def jget_def split: if_splits)

text \<open>
  C7. Overrides pile up and stay apart: an override artifact that changed the store leaves every
  other asset's entry as it was; the asset's own patch then has, for each key, the artifact's text
  when that is not blank and what it had before otherwise; and the same artifact delivered again,
  any number of times, changes nothing, when it carries its own time of issue.
\<close>

theorem override_merges:
  assumes "gives or_changed (fst (apply_override cfg tenant source now a s))"
    and "distinct (map fst (obj_items (jget a ''patch'')))"
  shows "(\<forall>other. other \<noteq> strip (str_or_empty (jget a ''asset_id'')) \<longrightarrow>
       get_override (fy_file (snd (apply_override cfg tenant source now a s))) other = get_override (fy_file s) other) \<and>
     (\<forall>k. jget (jget (get_override (fy_file (snd (apply_override cfg tenant source now a s)))
           (strip (str_or_empty (jget a ''asset_id'')))) ''patch'') k =
        (let v = jget (jget a ''patch'') k in
         if v = JNull \<or> strip (py_str v) = []
         then jget (jget (get_override (fy_file s) (strip (str_or_empty (jget a ''asset_id'')))) ''patch'') k
         else JStr (strip (py_str v)))) \<and>
     (truthy (jget a ''issued_at'') \<longrightarrow> (\<forall>ts. fold (\<lambda>t s. snd (apply_override cfg tenant source t a s)) ts
        (snd (apply_override cfg tenant source now a s)) = snd (apply_override cfg tenant source now a s)))"
proof (intro conjI impI allI)
  from assms(1) obtain old entry asset where asset_def: "asset = strip (str_or_empty (jget a ''asset_id''))"
    and p: "entry = artifact_entry cfg tenant source now a old" "override_refusal cfg a = None"
    "py_dict (py_or (jget (get_override (fy_file s) asset) ''patch'') (JObj [])) = Inr old"
    and s: "snd (apply_override cfg tenant source now a s) =
       s\<lparr>fy_file := Doc (override_doc cfg now (py_str (jget entry ''tenant_id'')) (dict_put asset entry (overrides_of (fy_file s)))),
         fy_stamp := Text (stamp_text now (asset @ '':'' @ py_str (jget entry ''issued_at'')))\<rparr>"
    by (rule apply_override_changed)
  have o: "overrides_of (fy_file (snd (apply_override cfg tenant source now a s))) = dict_put asset entry (overrides_of (fy_file s))"
    by (simp add: s)
  show "get_override (fy_file (snd (apply_override cfg tenant source now a s))) other = get_override (fy_file s) other"
    if "other \<noteq> strip (str_or_empty (jget a ''asset_id''))" for other
    using that by (simp add: get_override_eq o asset_def jget_def)
  show "jget (jget (get_override (fy_file (snd (apply_override cfg tenant source now a s)))
           (strip (str_or_empty (jget a ''asset_id'')))) ''patch'') k =
        (let v = jget (jget a ''patch'') k in
         if v = JNull \<or> strip (py_str v) = []
         then jget (jget (get_override (fy_file s) (strip (str_or_empty (jget a ''asset_id'')))) ''patch'') k
         else JStr (strip (py_str v)))" for k
  proof -
    have "jget a ''patch'' = JObj (obj_items (jget a ''patch''))"
      using p(2) by (cases "jget a ''patch''") (auto simp: override_refusal_def Let_def split: if_splits)
    moreover have "get_override (fy_file (snd (apply_override cfg tenant source now a s))) asset = entry"
      by (simp add: get_override_eq p(1) o jget_def obj_or_empty_def)
    ultimately show ?thesis
      using merged_lookup [OF assms(2), of old k] old_patch_lookup [OF p(3), of k]
      by (simp add: asset_def [symmetric] p(1) Let_def)
  qed
  show "fold (\<lambda>t s. snd (apply_override cfg tenant source t a s)) ts (snd (apply_override cfg tenant source now a s)) =
      snd (apply_override cfg tenant source now a s)" if "truthy (jget a ''issued_at'')" for ts
    by (rule override_push.redelivery) (use assms that in simp_all)
qed

theorem override_merges_witness:
  "jget (jget (get_override (fy_file (snd (apply_override demo_sync ''t1'' ''mqtt'' ''now''
     (JObj [(''asset_id'', JStr ''plc-1''), (''patch'', JObj [(''zone'', JStr '' cell '')])])
     \<lparr>fy_file = Absent, fy_stamp = NoFile\<rparr>))) ''plc-1'') ''patch'') ''zone'' = JStr ''cell''"
proof -
  have "gives or_changed (fst (apply_override demo_sync ''t1'' ''mqtt'' ''now''
     (JObj [(''asset_id'', JStr ''plc-1''), (''patch'', JObj [(''zone'', JStr '' cell '')])])
     \<lparr>fy_file = Absent, fy_stamp = NoFile\<rparr>))" by code_simp
  from override_merges [OF this] show ?thesis
    by (simp add: strip_def lstrip_def rstrip_def is_space_def chr_code_def Let_def)
qed

end
