(* ===== verification/Lifecycle.thy ===== *)
theory Lifecycle
  imports Policysync Baseline
begin

text \<open>
  The baseline lifecycle of the edge console (\<open>baseline_service.py\<close>): drift of the live
  observations against the active baseline, the state shown, approving a candidate or the drift,
  the history and its roll back. The state is the files the service reads and writes; the clock is
  an argument, with the three texts the service makes of it. The texts of refusals, which are
  Chinese, are left out: a refusal is its HTTP status.
\<close>

section \<open>Files and reads\<close>

record console_files =
  cf_policy :: jfile
  cf_stamp :: tfile
  cf_candidate :: jfile
  cf_live :: jfile
  cf_state :: jfile

record console_clock =
  cc_iso :: string
  cc_version :: string
  cc_epoch :: int

text \<open>\<open>v.get(k) if isinstance(v.get(k), dict) else {}\<close>\<close>

definition active_iec :: "console_files \<Rightarrow> json" where
  "active_iec s = obj_field (obj_field (read_object (cf_policy s)) ''baseline'') ''iec61850''"

definition live_iec :: "console_files \<Rightarrow> json \<times> string" where
  "live_iec s = (let live = read_object (cf_live s) in
     (obj_field (obj_field live ''observed'') ''iec61850'', str_or_empty (jget live ''generated_at'')))"

section \<open>Learning from an upload\<close>

text \<open>An environment variable that is absent has the default; one that is not a number too.\<close>

definition env_int :: "string option \<Rightarrow> int \<Rightarrow> int" where
  "env_int v default_value = (case v of None \<Rightarrow> max 0 default_value
     | Some t \<Rightarrow> (case parse_int t of Inr n \<Rightarrow> max 0 n | Inl _ \<Rightarrow> default_value))"

text \<open>\<open>_SAFE_NAME.sub("_", name)\<close>: each run of characters outside the class becomes one underscore.\<close>

definition safe_char :: "char \<Rightarrow> bool" where
  "safe_char c = (let n = chr_code c in (48 \<le> n \<and> n \<le> 57) \<or> (65 \<le> n \<and> n \<le> 90) \<or> (97 \<le> n \<and> n \<le> 122) \<or> c \<in> set ''._-'')"

fun sub_unsafe :: "bool \<Rightarrow> string \<Rightarrow> string" where
  "sub_unsafe in_run [] = []"
| "sub_unsafe in_run (c # cs) = (if safe_char c then c # sub_unsafe False cs
     else if in_run then sub_unsafe True cs else CHR ''_'' # sub_unsafe True cs)"

definition strip_char :: "char \<Rightarrow> string \<Rightarrow> string" where
  "strip_char c s = rev (dropWhile (\<lambda>x. x = c) (rev (dropWhile (\<lambda>x. x = c) s)))"

definition ends_with :: "string \<Rightarrow> string \<Rightarrow> bool" where
  "ends_with s suffix = starts_with (rev suffix) (rev s)"

definition capture_name :: "string \<Rightarrow> bool" where
  "capture_name s = list_ex (ends_with (lower s)) [''.pcap'', ''.pcapng'', ''.cap'']"

definition upload_name :: "string \<Rightarrow> string \<Rightarrow> string" where
  "upload_name stamp filename =
     (let safe = strip_char (CHR ''_'') (sub_unsafe False (if filename = [] then ''capture.pcap'' else filename));
          safe = (if safe = [] then ''capture.pcap'' else safe);
          safe = (if capture_name safe then safe else safe @ ''.pcap'') in
      stamp @ ''-'' @ safe)"

definition effective_limit :: "int \<Rightarrow> int \<Rightarrow> int \<Rightarrow> int \<Rightarrow> int \<times> bool" where
  "effective_limit auto_bytes auto_packets nbytes limit =
     (let eff = (if 0 < limit then limit else 0) in
      if eff \<le> 0 \<and> auto_bytes < nbytes then (auto_packets, True) else (eff, False))"

text \<open>How the learner's process ends, and what a call answers.\<close>

datatype learner_exit = LearnTimeout | NoDocker | LearnExit int

datatype learn_outcome = LearnRefused int | Learned json string bool "int option"

definition run_learn :: "int \<Rightarrow> int \<Rightarrow> bool \<Rightarrow> (int \<Rightarrow> learner_exit) \<Rightarrow> jfile \<Rightarrow> int option \<Rightarrow> string \<Rightarrow> int \<Rightarrow> learn_outcome" where
  "run_learn auto_bytes auto_packets socket exec candidate_file nbytes fname limit =
     (case nbytes of None \<Rightarrow> LearnRefused 400
      | Some n \<Rightarrow> if n = 0 then LearnRefused 400
        else if \<not> socket then LearnRefused 503
        else (case effective_limit auto_bytes auto_packets n limit of (eff, auto) \<Rightarrow>
          (case exec eff of LearnTimeout \<Rightarrow> LearnRefused 504
           | NoDocker \<Rightarrow> LearnRefused 503
           | LearnExit code \<Rightarrow> if code \<noteq> 0 then LearnRefused 500
              else let candidate = read_object candidate_file in
                if \<not> truthy candidate then LearnRefused 500
                else Learned candidate fname auto (if eff = 0 then None else Some eff))))"

definition learn_upload :: "int \<Rightarrow> int \<Rightarrow> int \<Rightarrow> bool \<Rightarrow> (int \<Rightarrow> learner_exit) \<Rightarrow> jfile \<Rightarrow> string \<Rightarrow> string \<Rightarrow> int \<Rightarrow> int \<Rightarrow> learn_outcome" where
  "learn_upload max_bytes auto_bytes auto_packets socket exec candidate_file stamp filename content_length limit =
     (if content_length = 0 then LearnRefused 400
      else if max_bytes < content_length then LearnRefused 413
      else run_learn auto_bytes auto_packets socket exec candidate_file (Some content_length) (upload_name stamp filename) limit)"

text \<open>
  An upload is written inside the upload directory: its name has only letters, digits, dots,
  underscores and dashes, whatever name the client sent, and it ends as a capture file does.
\<close>

lemma sub_unsafe_safe: "c \<in> set (sub_unsafe b s) \<Longrightarrow> safe_char c"
  by (induction s arbitrary: b) (auto simp: safe_char_def chr_code_def split: if_splits)

lemma set_strip_char: "set (strip_char c s) \<subseteq> set s"
  by (auto simp: strip_char_def dest!: set_dropWhileD)

lemma ends_with_append: "ends_with s suffix \<Longrightarrow> ends_with (t @ s) suffix"
  by (auto simp: ends_with_def starts_with_iff)

lemma capture_name_append: "capture_name s \<Longrightarrow> capture_name (t @ s)"
  by (auto simp: capture_name_def lower_def intro: ends_with_append)

theorem upload_name_safe:
  assumes "\<forall>c\<in>set stamp. safe_char c"
  shows "(\<forall>c\<in>set (upload_name stamp filename). safe_char c) \<and> capture_name (upload_name stamp filename)"
proof -
  define base where "base = strip_char (CHR ''_'') (sub_unsafe False (if filename = [] then ''capture.pcap'' else filename))"
  define named where "named = (if base = [] then ''capture.pcap'' else base)"
  define full where "full = (if capture_name named then named else named @ ''.pcap'')"
  have lit: "\<forall>c\<in>set ''capture.pcap-''. safe_char c" by (simp add: safe_char_def chr_code_def)
  have "\<forall>c\<in>set base. safe_char c" using set_strip_char sub_unsafe_safe unfolding base_def by blast
  then have "\<forall>c\<in>set full. safe_char c" using lit by (auto simp: full_def named_def)
  moreover have "capture_name ''.pcap''" by code_simp
  then have "capture_name full" using capture_name_append by (simp add: full_def)
  moreover have "upload_name stamp filename = stamp @ ''-'' @ full"
    by (simp add: upload_name_def Let_def base_def named_def full_def)
  ultimately show ?thesis using assms lit capture_name_append [of full "stamp @ ''-''"] by auto
qed

theorem upload_name_safe_witness: "capture_name (upload_name ''20260101-000000'' ''../../etc/passwd'')"
  using upload_name_safe [of "''20260101-000000''" "''../../etc/passwd''"] by (simp add: safe_char_def chr_code_def)

section \<open>Drift\<close>

text \<open>The key of a publisher; a field that is absent is the empty text, a null is None.\<close>

definition publisher_key :: "json \<Rightarrow> string res" where
  "publisher_key e = bind_res (jget_res e ''publisher_mac'') (\<lambda>_. Inr
     (lower (py_str (jget_default e ''publisher_mac'' (JStr []))) @ ''|'' @ py_str (jget e ''appid'') @ ''|'' @
      py_str (jget_default e ''gocb_ref'' (JStr []))))"

text \<open>\<open>{key(e): e for e in (v or [])}\<close>\<close>

fun keyed :: "(json \<Rightarrow> 'k res) \<Rightarrow> json list \<Rightarrow> ('k, json) dict \<Rightarrow> ('k, json) dict res" where
  "keyed key [] d = Inr d"
| "keyed key (e # es) d = bind_res (key e) (\<lambda>k. keyed key es (dict_put k e d))"

definition indexed :: "(json \<Rightarrow> 'k res) \<Rightarrow> json \<Rightarrow> ('k, json) dict res" where
  "indexed key v = bind_res (py_list (py_or v (JList []))) (\<lambda>es. keyed key es [])"

text \<open>Lists and objects cannot be keys of a dict.\<close>

definition hashable :: "json \<Rightarrow> json res" where
  "hashable v = (if is_obj v \<or> is_list v then Inl TypeError else Inr v)"

definition ied_key :: "json \<Rightarrow> json res" where
  "ied_key e = bind_res (jget_res e ''ied_ip'') hashable"

text \<open>A set of client texts; clients that are not texts cannot be sorted next to texts.\<close>

fun client_texts :: "json list \<Rightarrow> string list res" where
  "client_texts [] = Inr []"
| "client_texts (JStr c # cs) = bind_res (client_texts cs) (\<lambda>xs. Inr (c # xs))"
| "client_texts (_ # cs) = Inl TypeError"

definition clients_in :: "json \<Rightarrow> string list res" where
  "clients_in e = bind_res (py_list (py_or (jget e ''allowed_mms_clients'') (JList []))) client_texts"

definition missing_from :: "('k, json) dict \<Rightarrow> ('k, json) dict \<Rightarrow> json list" where
  "missing_from d other = map snd (filter (\<lambda>(k, v). dict_get other k = None) d)"

definition goose_diffs :: "json \<Rightarrow> json \<Rightarrow> (string \<times> json) list" where
  "goose_diffs a b =
     (if truthy (jget a ''production'') \<noteq> truthy (jget b ''production'')
      then [(''production'', JList [jget a ''production'', jget b ''production''])] else []) @
     (if jget b ''conf_rev'' \<noteq> JNull \<and> \<not> py_eq (jget a ''conf_rev'') (jget b ''conf_rev'')
      then [(''conf_rev'', JList [jget a ''conf_rev'', jget b ''conf_rev''])] else [])"

definition goose_changed :: "(string, json) dict \<Rightarrow> (string, json) dict \<Rightarrow> json list" where
  "goose_changed active live = concat (map (\<lambda>(k, a). case dict_get live k of None \<Rightarrow> []
     | Some b \<Rightarrow> (let diffs = goose_diffs a b in if diffs = [] then [] else
         [JObj [(''publisher_mac'', jget b ''publisher_mac''), (''appid'', jget b ''appid''),
                (''gocb_ref'', jget b ''gocb_ref''), (''changes'', JObj diffs)]])) active)"

definition only_in :: "string list \<Rightarrow> string list \<Rightarrow> string list" where
  "only_in xs ys = sort (dedup (filter (\<lambda>x. x \<notin> set ys) xs))"

fun client_changes :: "(json, json) dict \<Rightarrow> (json, json) dict \<Rightarrow> json list res" where
  "client_changes [] live = Inr []"
| "client_changes ((ip, a) # rest) live = (case dict_get live ip of None \<Rightarrow> client_changes rest live
     | Some b \<Rightarrow> bind_res (clients_in a) (\<lambda>ca. bind_res (clients_in b) (\<lambda>cb.
         let added = only_in cb ca; removed = only_in ca cb in
         bind_res (client_changes rest live) (\<lambda>more. Inr
           ((if added = [] \<and> removed = [] then [] else
             [JObj [(''ied_ip'', ip), (''added_clients'', JList (map JStr added)), (''removed_clients'', JList (map JStr removed))]])
            @ more)))))"

record drift =
  df_has_live :: bool
  df_has_active :: bool
  df_live_generated :: string
  df_goose :: "json list \<times> json list \<times> json list"
  df_mms :: "json list \<times> json list \<times> json list"

definition drift_summary :: "drift \<Rightarrow> nat \<times> nat \<times> nat" where
  "drift_summary d = (case (df_goose d, df_mms d) of ((ga, gr, gc), (ma, mr, mc)) \<Rightarrow>
     (length ga + length ma, length gr + length mr, length gc + length mc))"

definition drift_total :: "drift \<Rightarrow> nat" where
  "drift_total d = (case drift_summary d of (a, r, c) \<Rightarrow> a + r + c)"

definition has_entries :: "json \<Rightarrow> bool" where
  "has_entries iec = (truthy (jget iec ''goose_publishers'') \<or> truthy (jget iec ''mms_ieds''))"

definition compute_drift :: "console_files \<Rightarrow> drift res" where
  "compute_drift s =
     (let active = active_iec s; (live, gen) = live_iec s in
      bind_res (indexed publisher_key (jget active ''goose_publishers'')) (\<lambda>ag.
      bind_res (indexed publisher_key (jget live ''goose_publishers'')) (\<lambda>lg.
      bind_res (indexed ied_key (jget active ''mms_ieds'')) (\<lambda>am.
      bind_res (indexed ied_key (jget live ''mms_ieds'')) (\<lambda>lm.
      bind_res (client_changes am lm) (\<lambda>changes. Inr
        \<lparr>df_has_live = (gen \<noteq> [] \<or> has_entries live), df_has_active = has_entries active, df_live_generated = gen,
         df_goose = (missing_from lg ag, missing_from ag lg, goose_changed ag lg),
         df_mms = (missing_from lm am, missing_from am lm, changes)\<rparr>))))))"

section \<open>The state shown\<close>

definition list_or_empty :: "json \<Rightarrow> json list" where
  "list_or_empty v = list_items v"

record active_info =
  ai_version :: string
  ai_applied_at :: string
  ai_source :: string
  ai_goose :: nat
  ai_mms :: nat

definition active_summary :: "json \<Rightarrow> active_info option" where
  "active_summary policy =
     (let baseline = jget policy ''baseline''; iec = obj_field baseline ''iec61850'';
          goose = list_or_empty (jget iec ''goose_publishers''); mms = list_or_empty (jget iec ''mms_ieds'') in
      if \<not> is_obj baseline \<or> goose = [] \<and> mms = [] then None
      else Some \<lparr>ai_version = str_or_empty (jget policy ''version''), ai_applied_at = str_or_empty (jget policy ''updated_at''),
        ai_source = py_str (py_or (jget policy ''baseline_source'') (py_or (jget policy ''source'') (JStr ''unknown''))),
        ai_goose = length goose, ai_mms = length mms\<rparr>)"

text \<open>\<open>bool(gen) and (not applied or gen > applied)\<close>\<close>

definition candidate_pending :: "json \<Rightarrow> string \<Rightarrow> bool res" where
  "candidate_pending generated since =
     (if \<not> truthy generated then Inr False
      else if since = [] then Inr True
      else case generated of JStr g \<Rightarrow> Inr (g > since) | _ \<Rightarrow> Inl TypeError)"

datatype shown_state = Learning | Drifted | Active_baseline | Not_loaded

record candidate_info =
  ci_generated :: json
  ci_source :: json
  ci_source_ref :: json
  ci_stats :: json
  ci_pending :: bool

record shown =
  sh_state :: shown_state
  sh_active :: "active_info option"
  sh_candidate :: "candidate_info option"
  sh_history :: "json list"
  sh_drift :: drift
  sh_assets :: nat
  sh_comm_pairs :: json

definition candidate_shown :: "json \<Rightarrow> bool \<Rightarrow> candidate_info option" where
  "candidate_shown candidate pending = (if \<not> truthy candidate then None
     else Some \<lparr>ci_generated = py_or (jget candidate ''generated_at'') (JStr []), ci_source = py_or (jget candidate ''source'') (JStr []),
       ci_source_ref = py_or (jget candidate ''source_ref'') (JStr []), ci_stats = py_or (jget candidate ''stats'') (JObj []),
       ci_pending = pending\<rparr>)"

definition comm_pairs_shown :: "json \<Rightarrow> json res" where
  "comm_pairs_shown candidate =
     (let stats = (if truthy candidate then jget_default candidate ''stats'' (JObj []) else JObj []) in
      if is_obj stats then Inr (jget_default stats ''comm_pairs'' (JInt 0)) else Inl AttributeError)"

definition get_state :: "console_files \<Rightarrow> shown res" where
  "get_state s =
     (let active = active_summary (read_object (cf_policy s)); candidate = read_object (cf_candidate s);
          since = (case active of None \<Rightarrow> [] | Some a \<Rightarrow> ai_applied_at a) in
      bind_res (if truthy candidate then candidate_pending (jget candidate ''generated_at'') since else Inr False) (\<lambda>pending.
      bind_res (compute_drift s) (\<lambda>d.
      let total = (if df_has_active d then drift_total d else 0) in
      bind_res (comm_pairs_shown candidate) (\<lambda>pairs. Inr
        \<lparr>sh_state = (if truthy candidate \<and> pending then Learning
             else if active \<noteq> None \<and> 0 < total then Drifted
             else if active \<noteq> None then Active_baseline else Not_loaded),
         sh_active = active, sh_candidate = candidate_shown candidate pending,
         sh_history = list_or_empty (jget (read_object (cf_state s)) ''versions''),
         sh_drift = d, sh_assets = (case active of None \<Rightarrow> 0 | Some a \<Rightarrow> ai_goose a + ai_mms a), sh_comm_pairs = pairs\<rparr>))))"

section \<open>Approval and roll back\<close>

text \<open>What a call answers: a refusal with its status, or the version applied and the sizes of its lists.\<close>

datatype lifecycle_outcome = Refused int | Applied string int int

definition write_baseline :: "console_clock \<Rightarrow> json \<Rightarrow> string \<Rightarrow> json \<Rightarrow> json" where
  "write_baseline c iec source policy =
     (let baseline = obj_items (obj_field policy ''baseline''); old = obj_items (obj_field (JObj baseline) ''iec61850'');
          new = dict_put ''mms_ieds'' (py_or (jget iec ''mms_ieds'') (JList []))
                  (dict_put ''goose_publishers'' (py_or (jget iec ''goose_publishers'') (JList [])) old);
          policy = dict_put ''baseline'' (JObj (dict_put ''iec61850'' (JObj new) baseline)) (obj_items policy) in
      JObj (dict_put ''updated_at'' (JStr (cc_iso c)) (dict_put ''baseline_source'' (JStr source)
        (dict_put ''version'' (JStr (''baseline-'' @ cc_version c)) policy))))"

text \<open>The files are written before the lengths of the lists are taken.\<close>

definition apply_iec61850 :: "console_clock \<Rightarrow> json \<Rightarrow> string \<Rightarrow> console_files \<Rightarrow> lifecycle_outcome res \<times> console_files" where
  "apply_iec61850 c iec source s =
     (let version = ''baseline-'' @ cc_version c;
          s = s\<lparr>cf_policy := Doc (write_baseline c iec source (read_object (cf_policy s))),
                cf_stamp := Text (dec_int (cc_epoch c) @ [CHR 0x0A] @ version @ [CHR 0x0A])\<rparr> in
      (bind_res (py_len (py_or (jget iec ''goose_publishers'') (JList []))) (\<lambda>g.
       bind_res (py_len (py_or (jget iec ''mms_ieds'') (JList []))) (\<lambda>m. Inr (Applied version g m))), s))"

definition deactivated :: "json \<Rightarrow> json" where
  "deactivated v = (if is_obj v then JObj (dict_put ''active'' (JBool False) (obj_items v)) else v)"

definition history_entry :: "console_clock \<Rightarrow> string \<Rightarrow> string \<Rightarrow> json \<Rightarrow> int \<Rightarrow> int \<Rightarrow> json" where
  "history_entry c version source_ref iec g m = JObj [(''version'', JStr version), (''applied_at'', JStr (cc_iso c)),
     (''source_ref'', JStr source_ref), (''active'', JBool True), (''goose'', JInt g), (''mms'', JInt m), (''snapshot'', iec)]"

definition record_history :: "console_clock \<Rightarrow> string \<Rightarrow> string \<Rightarrow> json \<Rightarrow> int \<Rightarrow> int \<Rightarrow> console_files \<Rightarrow> console_files" where
  "record_history c version source_ref iec g m s =
     (let doc = read_object (cf_state s); versions = map deactivated (list_or_empty (jget doc ''versions''));
          versions = take 20 (history_entry c version source_ref iec g m # versions) in
      s\<lparr>cf_state := Doc (JObj (dict_put ''active_version'' (JStr version) (dict_put ''versions'' (JList versions) (obj_items doc))))\<rparr>)"

definition apply_and_record :: "console_clock \<Rightarrow> json \<Rightarrow> string \<Rightarrow> string \<Rightarrow> console_files \<Rightarrow> lifecycle_outcome res \<times> console_files" where
  "apply_and_record c iec source_ref source s = (case apply_iec61850 c iec source s of
     (Inr (Applied version g m), s) \<Rightarrow> (Inr (Applied version g m), record_history c version source_ref iec g m s)
   | (r, s) \<Rightarrow> (r, s))"

definition approve_candidate :: "console_clock \<Rightarrow> console_files \<Rightarrow> lifecycle_outcome res \<times> console_files" where
  "approve_candidate c s =
     (let candidate = read_object (cf_candidate s); iec = obj_field (obj_field candidate ''observed'') ''iec61850'' in
      if \<not> truthy candidate then (Inr (Refused 404), s)
      else if \<not> has_entries iec then (Inr (Refused 422), s)
      else apply_and_record c iec (first_text [jget candidate ''source_ref''] ''pcap'') ''edge-console-learning'' s)"

definition approve_drift :: "console_clock \<Rightarrow> console_files \<Rightarrow> lifecycle_outcome res \<times> console_files" where
  "approve_drift c s = (case live_iec s of (live, gen) \<Rightarrow>
     if \<not> has_entries live then (Inr (Refused 404), s)
     else apply_and_record c live (''drift:'' @ (if gen = [] then ''live'' else gen)) ''edge-console-drift'' s)"

definition find_version :: "string \<Rightarrow> json list \<Rightarrow> json option" where
  "find_version version vs = find (\<lambda>v. is_obj v \<and> jget v ''version'' = JStr version) vs"

definition rollback :: "console_clock \<Rightarrow> string \<Rightarrow> console_files \<Rightarrow> lifecycle_outcome res \<times> console_files" where
  "rollback c version s =
     (case find_version version (list_or_empty (jget (read_object (cf_state s)) ''versions'')) of
        None \<Rightarrow> (Inr (Refused 404), s)
      | Some target \<Rightarrow> (let snapshot = obj_field target ''snapshot'' in
          if \<not> truthy snapshot then (Inr (Refused 422), s)
          else apply_and_record c snapshot (''rollback:'' @ version) ''edge-console-rollback'' s))"

section \<open>Lemmas\<close>

subsection \<open>Reading what was written\<close>

lemma obj_field_put [simp]:
  "obj_field (JObj (dict_put k v d)) k' = (if k' = k then obj_or_empty v else obj_field (JObj d) k')"
  by (simp add: obj_field_def jget_def)

lemma jget_put [simp]: "jget (JObj (dict_put k v d)) k' = (if k' = k then v else jget (JObj d) k')"
  by (simp add: jget_def)

lemma obj_or_empty_JObj [simp]: "obj_or_empty (JObj d) = JObj d"
  by (simp add: obj_or_empty_def)

lemma py_or_again [simp]: "py_or (py_or v w) w = py_or v w"
  by (simp add: py_or_def)

text \<open>The two lists of a baseline, as the service copies them.\<close>

definition entry_lists :: "json \<Rightarrow> json \<times> json" where
  "entry_lists iec = (py_or (jget iec ''goose_publishers'') (JList []), py_or (jget iec ''mms_ieds'') (JList []))"

lemma active_iec_written:
  assumes "cf_policy s = Doc (write_baseline c iec source policy)"
  shows "jget (active_iec s) ''goose_publishers'' = py_or (jget iec ''goose_publishers'') (JList [])"
    and "jget (active_iec s) ''mms_ieds'' = py_or (jget iec ''mms_ieds'') (JList [])"
  by (simp_all add: active_iec_def assms write_baseline_def Let_def)

lemma entry_lists_written:
  assumes "cf_policy s = Doc (write_baseline c iec source policy)"
  shows "entry_lists (active_iec s) = entry_lists iec"
  by (simp add: entry_lists_def active_iec_written [OF assms])

definition versions_of :: "console_files \<Rightarrow> json list" where
  "versions_of s = list_or_empty (jget (read_object (cf_state s)) ''versions'')"

lemma apply_iec_simps [simp]:
  "cf_live (snd (apply_iec61850 c iec source s)) = cf_live s" "cf_state (snd (apply_iec61850 c iec source s)) = cf_state s"
  "cf_policy (snd (apply_iec61850 c iec source s)) = Doc (write_baseline c iec source (read_object (cf_policy s)))"
  "cf_stamp (snd (apply_iec61850 c iec source s)) = Text (dec_int (cc_epoch c) @ [CHR 0x0A] @ (''baseline-'' @ cc_version c) @ [CHR 0x0A])"
  by (simp_all add: apply_iec61850_def Let_def)

lemma apply_iec_version: "fst (apply_iec61850 c iec source s) = Inr out \<Longrightarrow> \<exists>g m. out = Applied (''baseline-'' @ cc_version c) g m"
  by (auto simp: apply_iec61850_def Let_def bind_res_def split: sum.splits)

lemma record_simps [simp]:
  "cf_policy (record_history c v r iec g m s) = cf_policy s" "cf_live (record_history c v r iec g m s) = cf_live s"
  "cf_stamp (record_history c v r iec g m s) = cf_stamp s"
  "versions_of (record_history c v r iec g m s) = take 20 (history_entry c v r iec g m # map deactivated (versions_of s))"
  "jget (read_object (cf_state (record_history c v r iec g m s))) ''active_version'' = JStr v"
  by (simp_all add: record_history_def Let_def versions_of_def list_or_empty_def)

text \<open>The three ways a call ends: refused, raised after the policy was written, applied and recorded.\<close>

lemma apply_and_record_cases:
  obtains (raised) e where "fst (apply_and_record c iec r source s) = Inl e"
      "snd (apply_and_record c iec r source s) = snd (apply_iec61850 c iec source s)"
  | (applied) g m where "fst (apply_and_record c iec r source s) = Inr (Applied (''baseline-'' @ cc_version c) g m)"
      "snd (apply_and_record c iec r source s) =
         record_history c (''baseline-'' @ cc_version c) r iec g m (snd (apply_iec61850 c iec source s))"
proof (cases "apply_iec61850 c iec source s")
  case (Pair x s')
  show thesis
  proof (cases x)
    case (Inl e)
    then show ?thesis using raised Pair by (simp add: apply_and_record_def)
  next
    case (Inr out)
    then obtain g m where "out = Applied (''baseline-'' @ cc_version c) g m" using apply_iec_version [of c iec source s out] Pair by auto
    then show ?thesis using applied Pair Inr by (simp add: apply_and_record_def)
  qed
qed

lemma apply_and_record_files:
  "cf_policy (snd (apply_and_record c iec r source s)) = Doc (write_baseline c iec source (read_object (cf_policy s)))"
  "cf_live (snd (apply_and_record c iec r source s)) = cf_live s"
  "cf_stamp (snd (apply_and_record c iec r source s)) = Text (dec_int (cc_epoch c) @ [CHR 0x0A] @ (''baseline-'' @ cc_version c) @ [CHR 0x0A])"
  by (cases rule: apply_and_record_cases [of c iec r source s]; simp)+

text \<open>Calls, and what the other programs do to the files: a new candidate, new live observations.\<close>

datatype console_op = ApproveCandidate | ApproveDrift | Rollback string | NewCandidate jfile | NewLive jfile

fun console_step :: "console_clock \<times> console_op \<Rightarrow> console_files \<Rightarrow> lifecycle_outcome res \<times> console_files" where
  "console_step (c, ApproveCandidate) s = approve_candidate c s"
| "console_step (c, ApproveDrift) s = approve_drift c s"
| "console_step (c, Rollback v) s = rollback c v s"
| "console_step (c, NewCandidate f) s = (Inr (Refused 0), s\<lparr>cf_candidate := f\<rparr>)"
| "console_step (c, NewLive f) s = (Inr (Refused 0), s\<lparr>cf_live := f\<rparr>)"

definition console_run :: "(console_clock \<times> console_op) list \<Rightarrow> console_files \<Rightarrow> console_files" where
  "console_run ops s = fold (\<lambda>op s. snd (console_step op s)) ops s"

lemma console_step_cases:
  obtains (kept) "versions_of (snd (console_step (c, op) s)) = versions_of s" "cf_policy (snd (console_step (c, op) s)) = cf_policy s"
      "\<And>v g m. fst (console_step (c, op) s) \<noteq> Inr (Applied v g m)"
  | (wrote) iec r source where "console_step (c, op) s = apply_and_record c iec r source s" "is_obj iec" "truthy iec"
proof -
  have kept': thesis if "console_step (c, op) s = (Inr (Refused n), s')" "versions_of s' = versions_of s" "cf_policy s' = cf_policy s" for n s'
    by (rule kept) (use that in simp_all)
  have e: "truthy iec" if "has_entries iec" for iec
    using that by (cases iec) (auto simp: has_entries_def jget_def)
  show thesis
  proof (cases op)
    case ApproveCandidate
    define iec where "iec = obj_field (obj_field (read_object (cf_candidate s)) ''observed'') ''iec61850''"
    have o: "is_obj iec" by (simp add: iec_def obj_field_def)
    note step = ApproveCandidate approve_candidate_def Let_def iec_def [symmetric]
    consider "\<not> truthy (read_object (cf_candidate s))" | "truthy (read_object (cf_candidate s))" "\<not> has_entries iec"
      | "truthy (read_object (cf_candidate s))" "has_entries iec" by blast
    then show ?thesis
    proof cases
      case 1
      then show ?thesis by (intro kept' [of 404 s]) (simp_all add: step)
    next
      case 2
      then show ?thesis by (intro kept' [of 422 s]) (simp_all add: step)
    next
      case 3
      then show ?thesis using wrote [OF _ o e] by (simp add: step)
    qed
  next
    case ApproveDrift
    obtain live gen where l: "live_iec s = (live, gen)" by fastforce
    then have o: "is_obj live" by (auto simp: live_iec_def obj_field_def Let_def)
    note step = ApproveDrift approve_drift_def l
    show ?thesis
    proof (cases "has_entries live")
      case True
      then show ?thesis using wrote [OF _ o e] by (simp add: step)
    next
      case False
      then show ?thesis by (intro kept' [of 404 s]) (simp_all add: step)
    qed
  next
    case (Rollback v)
    note step = Rollback rollback_def versions_of_def [symmetric] Let_def
    show ?thesis
    proof (cases "find_version v (versions_of s)")
      case None
      then show ?thesis by (intro kept' [of 404 s]) (simp_all add: step)
    next
      case (Some t)
      have o: "is_obj (obj_field t ''snapshot'')" by (simp add: obj_field_def)
      show ?thesis
      proof (cases "truthy (obj_field t ''snapshot'')")
        case True
        then show ?thesis using wrote [OF _ o] by (simp add: step Some)
      next
        case False
        then show ?thesis using Some by (intro kept' [of 422 s]) (simp_all add: step)
      qed
    qed
  qed (auto intro!: kept simp: versions_of_def)
qed

subsection \<open>The history\<close>

text \<open>The entry of version \<open>v\<close>, with snapshot \<open>iec\<close>, is among the newest \<open>n + 1\<close>.\<close>

definition remembers :: "string \<Rightarrow> json \<Rightarrow> nat \<Rightarrow> console_files \<Rightarrow> bool" where
  "remembers v iec n s = (\<exists>newer x older. versions_of s = newer @ x # older \<and> length newer \<le> n \<and>
     (\<forall>y\<in>set newer. jget y ''version'' \<noteq> JStr v) \<and> is_obj x \<and> jget x ''version'' = JStr v \<and> jget x ''snapshot'' = iec)"

lemma deactivated_simps [simp]:
  "is_obj (deactivated x) = is_obj x" "k \<noteq> ''active'' \<Longrightarrow> jget (deactivated x) k = jget x k"
  by (auto simp: deactivated_def jget_def is_obj_iff)

lemma remembers_recorded:
  "remembers (''baseline-'' @ cc_version c) iec 0 (record_history c (''baseline-'' @ cc_version c) r iec g m s)"
  unfolding remembers_def
  by (intro exI [of _ "[]"] exI [of _ "history_entry c (''baseline-'' @ cc_version c) r iec g m"]
      exI [of _ "take 19 (map deactivated (versions_of s))"]) (simp add: history_entry_def)

lemma remembers_record:
  assumes "remembers v iec n s" and "v \<noteq> v'" and "n < 19"
  shows "remembers v iec (Suc n) (record_history c v' r iec' g m s)"
proof -
  obtain newer x older where h: "versions_of s = newer @ x # older" "length newer \<le> n" "\<forall>y\<in>set newer. jget y ''version'' \<noteq> JStr v"
    "is_obj x" "jget x ''version'' = JStr v" "jget x ''snapshot'' = iec"
    using assms(1) by (auto simp: remembers_def)
  let ?newer = "history_entry c v' r iec' g m # map deactivated newer"
  have "versions_of (record_history c v' r iec' g m s) = ?newer @ deactivated x # take (18 - length newer) (map deactivated older)"
    using h(2) assms(3) by (simp add: h(1) take_Cons' numeral_eq_Suc)
  moreover have "\<forall>y\<in>set ?newer. jget y ''version'' \<noteq> JStr v" using h(3) assms(2) by (auto simp: history_entry_def)
  ultimately show ?thesis unfolding remembers_def
    by (intro exI [of _ ?newer] exI [of _ "deactivated x"] exI [of _ "take (18 - length newer) (map deactivated older)"])
      (use h in simp)
qed

lemma remembers_find:
  assumes "remembers v iec n s"
  obtains x where "find_version v (versions_of s) = Some x" "jget x ''snapshot'' = iec"
proof -
  obtain newer x older where h: "versions_of s = newer @ x # older" "\<forall>y\<in>set newer. jget y ''version'' \<noteq> JStr v"
    "is_obj x" "jget x ''version'' = JStr v" "jget x ''snapshot'' = iec"
    using assms by (auto simp: remembers_def)
  have "find_version v (newer @ x # older) = Some x"
    using h(2-4) by (induction newer) (auto simp: find_version_def)
  then show thesis using that h by simp
qed

lemma remembers_versions: "versions_of s' = versions_of s \<Longrightarrow> remembers v iec n s \<Longrightarrow> remembers v iec n s'"
  by (simp add: remembers_def)

lemma remembers_mono: "remembers v iec n s \<Longrightarrow> n \<le> n' \<Longrightarrow> remembers v iec n' s"
  unfolding remembers_def by (elim exE conjE) (intro exI conjI; assumption?; simp)

lemma remembers_step:
  assumes "remembers v iec n s" and "v \<noteq> ''baseline-'' @ cc_version c" and "n < 19"
  shows "remembers v iec (Suc n) (snd (console_step (c, op) s))"
proof (cases rule: console_step_cases [of c op s])
  case kept
  then show ?thesis using remembers_mono [OF remembers_versions [OF kept(1) assms(1)]] by simp
next
  case (wrote iec' r source)
  have s: "remembers v iec n (snd (apply_iec61850 c iec' source s))"
    using assms(1) by (rule remembers_versions [rotated]) (simp add: versions_of_def)
  show ?thesis unfolding wrote(1)
  proof (cases rule: apply_and_record_cases [of c iec' r source s])
    case (raised e)
    then show "remembers v iec (Suc n) (snd (apply_and_record c iec' r source s))" using remembers_mono [OF s] by simp
  next
    case (applied g m)
    then show "remembers v iec (Suc n) (snd (apply_and_record c iec' r source s))"
      using remembers_record [OF s assms(2,3)] by simp
  qed
qed

lemma remembers_run:
  assumes "remembers v iec n s" and "\<forall>(c, op)\<in>set ops. v \<noteq> ''baseline-'' @ cc_version c" and "n + length ops < 20"
  shows "remembers v iec (n + length ops) (console_run ops s)"
  using assms
proof (induction ops arbitrary: n s)
  case (Cons p ops)
  obtain c op where p: "p = (c, op)" by fastforce
  have "remembers v iec (Suc n) (snd (console_step (c, op) s))"
    using Cons.prems by (intro remembers_step) (auto simp: p)
  from Cons.IH [OF this] Cons.prems show ?case by (simp add: p console_run_def)
qed (simp add: console_run_def)

subsection \<open>No drift against itself\<close>

lemma keyed_wf: "keyed key es d = Inr d' \<Longrightarrow> dict_wf d \<Longrightarrow> dict_wf d'"
  by (induction es arbitrary: d) (auto simp: bind_res_eq_Inr)

lemma indexed_wf: "indexed key v = Inr d \<Longrightarrow> dict_wf d"
  by (auto simp: indexed_def bind_res_eq_Inr intro: keyed_wf)

lemma keyed_values: "keyed key es d = Inr d' \<Longrightarrow> snd ` set d' \<subseteq> snd ` set d \<union> set es"
proof (induction es arbitrary: d)
  case (Cons e es)
  then obtain k where "keyed key es (dict_put k e d) = Inr d'" by (auto simp: bind_res_eq_Inr)
  then have "snd ` set d' \<subseteq> snd ` set (dict_put k e d) \<union> set es" by (rule Cons.IH)
  moreover have "\<forall>p\<in>set (dict_put k e d). snd p \<in> insert e (snd ` set d)" by (rule dict_put_Ball) auto
  then have "snd ` set (dict_put k e d) \<subseteq> insert e (snd ` set d)" by blast
  ultimately have "snd ` set d' \<subseteq> insert e (snd ` set d) \<union> set es" by (meson Un_mono order_trans subset_refl)
  then show ?case by simp
qed simp

lemma dict_get_mem: "dict_wf d \<Longrightarrow> (k, v) \<in> set d \<Longrightarrow> dict_get d k = Some v"
  by (simp add: dict_get_Some_iff)

lemma missing_from_self: "dict_wf d \<Longrightarrow> missing_from d d = []"
  by (auto simp: missing_from_def filter_empty_conv dict_get_mem)

lemma goose_diffs_self [simp]: "goose_diffs e e = []"
  by (simp add: goose_diffs_def)

lemma goose_changed_self: "dict_wf d \<Longrightarrow> goose_changed d d = []"
  by (auto simp: goose_changed_def dict_get_mem)

lemma only_in_self [simp]: "only_in xs xs = []"
  by (simp add: only_in_def dedup_def)

lemma client_changes_self:
  assumes "dict_wf d" and "\<forall>e\<in>snd ` set d. \<exists>cs. clients_in e = Inr cs"
  shows "client_changes d d = Inr []"
proof -
  have "client_changes e d = Inr []" if "set e \<subseteq> set d" for e
    using that
  proof (induction e)
    case (Cons p e)
    obtain ip a where p: "p = (ip, a)" by fastforce
    then have "dict_get d ip = Some a" using assms(1) Cons.prems by (auto simp: dict_get_mem)
    moreover obtain cs where "clients_in a = Inr cs" using assms(2) Cons.prems by (force simp: p)
    ultimately show ?case using Cons by (simp add: p Let_def)
  qed simp
  then show ?thesis by simp
qed

lemma indexed_or [simp]: "indexed key (py_or v (JList [])) = indexed key v"
  by (simp add: indexed_def)

lemma truthy_or_empty [simp]: "truthy (py_or v (JList [])) = truthy v"
  by (simp add: py_or_def)

section \<open>Properties\<close>

lemma applied_step:
  assumes "fst (console_step (c, op) s) = Inr (Applied v g m)"
  obtains iec r source where "console_step (c, op) s = apply_and_record c iec r source s" "is_obj iec" "truthy iec"
    "v = ''baseline-'' @ cc_version c"
    "snd (console_step (c, op) s) = record_history c v r iec g m (snd (apply_iec61850 c iec source s))"
    "py_len (py_or (jget iec ''goose_publishers'') (JList [])) = Inr g" "py_len (py_or (jget iec ''mms_ieds'') (JList [])) = Inr m"
proof (cases rule: console_step_cases [of c op s])
  case kept
  then show ?thesis using assms by blast
next
  case (wrote iec r source)
  show ?thesis
  proof (cases rule: apply_and_record_cases [of c iec r source s])
    case (raised e)
    then show ?thesis using assms wrote(1) by simp
  next
    case (applied g' m')
    then have e: "v = ''baseline-'' @ cc_version c" "g' = g" "m' = m" using assms wrote(1) by simp_all
    have "fst (apply_iec61850 c iec source s) = Inr (Applied v g m)"
      using applied(1) e by (auto simp: apply_and_record_def split: prod.splits sum.splits lifecycle_outcome.splits)
    then have "py_len (py_or (jget iec ''goose_publishers'') (JList [])) = Inr g" "py_len (py_or (jget iec ''mms_ieds'') (JList [])) = Inr m"
      by (auto simp: apply_iec61850_def Let_def bind_res_eq_Inr)
    then show ?thesis using that [OF wrote] applied(2) e wrote(1) by simp
  qed
qed

text \<open>
  Any of the last twenty baselines can be brought back: after a call applied a baseline as
  version \<open>v\<close>, and up to nineteen calls or changes of the other files later, none of which made a
  version of the same second, rolling back to \<open>v\<close> succeeds and the active GOOSE publishers and MMS
  servers are again those applied then.
\<close>

theorem rollback_restores:
  assumes "fst (console_step (c0, op) s) = Inr (Applied v g m)"
    and "\<forall>(c, op)\<in>set ops. cc_version c \<noteq> cc_version c0" and "length ops < 20"
  shows "\<exists>s'. rollback c v (console_run ops (snd (console_step (c0, op) s))) = (Inr (Applied (''baseline-'' @ cc_version c) g m), s') \<and>
     entry_lists (active_iec s') = entry_lists (active_iec (snd (console_step (c0, op) s)))"
proof (rule applied_step [OF assms(1)])
  fix iec r source
  define s1 where "s1 = snd (console_step (c0, op) s)"
  assume iec: "is_obj iec" "truthy iec" "v = ''baseline-'' @ cc_version c0"
    and s1: "snd (console_step (c0, op) s) = record_history c0 v r iec g m (snd (apply_iec61850 c0 iec source s))"
    and len: "py_len (py_or (jget iec ''goose_publishers'') (JList [])) = Inr g" "py_len (py_or (jget iec ''mms_ieds'') (JList [])) = Inr m"
  have "remembers v iec 0 s1" using remembers_recorded s1 iec(3) by (simp add: s1_def)
  then have "remembers v iec (0 + length ops) (console_run ops s1)"
    by (rule remembers_run) (use assms(2,3) iec(3) in auto)
  then obtain x where x: "find_version v (versions_of (console_run ops s1)) = Some x" "jget x ''snapshot'' = iec"
    by (rule remembers_find)
  define s3 where "s3 = snd (rollback c v (console_run ops s1))"
  have rb: "rollback c v (console_run ops s1) =
      apply_and_record c iec (''rollback:'' @ v) ''edge-console-rollback'' (console_run ops s1)"
    using x iec by (simp add: rollback_def versions_of_def [symmetric] Let_def obj_field_def obj_or_empty_def)
  have f: "fst (rollback c v (console_run ops s1)) = Inr (Applied (''baseline-'' @ cc_version c) g m)"
    by (simp add: rb apply_and_record_def apply_iec61850_def Let_def len)
  have st: "console_step (c, Rollback v) (console_run ops s1) = rollback c v (console_run ops s1)" by simp
  have "entry_lists (active_iec s3) = entry_lists iec"
    by (rule entry_lists_written [of _ c _ "''edge-console-rollback''" "read_object (cf_policy (console_run ops s1))"])
      (simp add: s3_def rb apply_and_record_def apply_iec61850_def Let_def len)
  moreover have "entry_lists (active_iec s1) = entry_lists iec"
    by (rule entry_lists_written [of _ c0 _ source "read_object (cf_policy s)"]) (simp add: s1_def s1)
  ultimately show ?thesis using f by (intro exI [of _ s3]) (simp add: s3_def s1_def prod_eq_iff)
qed

text \<open>
  Accepting the drift ends it: after the live observations were approved as the new baseline,
  the drift of the same observations is empty, as long as the drift could be computed before and
  the clients listed for each live server are texts.
\<close>

theorem approved_drift_is_gone:
  assumes "approve_drift c s = (Inr (Applied v g m), s')" and "compute_drift s = Inr d"
    and "py_list (py_or (jget (fst (live_iec s)) ''mms_ieds'') (JList [])) = Inr es" and "\<forall>e\<in>set es. \<exists>cs. clients_in e = Inr cs"
  shows "\<exists>d'. compute_drift s' = Inr d' \<and> drift_total d' = 0 \<and> df_has_active d'"
proof -
  obtain live gen where l: "live_iec s = (live, gen)" by fastforce
  have h: "has_entries live" "apply_and_record c live (''drift:'' @ (if gen = [] then ''live'' else gen)) ''edge-console-drift'' s =
      (Inr (Applied v g m), s')"
    using assms(1) by (auto simp: approve_drift_def l split: if_splits)
  obtain lg lm where i: "indexed publisher_key (jget live ''goose_publishers'') = Inr lg" "indexed ied_key (jget live ''mms_ieds'') = Inr lm"
    using assms(2) by (auto simp: compute_drift_def Let_def l bind_res_eq_Inr)
  have p: "cf_policy s' = Doc (write_baseline c live ''edge-console-drift'' (read_object (cf_policy s)))" "cf_live s' = cf_live s"
    using apply_and_record_files [of c live "''drift:'' @ (if gen = [] then ''live'' else gen)" "''edge-console-drift''" s]
    by (simp_all add: h(2) del: append.simps)
  have l': "live_iec s' = (live, gen)" using l by (simp add: live_iec_def p(2))
  have wf: "dict_wf lg" "dict_wf lm" using i by (auto intro: indexed_wf)
  have "snd ` set lm \<subseteq> set es"
    using i(2) assms(3) keyed_values [of ied_key es "[]" lm] by (simp add: l indexed_def)
  then have cc: "client_changes lm lm = Inr []" using client_changes_self [OF wf(2)] assms(4) by blast
  have "has_entries (active_iec s')" using h(1) by (simp add: has_entries_def active_iec_written [OF p(1)])
  then show ?thesis
    by (simp add: compute_drift_def l' active_iec_written [OF p(1)] i cc wf missing_from_self goose_changed_self
        drift_total_def drift_summary_def)
qed

subsection \<open>The sensor's view\<close>

text \<open>What the sensor's policy store holds after it has loaded the console's policy, with no profile store.\<close>

lemma thresholds_keep_iec:
  assumes "is_obj b"
  shows "obj_field (dp_baseline (snd (apply_thresholds src th (s\<lparr>dp_baseline := b\<rparr>)))) ''iec61850'' = obj_field b ''iec61850''"
proof -
  obtain d where d: "b = JObj d" using assms by (auto simp: is_obj_iff)
  have "obj_field v ''iec61850'' = obj_field b ''iec61850''" if "merge_thresholds t b = Inr v" for t v
    using that by (auto simp: d merge_thresholds_def split: option.splits json.splits)
  then show ?thesis
    by (auto simp: apply_thresholds_def share_update_def split: sum.split baseline_source.split)
qed

lemma install_artifact:
  "is_obj (jget a ''baseline'') \<Longrightarrow> truthy (jget a ''baseline'') \<Longrightarrow>
     snd (install_baseline (Inr (JObj [])) a fb ch s) =
     snd (apply_thresholds FromArtifact (jget a ''thresholds'') (s\<lparr>dp_baseline := jget a ''baseline''\<rparr>))"
  by (simp add: install_baseline_def choose_baseline_def split: prod.split option.split)

lemma install_profile:
  "truthy b \<Longrightarrow> snd (install_baseline (Inr b) a fb ch s) = snd (apply_thresholds FromProfile (jget a ''thresholds'') (s\<lparr>dp_baseline := b\<rparr>))"
  by (simp add: install_baseline_def choose_baseline_def split: prod.split option.split)

lemma reload_takes_artifact:
  assumes "dp_profile st = None" and "is_obj (jget (read_object (df_policy f)) ''baseline'')"
    and "truthy (jget (read_object (df_policy f)) ''baseline'')" and "dp_interval st \<le> t - dp_last_check st"
    and "read_stamp (df_stamp f) \<noteq> dp_last_stamp st"
  shows "obj_field (dp_baseline (snd (policy_reload False t f st))) ''iec61850'' =
     obj_field (jget (read_object (df_policy f)) ''baseline'') ''iec61850''"
proof -
  have n: "\<not> (t - dp_last_check st < dp_interval st)" using assms(4) by simp
  have "\<exists>ch s. policy_reload False t f st = install_baseline (Inr (JObj [])) (read_object (df_policy f)) (df_fallback f) ch s"
    by (intro exI) (simp add: policy_reload_def Let_def n assms(5) ask_profile_def assms(1))
  then obtain ch s where "policy_reload False t f st = install_baseline (Inr (JObj [])) (read_object (df_policy f)) (df_fallback f) ch s"
    by blast
  then show ?thesis by (simp add: install_artifact [OF assms(2,3)] thresholds_keep_iec [OF assms(2)])
qed


text \<open>
  A baseline profile hides what the console approves: while the sensor has loaded a profile that
  yields a baseline and the profile's stamp stands, loading a policy the console wrote, whatever was
  approved, leaves the profile's GOOSE publishers and MMS servers in force.
\<close>

theorem approval_hidden_by_profile:
  assumes "dp_profile st = Some p" and "ps_baseline p = JObj d" and "d \<noteq> []" and "truthy (ps_artifact p)"
    and "read_stamp (pf_stamp (df_profile f)) = ps_last_stamp p"
    and "dp_interval st \<le> t - dp_last_check st" and "read_stamp (df_stamp f) \<noteq> dp_last_stamp st"
  shows "obj_field (dp_baseline (snd (policy_reload False t f st))) ''iec61850'' = obj_field (ps_baseline p) ''iec61850''"
proof -
  have n: "\<not> (t - dp_last_check st < dp_interval st)" using assms(6) by simp
  obtain p' where p': "ask_profile False t (df_profile f) (Some p) = (Inr (ps_baseline p), Some p')"
    using profile_quiet [OF assms(5,4)] by metis
  have "\<exists>ch s. policy_reload False t f st = install_baseline (Inr (ps_baseline p)) (read_object (df_policy f)) (df_fallback f) ch s"
    by (intro exI) (simp add: policy_reload_def Let_def n assms(7) p' assms(1))
  then obtain ch s' where "policy_reload False t f st = install_baseline (Inr (ps_baseline p)) (read_object (df_policy f)) (df_fallback f) ch s'"
    by blast
  moreover have "is_obj (ps_baseline p)" "truthy (ps_baseline p)" using assms(2,3) by simp_all
  ultimately show ?thesis by (simp add: install_profile thresholds_keep_iec)
qed

text \<open>A console with one live publisher, and the times of two calls.\<close>

definition demo_live :: json where
  "demo_live = JObj [(''observed'', JObj [(''iec61850'', JObj [(''goose_publishers'', JList [JObj [(''publisher_mac'', JStr ''aa'')]])])])]"

definition demo_console :: console_files where
  "demo_console = \<lparr>cf_policy = Absent, cf_stamp = NoFile, cf_candidate = Absent, cf_live = Doc demo_live, cf_state = Absent\<rparr>"

definition demo_time :: "string \<Rightarrow> console_clock" where
  "demo_time v = \<lparr>cc_iso = ''t'', cc_version = v, cc_epoch = 7\<rparr>"

lemma demo_approved: "fst (console_step (demo_time ''1'', ApproveDrift) demo_console) = Inr (Applied ''baseline-1'' 1 0)"
  by code_simp

theorem rollback_restores_witness:
  "\<exists>s'. rollback (demo_time ''2'') ''baseline-1'' (snd (console_step (demo_time ''1'', ApproveDrift) demo_console)) =
     (Inr (Applied ''baseline-2'' 1 0), s')"
  using rollback_restores [OF demo_approved, of "[]" "demo_time ''2''"] by (auto simp: console_run_def demo_time_def)

theorem approved_drift_is_gone_witness:
  "\<exists>d'. compute_drift (snd (approve_drift (demo_time ''1'') demo_console)) = Inr d' \<and> drift_total d' = 0"
proof -
  have a: "approve_drift (demo_time ''1'') demo_console = (Inr (Applied ''baseline-1'' 1 0), snd (approve_drift (demo_time ''1'') demo_console))"
    using demo_approved by (simp add: prod_eq_iff)
  have "\<not> (case compute_drift demo_console of Inl _ \<Rightarrow> True | Inr _ \<Rightarrow> False)" by code_simp
  then obtain d where "compute_drift demo_console = Inr d" by (cases "compute_drift demo_console") auto
  moreover have "py_list (py_or (jget (fst (live_iec demo_console)) ''mms_ieds'') (JList [])) = Inr []" by code_simp
  ultimately show ?thesis using approved_drift_is_gone [OF a] by fastforce
qed

definition demo_sensor :: policy_store where
  "demo_sensor = snd (policy_store_init 5 False 1 \<lparr>df_policy = Absent, df_stamp = NoFile, df_fallback = Absent,
     df_profile = \<lparr>pf_profile = Absent, pf_stamp = NoFile\<rparr>\<rparr>)"


theorem approval_hidden_by_profile_witness:
  "\<exists>st p. dp_profile st = Some p \<and>
     obj_field (dp_baseline (snd (policy_reload False 9 (pushed_policy ''9'' (JObj [(''version'', JStr ''v9'')])) st))) ''iec61850''
       = obj_field (ps_baseline p) ''iec61850''"
proof -
  define s where "s = snd (policy_store_init 5 True 1 (pushed_policy ''1'' (JObj [(''version'', JStr ''v1'')])))"
  obtain p where p: "dp_profile s = Some p" "\<exists>d. ps_baseline p = JObj d \<and> d \<noteq> []" "truthy (ps_artifact p)" "ps_last_stamp p = ''p1''"
    and s: "dp_interval s = 5" "dp_last_check s = 1" "dp_last_stamp s = ''1''"
    by (simp add: s_def pushed_policy_def policy_store_init_def policy_reload_def install_baseline_def apply_thresholds_def
        profile_reload_def profile_store_new_def ask_profile_def profile_baseline_def obj_field_def obj_or_empty_def
        observed_to_detection_baseline_def choose_baseline_def rules_of_def Let_def strip_def lstrip_def rstrip_def
        is_space_def chr_code_def jhas_def py_or_def dict_update_def)
  then obtain d where d: "ps_baseline p = JObj d" "d \<noteq> []" by blast
  have "obj_field (dp_baseline (snd (policy_reload False 9 (pushed_policy ''9'' (JObj [(''version'', JStr ''v9'')])) s))) ''iec61850''
       = obj_field (ps_baseline p) ''iec61850''"
    by (rule approval_hidden_by_profile [OF p(1) d p(3)])
      (simp_all add: s p(4) pushed_policy_def strip_def lstrip_def rstrip_def is_space_def chr_code_def)
  then show ?thesis using p(1) by blast
qed

end
