(* ===== verification/Feedsync.thy ===== *)
theory Feedsync
  imports Rulesync Ioc
begin

text \<open>
  The two feeds the edge agent pulls for the packet sensor: the managed black and white lists
  (\<open>policy/listfile_sync.py\<close>), signed, and the IoC blacklist (\<open>policy/sync.py\<close>,
  \<open>policy/ioc_cache.py\<close>). Both are written as a cache file and a stamp the sensor's stores read.
  The answer of the HTTP client and what \<open>response.json()\<close> makes of its body are arguments; \<open>now\<close>
  is the UTC clock in microseconds, read once per call.
\<close>

section \<open>Managed lists\<close>

definition LISTFILE_SCHEMA :: string where
  "LISTFILE_SCHEMA = ''ot_managed_listfile.v1''"

definition ENTRY_KINDS :: "string list" where
  "ENTRY_KINDS = [''ip'', ''cidr'', ''domain'', ''hash'']"

record listfile_result =
  lf_ok :: bool
  lf_changed :: bool
  lf_code :: int
  lf_items :: int
  lf_version :: string
  lf_tenant :: string
  lf_error :: "string option"

definition listfile_result_of :: "bool \<Rightarrow> bool \<Rightarrow> int \<Rightarrow> int \<Rightarrow> string \<Rightarrow> string \<Rightarrow> string option \<Rightarrow> listfile_result" where
  "listfile_result_of ok changed code items version tenant e = \<lparr>lf_ok = ok, lf_changed = changed, lf_code = code,
     lf_items = items, lf_version = version, lf_tenant = tenant, lf_error = e\<rparr>"

definition listfile_ack_payload :: "listfile_result \<Rightarrow> json" where
  "listfile_ack_payload r =
     (let (status, outcome) = (if lf_ok r \<and> lf_changed r then (''ack'', ''applied'') else (''nack'', ''rejected'')) in
      JObj [(''schema_version'', JStr ''ot_policy_ack.v1''), (''artifact_type'', JStr ''listfile''),
        (''status'', JStr status), (''outcome'', JStr outcome), (''version'', JStr (lf_version r)),
        (''item_count'', JInt (lf_items r)), (''tenant_id'', JStr (lf_tenant r)), (''error'', json_opt (lf_error r))])"

subsection \<open>The cache made of an artifact\<close>

type_synonym buckets = "(string, string list) dict"

definition no_buckets :: buckets where
  "no_buckets = map (\<lambda>k. (k, [])) ENTRY_KINDS"

definition bucket :: "buckets \<Rightarrow> string \<Rightarrow> string list" where
  "bucket b k = (case dict_get b k of None \<Rightarrow> [] | Some vs \<Rightarrow> vs)"

definition list_kind :: "json \<Rightarrow> string" where
  "list_kind lst = lower (strip (str_or_empty (jget lst ''entry_kind'')))"

definition is_blacklist :: "json \<Rightarrow> bool" where
  "is_blacklist lst = (lower (strip (str_or_empty (jget lst ''list_type''))) = ''blacklist'')"

definition list_values :: "json \<Rightarrow> string list res" where
  "list_values lst = bind_res (py_list (py_or (jget lst ''entries'') (JList []))) (\<lambda>es. Inr (stripped es))"

fun add_lists :: "json list \<Rightarrow> buckets \<Rightarrow> buckets \<Rightarrow> (buckets \<times> buckets) res" where
  "add_lists [] deny allow = Inr (deny, allow)"
| "add_lists (lst # rest) deny allow =
     (if \<not> is_obj lst \<or> list_kind lst \<notin> set ENTRY_KINDS then add_lists rest deny allow
      else bind_res (list_values lst) (\<lambda>vs. let k = list_kind lst in
        if is_blacklist lst then add_lists rest (dict_put k (bucket deny k @ vs) deny) allow
        else add_lists rest deny (dict_put k (bucket allow k @ vs) allow)))"

text \<open>Each value once per kind, at its first place.\<close>

definition dedup_buckets :: "buckets \<Rightarrow> buckets" where
  "dedup_buckets b = map (\<lambda>k. (k, dedup (bucket b k))) ENTRY_KINDS"

definition buckets_json :: "buckets \<Rightarrow> json" where
  "buckets_json b = JObj (map (\<lambda>(k, vs). (k, JList (map JStr vs))) b)"

definition bucket_count :: "buckets \<Rightarrow> nat" where
  "bucket_count b = sum_list (map (\<lambda>(k, vs). length vs) b)"

definition build_listfile_cache :: "string \<Rightarrow> json \<Rightarrow> string \<Rightarrow> string \<Rightarrow> json res" where
  "build_listfile_cache now_text artifact tenant etag =
     bind_res (py_list (py_or (jget artifact ''lists'') (JList []))) (\<lambda>lists.
     bind_res (add_lists lists no_buckets no_buckets) (\<lambda>(deny, allow).
       let deny = dedup_buckets deny; allow = dedup_buckets allow in
       Inr (JObj [(''schema_version'', JStr LISTFILE_SCHEMA),
         (''tenant_id'', JStr (if tenant \<noteq> [] then tenant else str_or_empty (jget artifact ''tenant_id''))),
         (''artifact_version'', JStr (str_or_empty (jget artifact ''version''))), (''updated_at'', JStr now_text),
         (''etag'', JStr etag), (''deny'', buckets_json deny), (''allow'', buckets_json allow),
         (''item_count'', JInt (int (bucket_count deny + bucket_count allow)))])))"

subsection \<open>Pull and apply\<close>

record feed_config =
  fd_enabled :: bool
  fd_feed_tenant :: string
  fd_tenant :: string
  fd_require_tenant :: bool
  fd_secret :: string

record feed_world =
  fw_now :: int
  fw_now_text :: string
  fw_crypto :: crypto
  fw_get :: "string option \<Rightarrow> feed_reply"
  fw_json :: "bytes \<Rightarrow> (string, json) sum"

record listfile_state =
  ls_cache :: jfile
  ls_stamp :: tfile
  ls_acks :: "json list"

definition listfile_tenant :: "feed_config \<Rightarrow> string option" where
  "listfile_tenant cfg =
     (let override = strip (fd_feed_tenant cfg); tenant = strip (fd_tenant cfg) in
      if override \<noteq> [] then Some override
      else if tenant \<noteq> [] \<and> tenant \<noteq> ''default'' then Some tenant
      else if fd_require_tenant cfg then None
      else if tenant = [] then None else Some tenant)"

definition emit_listfile_ack :: "listfile_result \<Rightarrow> listfile_state \<Rightarrow> listfile_result res \<times> listfile_state" where
  "emit_listfile_ack r s = (Inr r, s\<lparr>ls_acks := ls_acks s @ [listfile_ack_payload r]\<rparr>)"

definition write_listfile_cache :: "string \<Rightarrow> json \<Rightarrow> listfile_state \<Rightarrow> listfile_state" where
  "write_listfile_cache now_text cache s = s\<lparr>ls_cache := Doc cache,
     ls_stamp := Text (py_str (py_or (jget cache ''updated_at'') (JStr now_text)) @ [CHR 0x0A])\<rparr>"

text \<open>\<open>json.dumps(..., sort_keys=True)\<close>\<close>

fun key_sorted :: "json \<Rightarrow> json" where
  "key_sorted (JList xs) = JList (map key_sorted xs)"
| "key_sorted (JObj d) = JObj (sort_key fst (map (\<lambda>(k, v). (k, key_sorted v)) d))"
| "key_sorted v = v"

definition cached_count :: "json \<Rightarrow> int res" where
  "cached_count cache = py_int (py_or (jget cache ''item_count'') (JInt 0))"

definition apply_listfile :: "feed_config \<Rightarrow> feed_world \<Rightarrow> json \<Rightarrow> string \<Rightarrow> string \<Rightarrow> int \<Rightarrow> listfile_state \<Rightarrow>
    listfile_result res \<times> listfile_state" where
  "apply_listfile cfg w artifact tenant etag0 code s =
     (if \<not> fd_enabled cfg then (Inr (listfile_result_of True False code 0 [] [] (Some ''listfile_disabled'')), s)
      else
        let etag = (if etag0 = [] then sha256_hex (fw_crypto w) (utf8 (dumps (key_sorted artifact))) else etag0);
            existing = read_object (ls_cache s) in
        if truthy existing \<and> str_or_empty (jget existing ''etag'') = etag \<and>
           str_or_empty (jget existing ''artifact_version'') = str_or_empty (jget artifact ''version'')
        then (bind_res (cached_count existing) (\<lambda>n.
                Inr (listfile_result_of True False code n (str_or_empty (jget existing ''artifact_version'')) tenant None)), s)
        else (case build_listfile_cache (fw_now_text w) artifact tenant etag of Inl e \<Rightarrow> (Inl e, s)
          | Inr cache \<Rightarrow> let s = write_listfile_cache (fw_now_text w) cache s in
             (case cached_count cache of Inl e \<Rightarrow> (Inl e, s)
              | Inr n \<Rightarrow> emit_listfile_ack
                  (listfile_result_of True True code n (str_or_empty (jget cache ''artifact_version'')) tenant None) s)))"

definition http_error_text :: "int \<Rightarrow> string \<Rightarrow> string" where
  "http_error_text code text = (if take 300 text = [] then ''HTTP '' @ dec_int code else take 300 text)"

definition pull_listfile :: "feed_config \<Rightarrow> feed_world \<Rightarrow> bool \<Rightarrow> listfile_state \<Rightarrow> listfile_result res \<times> listfile_state" where
  "pull_listfile cfg w force s =
     (let failed = (\<lambda>code tenant e. listfile_result_of False False code 0 [] tenant (Some e)); etag = str_or_empty (jget (read_object (ls_cache s)) ''etag'') in
      if \<not> fd_enabled cfg then (Inr (listfile_result_of True False 0 0 [] [] (Some ''listfile_disabled'')), s)
      else case listfile_tenant cfg of
        None \<Rightarrow> (Inr (failed 0 [] ''tenant_id unresolved (set POLICY_SYNC_TENANT_ID or register sensor)''), s)
      | Some tenant \<Rightarrow> (case fw_get w (if etag \<noteq> [] \<and> \<not> force then Some etag else None) of
          FeedError e \<Rightarrow> (Inr (failed 0 tenant e), s)
        | FeedReply code text body sig ver et \<Rightarrow>
            if code = 304
            then (let cache = read_object (ls_cache s) in
                  (bind_res (cached_count cache) (\<lambda>n.
                     Inr (listfile_result_of True False 304 n (str_or_empty (jget cache ''artifact_version'')) tenant None)), s))
            else if 400 \<le> code then (Inr (failed code tenant (http_error_text code text)), s)
            else (case verify_artifact (fw_crypto w) tenant (fd_secret cfg) body sig of
                Inl e \<Rightarrow> (Inl e, s)
              | Inr False \<Rightarrow> emit_listfile_ack (failed code tenant ''signature verification failed'') s
              | Inr True \<Rightarrow> (case fw_json w body of
                    Inl e \<Rightarrow> (Inr (failed code tenant (''invalid JSON: '' @ e)), s)
                  | Inr artifact \<Rightarrow>
                     if \<not> is_obj artifact then (Inr (failed code tenant ''feed payload is not a JSON object''), s)
                     else apply_listfile cfg w artifact tenant
                       (if unquoted et = [] then sha256_hex (fw_crypto w) body else unquoted et) code s))))"

section \<open>The IoC feed\<close>

definition IOC_SCHEMA :: string where
  "IOC_SCHEMA = ''1.0''"

record ioc_maps =
  im_ipv4 :: "(string, json) dict"
  im_domain :: "(string, json) dict"
  im_hash :: "(string, json) dict"

definition no_iocs :: ioc_maps where
  "no_iocs = \<lparr>im_ipv4 = [], im_domain = [], im_hash = []\<rparr>"

text \<open>\<open>now + timedelta(seconds=...)\<close> beyond the year 9999 raises OverflowError.\<close>

definition expiry_text :: "int \<Rightarrow> int \<Rightarrow> string res" where
  "expiry_text now ttl = (case utc_iso (now + max ttl 60 * 1000000) of Inl _ \<Rightarrow> Inl OverflowError | Inr s \<Rightarrow> Inr s)"

definition item_type :: "json \<Rightarrow> string" where
  "item_type item = lower (strip (str_or_empty (jget item ''ioc_type'')))"

definition item_value :: "json \<Rightarrow> string" where
  "item_value item = strip (str_or_empty (jget item ''value''))"

definition ioc_meta :: "json \<Rightarrow> string \<Rightarrow> json" where
  "ioc_meta item expires_at = JObj [(''item_id'', JStr (str_or_empty (jget item ''item_id''))),
     (''confidence'', jget item ''confidence''), (''expires_at'', JStr expires_at), (''revoke'', JBool False)]"

definition store_ioc :: "json \<Rightarrow> json \<Rightarrow> ioc_maps \<Rightarrow> ioc_maps" where
  "store_ioc item meta m =
     (let v = item_value item in
      if item_type item \<in> {''ipv4'', ''ip''} then m\<lparr>im_ipv4 := dict_put v meta (im_ipv4 m)\<rparr>
      else if item_type item = ''domain'' then m\<lparr>im_domain := dict_put (lower v) meta (im_domain m)\<rparr>
      else if item_type item = ''hash'' then m\<lparr>im_hash := dict_put (lower v) meta (im_hash m)\<rparr>
      else m)"

definition item_ttl :: "int \<Rightarrow> json \<Rightarrow> int res" where
  "item_ttl default_ttl item = py_int (py_or (jget item ''ttl_seconds'') (JInt default_ttl))"

fun add_iocs :: "int \<Rightarrow> int \<Rightarrow> json list \<Rightarrow> ioc_maps \<Rightarrow> ioc_maps res" where
  "add_iocs now default_ttl [] m = Inr m"
| "add_iocs now default_ttl (item # rest) m =
     (if \<not> is_obj item \<or> truthy (jget item ''revoke'') \<or> item_value item = [] then add_iocs now default_ttl rest m
      else bind_res (item_ttl default_ttl item) (\<lambda>ttl. bind_res (expiry_text now ttl) (\<lambda>expires_at.
        add_iocs now default_ttl rest (store_ioc item (ioc_meta item expires_at) m))))"

definition manifest_etag :: "json \<Rightarrow> string \<Rightarrow> string res" where
  "manifest_etag artifact etag = (if etag \<noteq> [] then Inr etag
     else bind_res (jget_res (py_or (jget artifact ''manifest'') (JObj [])) ''sha256'') (\<lambda>v. Inr (str_or_empty v)))"

definition build_ioc_cache :: "int \<Rightarrow> json \<Rightarrow> string \<Rightarrow> string \<Rightarrow> json res" where
  "build_ioc_cache now artifact tenant etag0 =
     bind_res (py_int (py_or (jget artifact ''ttl_default_seconds'') (JInt 86400))) (\<lambda>default_ttl.
     bind_res (py_list (py_or (jget artifact ''items'') (JList []))) (\<lambda>items.
     bind_res (add_iocs now default_ttl items no_iocs) (\<lambda>m.
     bind_res (manifest_etag artifact etag0) (\<lambda>etag.
     bind_res (utc_iso now) (\<lambda>updated_at.
       Inr (JObj [(''schema_version'', JStr IOC_SCHEMA),
         (''tenant_id'', JStr (if tenant \<noteq> [] then tenant else str_or_empty (jget artifact ''tenant_id''))),
         (''artifact_version'', JStr (str_or_empty (jget artifact ''version''))), (''updated_at'', JStr updated_at),
         (''etag'', JStr etag), (''ipv4'', JObj (im_ipv4 m)), (''domain'', JObj (im_domain m)), (''hash'', JObj (im_hash m)),
         (''item_count'', JInt (int (length (im_ipv4 m) + length (im_domain m) + length (im_hash m))))]))))))"

subsection \<open>Pull and apply\<close>

record ioc_sync =
  is_cache :: jfile
  is_stamp_file :: tfile
  is_last_etag :: string

definition load_ioc_cache :: "jfile \<Rightarrow> json option" where
  "load_ioc_cache f = (case f of Doc v \<Rightarrow> if is_obj v then Some v else None | _ \<Rightarrow> None)"

definition ioc_sync_init :: "jfile \<Rightarrow> tfile \<Rightarrow> ioc_sync" where
  "ioc_sync_init f g = \<lparr>is_cache = f, is_stamp_file = g,
     is_last_etag = (case load_ioc_cache f of Some v \<Rightarrow> (if truthy v then str_or_empty (jget v ''etag'') else []) | None \<Rightarrow> [])\<rparr>"

definition resolve_tenant :: "feed_config \<Rightarrow> jfile \<Rightarrow> string option" where
  "resolve_tenant cfg f =
     (let tenant = strip (fd_tenant cfg);
          cached = (case load_ioc_cache f of Some v \<Rightarrow> strip (str_or_empty (jget v ''tenant_id'')) | None \<Rightarrow> []) in
      if tenant \<noteq> [] \<and> tenant \<noteq> ''default'' then Some tenant
      else if cached \<noteq> [] \<and> cached \<noteq> ''default'' then Some cached
      else if fd_require_tenant cfg then None
      else if tenant = [] then None else Some tenant)"

definition ioc_feed_tenant :: "feed_config \<Rightarrow> jfile \<Rightarrow> string option" where
  "ioc_feed_tenant cfg f = (let override = strip (fd_feed_tenant cfg) in
     if override \<noteq> [] then Some override else resolve_tenant cfg f)"

definition apply_iocs :: "feed_config \<Rightarrow> feed_world \<Rightarrow> json \<Rightarrow> string \<Rightarrow> string \<Rightarrow> int \<Rightarrow> ioc_sync \<Rightarrow>
    listfile_result res \<times> ioc_sync" where
  "apply_iocs cfg w artifact tenant etag0 code s =
     (if \<not> fd_enabled cfg then (Inr (listfile_result_of True False code 0 [] [] (Some ''policy_sync_disabled'')), s)
      else case manifest_etag artifact etag0 of Inl e \<Rightarrow> (Inl e, s)
      | Inr etag \<Rightarrow>
        let existing = read_object (is_cache s) in
        if truthy existing \<and> etag \<noteq> [] \<and> str_or_empty (jget existing ''etag'') = etag \<and>
           str_or_empty (jget existing ''artifact_version'') = str_or_empty (jget artifact ''version'')
        then (bind_res (cached_count existing) (\<lambda>n.
                Inr (listfile_result_of True False code n (str_or_empty (jget existing ''artifact_version'')) tenant None)), s)
        else (case build_ioc_cache (fw_now w) artifact tenant etag of Inl e \<Rightarrow> (Inl e, s)
          | Inr cache \<Rightarrow>
             let s = s\<lparr>is_cache := Doc cache, is_stamp_file := Text (py_str (jget cache ''updated_at'') @ [CHR 0x0A]),
                       is_last_etag := (if etag \<noteq> [] then etag else is_last_etag s)\<rparr> in
             (bind_res (cached_count cache) (\<lambda>n.
                Inr (listfile_result_of True True code n (str_or_empty (jget cache ''artifact_version'')) tenant None)), s)))"

definition pull_iocs :: "feed_config \<Rightarrow> feed_world \<Rightarrow> bool \<Rightarrow> ioc_sync \<Rightarrow> listfile_result res \<times> ioc_sync" where
  "pull_iocs cfg w force s =
     (let failed = (\<lambda>code tenant e. listfile_result_of False False code 0 [] tenant (Some e)) in
      if \<not> fd_enabled cfg then (Inr (listfile_result_of True False 0 0 [] [] (Some ''policy_sync_disabled'')), s)
      else case ioc_feed_tenant cfg (is_cache s) of
        None \<Rightarrow> (Inr (failed 0 [] ''tenant_id unresolved (set POLICY_SYNC_TENANT_ID or register sensor)''), s)
      | Some tenant \<Rightarrow> (case fw_get w (if is_last_etag s \<noteq> [] \<and> \<not> force then Some (is_last_etag s) else None) of
          FeedError e \<Rightarrow> (Inr (failed 0 tenant e), s)
        | FeedReply code text body sig ver et \<Rightarrow>
            if code = 304
            then (let cache = read_object (is_cache s) in
                  (bind_res (cached_count cache) (\<lambda>n.
                     Inr (listfile_result_of True False 304 n (str_or_empty (jget cache ''artifact_version'')) tenant None)), s))
            else if code = 404 then (Inr (failed 404 tenant (''no blacklist artifact for tenant '' @ tenant)), s)
            else if 400 \<le> code then (Inr (failed code tenant (http_error_text code text)), s)
            else (case fw_json w body of
                    Inl e \<Rightarrow> (Inr (failed code tenant (''invalid JSON: '' @ e)), s)
                  | Inr artifact \<Rightarrow>
                     if \<not> is_obj artifact then (Inr (failed code tenant ''feed payload is not a JSON object''), s)
                     else apply_iocs cfg w artifact tenant (unquoted et) code s)))"

section \<open>Lemmas\<close>

subsection \<open>Lists of values\<close>

lemma stripped_clean: "x \<in> set (stripped vs) \<Longrightarrow> strip x = x \<and> x \<noteq> []"
  by (auto simp: stripped_def strip_idem)

lemma stripped_texts: "\<forall>x\<in>set xs. strip x = x \<and> x \<noteq> [] \<Longrightarrow> stripped (map JStr xs) = xs"
  by (induction xs) (simp_all add: stripped_def)

text \<open>The values of kind \<open>k\<close> an artifact's lists allow.\<close>

definition allowed_values :: "json list \<Rightarrow> string \<Rightarrow> string list" where
  "allowed_values ls k = concat (map (\<lambda>l. case list_values l of Inl _ \<Rightarrow> [] | Inr vs \<Rightarrow> vs)
     (filter (\<lambda>l. is_obj l \<and> list_kind l = k \<and> \<not> is_blacklist l) ls))"

lemma bucket_put [simp]: "bucket (dict_put k vs b) k' = (if k' = k then vs else bucket b k')"
  by (simp add: bucket_def)

lemma add_lists_allow:
  "add_lists ls deny allow = Inr (deny', allow') \<Longrightarrow> k \<in> set ENTRY_KINDS \<Longrightarrow>
     bucket allow' k = bucket allow k @ allowed_values ls k"
proof (induction ls arbitrary: deny allow)
  case (Cons l ls)
  then show ?case
    by (cases "is_obj l \<and> list_kind l \<in> set ENTRY_KINDS"; cases "list_values l"; cases "is_blacklist l")
      (auto simp: allowed_values_def Let_def)
qed (simp add: allowed_values_def)

lemma list_values_clean: "list_values l = Inr vs \<Longrightarrow> x \<in> set vs \<Longrightarrow> strip x = x \<and> x \<noteq> []"
  by (cases "py_list (py_or (jget l ''entries'') (JList []))") (auto simp: list_values_def dest: stripped_clean)

lemma allowed_values_clean: "x \<in> set (allowed_values ls k) \<Longrightarrow> strip x = x \<and> x \<noteq> []"
  unfolding allowed_values_def by (auto dest: list_values_clean [OF sym] split: sum.splits)

lemma jget_buckets: "k \<in> set ENTRY_KINDS \<Longrightarrow> jget (buckets_json (dedup_buckets b)) k = JList (map JStr (dedup (bucket b k)))"
  by (auto simp: buckets_json_def dedup_buckets_def ENTRY_KINDS_def)

lemma allow_entries_buckets:
  "k \<in> set ENTRY_KINDS \<Longrightarrow> allow_entries (buckets_json (dedup_buckets b)) k = Inr (map JStr (dedup (bucket b k)))"
  by (simp add: allow_entries_def jget_buckets py_or_def)

lemma bucket_none [simp]: "bucket no_buckets k = []"
  by (simp add: bucket_def no_buckets_def ENTRY_KINDS_def)

lemma built_cache_allows:
  assumes "build_listfile_cache now_text artifact tenant etag = Inr cache"
  obtains ls b where "py_list (py_or (jget artifact ''lists'') (JList [])) = Inr ls"
    "jget cache ''allow'' = buckets_json (dedup_buckets b)" "is_obj cache"
    "\<And>k. k \<in> set ENTRY_KINDS \<Longrightarrow> bucket b k = allowed_values ls k"
proof -
  from assms obtain ls deny allow where l: "py_list (py_or (jget artifact ''lists'') (JList [])) = Inr ls"
    "add_lists ls no_buckets no_buckets = Inr (deny, allow)"
    "jget cache ''allow'' = buckets_json (dedup_buckets allow)" "is_obj cache"
    by (auto simp: build_listfile_cache_def bind_res_def Let_def split: sum.splits)
  then show thesis using that [of ls allow] add_lists_allow [OF l(2)] by simp
qed

lemma loaded_allow:
  assumes "build_listfile_cache now_text artifact tenant etag = Inr cache"
    and "py_list (py_or (jget artifact ''lists'') (JList [])) = Inr ls"
  shows "allow_ips (snd (enforcer_load (Doc cache) e)) = set (allowed_values ls ''ip'')"
    and "set (allow_cidrs (snd (enforcer_load (Doc cache) e))) = {n. \<exists>c\<in>set (allowed_values ls ''cidr''). parse_ip_network c = Some n}"
proof -
  obtain b where b: "jget cache ''allow'' = buckets_json (dedup_buckets b)" "is_obj cache"
    "\<And>k. k \<in> set ENTRY_KINDS \<Longrightarrow> bucket b k = allowed_values ls k"
    using built_cache_allows [OF assms(1)] assms(2) by (metis sum.inject(2))
  have f: "obj_field cache ''allow'' = buckets_json (dedup_buckets b)"
    by (simp add: obj_field_def obj_or_empty_def b(1)) (simp add: buckets_json_def)
  have s: "stripped (map JStr (dedup (bucket b k))) = dedup (allowed_values ls k)" if "k \<in> set ENTRY_KINDS" for k
    by (simp add: b(3) [OF that] stripped_texts allowed_values_clean)
  note k = ENTRY_KINDS_def
  show "allow_ips (snd (enforcer_load (Doc cache) e)) = set (allowed_values ls ''ip'')"
    by (simp add: enforcer_load_def b(2) load_allow_def f allow_entries_buckets s k)
  show "set (allow_cidrs (snd (enforcer_load (Doc cache) e))) = {n. \<exists>c\<in>set (allowed_values ls ''cidr''). parse_ip_network c = Some n}"
    by (simp add: enforcer_load_def b(2) load_allow_def f allow_entries_buckets s k List.map_filter_def image_Collect) force
qed

subsection \<open>Expiry times\<close>

lemma isoformat_no_zulu: "CHR ''Z'' \<notin> set (isoformat d)"
proof -
  have z: "CHR ''Z'' \<notin> set (zpad w n)" for w n
    using zpad_all_digits [of "CHR ''Z''" w n] by (auto simp: is_digit_def chr_code_def)
  show ?thesis by (auto simp: isoformat_def iso_offset_def Let_def z split: option.splits)
qed

lemma concat_map_id: "c \<notin> set s \<Longrightarrow> concat (map (\<lambda>x. if x = c then t else [x]) s) = s"
  by (induction s) auto

lemma expiry_read:
  assumes "expiry_text now ttl = Inr s"
  shows "parse_iso s = Some (Aware (now + max ttl 60 * 1000000))" and "s \<noteq> []"
proof -
  obtain d where d: "s = isoformat d" "fromisoformat s = Some d" "instant d = Aware (now + max ttl 60 * 1000000)"
    using assms utc_iso_sound [of "now + max ttl 60 * 1000000"] by (auto simp: expiry_text_def split: sum.splits)
  show "s \<noteq> []" by (simp add: d(1) isoformat_def)
  then show "parse_iso s = Some (Aware (now + max ttl 60 * 1000000))"
    using d by (simp add: parse_iso_def concat_map_id isoformat_no_zulu)
qed

subsection \<open>The IoC cache read back\<close>

fun last_with :: "('a \<Rightarrow> bool) \<Rightarrow> 'a list \<Rightarrow> 'a option" where
  "last_with P [] = None"
| "last_with P (x # xs) = (case last_with P xs of Some y \<Rightarrow> Some y | None \<Rightarrow> if P x then Some x else None)"

text \<open>The item names address \<open>ip\<close> and is not revoked.\<close>

definition lists_ip :: "string \<Rightarrow> json \<Rightarrow> bool" where
  "lists_ip ip item = (is_obj item \<and> \<not> truthy (jget item ''revoke'') \<and> item_value item = ip \<and> ip \<noteq> [] \<and>
     item_type item \<in> {''ipv4'', ''ip''})"

definition good_meta :: "int \<Rightarrow> int \<Rightarrow> json \<Rightarrow> json \<Rightarrow> bool" where
  "good_meta now default_ttl item meta = (\<exists>ttl text. item_ttl default_ttl item = Inr ttl \<and> meta = ioc_meta item text \<and>
     expiry_text now ttl = Inr text)"

lemma ipv4_store_ioc: "im_ipv4 (store_ioc item meta m) =
    (if item_type item \<in> {''ipv4'', ''ip''} then dict_put (item_value item) meta (im_ipv4 m) else im_ipv4 m)"
  by (simp add: store_ioc_def Let_def)

lemma add_iocs_ipv4:
  assumes "add_iocs now d items m = Inr m'"
  shows "case last_with (lists_ip ip) items of None \<Rightarrow> dict_get (im_ipv4 m') ip = dict_get (im_ipv4 m) ip
    | Some item \<Rightarrow> \<exists>meta. dict_get (im_ipv4 m') ip = Some meta \<and> good_meta now d item meta"
  using assms
proof (induction items arbitrary: m)
  case (Cons item items)
  show ?case
  proof (cases "\<not> is_obj item \<or> truthy (jget item ''revoke'') \<or> item_value item = []")
    case True
    then have "\<not> lists_ip ip item" by (auto simp: lists_ip_def)
    then show ?thesis using Cons.IH [of m] Cons.prems True by (auto split: option.splits)
  next
    case False
    then obtain ttl tx where t: "item_ttl d item = Inr ttl" "expiry_text now ttl = Inr tx"
      "add_iocs now d items (store_ioc item (ioc_meta item tx) m) = Inr m'"
      using Cons.prems by (auto simp: bind_res_def split: sum.splits)
    have g: "good_meta now d item (ioc_meta item tx)" using t by (auto simp: good_meta_def)
    show ?thesis using Cons.IH [OF t(3)] False g
      by (auto simp: ipv4_store_ioc lists_ip_def split: option.splits)
  qed
qed simp

lemma add_iocs_metas:
  "add_iocs now d items m = Inr m' \<Longrightarrow> dict_wf (im_ipv4 m) \<Longrightarrow>
     \<forall>p\<in>set (im_ipv4 m). \<exists>item. good_meta now d item (snd p) \<Longrightarrow>
     dict_wf (im_ipv4 m') \<and> (\<forall>p\<in>set (im_ipv4 m'). \<exists>item. good_meta now d item (snd p))"
proof (induction items arbitrary: m)
  case (Cons item items)
  show ?case
  proof (cases "\<not> is_obj item \<or> truthy (jget item ''revoke'') \<or> item_value item = []")
    case True
    then show ?thesis using Cons by auto
  next
    case False
    then obtain ttl tx where t: "item_ttl d item = Inr ttl" "expiry_text now ttl = Inr tx"
      "add_iocs now d items (store_ioc item (ioc_meta item tx) m) = Inr m'"
      using Cons.prems by (auto simp: bind_res_def split: sum.splits)
    have g: "good_meta now d item (ioc_meta item tx)" using t by (auto simp: good_meta_def)
    have "\<forall>p\<in>set (dict_put (item_value item) (ioc_meta item tx) (im_ipv4 m)). \<exists>item. good_meta now d item (snd p)"
      by (rule dict_put_Ball [OF Cons.prems(3)]) (use g in auto)
    then show ?thesis using Cons.prems
      by (intro Cons.IH [OF t(3)]) (simp_all add: ipv4_store_ioc)
  qed
qed simp

text \<open>The instant an item expires, and the entry the sensor keeps for it.\<close>

definition expires :: "int \<Rightarrow> int \<Rightarrow> json \<Rightarrow> int" where
  "expires now default_ttl item = now + max (case item_ttl default_ttl item of Inr t \<Rightarrow> t | Inl _ \<Rightarrow> 0) 60 * 1000000"

definition entry_for :: "int \<Rightarrow> int \<Rightarrow> json \<Rightarrow> ioc_entry" where
  "entry_for now default_ttl item = \<lparr>ie_item_id = str_or_empty (jget item ''item_id''),
     ie_confidence = jget item ''confidence'', ie_expires_at = Some (Aware (expires now default_ttl item))\<rparr>"

lemma good_meta_read:
  assumes "good_meta now d item meta"
  shows "is_obj meta" "parse_iso (str_or_empty (jget meta ''expires_at'')) = Some (Aware (expires now d item))"
    "str_or_empty (jget meta ''item_id'') = str_or_empty (jget item ''item_id'')" "jget meta ''confidence'' = jget item ''confidence''"
  using assms expiry_read by (auto simp: good_meta_def ioc_meta_def expires_def)

lemma load_entries_all:
  assumes "dict_wf items" and "\<forall>p\<in>set items. \<exists>item. good_meta now d item (snd p)"
  shows "\<exists>r. load_entries u items acc = Inr r \<and> (\<forall>ip. case dict_get items ip of None \<Rightarrow> dict_get r ip = dict_get acc ip
    | Some meta \<Rightarrow> (\<forall>item. good_meta now d item meta \<longrightarrow>
        dict_get r ip = (if expires now d item \<le> u then dict_get acc ip else Some (entry_for now d item))))"
  using assms
proof (induction items arbitrary: acc)
  case (Cons p items)
  obtain ip0 meta where p: "p = (ip0, meta)" by (cases p)
  obtain item where g: "good_meta now d item meta" using Cons.prems(2) by (auto simp: p)
  have new: "ip0 \<notin> set (dict_keys items)" and wf: "dict_wf items"
    using Cons.prems(1) by (simp_all add: p dict_wf_def dict_keys_def)
  define acc' where "acc' = (if expires now d item \<le> u then acc else dict_put ip0 (entry_for now d item) acc)"
  have step: "load_entries u (p # items) acc = load_entries u items acc'"
    by (simp add: p good_meta_read [OF g] is_expired_def acc'_def entry_for_def)
  obtain r where r: "load_entries u items acc' = Inr r" "\<And>ip. case dict_get items ip of None \<Rightarrow> dict_get r ip = dict_get acc' ip
    | Some meta \<Rightarrow> (\<forall>item. good_meta now d item meta \<longrightarrow>
        dict_get r ip = (if expires now d item \<le> u then dict_get acc' ip else Some (entry_for now d item)))"
    using Cons.IH [OF wf] Cons.prems(2) by force
  have same: "expires now d i = expires now d item \<and> entry_for now d i = entry_for now d item" if "good_meta now d i meta" for i
    using good_meta_read [OF g] good_meta_read [OF that] by (simp add: entry_for_def)
  have n: "dict_get items ip0 = None" using new by (simp add: dict_get_None_iff)
  show ?case unfolding step
  proof (intro exI [of _ r] conjI allI)
    fix ip
    show "case dict_get (p # items) ip of None \<Rightarrow> dict_get r ip = dict_get acc ip
    | Some meta \<Rightarrow> (\<forall>item. good_meta now d item meta \<longrightarrow>
        dict_get r ip = (if expires now d item \<le> u then dict_get acc ip else Some (entry_for now d item)))"
    proof (cases "ip = ip0")
      case True
      then show ?thesis using r(2) [of ip0] n same by (simp add: p acc'_def)
    next
      case False
      then show ?thesis using r(2) [of ip] by (simp add: p acc'_def split: option.splits)
    qed
  qed (rule r(1))
qed simp

lemma cache_of_items:
  assumes "build_ioc_cache now artifact tenant etag = Inr cache"
  obtains items d m where "py_list (py_or (jget artifact ''items'') (JList [])) = Inr items"
    "py_int (py_or (jget artifact ''ttl_default_seconds'') (JInt 86400)) = Inr d"
    "add_iocs now d items no_iocs = Inr m" "jget cache ''ipv4'' = JObj (im_ipv4 m)" "is_obj cache"
  using assms that by (auto simp: build_ioc_cache_def bind_res_def split: sum.splits)

lemma parsed_iocs:
  assumes "add_iocs now d items no_iocs = Inr m" and "jget cache ''ipv4'' = JObj (im_ipv4 m)" and "ip \<noteq> []"
  shows "\<exists>r. ioc_parse cache u = Inr r \<and> dict_get r ip = (case last_with (lists_ip ip) items of None \<Rightarrow> None
    | Some item \<Rightarrow> if expires now d item \<le> u then None else Some (entry_for now d item))"
proof -
  have "dict_wf (im_ipv4 m) \<and> (\<forall>p\<in>set (im_ipv4 m). \<exists>item. good_meta now d item (snd p))"
    by (rule add_iocs_metas [OF assms(1)]) (simp_all add: no_iocs_def)
  then obtain r where r: "load_entries u (im_ipv4 m) [] = Inr r"
    "\<And>ip. case dict_get (im_ipv4 m) ip of None \<Rightarrow> dict_get r ip = None
    | Some meta \<Rightarrow> (\<forall>item. good_meta now d item meta \<longrightarrow>
        dict_get r ip = (if expires now d item \<le> u then None else Some (entry_for now d item)))"
    using load_entries_all [of "im_ipv4 m" now d u "[]"] unfolding dict_get_Nil by blast
  have "ioc_parse cache u = Inr r"
    using r(1) by (cases "im_ipv4 m") (simp_all add: ioc_parse_def ioc_items_def assms(2) py_or_def)
  then show ?thesis using add_iocs_ipv4 [OF assms(1), of ip] r(2) [of ip]
    by (auto simp: no_iocs_def split: option.splits)
qed

section \<open>Properties\<close>

lemma apply_listfile_cache:
  "apply_listfile cfg w artifact tenant etag code s = (r, s') \<Longrightarrow>
     (s' = s \<and> \<not> gives lf_changed r) \<or>
     (\<exists>etag cache. build_listfile_cache (fw_now_text w) artifact tenant etag = Inr cache \<and> ls_cache s' = Doc cache)"
  by (auto simp: apply_listfile_def Let_def listfile_result_of_def write_listfile_cache_def emit_listfile_ack_def bind_res_def gives_def
      split: if_splits sum.splits)

text \<open>The answer \<open>a\<close> to a pull carries artifact \<open>artifact\<close>, signed for \<open>tenant\<close>.\<close>

definition signed_answer :: "feed_config \<Rightarrow> feed_world \<Rightarrow> feed_reply \<Rightarrow> string \<Rightarrow> json \<Rightarrow> bool" where
  "signed_answer cfg w a tenant artifact = (case a of FeedError _ \<Rightarrow> False
     | FeedReply code txt body sig ver et \<Rightarrow> code < 400 \<and> code \<noteq> 304 \<and>
         sig \<noteq> [] \<and> sig = sign_artifact (fw_crypto w) tenant (fd_secret cfg) body \<and> fw_json w body = Inr artifact)"

lemma pull_listfile_cases:
  obtains (kept) r acks where "pull_listfile cfg w force s = (r, s\<lparr>ls_acks := acks\<rparr>)" "\<not> gives lf_changed r"
  | (applied) q tenant artifact etag code where "listfile_tenant cfg = Some tenant"
    "signed_answer cfg w (fw_get w q) tenant artifact"
    "pull_listfile cfg w force s = apply_listfile cfg w artifact tenant etag code s"
proof -
  define q where "q = (let etag = str_or_empty (jget (read_object (ls_cache s)) ''etag'') in
    if etag \<noteq> [] \<and> \<not> force then Some etag else None)"
  note pull = pull_listfile_def [of cfg w force s] Let_def q_def [symmetric, unfolded Let_def]
  have keep: thesis if "pull_listfile cfg w force s = (r, s)" "\<not> gives lf_changed r" for r
    using kept [of r "ls_acks s"] that by simp
  show thesis
  proof (cases "fd_enabled cfg \<and> listfile_tenant cfg \<noteq> None")
    case False
    then show ?thesis
      by (cases "fd_enabled cfg") (auto intro!: keep simp: pull listfile_result_of_def)
  next
    case True
    then obtain tenant where t: "fd_enabled cfg" "listfile_tenant cfg = Some tenant" by auto
    show ?thesis
    proof (cases "fw_get w q")
      case (FeedError e)
      then show ?thesis by (auto intro!: keep simp: pull t listfile_result_of_def)
    next
      case r: (FeedReply code msg body sig ver et)
      consider "code = 304" | "code \<noteq> 304" "400 \<le> code"
        | e where "code \<noteq> 304" "code < 400" "verify_artifact (fw_crypto w) tenant (fd_secret cfg) body sig = Inl e"
        | "code \<noteq> 304" "code < 400" "verify_artifact (fw_crypto w) tenant (fd_secret cfg) body sig = Inr False"
        | "code \<noteq> 304" "code < 400" "verify_artifact (fw_crypto w) tenant (fd_secret cfg) body sig = Inr True"
        by (cases "verify_artifact (fw_crypto w) tenant (fd_secret cfg) body sig") fastforce+
      then show ?thesis
      proof cases
        case 1
        then show ?thesis
          by (cases "cached_count (read_object (ls_cache s))") (auto intro!: keep simp: pull t r listfile_result_of_def)
      next
        case 4
        show ?thesis
          by (rule kept, simp add: 4 not_le [THEN iffD2, OF 4(2)] pull t r emit_listfile_ack_def, simp add: listfile_result_of_def)
      next
        case 5
        show ?thesis
        proof (cases "fw_json w body")
          case (Inl e)
          then show ?thesis using 5 by (auto intro!: keep simp: pull t r listfile_result_of_def)
        next
          case (Inr artifact)
          show ?thesis
          proof (cases "is_obj artifact")
            case True
            note sg = verify_signed [OF 5(3)]
            have "signed_answer cfg w (fw_get w q) tenant artifact"
              using 5(1,2) sg [THEN conjunct1] by (simp add: r Inr signed_answer_def sg [THEN conjunct2, symmetric])
            then show ?thesis using 5 True by (intro applied [OF t(2), of q artifact]) (simp_all add: pull t r Inr)
          next
            case False
            then show ?thesis using 5 by (auto intro!: keep simp: pull t r Inr listfile_result_of_def)
          qed
        qed
      qed (auto intro!: keep simp: pull t r listfile_result_of_def)
    qed
  qed
qed

text \<open>
  The lists the sensor exempts hosts by come from a signed answer only: a pull leaves the
  cache file as it was, or writes the cache built of an artifact whose body carried the signature of
  the tenant it was asked for.
\<close>

theorem listfile_cache_signed:
  "ls_cache (snd (pull_listfile cfg w force s)) = ls_cache s \<or>
   (\<exists>q tenant artifact etag cache. listfile_tenant cfg = Some tenant \<and> signed_answer cfg w (fw_get w q) tenant artifact \<and>
      build_listfile_cache (fw_now_text w) artifact tenant etag = Inr cache \<and>
      ls_cache (snd (pull_listfile cfg w force s)) = Doc cache)"
proof (cases rule: pull_listfile_cases [of cfg w force s])
  case (kept r acks)
  then show ?thesis by simp
next
  case (applied q tenant artifact etag code)
  then show ?thesis using apply_listfile_cache [OF prod.collapse [symmetric], of cfg w artifact tenant etag code s] by fastforce
qed

text \<open>
  C1. A managed list that is pulled exempts exactly the hosts it names: when a pull changed the
  cache, the answer carried over its body the signature of the tenant the agent is configured for
  (the feed tenant, else its own tenant), and the enforcer of the sensor, once it has loaded
  the cache, takes an IPv4 address as whitelisted exactly when the artifact has a list that is not
  a blacklist with that address among its entries of kind ip, or a network that contains it among
  its entries of kind cidr.
\<close>

theorem listfile_push_exempts:
  assumes "pull_listfile cfg w force s = (Inr r, s')" and "lf_changed r" and "v < 2 ^ 32"
  shows "\<exists>q tenant artifact ls. listfile_tenant cfg = Some tenant \<and> signed_answer cfg w (fw_get w q) tenant artifact \<and>
     py_list (py_or (jget artifact ''lists'') (JList [])) = Inr ls \<and>
     (is_ip_whitelisted (snd (enforcer_load (ls_cache s') e)) (show_ipv4 v) \<longleftrightarrow>
        show_ipv4 v \<in> set (allowed_values ls ''ip'') \<or>
        (\<exists>c\<in>set (allowed_values ls ''cidr''). \<exists>n. parse_ip_network c = Some n \<and> net_version n = 4 \<and>
           mask_base 32 (net_prefix n) v = net_base n))"
proof (cases rule: pull_listfile_cases [of cfg w force s])
  case (kept r' acks)
  then show ?thesis using assms(1,2) by auto
next
  case (applied q tenant artifact etag code)
  then obtain etag' cache where c: "build_listfile_cache (fw_now_text w) artifact tenant etag' = Inr cache" "ls_cache s' = Doc cache"
    using apply_listfile_cache [of cfg w artifact tenant etag code s "Inr r" s'] assms(1,2) by auto
  obtain ls where l: "py_list (py_or (jget artifact ''lists'') (JList [])) = Inr ls"
    using built_cache_allows [OF c(1)] by metis
  show ?thesis
    by (rule exI [of _ q], rule exI [of _ tenant], rule exI [of _ artifact], rule exI [of _ ls])
      (use applied(1,2) l in \<open>auto simp: c(2) whitelisted_iff [OF assms(3)] loaded_allow [OF c(1) l]\<close>)
qed

text \<open>
  A look-up reads the file again when nothing is loaded yet, or when the interval has passed and the
  stamp has moved.
\<close>

definition reload_due :: "pyfloat \<Rightarrow> ioc_files \<Rightarrow> ioc_cache \<Rightarrow> bool" where
  "reload_due now f c = (\<not> ic_loaded c \<or> \<not> now - ic_last_check c < ic_interval c \<and> ioc_stamp f \<noteq> ic_last_mtime c)"

definition lookups :: "(pyfloat \<times> ioc_files \<times> string) list \<Rightarrow> ioc_cache \<Rightarrow> ioc_cache" where
  "lookups asks c = fold (\<lambda>(now, f, ip) c. snd (lookup_ipv4 now f ip c)) asks c"

definition loaded_at :: "pyfloat \<Rightarrow> (string, ioc_entry) dict \<Rightarrow> ioc_cache \<Rightarrow> bool" where
  "loaded_at stamp m c = (ic_loaded c \<and> ic_last_mtime c = stamp \<and> ic_ipv4 c = m)"

lemma lookup_reloads:
  assumes "reload_due now f c" and "ip \<noteq> []" and "if_cache f = Doc v" and "is_obj v" and "ioc_parse v (if_utc f) = Inr m"
  shows "fst (lookup_ipv4 now f ip c) = Inr (dict_get m ip)" and "loaded_at (ioc_stamp f) m (snd (lookup_ipv4 now f ip c))"
  using assms by (auto simp: lookup_ipv4_def ioc_reload_def reload_due_def loaded_at_def Let_def)

text \<open>While the stamp stands, a look-up answers from what was loaded, whatever the time.\<close>

lemma lookup_stands:
  assumes "loaded_at (ioc_stamp f) m c"
  shows "ip \<noteq> [] \<Longrightarrow> fst (lookup_ipv4 now f ip c) = Inr (dict_get m ip)" and "loaded_at (ioc_stamp f) m (snd (lookup_ipv4 now f ip c))"
  using assms by (auto simp: lookup_ipv4_def ioc_reload_def loaded_at_def Let_def)

lemma lookups_stand:
  "loaded_at stamp m c \<Longrightarrow> \<forall>(now, f, ip)\<in>set asks. ioc_stamp f = stamp \<Longrightarrow> loaded_at stamp m (lookups asks c)"
  by (induction asks arbitrary: c) (auto simp: lookups_def lookup_stands)

text \<open>
  C2. What the IoC feed lists, the sensor matches. When an artifact changed the cache, the first look-up
  of an address that reads it again finds the entry of the last item of the artifact that names the address
  and is not revoked, with the item's id and confidence, when the item's time to live (at least a minute,
  counted from when the agent applied the artifact) has not run out at that look-up, and nothing otherwise.
  And that answer stands: as long as the stamp does not move, every later look-up gives the same one at
  whatever time, also after the entry has expired.
\<close>

theorem ioc_push_reaches_sensor:
  assumes "apply_iocs cfg w artifact tenant etag code s = (Inr r, s')" and "lf_changed r"
    and "ip \<noteq> []" and "if_cache f = is_cache s'" and "reload_due now f c"
    and "\<forall>(t', g, ip')\<in>set later. ioc_stamp g = ioc_stamp f" and "ioc_stamp f' = ioc_stamp f"
  shows "\<exists>items d answer. py_list (py_or (jget artifact ''items'') (JList [])) = Inr items \<and>
     py_int (py_or (jget artifact ''ttl_default_seconds'') (JInt 86400)) = Inr d \<and>
     answer = (case last_with (lists_ip ip) items of None \<Rightarrow> None
       | Some item \<Rightarrow> if expires (fw_now w) d item \<le> if_utc f then None else Some (entry_for (fw_now w) d item)) \<and>
     fst (lookup_ipv4 now f ip c) = Inr answer \<and>
     fst (lookup_ipv4 now' f' ip (lookups later (snd (lookup_ipv4 now f ip c)))) = Inr answer"
proof -
  obtain et cache where b: "build_ioc_cache (fw_now w) artifact tenant et = Inr cache" "is_cache s' = Doc cache"
    using assms(1,2) by (auto simp: apply_iocs_def Let_def listfile_result_of_def bind_res_def split: if_splits sum.splits)
  obtain items d m where i: "py_list (py_or (jget artifact ''items'') (JList [])) = Inr items"
    "py_int (py_or (jget artifact ''ttl_default_seconds'') (JInt 86400)) = Inr d"
    "add_iocs (fw_now w) d items no_iocs = Inr m" "jget cache ''ipv4'' = JObj (im_ipv4 m)" "is_obj cache"
    by (rule cache_of_items [OF b(1)])
  obtain x where x: "ioc_parse cache (if_utc f) = Inr x" "dict_get x ip = (case last_with (lists_ip ip) items of None \<Rightarrow> None
      | Some item \<Rightarrow> if expires (fw_now w) d item \<le> if_utc f then None else Some (entry_for (fw_now w) d item))"
    using parsed_iocs [OF i(3,4) assms(3)] by blast
  note first = lookup_reloads [OF assms(5,3) assms(4) [unfolded b(2)] i(5) x(1)]
  have "loaded_at (ioc_stamp f') x (lookups later (snd (lookup_ipv4 now f ip c)))"
    using lookups_stand [OF first(2) assms(6)] by (simp only: assms(7))
  note last = lookup_stands(1) [OF this assms(3), of now']
  show ?thesis
    by (rule exI [of _ items], rule exI [of _ d], rule exI [of _ "dict_get x ip"])
      (simp only: i(1,2) x(2) [symmetric] first(1) last simp_thms)
qed

text \<open>A feed with one allowed network, and one with an item that expires after an hour.\<close>

definition demo_feed :: feed_config where
  "demo_feed = \<lparr>fd_enabled = True, fd_feed_tenant = ''t1'', fd_tenant = [], fd_require_tenant = True, fd_secret = ''key''\<rparr>"

definition demo_feed_world :: "json \<Rightarrow> feed_world" where
  "demo_feed_world artifact = \<lparr>fw_now = 0, fw_now_text = ''1970-01-01T00:00:00Z'', fw_crypto = demo_crypto,
     fw_get = (\<lambda>_. FeedReply 200 [] [1] (sign_artifact demo_crypto ''t1'' ''key'' [1]) [] ''e1''),
     fw_json = (\<lambda>_. Inr artifact)\<rparr>"

definition demo_lists :: json where
  "demo_lists = JObj [(''version'', JStr ''v1''), (''lists'', JList [JObj [(''entry_kind'', JStr ''ip''), (''list_type'', JStr ''whitelist''),
     (''entries'', JList [JStr ''10.0.0.7''])]])]"

definition demo_iocs :: json where
  "demo_iocs = JObj [(''items'', JList [JObj [(''ioc_type'', JStr ''ipv4''), (''value'', JStr ''10.0.0.7''), (''ttl_seconds'', JInt 3600)]])]"

theorem listfile_push_exempts_witness:
  "\<exists>q tenant artifact ls. signed_answer demo_feed (demo_feed_world demo_lists) (fw_get (demo_feed_world demo_lists) q) tenant artifact \<and>
     py_list (py_or (jget artifact ''lists'') (JList [])) = Inr ls"
proof -
  define out where "out = pull_listfile demo_feed (demo_feed_world demo_lists) False \<lparr>ls_cache = Absent, ls_stamp = NoFile, ls_acks = []\<rparr>"
  have "gives lf_changed (fst out)" unfolding out_def by code_simp
  then obtain r where r: "fst out = Inr r" "lf_changed r" by (cases "fst out") auto
  then have "out = (Inr r, snd out)" by (metis prod.collapse)
  from listfile_push_exempts [OF this [unfolded out_def] r(2), of 167772167 "enforcer_init 5"] show ?thesis by (simp del: show_ipv4_nonempty) blast
qed

theorem ioc_push_reaches_sensor_witness:
  "\<exists>r s' answer. apply_iocs demo_feed (demo_feed_world demo_iocs) demo_iocs ''t1'' ''e1'' 200
       \<lparr>is_cache = Absent, is_stamp_file = NoFile, is_last_etag = []\<rparr> = (Inr r, s') \<and>
     (let f = \<lparr>if_stamp = MTime 7, if_cache_mtime = NotFile, if_cache = is_cache s', if_utc = 0\<rparr>;
          later = f\<lparr>if_utc := 7200000000\<rparr>; (first, c) = lookup_ipv4 1 f ''10.0.0.7'' (ioc_cache_init 5) in
      first = Inr answer \<and> fst (lookup_ipv4 7200 later ''10.0.0.7'' c) = Inr answer)"
proof -
  define out where "out = apply_iocs demo_feed (demo_feed_world demo_iocs) demo_iocs ''t1'' ''e1'' 200
       \<lparr>is_cache = Absent, is_stamp_file = NoFile, is_last_etag = []\<rparr>"
  have y: "year_start 1 * 86400000000 \<le> 0" "3600000000 < year_start 10000 * 86400000000"
    by (simp_all add: year_start_def epoch_days_def)
  obtain a where a: "utc_iso 0 = Inr a" using utc_iso_total [of 0] y by auto
  obtain b where b: "utc_iso 3600000000 = Inr b" using utc_iso_total [of 3600000000] y by auto
  have "gives lf_changed (fst out)"
    by (simp add: out_def apply_iocs_def demo_feed_def demo_feed_world_def demo_iocs_def manifest_etag_def build_ioc_cache_def
        a b expiry_text_def item_ttl_def item_value_def py_or_def cached_count_def listfile_result_of_def Let_def
        strip_def lstrip_def rstrip_def is_space_def chr_code_def obj_or_empty_def)
  then obtain r where r: "fst out = Inr r" "lf_changed r" by (cases "fst out") auto
  then obtain s' where o: "out = (Inr r, s')" by (metis prod.collapse)
  define f where "f = \<lparr>if_stamp = MTime 7, if_cache_mtime = NotFile, if_cache = is_cache s', if_utc = 0\<rparr>"
  have due: "reload_due 1 f (ioc_cache_init 5)" by (simp add: reload_due_def ioc_cache_init_def)
  have f: "if_cache f = is_cache s'" by (simp add: f_def)
  have "''10.0.0.7'' \<noteq> []" "\<forall>(t', g, ip')\<in>set []. ioc_stamp g = ioc_stamp f"
    "ioc_stamp (f\<lparr>if_utc := 7200000000\<rparr>) = ioc_stamp f" by (simp_all add: ioc_stamp_def)
  note answered = ioc_push_reaches_sensor [OF o [unfolded out_def] r(2) this(1) f due this(2,3), of 7200]
  obtain answer where a: "fst (lookup_ipv4 1 f ''10.0.0.7'' (ioc_cache_init 5)) = Inr answer"
    "fst (lookup_ipv4 7200 (f\<lparr>if_utc := 7200000000\<rparr>) ''10.0.0.7'' (lookups [] (snd (lookup_ipv4 1 f ''10.0.0.7'' (ioc_cache_init 5))))) = Inr answer"
    using answered by (elim exE conjE) (rule that)
  have "(case lookup_ipv4 1 f ''10.0.0.7'' (ioc_cache_init 5) of (first, c) \<Rightarrow>
      first = Inr answer \<and> fst (lookup_ipv4 7200 (f\<lparr>if_utc := 7200000000\<rparr>) ''10.0.0.7'' c) = Inr answer)"
    using a by (cases "lookup_ipv4 1 f ''10.0.0.7'' (ioc_cache_init 5)") (simp only: lookups_def fold_simps id_apply prod.case fst_conv snd_conv simp_thms)
  then show ?thesis
    by (intro exI [of _ r] exI [of _ s'] exI [of _ answer] conjI)
      (simp only: o out_def [symmetric], simp only: Let_def f_def [symmetric])
qed

end
