(* ===== verification/Subscribe.thy ===== *)
theory Subscribe
  imports Policysync Feedsync
begin

text \<open>
  The MQTT subscribers of the edge agent (\<open>policy/*_mqtt_subscriber.py\<close>): seven classes with one
  life cycle, each with its own settings, topic and message handler. The MQTT client is a library:
  what a subscriber knows of it are the calls it makes and the callbacks it gets, which are kept in
  order in a log. A payload is what UTF-8 decoding and \<open>json.loads\<close> make of it, None when either
  fails. The random part of the client id is left out.
\<close>

section \<open>The life cycle\<close>

datatype client_call = Credentials string "string option" | Connect string int | LoopStart
  | Accepted | Refused_connection | Dropped
  | Subscribed string int | Unsubscribed string | LoopStop | Disconnected

record subscriber =
  sb_client :: bool
  sb_topic :: string
  sb_connected :: bool
  sb_messages :: nat
  sb_calls :: "client_call list"

definition subscriber_new :: subscriber where
  "subscriber_new = \<lparr>sb_client = False, sb_topic = [], sb_connected = False, sb_messages = 0, sb_calls = []\<rparr>"

text \<open>What a class reads of the settings when one of its methods runs.\<close>

record sub_config =
  su_enabled :: bool
  su_tenant :: "string option"
  su_topic :: "string \<Rightarrow> string res"
  su_host :: string
  su_port :: int
  su_user :: string
  su_password :: string
  su_qos :: int

definition log_calls :: "client_call list \<Rightarrow> subscriber \<Rightarrow> subscriber" where
  "log_calls cs s = s\<lparr>sb_calls := sb_calls s @ cs\<rparr>"

definition on_connect :: "sub_config \<Rightarrow> int \<Rightarrow> subscriber \<Rightarrow> unit res \<times> subscriber" where
  "on_connect cfg reason_code s =
     (if reason_code \<noteq> 0 then (Inr (), log_calls [Refused_connection] (s\<lparr>sb_connected := False\<rparr>))
      else let s = log_calls [Accepted] (s\<lparr>sb_connected := True\<rparr>) in
        case su_tenant cfg of None \<Rightarrow> (Inr (), s)
        | Some tenant \<Rightarrow> (case su_topic cfg tenant of Inl e \<Rightarrow> (Inl e, s)
            | Inr topic \<Rightarrow> (Inr (), log_calls [Subscribed topic (su_qos cfg)] (s\<lparr>sb_topic := topic\<rparr>))))"

definition on_disconnect :: "subscriber \<Rightarrow> subscriber" where
  "on_disconnect s = log_calls [Dropped] (s\<lparr>sb_connected := False\<rparr>)"

text \<open>\<open>library\<close>: paho-mqtt can be imported; \<open>reachable\<close>: \<open>client.connect\<close> does not raise.\<close>

definition start :: "bool \<Rightarrow> bool \<Rightarrow> sub_config \<Rightarrow> subscriber \<Rightarrow> bool \<times> subscriber" where
  "start library reachable cfg s =
     (if \<not> su_enabled cfg then (False, s)
      else if sb_client s then (sb_connected s, s)
      else if su_tenant cfg = None \<or> \<not> library then (False, s)
      else let login = (if su_user cfg = [] then [] else
                 [Credentials (su_user cfg) (if su_password cfg = [] then None else Some (su_password cfg))]);
               dial = login @ [Connect (su_host cfg) (su_port cfg)] in
        if \<not> reachable then (False, log_calls dial s)
        else (True, (log_calls (dial @ [LoopStart]) s)\<lparr>sb_client := True\<rparr>))"

definition ensure_connected :: "bool \<Rightarrow> bool \<Rightarrow> sub_config \<Rightarrow> subscriber \<Rightarrow> bool \<times> subscriber" where
  "ensure_connected library reachable cfg s =
     (if \<not> su_enabled cfg then (False, s)
      else if sb_client s \<and> sb_connected s then (True, s)
      else start library reachable cfg s)"

definition refresh_subscription :: "sub_config \<Rightarrow> subscriber \<Rightarrow> unit res \<times> subscriber" where
  "refresh_subscription cfg s =
     (if \<not> sb_client s then (Inr (), s)
      else case su_tenant cfg of None \<Rightarrow> (Inr (), s)
      | Some tenant \<Rightarrow> (case su_topic cfg tenant of Inl e \<Rightarrow> (Inl e, s)
        | Inr topic \<Rightarrow> if topic = sb_topic s then (Inr (), s)
            else (Inr (), (log_calls ((if sb_topic s = [] then [] else [Unsubscribed (sb_topic s)]) @
                   [Subscribed topic (su_qos cfg)]) s)\<lparr>sb_topic := topic\<rparr>)))"

text \<open>\<open>raises\<close>: how many calls are made before one raises, if one does.\<close>

definition stop :: "nat option \<Rightarrow> subscriber \<Rightarrow> subscriber" where
  "stop raises s =
     (if \<not> sb_client s then s
      else let calls = (if sb_topic s = [] then [] else [Unsubscribed (sb_topic s)]) @ [LoopStop, Disconnected] in
        (log_calls (case raises of None \<Rightarrow> calls | Some n \<Rightarrow> take n calls) s)
          \<lparr>sb_client := False, sb_connected := False, sb_topic := []\<rparr>)"

section \<open>Messages\<close>

text \<open>The tenant of a message: its own, that of a topic \<open>sensel/<tenant>/...\<close>, or the agent's.\<close>

definition topic_tenant :: "string \<Rightarrow> string" where
  "topic_tenant topic = (case split_on (CHR ''/'') topic of
     x # tenant # _ \<Rightarrow> if x = ''sensel'' then tenant else [] | _ \<Rightarrow> [])"

definition message_tenant :: "string option \<Rightarrow> string \<Rightarrow> json \<Rightarrow> string" where
  "message_tenant own topic artifact =
     (let t = strip (str_or_empty (jget artifact ''tenant_id'')); t = (if t = [] then topic_tenant topic else t) in
      if t = [] then (case own of None \<Rightarrow> [] | Some x \<Rightarrow> x) else t)"

definition count_applied :: "bool \<Rightarrow> bool \<Rightarrow> subscriber \<Rightarrow> subscriber" where
  "count_applied ok changed s = (if ok \<and> changed then s\<lparr>sb_messages := sb_messages s + 1\<rparr> else s)"

text \<open>A pushed artifact: only an object is applied, and a change applied is counted.\<close>

definition push_message :: "(string \<Rightarrow> json \<Rightarrow> 'st \<Rightarrow> 'r res \<times> 'st) \<Rightarrow> ('r \<Rightarrow> bool) \<Rightarrow> ('r \<Rightarrow> bool) \<Rightarrow>
    string option \<Rightarrow> string \<Rightarrow> json option \<Rightarrow> subscriber \<times> 'st \<Rightarrow> unit res \<times> subscriber \<times> 'st" where
  "push_message apply ok changed own topic payload = (\<lambda>(s, files). case payload of
     None \<Rightarrow> (Inr (), s, files)
   | Some artifact \<Rightarrow> if \<not> is_obj artifact then (Inr (), s, files)
       else (case apply (message_tenant own topic artifact) artifact files of
           (Inl e, files') \<Rightarrow> (Inl e, s, files')
         | (Inr r, files') \<Rightarrow> (Inr (), count_applied (ok r) (changed r) s, files')))"

text \<open>A manifest: its content is advisory, the signed artifact is pulled.\<close>

definition pull_message :: "('st \<Rightarrow> 'r res \<times> 'st) \<Rightarrow> ('r \<Rightarrow> bool) \<Rightarrow> ('r \<Rightarrow> bool) \<Rightarrow>
    subscriber \<times> 'st \<Rightarrow> unit res \<times> subscriber \<times> 'st" where
  "pull_message pull ok changed = (\<lambda>(s, files). case pull files of
     (Inl e, files') \<Rightarrow> (Inl e, s, files') | (Inr r, files') \<Rightarrow> (Inr (), count_applied (ok r) (changed r) s, files'))"

section \<open>The seven classes\<close>

text \<open>
  \<open>str.format\<close> with named fields; a field with a conversion, an attribute or a format
  specification, which no template of the repository has, is an unknown name here.
\<close>

function format_template :: "(string, string) dict \<Rightarrow> string \<Rightarrow> string res" where
  "format_template d [] = Inr []"
| "format_template d (c # cs) =
     (if c = CHR 0x7B then
        (if cs \<noteq> [] \<and> hd cs = CHR 0x7B then bind_res (format_template d (tl cs)) (\<lambda>t. Inr (CHR 0x7B # t))
         else case dropWhile (\<lambda>x. x \<noteq> CHR 0x7D) cs of [] \<Rightarrow> Inl ValueError
           | _ # rest \<Rightarrow> (case dict_get d (takeWhile (\<lambda>x. x \<noteq> CHR 0x7D) cs) of None \<Rightarrow> Inl KeyError
               | Some v \<Rightarrow> bind_res (format_template d rest) (\<lambda>t. Inr (v @ t))))
      else if c = CHR 0x7D then
        (if cs \<noteq> [] \<and> hd cs = CHR 0x7D then bind_res (format_template d (tl cs)) (\<lambda>t. Inr (CHR 0x7D # t)) else Inl ValueError)
      else bind_res (format_template d cs) (\<lambda>t. Inr (c # t)))"
  by pat_completeness auto
termination
proof (relation "measure (\<lambda>(d, s). length s)")
  show "wf (measure (\<lambda>(d :: (string, string) dict, s :: string). length s))" by simp
next
  fix d :: "(string, string) dict" and c cs x rest v
  assume "dropWhile (\<lambda>x. x \<noteq> CHR 0x7D) cs = x # rest"
  then have "length (x # rest) \<le> length cs" by (metis length_dropWhile_le)
  then show "((d, rest), (d, c # cs)) \<in> measure (\<lambda>(d, s). length s)" by simp
qed simp_all

text \<open>The settings the classes read, those of the northbound client included.\<close>

record mqtt_settings =
  ms_host :: string
  ms_port :: int
  ms_user :: string
  ms_password :: string
  ms_qos :: int
  ms_enabled :: bool
  ms_nb_host :: string
  ms_nb_port :: int
  ms_nb_user :: string
  ms_nb_password :: string
  ms_sensor :: string
  ms_feed :: feed_config

record channel_settings =
  ch_sync :: bool
  ch_on :: bool
  ch_template :: string

definition channel_config :: "bool \<Rightarrow> string option \<Rightarrow> (string \<Rightarrow> string res) \<Rightarrow> mqtt_settings \<Rightarrow> sub_config" where
  "channel_config enabled tenant topic ms = \<lparr>su_enabled = enabled, su_tenant = tenant, su_topic = topic, su_host = ms_host ms,
     su_port = ms_port ms, su_user = ms_user ms, su_password = ms_password ms, su_qos = ms_qos ms\<rparr>"

definition tenant_topic :: "string \<Rightarrow> string \<Rightarrow> string res" where
  "tenant_topic template tenant = format_template [(''tenant_id'', tenant)] template"

definition command_topic :: "string \<Rightarrow> string \<Rightarrow> string \<Rightarrow> string res" where
  "command_topic template sensor tenant = format_template [(''tenant_id'', tenant), (''sensor_id'', sensor)] template"

definition blacklist_config :: "mqtt_settings \<Rightarrow> channel_settings \<Rightarrow> jfile \<Rightarrow> sub_config" where
  "blacklist_config ms ch cache = channel_config (fd_enabled (ms_feed ms) \<and> ms_enabled ms \<and> ms_host ms \<noteq> [])
     (ioc_feed_tenant (ms_feed ms) cache) (tenant_topic (ch_template ch)) ms"

definition listfile_config :: "mqtt_settings \<Rightarrow> channel_settings \<Rightarrow> sub_config" where
  "listfile_config ms ch = channel_config (ch_sync ch \<and> ms_enabled ms \<and> ms_host ms \<noteq> [] \<and> ch_on ch)
     (listfile_tenant (ms_feed ms)) (tenant_topic (ch_template ch)) ms"

definition rules_config :: "mqtt_settings \<Rightarrow> channel_settings \<Rightarrow> sub_config" where
  "rules_config ms ch = channel_config (ch_sync ch \<and> ms_enabled ms \<and> ms_host ms \<noteq> [] \<and> ch_on ch)
     (listfile_tenant (ms_feed ms)) (tenant_topic (ch_template ch)) ms"

definition detection_config :: "mqtt_settings \<Rightarrow> channel_settings \<Rightarrow> sub_config" where
  "detection_config ms ch = channel_config (ch_sync ch \<and> ms_enabled ms \<and> ms_host ms \<noteq> [] \<and> ch_on ch)
     (listfile_tenant (ms_feed ms)) (tenant_topic (ch_template ch)) ms"

definition profile_config :: "mqtt_settings \<Rightarrow> channel_settings \<Rightarrow> sub_config" where
  "profile_config ms ch = channel_config (ch_sync ch \<and> ms_enabled ms \<and> ms_host ms \<noteq> [] \<and> ch_on ch)
     (listfile_tenant (ms_feed ms)) (tenant_topic (ch_template ch)) ms"

definition override_config :: "mqtt_settings \<Rightarrow> channel_settings \<Rightarrow> sub_config" where
  "override_config ms ch = channel_config (ch_sync ch \<and> ms_enabled ms \<and> ms_host ms \<noteq> [] \<and> ch_on ch)
     (listfile_tenant (ms_feed ms)) (command_topic (ch_template ch) (ms_sensor ms)) ms"

text \<open>The mode subscriber falls back to the northbound broker and does not ask for \<open>mqtt_enabled\<close>.\<close>

definition mode_config :: "mqtt_settings \<Rightarrow> channel_settings \<Rightarrow> sub_config" where
  "mode_config ms ch =
     (let host = strip (if ms_host ms \<noteq> [] then ms_host ms else ms_nb_host ms) in
      \<lparr>su_enabled = (ch_sync ch \<and> ch_on ch \<and> host \<noteq> []), su_tenant = listfile_tenant (ms_feed ms),
       su_topic = command_topic (ch_template ch) (ms_sensor ms), su_host = host,
       su_port = (if ms_host ms \<noteq> [] then ms_port ms else if ms_nb_host ms \<noteq> [] then ms_nb_port ms else ms_port ms),
       su_user = (if ms_user ms \<noteq> [] then ms_user ms else ms_nb_user ms),
       su_password = (if ms_password ms \<noteq> [] then ms_password ms else ms_nb_password ms), su_qos = ms_qos ms\<rparr>)"

definition blacklist_message :: "mqtt_settings \<Rightarrow> feed_world \<Rightarrow> string \<Rightarrow> json option \<Rightarrow> subscriber \<times> ioc_sync \<Rightarrow>
    unit res \<times> subscriber \<times> ioc_sync" where
  "blacklist_message ms w topic payload s =
     push_message (\<lambda>tenant artifact. apply_iocs (ms_feed ms) w artifact tenant [] 200) lf_ok lf_changed
       (ioc_feed_tenant (ms_feed ms) (is_cache (snd s))) topic payload s"

definition listfile_message :: "mqtt_settings \<Rightarrow> feed_world \<Rightarrow> subscriber \<times> listfile_state \<Rightarrow>
    unit res \<times> subscriber \<times> listfile_state" where
  "listfile_message ms w = pull_message (pull_listfile (ms_feed ms) w False) lf_ok lf_changed"

definition engine_from_topic :: "string \<Rightarrow> string option" where
  "engine_from_topic topic =
     (let leaf = last (split_on (CHR ''/'') topic); engine = lower (strip (drop 10 leaf)) in
      if starts_with ''ids-rules-'' leaf \<and> engine \<in> set SUPPORTED_ENGINES then Some engine else None)"

definition rules_message :: "rule_config \<Rightarrow> rule_world \<Rightarrow> string \<Rightarrow> subscriber \<times> rule_state \<Rightarrow> unit res \<times> subscriber \<times> rule_state" where
  "rules_message cfg w topic s = (case engine_from_topic topic of None \<Rightarrow> (Inr (), s)
     | Some engine \<Rightarrow> pull_message (pull_rules cfg w False engine) ir_rule_ok ir_changed s)"

definition detection_message :: "sync_config \<Rightarrow> string option \<Rightarrow> string \<Rightarrow> string \<Rightarrow> json option \<Rightarrow> subscriber \<times> file_sync \<Rightarrow>
    unit res \<times> subscriber \<times> file_sync" where
  "detection_message cfg own now = push_message (\<lambda>tenant. apply_policy cfg tenant ''mqtt'' now) po_ok po_changed own"

definition profile_message :: "sync_config \<Rightarrow> string option \<Rightarrow> string \<Rightarrow> string \<Rightarrow> json option \<Rightarrow> subscriber \<times> file_sync \<Rightarrow>
    unit res \<times> subscriber \<times> file_sync" where
  "profile_message cfg own now = push_message (\<lambda>tenant a f. apfst Inr (apply_profile cfg tenant ''mqtt'' now a f)) pr_ok pr_changed own"

definition override_message :: "sync_config \<Rightarrow> string option \<Rightarrow> string \<Rightarrow> string \<Rightarrow> json option \<Rightarrow> subscriber \<times> file_sync \<Rightarrow>
    unit res \<times> subscriber \<times> file_sync" where
  "override_message cfg own now = push_message (\<lambda>tenant. apply_override cfg tenant ''mqtt'' now) or_ok or_changed own"

text \<open>A command that names another sensor is dropped before it is applied.\<close>

definition for_sensor :: "string \<Rightarrow> json option \<Rightarrow> json option" where
  "for_sensor sensor payload = (case payload of None \<Rightarrow> None
     | Some a \<Rightarrow> (let named = strip (str_or_empty (jget a ''sensor_id'')) in if named \<noteq> [] \<and> named \<noteq> sensor then None else Some a))"

definition mode_message :: "sync_config \<Rightarrow> string option \<Rightarrow> string \<Rightarrow> string \<Rightarrow> json option \<Rightarrow> subscriber \<times> mode_sync \<Rightarrow>
    unit res \<times> subscriber \<times> mode_sync" where
  "mode_message cfg own now topic payload =
     push_message (\<lambda>tenant a f. apfst Inr (apply_mode cfg tenant ''mqtt'' now a f)) mr_ok mr_changed own topic
       (for_sensor (sy_sensor_id cfg) payload)"

section \<open>What a subscriber hears\<close>

text \<open>
  The topics of a session as MQTT counts them: an accepted connection starts with none, a new dial or
  a disconnect leaves none; the library refuses the empty topic.
\<close>

fun topic_step :: "client_call \<Rightarrow> string set \<Rightarrow> string set" where
  "topic_step (Subscribed t q) ts = (if t = [] then ts else insert t ts)"
| "topic_step (Unsubscribed t) ts = ts - {t}"
| "topic_step Accepted ts = {}"
| "topic_step (Connect h p) ts = {}"
| "topic_step Disconnected ts = {}"
| "topic_step c ts = ts"

definition heard :: "subscriber \<Rightarrow> string set" where
  "heard s = fold topic_step (sb_calls s) {}"

text \<open>
  The life of a subscriber: its own methods, whatever the settings then are, and the callbacks, which
  come only while its client exists. A message handler changes the counter only.
\<close>

inductive sub_step :: "subscriber \<Rightarrow> subscriber \<Rightarrow> bool" where
  started: "sub_step s (snd (start library reachable cfg s))"
| ensured: "sub_step s (snd (ensure_connected library reachable cfg s))"
| refreshed: "sub_step s (snd (refresh_subscription cfg s))"
| stopped: "sub_step s (stop raises s)"
| accepted: "sb_client s \<Longrightarrow> sub_step s (snd (on_connect cfg code s))"
| dropped: "sb_client s \<Longrightarrow> sub_step s (on_disconnect s)"
| delivered: "sb_client s \<Longrightarrow> sub_step s (count_applied ok changed s)"

inductive sub_reaches :: "subscriber \<Rightarrow> bool" where
  fresh: "sub_reaches subscriber_new"
| stepped: "sub_reaches s \<Longrightarrow> sub_step s s' \<Longrightarrow> sub_reaches s'"

definition hears_one :: "subscriber \<Rightarrow> bool" where
  "hears_one s = ((\<not> sb_client s \<longrightarrow> \<not> sb_connected s \<and> sb_topic s = []) \<and>
     (sb_connected s \<longrightarrow> heard s \<subseteq> {sb_topic s} - {[]}))"

lemma log_calls_simps [simp]:
  "sb_client (log_calls cs s) = sb_client s" "sb_topic (log_calls cs s) = sb_topic s"
  "sb_connected (log_calls cs s) = sb_connected s" "sb_messages (log_calls cs s) = sb_messages s"
  "heard (log_calls cs s) = fold topic_step cs (heard s)"
  by (simp_all add: log_calls_def heard_def)

lemma heard_update [simp]:
  "heard (s\<lparr>sb_topic := t\<rparr>) = heard s" "heard (s\<lparr>sb_connected := c\<rparr>) = heard s" "heard (s\<lparr>sb_client := k\<rparr>) = heard s"
  "heard (s\<lparr>sb_messages := m\<rparr>) = heard s"
  by (simp_all add: heard_def)

lemma start_connected [simp]:
  "sb_client s \<Longrightarrow> snd (start library reachable cfg s) = s"
  "sb_connected (snd (start library reachable cfg s)) = sb_connected s"
  "sb_topic (snd (start library reachable cfg s)) = sb_topic s"
  by (simp_all add: start_def Let_def)

lemma start_keeps: "hears_one s \<Longrightarrow> hears_one (snd (start library reachable cfg s))"
  by (cases "sb_client s") (auto simp: hears_one_def)

lemma ensure_keeps: "hears_one s \<Longrightarrow> hears_one (snd (ensure_connected library reachable cfg s))"
  by (simp add: ensure_connected_def start_keeps)

lemma refresh_keeps: "hears_one s \<Longrightarrow> hears_one (snd (refresh_subscription cfg s))"
  by (auto simp: refresh_subscription_def hears_one_def split: option.split sum.split)

lemma stop_keeps: "hears_one s \<Longrightarrow> hears_one (stop raises s)"
  by (simp add: stop_def Let_def hears_one_def)

lemma connect_keeps: "sb_client s \<Longrightarrow> hears_one s \<Longrightarrow> hears_one (snd (on_connect cfg code s))"
  by (auto simp: on_connect_def Let_def hears_one_def split: option.split sum.split)

lemma count_applied_simps [simp]:
  "sb_client (count_applied ok changed s) = sb_client s" "sb_topic (count_applied ok changed s) = sb_topic s"
  "sb_connected (count_applied ok changed s) = sb_connected s" "heard (count_applied ok changed s) = heard s"
  by (simp_all add: count_applied_def)

lemma step_keeps: "sub_step s s' \<Longrightarrow> hears_one s \<Longrightarrow> hears_one s'"
proof (induction rule: sub_step.induct)
  case (dropped s)
  then show ?case by (simp add: on_disconnect_def hears_one_def)
next
  case (delivered s ok changed)
  then show ?case by (simp add: hears_one_def)
qed (simp_all add: start_keeps ensure_keeps refresh_keeps stop_keeps connect_keeps)

lemma reaches_hears_one: "sub_reaches s \<Longrightarrow> hears_one s"
proof (induction rule: sub_reaches.induct)
  case fresh
  then show ?case by (simp add: hears_one_def subscriber_new_def)
qed (blast intro: step_keeps)

text \<open>
  A subscriber hears one topic at most: in every state its methods and the callbacks lead to, a
  connected subscriber has a client and the topics of its session are none or the one it remembers;
  after an accepted connection with a tenant it is that tenant's topic.
\<close>

theorem subscriber_hears_one_topic:
  assumes "sub_reaches s" and "sb_connected s"
  shows "sb_client s \<and> heard s \<subseteq> {sb_topic s} \<and>
    (\<forall>cfg tenant topic. su_tenant cfg = Some tenant \<longrightarrow> su_topic cfg tenant = Inr topic \<longrightarrow> topic \<noteq> [] \<longrightarrow>
       heard (snd (on_connect cfg 0 s)) = {topic})"
  using reaches_hears_one [OF assms(1)] assms(2)
  by (auto simp: hears_one_def on_connect_def Let_def)

text \<open>
  Only a subscriber whose subscription is refreshed follows a new tenant: after the settings give
  another topic, \<open>refresh_subscription\<close> leaves exactly that topic, while \<open>ensure_connected\<close>, the only
  method the other six classes have for it, answers True and leaves the old one.
\<close>

theorem refresh_follows_tenant:
  assumes "sub_reaches s" and "sb_connected s" and "su_enabled cfg"
    and "su_tenant cfg = Some tenant" and "su_topic cfg tenant = Inr topic" and "topic \<noteq> []" and "topic \<noteq> sb_topic s"
  shows "heard (snd (refresh_subscription cfg s)) = {topic} \<and> ensure_connected library reachable cfg s = (True, s) \<and>
    topic \<notin> heard (snd (ensure_connected library reachable cfg s))"
  using reaches_hears_one [OF assms(1)] assms(2-)
  by (auto simp: hears_one_def refresh_subscription_def ensure_connected_def)

section \<open>Messages\<close>

subsection \<open>Redelivery\<close>

text \<open>
  A channel whose artifacts keep the contract of a push for every tenant: a message delivered again
  changes neither the files nor the counter.
\<close>

locale message_channel =
  fixes act :: "string \<Rightarrow> string \<Rightarrow> json \<Rightarrow> 'st \<Rightarrow> 'r res \<times> 'st" and ok changed :: "'r \<Rightarrow> bool"
    and versioned :: "json \<Rightarrow> 'st \<Rightarrow> bool"
  assumes contract: "artifact_push (act tenant) (gives ok) (gives changed) versioned"
begin

definition deliver :: "string option \<Rightarrow> string \<Rightarrow> json option \<Rightarrow> string \<Rightarrow> subscriber \<times> 'st \<Rightarrow> unit res \<times> subscriber \<times> 'st" where
  "deliver own topic payload now = push_message (\<lambda>tenant. act tenant now) ok changed own topic payload"

lemma silent_push:
  assumes "\<not> gives changed (fst (act (message_tenant own topic a) now a f))"
  shows "snd (deliver own topic (Some a) now (s, f)) = (s, f)"
  using assms artifact_push.unchanged_keeps [OF contract assms]
  by (auto simp: deliver_def push_message_def count_applied_def gives_def split: prod.splits sum.splits)

lemma counted_push:
  assumes "sb_messages (fst (snd (deliver own topic (Some a) now (s, f)))) \<noteq> sb_messages s"
  shows "gives changed (fst (act (message_tenant own topic a) now a f)) \<and>
    snd (snd (deliver own topic (Some a) now (s, f))) = snd (act (message_tenant own topic a) now a f)"
  using assms by (auto simp: deliver_def push_message_def count_applied_def split: prod.splits sum.splits if_splits)

lemma redelivered:
  assumes "versioned a f" and "deliver own topic (Some a) now (s, f) = (r, s', f')" and "sb_messages s' \<noteq> sb_messages s"
  shows "snd (deliver own topic (Some a) later (s', f')) = (s', f')"
proof (rule silent_push)
  have c: "gives changed (fst (act (message_tenant own topic a) now a f))"
    "f' = snd (act (message_tenant own topic a) now a f)"
    using counted_push [of own topic a now s f] assms(2,3) by auto
  show "\<not> gives changed (fst (act (message_tenant own topic a) later a f'))"
    unfolding c(2) using artifact_push.repeated [OF contract assms(1) c(1)] by blast
qed

lemma redelivered_often:
  assumes "versioned a f" and "deliver own topic (Some a) now (s, f) = (r, s', f')" and "sb_messages s' \<noteq> sb_messages s"
  shows "fold (\<lambda>t x. snd (deliver own topic (Some a) t x)) ts (s', f') = (s', f')"
  by (induction ts) (simp_all add: redelivered [OF assms])

end

context artifact_push begin

lemma lifted: "artifact_push (\<lambda>now a s. apfst Inr (push now a s)) (gives ok) (gives changed) versioned"
  by unfold_locales (auto dest: unchanged_keeps repeated)

end

interpretation mode_channel: message_channel "\<lambda>tenant now a f. apfst Inr (apply_mode cfg tenant ''mqtt'' now a f)" mr_ok mr_changed
  "\<lambda>a s. list_ex truthy [jget a ''version'', jget a ''updated_at''] \<and> str_or_empty (jget a ''abort_session_id'') = []"
  by (rule message_channel.intro) (rule mode_push.lifted)

interpretation profile_channel: message_channel "\<lambda>tenant now a f. apfst Inr (apply_profile cfg tenant ''mqtt'' now a f)" pr_ok pr_changed
  "\<lambda>a s. list_ex truthy [jget a ''version'', jget a ''updated_at'']"
  by (rule message_channel.intro) (rule profile_push.lifted)

interpretation detection_channel: message_channel "\<lambda>tenant. apply_policy cfg tenant ''mqtt''" po_ok po_changed
  "\<lambda>a s. strip (str_or_empty (py_or (jget a ''version'') (jget a ''artifact_version''))) \<noteq> []"
  by (rule message_channel.intro) (rule policy_push.artifact_push_axioms)

interpretation override_channel: message_channel "\<lambda>tenant. apply_override cfg tenant ''mqtt''" or_ok or_changed
  "\<lambda>a s. truthy (jget a ''issued_at'') \<and> distinct (map fst (obj_items (jget a ''patch'')))"
  by (rule message_channel.intro) (rule override_push.artifact_push_axioms)

subsection \<open>Commands\<close>

lemma for_sensor_Some: "for_sensor sensor (Some a) =
    (if strip (str_or_empty (jget a ''sensor_id'')) \<notin> {[], sensor} then None else Some a)"
  by (simp add: for_sensor_def Let_def)

text \<open>
  Who may change the mode: when a message changes the mode, stamp or session file, it was a JSON object
  with a known mode, for this sensor or for none named, the agent takes modes, and the message is counted.
\<close>

theorem mode_change_authorised:
  assumes "mode_message cfg own now topic payload (s, f) = (r, s', f')" and "f' \<noteq> f"
  shows "\<exists>a. payload = Some a \<and> is_obj a \<and> sy_enabled cfg \<and> mode_of_artifact a \<in> VALID_MODES \<and>
    strip (str_or_empty (jget a ''sensor_id'')) \<in> {[], sy_sensor_id cfg} \<and> sb_messages s' = sb_messages s + 1"
proof (cases "for_sensor (sy_sensor_id cfg) payload")
  case None
  then show ?thesis using assms by (simp add: mode_message_def push_message_def)
next
  case (Some a)
  then have p: "payload = Some a" by (auto simp: for_sensor_def Let_def split: option.splits if_splits)
  define tenant where "tenant = message_tenant own topic a"
  have o: "is_obj a" using assms Some by (auto simp: mode_message_def push_message_def split: if_splits)
  have m: "f' = snd (apply_mode cfg tenant ''mqtt'' now a f)"
    "s' = count_applied (mr_ok (fst (apply_mode cfg tenant ''mqtt'' now a f))) (mr_changed (fst (apply_mode cfg tenant ''mqtt'' now a f))) s"
    using assms(1) o by (auto simp: mode_message_def push_message_def Some tenant_def apfst_def map_prod_def split: prod.splits)
  have t: "takes_mode cfg a"
    using apply_mode_refused [of cfg a tenant "''mqtt''" now f] assms(2) m(1) by (metis snd_conv)
  then have "s' = s\<lparr>sb_messages := sb_messages s + 1\<rparr>"
    using m assms(2) by (auto simp: apply_mode_taken [OF t] count_applied_def split: if_splits)
  then show ?thesis using t p by (simp add: takes_mode_def)
qed

text \<open>
  A mode command may come more than once: after a command with its own version and no session to abort
  was applied, any number of further deliveries changes neither the files nor the counter.
\<close>

theorem mode_command_redelivered:
  assumes "mode_message cfg own now topic (Some a) (s, f) = (r, s', f')" and "sb_messages s' \<noteq> sb_messages s"
    and "truthy (jget a ''version'') \<or> truthy (jget a ''updated_at'')" and "str_or_empty (jget a ''abort_session_id'') = []"
  shows "fold (\<lambda>t x. snd (mode_message cfg own t topic (Some a) x)) ts (s', f') = (s', f')"
proof -
  have a: "for_sensor (sy_sensor_id cfg) (Some a) = Some a"
    using assms(1,2) by (auto simp: mode_message_def push_message_def for_sensor_Some split: if_splits)
  then have m: "mode_message cfg own t topic (Some a) = mode_channel.deliver cfg own topic (Some a) t" for t
    by (simp add: mode_message_def mode_channel.deliver_def)
  show ?thesis unfolding m
    by (rule mode_channel.redelivered_often [OF _ assms(1) [unfolded m] assms(2)]) (use assms(3,4) in auto)
qed

subsection \<open>Examples\<close>

definition demo_settings :: mqtt_settings where
  "demo_settings = \<lparr>ms_host = ''broker'', ms_port = 1883, ms_user = [], ms_password = [], ms_qos = 1, ms_enabled = True,
     ms_nb_host = [], ms_nb_port = 1883, ms_nb_user = [], ms_nb_password = [], ms_sensor = ''edge-1'',
     ms_feed = \<lparr>fd_enabled = True, fd_feed_tenant = [], fd_tenant = ''default'', fd_require_tenant = False, fd_secret = []\<rparr>\<rparr>"

definition demo_channel :: channel_settings where
  "demo_channel = \<lparr>ch_sync = True, ch_on = True, ch_template = ''sensel/{tenant_id}/policy/listfiles''\<rparr>"

definition demo_subscriber :: subscriber where
  "demo_subscriber = snd (on_connect (listfile_config demo_settings demo_channel) 0
     (snd (start True True (listfile_config demo_settings demo_channel) subscriber_new)))"

lemma demo_topic: "su_topic (listfile_config demo_settings demo_channel) t = Inr (''sensel/'' @ t @ ''/policy/listfiles'')"
  by (simp add: listfile_config_def channel_config_def tenant_topic_def demo_channel_def dict_get_def)

lemma demo_tenant: "su_tenant (listfile_config demo_settings demo_channel) = Some ''default''"
  by code_simp

lemma demo_reached: "sub_reaches demo_subscriber" "sb_connected demo_subscriber"
proof -
  have c: "sb_client (snd (start True True (listfile_config demo_settings demo_channel) subscriber_new))" by code_simp
  show "sub_reaches demo_subscriber"
    unfolding demo_subscriber_def by (intro stepped [OF _ accepted] stepped [OF fresh started] c)
  show "sb_connected demo_subscriber" by code_simp
qed

theorem subscriber_hears_one_topic_witness: "heard demo_subscriber \<subseteq> {''sensel/default/policy/listfiles''}"
proof -
  have "sb_topic demo_subscriber = ''sensel/default/policy/listfiles''" by code_simp
  then show ?thesis using subscriber_hears_one_topic [OF demo_reached] by simp
qed

theorem refresh_follows_tenant_witness:
  "heard (snd (refresh_subscription ((listfile_config demo_settings demo_channel)\<lparr>su_tenant := Some ''t1''\<rparr>) demo_subscriber))
     = {''sensel/t1/policy/listfiles''}"
proof -
  have "sb_topic demo_subscriber = ''sensel/default/policy/listfiles''"
    "su_enabled (listfile_config demo_settings demo_channel)" by code_simp+
  then show ?thesis
    using refresh_follows_tenant [OF demo_reached, of "(listfile_config demo_settings demo_channel)\<lparr>su_tenant := Some ''t1''\<rparr>"
        "''t1''" "''sensel/t1/policy/listfiles''"] demo_topic [of "''t1''"] by simp
qed

definition demo_command :: json where
  "demo_command = JObj [(''sensor_id'', JStr ''edge-1''), (''mode'', JStr ''detect''), (''version'', JStr ''7'')]"

lemma demo_command_applied:
  "sb_messages (fst (snd (mode_message demo_sync None ''2026'' ''sensel/t1/cmd/edge-1/operational'' (Some demo_command) (subscriber_new, no_mode_files))))
     \<noteq> sb_messages subscriber_new"
  "snd (snd (mode_message demo_sync None ''2026'' ''sensel/t1/cmd/edge-1/operational'' (Some demo_command) (subscriber_new, no_mode_files)))
     \<noteq> no_mode_files"
  by code_simp+

theorem mode_change_authorised_witness: "mode_of_artifact demo_command \<in> VALID_MODES"
proof -
  obtain r s' f' where m: "mode_message demo_sync None ''2026'' ''sensel/t1/cmd/edge-1/operational'' (Some demo_command)
      (subscriber_new, no_mode_files) = (r, s', f')" by (rule prod_cases3)
  have "f' \<noteq> no_mode_files" using demo_command_applied(2) m by simp
  then show ?thesis using mode_change_authorised [OF m] by auto
qed

theorem mode_command_redelivered_witness:
  "\<exists>x. snd (mode_message demo_sync None ''2027'' ''sensel/t1/cmd/edge-1/operational'' (Some demo_command) x) = x"
proof -
  obtain r s' f' where m: "mode_message demo_sync None ''2026'' ''sensel/t1/cmd/edge-1/operational'' (Some demo_command)
      (subscriber_new, no_mode_files) = (r, s', f')" by (rule prod_cases3)
  have v: "truthy (jget demo_command ''version'') \<or> truthy (jget demo_command ''updated_at'')"
    "str_or_empty (jget demo_command ''abort_session_id'') = []" by code_simp+
  have "fold (\<lambda>t x. snd (mode_message demo_sync None t ''sensel/t1/cmd/edge-1/operational'' (Some demo_command) x)) [''2027''] (s', f') = (s', f')"
    by (rule mode_command_redelivered [OF m _ v]) (use demo_command_applied(1) m in simp)
  then show ?thesis by auto
qed

end
