(* ===== verification/Northbound.thy ===== *)
theory Northbound
  imports Subscribe
begin

text \<open>
  The edge agent's side of the control plane bus: topics (\<open>northbound/topics.py\<close>), the publishing
  client (\<open>northbound/mqtt.py\<close>), the runtime file of the console (\<open>runtime/agent_snapshot.py\<close>), the
  credentials kept for the next boot (\<open>runtime/mqtt_credentials.py\<close>) and registration
  (\<open>runtime/registration.py\<close>). The settings object of the bus is mutated through two references, the
  agent's configuration and the client's, so it lives in a store and both hold an address. The broker
  and the portal are parameters: a publish is answered, a registration call returns or raises.
\<close>

section \<open>Topics\<close>

definition topic_base :: "string \<Rightarrow> string \<Rightarrow> string \<Rightarrow> string" where
  "topic_base tenant site sensor = ''ot-edge/'' @ tenant @ ''/'' @ site @ ''/'' @ sensor"

definition events_topic :: "string \<Rightarrow> string \<Rightarrow> string \<Rightarrow> string" where
  "events_topic tenant site sensor = topic_base tenant site sensor @ ''/events/v1''"

definition state_topic :: "string \<Rightarrow> string \<Rightarrow> string \<Rightarrow> string" where
  "state_topic tenant site sensor = topic_base tenant site sensor @ ''/state''"

definition coverage_topic :: "string \<Rightarrow> string \<Rightarrow> string \<Rightarrow> string" where
  "coverage_topic tenant site sensor = topic_base tenant site sensor @ ''/coverage/v1''"

definition observe_tick_topic :: "string \<Rightarrow> string \<Rightarrow> string \<Rightarrow> string" where
  "observe_tick_topic tenant site sensor = topic_base tenant site sensor @ ''/baseline/observe/v1''"

definition topology_snapshot_topic :: "string \<Rightarrow> string \<Rightarrow> string \<Rightarrow> string" where
  "topology_snapshot_topic tenant site sensor = topic_base tenant site sensor @ ''/topology/snapshot/v1''"

definition policy_ack_topic :: "string \<Rightarrow> string \<Rightarrow> string \<Rightarrow> string" where
  "policy_ack_topic tenant site sensor = topic_base tenant site sensor @ ''/policy/ack/v1''"

section \<open>State\<close>

record nb_config =
  nb_on :: bool
  nb_host :: string
  nb_port :: int
  nb_tenant :: string
  nb_require :: bool
  nb_user :: string
  nb_password :: string
  nb_qos :: int

text \<open>A running client of the library has the endpoint and the login it was made with.\<close>

record nb_session =
  se_host :: string
  se_port :: int
  se_user :: string
  se_password :: string

record nb_client =
  nc_cfg :: nat
  nc_session :: "nb_session option"
  nc_connected :: bool

record sensor_identity =
  si_id :: string
  si_site :: string
  si_type :: string
  si_hardware :: string
  si_version :: string
  si_capabilities :: json

record registration =
  rg_complete :: bool
  rg_tenant :: string
  rg_last_attempt :: pyfloat
  rg_last_error :: "string option"

record agent =
  ag_heap :: "nat \<Rightarrow> nb_config"
  ag_nb :: nat
  ag_sensor :: sensor_identity
  ag_client :: nb_client
  ag_sent :: "(string \<times> json \<times> int) list"
  ag_runtime :: jfile
  ag_saved :: jfile
  ag_settings :: mqtt_settings
  ag_channel :: channel_settings
  ag_policy_mqtt :: "subscriber option"
  ag_registration :: registration

datatype publish_reply = PublishRaises | PublishReply int bool

record nb_world =
  bw_now :: string
  bw_mono :: pyfloat
  bw_uuid :: string
  bw_starts :: bool
  bw_reachable :: bool
  bw_publish :: "string \<Rightarrow> json \<Rightarrow> int \<Rightarrow> publish_reply"
  bw_ioc_cache :: jfile

definition nb_cfg :: "agent \<Rightarrow> nb_config" where
  "nb_cfg a = ag_heap a (nc_cfg (ag_client a))"

definition nb_update :: "(nb_config \<Rightarrow> nb_config) \<Rightarrow> nat \<Rightarrow> agent \<Rightarrow> agent" where
  "nb_update f r a = a\<lparr>ag_heap := (ag_heap a)(r := f (ag_heap a r))\<rparr>"

definition nb_enabled :: "agent \<Rightarrow> bool" where
  "nb_enabled a = (nb_on (nb_cfg a) \<and> nb_host (nb_cfg a) \<noteq> [])"

section \<open>The runtime file\<close>

text \<open>Fields given as None are left as they are.\<close>

definition write_agent_runtime :: "string \<Rightarrow> (string \<times> json) list \<Rightarrow> agent \<Rightarrow> agent" where
  "write_agent_runtime now values a =
     (let body = fold (\<lambda>(k, v) d. if v = JNull then d else dict_put k v d) values (obj_items (read_object (ag_runtime a))) in
      a\<lparr>ag_runtime := Doc (JObj (dict_put ''updated_at'' (JStr now) body))\<rparr>)"

definition connected_field :: "agent \<Rightarrow> json" where
  "connected_field a = (if nb_enabled a then JBool (nc_connected (ag_client a)) else JNull)"

section \<open>The publishing client\<close>

definition disconnect_locked :: "agent \<Rightarrow> agent" where
  "disconnect_locked a = a\<lparr>ag_client := (ag_client a)\<lparr>nc_session := None, nc_connected := False\<rparr>\<rparr>"

definition update_tenant_id :: "string \<Rightarrow> agent \<Rightarrow> agent" where
  "update_tenant_id tenant a = (if strip tenant = [] then a else nb_update (\<lambda>c. c\<lparr>nb_tenant := strip tenant\<rparr>) (nc_cfg (ag_client a)) a)"

definition update_credentials :: "string \<Rightarrow> string \<Rightarrow> agent \<Rightarrow> bool \<times> agent" where
  "update_credentials username password a =
     (let user = strip username in
      if user = [] then (False, a)
      else if user = nb_user (nb_cfg a) \<and> password = nb_password (nb_cfg a) then (False, a)
      else (True, disconnect_locked (nb_update (\<lambda>c. c\<lparr>nb_user := user, nb_password := password\<rparr>) (nc_cfg (ag_client a)) a)))"

definition update_endpoint_if_unset :: "string \<Rightarrow> int option \<Rightarrow> agent \<Rightarrow> bool \<times> agent" where
  "update_endpoint_if_unset host0 port a =
     (let host = strip host0 in
      if host = [] \<or> nb_host (nb_cfg a) \<noteq> [] then (False, a)
      else (True, disconnect_locked (nb_update (\<lambda>c. c\<lparr>nb_host := host,
              nb_port := (case port of Some p \<Rightarrow> if p = 0 then nb_port c else p | None \<Rightarrow> nb_port c)\<rparr>) (nc_cfg (ag_client a)) a)))"

definition nb_on_connect :: "nb_world \<Rightarrow> bool \<Rightarrow> agent \<Rightarrow> agent" where
  "nb_on_connect w failure a =
     (if failure then a\<lparr>ag_client := (ag_client a)\<lparr>nc_connected := False\<rparr>\<rparr>
      else write_agent_runtime (bw_now w)
        [(''mqtt_connected'', JBool True), (''tenant_id'', JStr (nb_tenant (nb_cfg a))), (''last_error'', JStr [])]
        (a\<lparr>ag_client := (ag_client a)\<lparr>nc_connected := True\<rparr>\<rparr>))"

definition nb_on_disconnect :: "nb_world \<Rightarrow> agent \<Rightarrow> agent" where
  "nb_on_disconnect w a = write_agent_runtime (bw_now w) [(''mqtt_connected'', JBool False)]
     (a\<lparr>ag_client := (ag_client a)\<lparr>nc_connected := False\<rparr>\<rparr>)"

definition ensure_client :: "nb_world \<Rightarrow> agent \<Rightarrow> bool \<times> agent" where
  "ensure_client w a =
     (if \<not> nb_enabled a then (False, a)
      else if nc_session (ag_client a) \<noteq> None then (True, a)
      else if \<not> bw_starts w then (False, a)
      else (True, a\<lparr>ag_client := (ag_client a)\<lparr>nc_session := Some \<lparr>se_host = nb_host (nb_cfg a), se_port = nb_port (nb_cfg a),
             se_user = nb_user (nb_cfg a), se_password = nb_password (nb_cfg a)\<rparr>\<rparr>\<rparr>))"

definition envelope :: "nb_world \<Rightarrow> agent \<Rightarrow> string \<Rightarrow> json \<Rightarrow> string \<Rightarrow> json" where
  "envelope w a kind payload observed_at = JObj
     [(''schema_version'', JStr ''1.0''), (''message_type'', JStr kind), (''tenant_id'', JStr (nb_tenant (nb_cfg a))),
      (''site_id'', JStr (si_site (ag_sensor a))), (''sensor_id'', JStr (si_id (ag_sensor a))),
      (''observed_at'', JStr (if observed_at = [] then bw_now w else observed_at)), (''mqtt_trace_id'', JStr (bw_uuid w)),
      (''producer'', JObj [(''type'', JStr ''sensel-ot-edge-sensor''), (''version'', JStr (si_version (ag_sensor a)))]),
      (''payload'', payload)]"

text \<open>A message is sent when the library takes it; it counts as published only when it confirms it.\<close>

definition publish_json :: "nb_world \<Rightarrow> string \<Rightarrow> json \<Rightarrow> int option \<Rightarrow> agent \<Rightarrow> bool \<times> agent" where
  "publish_json w topic body qos0 a = (case ensure_client w a of
     (False, a) \<Rightarrow> (False, a)
   | (True, a) \<Rightarrow>
      if \<not> nc_connected (ag_client a) then (False, a)
      else let qos = (case qos0 of None \<Rightarrow> nb_qos (nb_cfg a) | Some q \<Rightarrow> q) in
        (case bw_publish w topic body qos of PublishRaises \<Rightarrow> (False, a)
         | PublishReply rc published \<Rightarrow>
            let a = a\<lparr>ag_sent := ag_sent a @ [(topic, body, qos)]\<rparr> in
            if rc \<noteq> 0 \<or> (0 < qos \<and> \<not> published) then (False, a)
            else (True, write_agent_runtime (bw_now w) [(''mqtt_connected'', JBool True),
                   (''tenant_id'', JStr (nb_tenant (nb_cfg a))), (''last_mqtt_publish_at'', JStr (bw_now w))] a)))"

definition tenant_unbound :: "nb_config \<Rightarrow> bool" where
  "tenant_unbound c = (nb_require c \<and> strip (nb_tenant c) \<in> {[], ''default''})"

definition text_or_now :: "nb_world \<Rightarrow> json \<Rightarrow> string" where
  "text_or_now w v = py_str (py_or v (JStr (bw_now w)))"

definition publish_security_event :: "nb_world \<Rightarrow> json \<Rightarrow> agent \<Rightarrow> bool \<times> agent" where
  "publish_security_event w event a = (if tenant_unbound (nb_cfg a) then (False, a)
     else publish_json w (events_topic (nb_tenant (nb_cfg a)) (si_site (ag_sensor a)) (si_id (ag_sensor a)))
       (envelope w a ''security_event'' event (text_or_now w (jget event ''timestamp''))) None a)"

definition publish_state :: "nb_world \<Rightarrow> json \<Rightarrow> agent \<Rightarrow> bool \<times> agent" where
  "publish_state w state a = publish_json w (state_topic (nb_tenant (nb_cfg a)) (si_site (ag_sensor a)) (si_id (ag_sensor a)))
     (envelope w a ''state'' state []) (Some 1) a"

definition publish_coverage :: "nb_world \<Rightarrow> json \<Rightarrow> agent \<Rightarrow> bool \<times> agent" where
  "publish_coverage w coverage a = (if tenant_unbound (nb_cfg a) then (False, a)
     else publish_json w (coverage_topic (nb_tenant (nb_cfg a)) (si_site (ag_sensor a)) (si_id (ag_sensor a)))
       (envelope w a ''coverage'' coverage (text_or_now w (jget coverage ''generated_at''))) (Some 1) a)"

text \<open>\<open>str(payload.get("tenant_id") or self._cfg.tenant_id).strip()\<close>\<close>

definition payload_tenant :: "agent \<Rightarrow> json \<Rightarrow> string" where
  "payload_tenant a payload = strip (py_str (py_or (jget payload ''tenant_id'') (JStr (nb_tenant (nb_cfg a)))))"

definition publish_observe_tick :: "nb_world \<Rightarrow> json \<Rightarrow> agent \<Rightarrow> bool \<times> agent" where
  "publish_observe_tick w tick a = (if tenant_unbound (nb_cfg a) then (False, a)
     else publish_json w (observe_tick_topic (payload_tenant a tick) (si_site (ag_sensor a)) (si_id (ag_sensor a)))
       (envelope w a ''baseline_observe_tick'' tick (text_or_now w (jget tick ''observed_at''))) (Some 1) a)"

definition publish_topology_snapshot :: "nb_world \<Rightarrow> json \<Rightarrow> agent \<Rightarrow> bool \<times> agent" where
  "publish_topology_snapshot w payload a = (if tenant_unbound (nb_cfg a) then (False, a)
     else publish_json w (topology_snapshot_topic (payload_tenant a payload) (si_site (ag_sensor a)) (si_id (ag_sensor a)))
       (envelope w a ''ot_topology_snapshot'' payload (text_or_now w (jget payload ''observed_at''))) (Some 1) a)"

definition publish_policy_ack :: "nb_world \<Rightarrow> json \<Rightarrow> agent \<Rightarrow> bool \<times> agent" where
  "publish_policy_ack w ack a = (if tenant_unbound (nb_cfg a) then (False, a)
     else publish_json w (policy_ack_topic (payload_tenant a ack) (si_site (ag_sensor a)) (si_id (ag_sensor a)))
       (envelope w a ''ot_policy_ack'' ack []) (Some 1) a)"

section \<open>Credentials for the next boot\<close>

definition load_persisted_credentials :: "jfile \<Rightarrow> json option" where
  "load_persisted_credentials f = (case f of Doc v \<Rightarrow>
       if is_obj v \<and> strip (str_or_empty (jget v ''username'')) \<noteq> [] then Some v else None
     | _ \<Rightarrow> None)"

definition credentials_status :: "jfile \<Rightarrow> json" where
  "credentials_status f = (case load_persisted_credentials f of None \<Rightarrow> JObj [(''landed'', JBool False)]
     | Some raw \<Rightarrow> JObj [(''landed'', JBool True), (''username'', JStr (str_or_empty (jget raw ''username''))),
         (''host'', jget raw ''host''), (''port'', jget raw ''port''), (''tenant_id'', jget raw ''tenant_id''),
         (''acl_version'', jget raw ''acl_version'')])"

definition credentials_body :: "string \<Rightarrow> string \<Rightarrow> string \<Rightarrow> int option \<Rightarrow> string \<Rightarrow> json \<Rightarrow> (string \<times> json) list" where
  "credentials_body username password host port tenant acl =
     [(''username'', JStr username), (''password'', JStr password)] @
     (if host = [] then [] else [(''host'', JStr host)]) @
     (case port of Some p \<Rightarrow> if p = 0 then [] else [(''port'', JInt p)] | None \<Rightarrow> []) @
     (if tenant = [] then [] else [(''tenant_id'', JStr tenant)]) @
     (if acl = JNull then [] else [(''acl_version'', acl)])"

definition persist_credentials :: "string \<Rightarrow> string \<Rightarrow> string \<Rightarrow> int option \<Rightarrow> string \<Rightarrow> json \<Rightarrow> jfile \<Rightarrow> bool \<times> jfile" where
  "persist_credentials username0 password host port tenant acl f =
     (let username = strip username0 in
      if username = [] then (False, f)
      else (True, Doc (JObj (credentials_body username password host port tenant acl))))"

section \<open>Registration\<close>

definition register_payload :: "sensor_identity \<Rightarrow> string \<Rightarrow> json" where
  "register_payload si token0 = (let token = strip token0 in JObj
     ([(''sensor_id'', JStr (si_id si)), (''site_id'', JStr (si_site si)), (''sensor_type'', JStr (si_type si)),
       (''hardware'', JStr (si_hardware si)), (''software_version'', JStr (si_version si)), (''capabilities'', si_capabilities si)] @
      (if token = [] then [] else [(''registration_token'', JStr token)])))"

definition registration_due :: "pyfloat \<Rightarrow> int \<Rightarrow> registration \<Rightarrow> bool" where
  "registration_due now retry r =
     (if rg_complete r then False else if rg_last_attempt r \<le> 0 then True
      else of_int (max 1 retry) \<le> now - rg_last_attempt r)"

definition reply_tenant :: "json \<Rightarrow> string" where
  "reply_tenant reg = strip (str_or_empty (py_or (jget reg ''tenant_id'') (jget reg ''mqtt_tenant_id'')))"

definition reply_port :: "json \<Rightarrow> int option" where
  "reply_port reg = (if truthy (jget reg ''mqtt_port'') then (case py_int (jget reg ''mqtt_port'') of Inr p \<Rightarrow> Some p | Inl _ \<Rightarrow> None)
     else None)"

definition apply_mqtt_credentials :: "json \<Rightarrow> agent \<Rightarrow> agent" where
  "apply_mqtt_credentials reg a =
     (let username = strip (str_or_empty (jget reg ''mqtt_username'')); password = str_or_empty (jget reg ''mqtt_password'');
          host = strip (str_or_empty (jget reg ''mqtt_host'')) in
      if username = [] then a
      else
        let a = nb_update (\<lambda>c. c\<lparr>nb_user := username, nb_password := password\<rparr>) (ag_nb a) a;
            a = a\<lparr>ag_settings := (ag_settings a)\<lparr>ms_user := username, ms_password := password\<rparr>\<rparr>;
            a = (if nb_enabled a then
                   let a = snd (update_credentials username password a) in
                   if host = [] then a else snd (update_endpoint_if_unset host (reply_port reg) a)
                 else a) in
        a\<lparr>ag_saved := snd (persist_credentials username password host (reply_port reg) (reply_tenant reg)
              (jget reg ''mqtt_acl_version'') (ag_saved a))\<rparr>)"

text \<open>The policy subscriber reads the live settings of the bus.\<close>

definition policy_sub_config :: "nb_world \<Rightarrow> agent \<Rightarrow> sub_config" where
  "policy_sub_config w a =
     (let c = ag_heap a (ag_nb a); ms = ag_settings a in
      blacklist_config (ms\<lparr>ms_feed := (ms_feed ms)\<lparr>fd_tenant := nb_tenant c, fd_require_tenant := nb_require c\<rparr>\<rparr>)
        (ag_channel a) (bw_ioc_cache w))"

definition renew_policy_subscription :: "nb_world \<Rightarrow> agent \<Rightarrow> unit res \<times> agent" where
  "renew_policy_subscription w a = (case ag_policy_mqtt a of None \<Rightarrow> (Inr (), a)
     | Some s \<Rightarrow> (let cfg = policy_sub_config w a;
           s = (if su_enabled cfg \<and> \<not> sb_connected s then snd (start (bw_starts w) (bw_reachable w) cfg s) else s) in
         (case refresh_subscription cfg s of (r, s) \<Rightarrow> (r, a\<lparr>ag_policy_mqtt := Some s\<rparr>))))"

text \<open>The portal's answer taken: tenant, credentials.\<close>

definition registered :: "nb_world \<Rightarrow> json \<Rightarrow> agent \<Rightarrow> agent" where
  "registered w reg a =
     (let a = a\<lparr>ag_registration := (ag_registration a)\<lparr>rg_tenant := reply_tenant reg, rg_last_error := None, rg_complete := True\<rparr>\<rparr>;
          a = (if reply_tenant reg \<noteq> [] \<and> nb_enabled a then update_tenant_id (reply_tenant reg) a else a) in
      apply_mqtt_credentials reg a)"

definition announced :: "nb_world \<Rightarrow> json \<Rightarrow> agent \<Rightarrow> agent" where
  "announced w reg a =
     (let a = (if nb_enabled a then snd (publish_state w (JObj [(''status'', JStr ''online''),
                (''sensor_type'', JStr (si_type (ag_sensor a))), (''capabilities'', si_capabilities (ag_sensor a))]) a) else a) in
      write_agent_runtime (bw_now w)
        [(''registered'', JBool True), (''tenant_id'', JStr (reply_tenant reg)), (''last_register_at'', JStr (bw_now w)),
         (''last_error'', JStr []), (''mqtt_connected'', connected_field a)] a)"

definition register_failed :: "nb_world \<Rightarrow> string \<Rightarrow> agent \<Rightarrow> agent" where
  "register_failed w e a = write_agent_runtime (bw_now w)
     [(''registered'', JBool False), (''last_error'', JStr e), (''mqtt_connected'', connected_field a)]
     (a\<lparr>ag_registration := (ag_registration a)\<lparr>rg_last_error := Some e\<rparr>\<rparr>)"

text \<open>\<open>reply\<close> is what \<open>client.register()\<close> returns, or the text of what it raises.\<close>

definition attempt_registration :: "nb_world \<Rightarrow> int \<Rightarrow> bool \<Rightarrow> (string, json) sum \<Rightarrow> agent \<Rightarrow> bool res \<times> agent" where
  "attempt_registration w retry force reply a =
     (if \<not> force \<and> \<not> registration_due (bw_mono w) retry (ag_registration a) then (Inr (rg_complete (ag_registration a)), a)
      else let a = a\<lparr>ag_registration := (ag_registration a)\<lparr>rg_last_attempt := bw_mono w\<rparr>\<rparr> in
      case reply of
        Inl e \<Rightarrow> (Inr False, register_failed w e a)
      | Inr reg \<Rightarrow> (case renew_policy_subscription w (registered w reg a) of
          (Inl e, a) \<Rightarrow> (Inl e, a) | (Inr _, a) \<Rightarrow> (Inr True, announced w reg a)))"

section \<open>Lemmas\<close>

lemma write_runtime_simps [simp]:
  "ag_heap (write_agent_runtime now vs a) = ag_heap a" "ag_nb (write_agent_runtime now vs a) = ag_nb a"
  "ag_client (write_agent_runtime now vs a) = ag_client a" "ag_sent (write_agent_runtime now vs a) = ag_sent a"
  "ag_saved (write_agent_runtime now vs a) = ag_saved a" "ag_registration (write_agent_runtime now vs a) = ag_registration a"
  "ag_policy_mqtt (write_agent_runtime now vs a) = ag_policy_mqtt a" "ag_sensor (write_agent_runtime now vs a) = ag_sensor a"
  "nb_cfg (write_agent_runtime now vs a) = nb_cfg a"
  by (simp_all add: write_agent_runtime_def Let_def nb_cfg_def)

lemma nb_update_simps [simp]:
  "ag_client (nb_update f r a) = ag_client a" "ag_nb (nb_update f r a) = ag_nb a"
  "ag_registration (nb_update f r a) = ag_registration a" "ag_policy_mqtt (nb_update f r a) = ag_policy_mqtt a"
  "nb_cfg (nb_update f r a) = (if r = nc_cfg (ag_client a) then f (nb_cfg a) else nb_cfg a)"
  by (simp_all add: nb_update_def nb_cfg_def)

lemma disconnect_simps [simp]:
  "ag_heap (disconnect_locked a) = ag_heap a" "ag_nb (disconnect_locked a) = ag_nb a"
  "nc_session (ag_client (disconnect_locked a)) = None" "nc_cfg (ag_client (disconnect_locked a)) = nc_cfg (ag_client a)"
  "ag_registration (disconnect_locked a) = ag_registration a" "nb_cfg (disconnect_locked a) = nb_cfg a"
  by (simp_all add: disconnect_locked_def nb_cfg_def)

lemma agent_update_cfg [simp]:
  "nb_cfg (a\<lparr>ag_registration := r\<rparr>) = nb_cfg a" "nb_cfg (a\<lparr>ag_settings := ms\<rparr>) = nb_cfg a" "nb_cfg (a\<lparr>ag_saved := f\<rparr>) = nb_cfg a"
  "nb_cfg (a\<lparr>ag_policy_mqtt := p\<rparr>) = nb_cfg a" "nb_cfg (a\<lparr>ag_sent := m\<rparr>) = nb_cfg a"
  by (simp_all add: nb_cfg_def)

text \<open>A publish starts a client when there is none and leaves the settings alone.\<close>

lemma ensure_client_simps [simp]:
  "nb_cfg (snd (ensure_client w a)) = nb_cfg a" "ag_nb (snd (ensure_client w a)) = ag_nb a"
  "ag_sent (snd (ensure_client w a)) = ag_sent a" "nc_connected (ag_client (snd (ensure_client w a))) = nc_connected (ag_client a)"
  "ag_registration (snd (ensure_client w a)) = ag_registration a" "ag_heap (snd (ensure_client w a)) = ag_heap a"
  "nc_cfg (ag_client (snd (ensure_client w a))) = nc_cfg (ag_client a)"
  by (simp_all add: ensure_client_def nb_cfg_def)

lemma ensure_client_running: "nc_session (ag_client a) = Some se \<Longrightarrow> snd (ensure_client w a) = a"
  by (simp add: ensure_client_def)

lemma publish_json_cases:
  obtains (kept) "fst (publish_json w topic body qos a) = False" "ag_sent (snd (publish_json w topic body qos a)) = ag_sent a"
      "ag_client (snd (publish_json w topic body qos a)) = ag_client (snd (ensure_client w a))"
      "nb_cfg (snd (publish_json w topic body qos a)) = nb_cfg a"
      "ag_registration (snd (publish_json w topic body qos a)) = ag_registration a"
  | (taken) q where "ag_sent (snd (publish_json w topic body qos a)) = ag_sent a @ [(topic, body, q)]"
      "nc_connected (ag_client a)" "ag_client (snd (publish_json w topic body qos a)) = ag_client (snd (ensure_client w a))"
      "nb_cfg (snd (publish_json w topic body qos a)) = nb_cfg a"
      "ag_registration (snd (publish_json w topic body qos a)) = ag_registration a"
proof -
  define b where "b = snd (ensure_client w a)"
  consider "fst (ensure_client w a) = False" | "fst (ensure_client w a)" "\<not> nc_connected (ag_client b)"
    | "fst (ensure_client w a)" "nc_connected (ag_client b)" by blast
  then show thesis
  proof cases
    case 1
    then have "ensure_client w a = (False, b)" by (simp add: b_def prod_eq_iff)
    then have "publish_json w topic body qos a = (False, b)" by (simp add: publish_json_def)
    then show ?thesis using kept by (simp add: b_def)
  next
    case 2
    then have "ensure_client w a = (True, b)" by (simp add: b_def prod_eq_iff)
    then have "publish_json w topic body qos a = (False, b)" using 2(2) by (simp add: publish_json_def)
    then show ?thesis using kept by (simp add: b_def)
  next
    case 3
    define q where "q = (case qos of None \<Rightarrow> nb_qos (nb_cfg b) | Some q \<Rightarrow> q)"
    have e: "ensure_client w a = (True, b)" using 3(1) by (simp add: b_def prod_eq_iff)
    show ?thesis
    proof (cases "bw_publish w topic body q")
      case PublishRaises
      then have "publish_json w topic body qos a = (False, b)"
        using 3(2) by (simp add: publish_json_def e q_def)
      then show ?thesis using kept by (simp add: b_def)
    next
      case (PublishReply rc published)
      then have "snd (publish_json w topic body qos a) \<in>
          {b\<lparr>ag_sent := ag_sent b @ [(topic, body, q)]\<rparr>} \<union> range (\<lambda>vs. write_agent_runtime (bw_now w) vs (b\<lparr>ag_sent := ag_sent b @ [(topic, body, q)]\<rparr>))"
        using 3(2) by (auto simp: publish_json_def e q_def [symmetric] Let_def)
      then show ?thesis using 3(2) by (intro taken [of q]) (auto simp: b_def nb_cfg_def)
    qed
  qed
qed

lemma publish_json_simps [simp]:
  "nb_cfg (snd (publish_json w topic body qos a)) = nb_cfg a"
  "ag_registration (snd (publish_json w topic body qos a)) = ag_registration a"
  "nc_session (ag_client a) = Some se \<Longrightarrow> nc_session (ag_client (snd (publish_json w topic body qos a))) = Some se"
  by (cases rule: publish_json_cases [of w topic body qos a]; simp add: ensure_client_running)+

lemma publish_state_simps [simp]:
  "nb_cfg (snd (publish_state w state a)) = nb_cfg a" "ag_registration (snd (publish_state w state a)) = ag_registration a"
  "nc_session (ag_client a) = Some se \<Longrightarrow> nc_session (ag_client (snd (publish_state w state a))) = Some se"
  by (simp_all add: publish_state_def)

lemma update_tenant_simps [simp]:
  "ag_client (update_tenant_id t a) = ag_client a" "ag_nb (update_tenant_id t a) = ag_nb a"
  "nb_host (nb_cfg (update_tenant_id t a)) = nb_host (nb_cfg a)" "nb_user (nb_cfg (update_tenant_id t a)) = nb_user (nb_cfg a)"
  "ag_registration (update_tenant_id t a) = ag_registration a"
  by (simp_all add: update_tenant_id_def)

lemma renew_simps [simp]:
  "nb_cfg (snd (renew_policy_subscription w a)) = nb_cfg a" "ag_client (snd (renew_policy_subscription w a)) = ag_client a"
  "ag_registration (snd (renew_policy_subscription w a)) = ag_registration a" "ag_nb (snd (renew_policy_subscription w a)) = ag_nb a"
  by (simp_all add: renew_policy_subscription_def Let_def split: option.split prod.split)

lemma endpoint_known: "nb_enabled a \<Longrightarrow> update_endpoint_if_unset host port a = (False, a)"
  by (simp add: update_endpoint_if_unset_def nb_enabled_def)

lemma update_credentials_host [simp]: "nb_host (nb_cfg (snd (update_credentials u p a))) = nb_host (nb_cfg a)"
  "nb_on (nb_cfg (snd (update_credentials u p a))) = nb_on (nb_cfg a)"
  by (simp_all add: update_credentials_def Let_def)

lemma update_registration [simp]:
  "ag_registration (snd (update_credentials u p a)) = ag_registration a"
  "ag_registration (snd (update_endpoint_if_unset host port a)) = ag_registration a"
  by (simp_all add: update_credentials_def update_endpoint_if_unset_def Let_def)

lemma update_credentials_enabled [simp]: "nb_enabled (snd (update_credentials u p a)) = nb_enabled a"
  by (simp add: nb_enabled_def)

lemma apply_credentials_host: "nb_host (nb_cfg (apply_mqtt_credentials reg a)) = nb_host (nb_cfg a)"
  by (simp add: apply_mqtt_credentials_def Let_def endpoint_known)

text \<open>With one settings object the client's comparison meets the login it was just given.\<close>

lemma update_credentials_aliased:
  "nb_user (nb_cfg a) = u \<Longrightarrow> nb_password (nb_cfg a) = p \<Longrightarrow> strip u = u \<Longrightarrow> update_credentials u p a = (False, a)"
  by (simp add: update_credentials_def Let_def)

lemma apply_credentials_aliased:
  assumes "ag_nb a = nc_cfg (ag_client a)"
  shows "ag_client (apply_mqtt_credentials reg a) = ag_client a \<and>
    (strip (str_or_empty (jget reg ''mqtt_username'')) \<noteq> [] \<longrightarrow>
       nb_user (nb_cfg (apply_mqtt_credentials reg a)) = strip (str_or_empty (jget reg ''mqtt_username'')))"
proof (cases "strip (str_or_empty (jget reg ''mqtt_username'')) = []")
  case True
  then show ?thesis by (simp add: apply_mqtt_credentials_def)
next
  case False
  define u where "u = strip (str_or_empty (jget reg ''mqtt_username''))"
  define p where "p = str_or_empty (jget reg ''mqtt_password'')"
  define b where "b = (nb_update (\<lambda>c. c\<lparr>nb_user := u, nb_password := p\<rparr>) (ag_nb a) a)
    \<lparr>ag_settings := (ag_settings (nb_update (\<lambda>c. c\<lparr>nb_user := u, nb_password := p\<rparr>) (ag_nb a) a))\<lparr>ms_user := u, ms_password := p\<rparr>\<rparr>"
  have b: "nb_user (nb_cfg b) = u" "nb_password (nb_cfg b) = p" "ag_client b = ag_client a"
    by (simp_all add: b_def assms)
  have "strip u = u" by (simp add: u_def strip_idem)
  then have "update_credentials u p b = (False, b)" by (rule update_credentials_aliased [OF b(1,2)])
  then have "\<exists>f. apply_mqtt_credentials reg a = b\<lparr>ag_saved := f\<rparr>"
    using False by (auto simp: apply_mqtt_credentials_def Let_def u_def [symmetric] p_def [symmetric] b_def [symmetric] endpoint_known)
  then show ?thesis using b by (auto simp: u_def)
qed

lemma announced_simps [simp]:
  "nb_cfg (announced w reg a) = nb_cfg a" "ag_registration (announced w reg a) = ag_registration a"
  "nc_session (ag_client a) = Some se \<Longrightarrow> nc_session (ag_client (announced w reg a)) = Some se"
  by (simp_all add: announced_def Let_def)

lemma failed_simps [simp]:
  "nb_cfg (register_failed w e a) = nb_cfg a" "ag_client (register_failed w e a) = ag_client a"
  "rg_last_attempt (ag_registration (register_failed w e a)) = rg_last_attempt (ag_registration a)"
  "rg_complete (ag_registration (register_failed w e a)) = rg_complete (ag_registration a)"
  by (simp_all add: register_failed_def)

lemma registered_host [simp]: "nb_host (nb_cfg (registered w reg a)) = nb_host (nb_cfg a)"
  by (simp add: registered_def Let_def apply_credentials_host)

lemma apply_credentials_registration [simp]: "ag_registration (apply_mqtt_credentials reg a) = ag_registration a"
  by (simp add: apply_mqtt_credentials_def Let_def)

lemma registered_registration [simp]:
  "rg_complete (ag_registration (registered w reg a))" "rg_last_attempt (ag_registration (registered w reg a)) = rg_last_attempt (ag_registration a)"
  by (simp_all add: registered_def Let_def)

lemma registered_aliased:
  assumes "ag_nb a = nc_cfg (ag_client a)"
  shows "ag_client (registered w reg a) = ag_client a \<and>
    (strip (str_or_empty (jget reg ''mqtt_username'')) \<noteq> [] \<longrightarrow>
       nb_user (nb_cfg (registered w reg a)) = strip (str_or_empty (jget reg ''mqtt_username'')))"
proof -
  define b where "b = (let a = a\<lparr>ag_registration := (ag_registration a)\<lparr>rg_tenant := reply_tenant reg, rg_last_error := None, rg_complete := True\<rparr>\<rparr> in
      if reply_tenant reg \<noteq> [] \<and> nb_enabled a then update_tenant_id (reply_tenant reg) a else a)"
  have "ag_client b = ag_client a" "ag_nb b = ag_nb a" by (simp_all add: b_def Let_def)
  then show ?thesis using apply_credentials_aliased [of b reg] assms
    by (simp add: registered_def b_def [unfolded Let_def, symmetric] Let_def)
qed

text \<open>The three ways a call goes.\<close>

lemma attempt_cases:
  obtains (early) "\<not> force" "\<not> registration_due (bw_mono w) retry (ag_registration a)"
      "attempt_registration w retry force reply a = (Inr (rg_complete (ag_registration a)), a)"
  | (failed) e where "reply = Inl e"
      "snd (attempt_registration w retry force reply a) = register_failed w e (a\<lparr>ag_registration := (ag_registration a)\<lparr>rg_last_attempt := bw_mono w\<rparr>\<rparr>)"
      "fst (attempt_registration w retry force reply a) = Inr False"
  | (made) reg b where "reply = Inr reg"
      "b = snd (renew_policy_subscription w (registered w reg (a\<lparr>ag_registration := (ag_registration a)\<lparr>rg_last_attempt := bw_mono w\<rparr>\<rparr>)))"
      "snd (attempt_registration w retry force reply a) \<in> {b, announced w reg b}"
proof (cases "\<not> force \<and> \<not> registration_due (bw_mono w) retry (ag_registration a)")
  case True
  then show ?thesis using early by (simp add: attempt_registration_def)
next
  case False
  define a0 where "a0 = a\<lparr>ag_registration := (ag_registration a)\<lparr>rg_last_attempt := bw_mono w\<rparr>\<rparr>"
  show ?thesis
  proof (cases reply)
    case (Inl e)
    then show ?thesis using False by (intro failed [of e]) (auto simp: attempt_registration_def)
  next
    case (Inr reg)
    obtain r b where rb: "renew_policy_subscription w (registered w reg a0) = (r, b)" by fastforce
    have "snd (attempt_registration w retry force reply a) \<in> {b, announced w reg b}"
      using False by (cases r) (auto simp: attempt_registration_def Let_def a0_def [symmetric] Inr rb)
    then show ?thesis using Inr rb by (intro made) (simp_all add: a0_def)
  qed
qed

section \<open>Properties\<close>

text \<open>
  The endpoint the portal sends is never used: whatever the portal answers, registration leaves the
  bus host of the client as it was, although \<open>update_endpoint_if_unset\<close> is there to set an empty one.
\<close>

theorem registration_keeps_endpoint:
  "nb_host (nb_cfg (snd (attempt_registration w retry force reply a))) = nb_host (nb_cfg a)"
proof (cases rule: attempt_cases [of force w retry a reply])
  case (made reg b)
  then have "nb_host (nb_cfg b) = nb_host (nb_cfg a)" by simp
  then show ?thesis using made(3) by auto
qed simp_all

text \<open>
  New credentials do not reach a running client: the agent's configuration and the client share one
  settings object, so the client compares the new login with itself. A client started before the
  registration succeeded keeps its session and its old login, while the settings name the new one.
\<close>

theorem running_client_keeps_old_login:
  assumes "ag_nb a = nc_cfg (ag_client a)" and "nc_session (ag_client a) = Some se"
    and "strip (str_or_empty (jget reg ''mqtt_username'')) \<notin> {[], se_user se}"
  shows "(let a' = snd (attempt_registration w retry True (Inr reg) a) in
     nc_session (ag_client a') = Some se \<and> nb_user (nb_cfg a') = strip (str_or_empty (jget reg ''mqtt_username'')) \<and>
     nb_user (nb_cfg a') \<noteq> se_user se)"
proof (cases rule: attempt_cases [of True w retry a "Inr reg"])
  case (made reg' b)
  define a0 where "a0 = a\<lparr>ag_registration := (ag_registration a)\<lparr>rg_last_attempt := bw_mono w\<rparr>\<rparr>"
  have r: "reg' = reg" using made(1) by simp
  have "ag_nb a0 = nc_cfg (ag_client a0)" using assms(1) by (simp add: a0_def)
  from registered_aliased [OF this, of w reg] assms(3)
  have "ag_client b = ag_client a" "nb_user (nb_cfg b) = strip (str_or_empty (jget reg ''mqtt_username''))"
    using made(2) by (simp_all add: r a0_def)
  then show ?thesis using made(3) assms(2,3) by (auto simp: r Let_def)
qed simp_all

text \<open>With a settings object of its own the client would have been torn down, to be made anew.\<close>

lemma own_settings_reconnect:
  assumes "strip u \<noteq> []" and "strip u \<noteq> nb_user (nb_cfg a)"
  shows "nc_session (ag_client (snd (update_credentials u p a))) = None"
  using assms by (simp add: update_credentials_def Let_def)

text \<open>
  What is published: an event counts as published only when the bus is up and the tenant bound where
  one is required; then one message was sent, to the sensor's event topic under the tenant of the
  settings, whose envelope names that tenant, the site and the sensor and carries the event.
\<close>

theorem event_published_for_tenant:
  assumes "publish_security_event w event a = (True, a')"
  shows "\<not> tenant_unbound (nb_cfg a) \<and> nc_connected (ag_client a) \<and>
    (\<exists>body qos. ag_sent a' = ag_sent a @ [(''ot-edge/'' @ nb_tenant (nb_cfg a) @ ''/'' @ si_site (ag_sensor a) @ ''/'' @
         si_id (ag_sensor a) @ ''/events/v1'', body, qos)] \<and>
       jget body ''tenant_id'' = JStr (nb_tenant (nb_cfg a)) \<and> jget body ''sensor_id'' = JStr (si_id (ag_sensor a)) \<and>
       jget body ''payload'' = event)"
proof -
  define topic where "topic = events_topic (nb_tenant (nb_cfg a)) (si_site (ag_sensor a)) (si_id (ag_sensor a))"
  define body where "body = envelope w a ''security_event'' event (text_or_now w (jget event ''timestamp''))"
  have t: "\<not> tenant_unbound (nb_cfg a)" "publish_json w topic body None a = (True, a')"
    using assms by (simp_all add: publish_security_event_def topic_def body_def split: if_splits)
  have b: "jget body ''tenant_id'' = JStr (nb_tenant (nb_cfg a))" "jget body ''sensor_id'' = JStr (si_id (ag_sensor a))"
    "jget body ''payload'' = event" by (simp_all add: body_def envelope_def)
  show ?thesis
  proof (cases rule: publish_json_cases [of w topic body None a])
    case kept
    then show ?thesis using t by simp
  next
    case (taken q)
    then show ?thesis using t b by (auto simp: topic_def events_topic_def topic_base_def)
  qed
qed

text \<open>
  Credentials survive a restart and stay secret: what \<open>persist_credentials\<close> writes is read back with
  the login, and the status shown to the console is the same for every password.
\<close>

theorem credentials_kept_secret:
  assumes "strip username \<noteq> []"
  shows "(\<exists>raw. load_persisted_credentials (snd (persist_credentials username password host port tenant acl f)) = Some raw \<and>
      jget raw ''username'' = JStr (strip username) \<and> jget raw ''password'' = JStr password) \<and>
    credentials_status (snd (persist_credentials username password host port tenant acl f)) =
      credentials_status (snd (persist_credentials username password' host port tenant acl f'))"
proof -
  define body where "body p = credentials_body (strip username) p host port tenant acl" for p
  have s: "snd (persist_credentials username p host port tenant acl g) = Doc (JObj (body p))" for p g
    using assms by (simp add: persist_credentials_def Let_def body_def)
  have g: "jget (JObj (body p)) ''username'' = JStr (strip username)" "jget (JObj (body p)) ''password'' = JStr p" for p
    by (simp_all add: body_def credentials_body_def)
  have k: "jget (JObj (body p)) x = jget (JObj (body p')) x" if "x \<noteq> ''password''" for p p' x
    using that by (simp add: body_def credentials_body_def jget_def dict_get_def)
  have l: "load_persisted_credentials (Doc (JObj (body p))) = Some (JObj (body p))" for p
    using assms g by (simp add: load_persisted_credentials_def str_or_empty_def py_or_def strip_idem)
  show ?thesis unfolding s l credentials_status_def using g k [of _ password password'] by simp
qed

text \<open>The times at which a sequence of calls asks the portal.\<close>

fun attempts :: "int \<Rightarrow> (nb_world \<times> (string, json) sum) list \<Rightarrow> agent \<Rightarrow> pyfloat list" where
  "attempts retry [] a = []"
| "attempts retry ((w, reply) # calls) a =
     (if registration_due (bw_mono w) retry (ag_registration a) then [bw_mono w] else []) @
     attempts retry calls (snd (attempt_registration w retry False reply a))"

lemma attempt_last:
  "registration_due (bw_mono w) retry (ag_registration a) \<Longrightarrow>
     rg_last_attempt (ag_registration (snd (attempt_registration w retry False reply a))) = bw_mono w"
  by (cases rule: attempt_cases [of False w retry a reply]) auto

lemma attempt_early:
  "\<not> registration_due (bw_mono w) retry (ag_registration a) \<Longrightarrow> attempt_registration w retry False reply a = (Inr (rg_complete (ag_registration a)), a)"
  by (simp add: attempt_registration_def)

lemma attempts_after:
  assumes "0 < rg_last_attempt (ag_registration a)" and "\<forall>(w, r)\<in>set calls. 0 < bw_mono w"
  shows "\<forall>y\<in>set (attempts retry calls a). of_int (max 1 retry) \<le> y - rg_last_attempt (ag_registration a)"
  using assms
proof (induction calls arbitrary: a)
  case (Cons call calls)
  obtain w r where c: "call = (w, r)" by fastforce
  show ?case
  proof (cases "registration_due (bw_mono w) retry (ag_registration a)")
    case True
    let ?b = "snd (attempt_registration w retry False r a)"
    have l: "rg_last_attempt (ag_registration ?b) = bw_mono w" by (rule attempt_last [OF True])
    have d: "of_int (max 1 retry) \<le> bw_mono w - rg_last_attempt (ag_registration a)"
      using True Cons.prems(1) by (simp add: registration_due_def split: if_splits)
    have "of_int (max 1 retry) \<le> y - rg_last_attempt (ag_registration a)" if "y \<in> set (attempts retry calls ?b)" for y
    proof -
      have "of_int (max 1 retry) \<le> y - bw_mono w" using that Cons.IH [of ?b] Cons.prems(2) by (simp add: c l)
      moreover have "(0::rat) \<le> of_int (max 1 retry)" by simp
      ultimately show ?thesis using d by linarith
    qed
    then show ?thesis using d by (simp add: c True)
  next
    case False
    then show ?thesis using Cons by (simp add: c attempt_early [OF False])
  qed
qed simp

lemma attempts_complete: "rg_complete (ag_registration a) \<Longrightarrow> attempts retry calls a = []"
proof (induction calls)
  case (Cons call calls)
  obtain w r where c: "call = (w, r)" by fastforce
  have "\<not> registration_due (bw_mono w) retry (ag_registration a)" using Cons.prems by (simp add: registration_due_def)
  then show ?case using Cons by (simp add: c attempt_early)
qed simp

text \<open>
  The portal is not flooded: in any sequence of calls of the main loop, two requests are at least the
  retry time apart, which is never below a second, and once registered no request is made.
\<close>

theorem registration_spacing:
  assumes "\<forall>(w, r)\<in>set calls. 0 < bw_mono w"
  shows "sorted_wrt (\<lambda>x y. of_int (max 1 retry) \<le> y - x) (attempts retry calls a) \<and>
    (rg_complete (ag_registration a) \<longrightarrow> attempts retry calls a = [])"
proof -
  have "sorted_wrt (\<lambda>x y. of_int (max 1 retry) \<le> y - x) (attempts retry calls a)"
    using assms
  proof (induction calls arbitrary: a)
    case (Cons call calls)
    obtain w r where c: "call = (w, r)" by fastforce
    let ?b = "snd (attempt_registration w retry False r a)"
    have rest: "sorted_wrt (\<lambda>x y. of_int (max 1 retry) \<le> y - x) (attempts retry calls ?b)"
      using Cons by simp
    show ?case
    proof (cases "registration_due (bw_mono w) retry (ag_registration a)")
      case True
      have l: "rg_last_attempt (ag_registration ?b) = bw_mono w" by (rule attempt_last [OF True])
      have "\<forall>y\<in>set (attempts retry calls ?b). of_int (max 1 retry) \<le> y - bw_mono w"
        using attempts_after [of ?b calls retry] Cons.prems by (simp add: c l)
      then show ?thesis using rest by (simp add: c True)
    next
      case False
      then show ?thesis using rest by (simp add: c)
    qed
  qed simp
  then show ?thesis using attempts_complete by blast
qed

section \<open>Examples\<close>

definition demo_bus :: nb_config where
  "demo_bus = \<lparr>nb_on = True, nb_host = ''broker'', nb_port = 1883, nb_tenant = ''default'', nb_require = False, nb_user = [],
     nb_password = [], nb_qos = 1\<rparr>"

definition demo_agent :: agent where
  "demo_agent = \<lparr>ag_heap = (\<lambda>_. demo_bus), ag_nb = 0,
     ag_sensor = \<lparr>si_id = ''edge-1'', si_site = ''plant1'', si_type = ''ot-edge-sensor'', si_hardware = [], si_version = ''1'', si_capabilities = JList []\<rparr>,
     ag_client = \<lparr>nc_cfg = 0, nc_session = Some \<lparr>se_host = ''broker'', se_port = 1883, se_user = [], se_password = []\<rparr>, nc_connected = True\<rparr>,
     ag_sent = [], ag_runtime = Absent, ag_saved = Absent, ag_settings = demo_settings, ag_channel = demo_channel,
     ag_policy_mqtt = None, ag_registration = \<lparr>rg_complete = False, rg_tenant = [], rg_last_attempt = 0, rg_last_error = None\<rparr>\<rparr>"

definition demo_bus_world :: "pyfloat \<Rightarrow> nb_world" where
  "demo_bus_world t = \<lparr>bw_now = ''2026'', bw_mono = t, bw_uuid = ''u'', bw_starts = True, bw_reachable = True,
     bw_publish = (\<lambda>_ _ _. PublishReply 0 True), bw_ioc_cache = Absent\<rparr>"

definition demo_reply :: json where
  "demo_reply = JObj [(''tenant_id'', JStr ''t1''), (''mqtt_username'', JStr ''edge-1-user''), (''mqtt_password'', JStr ''pw'')]"

theorem running_client_keeps_old_login_witness:
  "nb_user (nb_cfg (snd (attempt_registration (demo_bus_world 5) 60 True (Inr demo_reply) demo_agent))) \<noteq> []"
proof -
  have "strip (str_or_empty (jget demo_reply ''mqtt_username'')) \<notin> {[], []}" by code_simp
  then show ?thesis
    using running_client_keeps_old_login [of demo_agent "\<lparr>se_host = ''broker'', se_port = 1883, se_user = [], se_password = []\<rparr>" demo_reply
        "demo_bus_world 5" 60]
    by (simp add: demo_agent_def Let_def)
qed

theorem event_published_for_tenant_witness:
  "\<exists>body qos. ag_sent (snd (publish_security_event (demo_bus_world 5) (JObj []) demo_agent)) = [(''ot-edge/default/plant1/edge-1/events/v1'', body, qos)]"
proof -
  have p: "publish_security_event (demo_bus_world 5) (JObj []) demo_agent = (True, snd (publish_security_event (demo_bus_world 5) (JObj []) demo_agent))"
    by (simp add: prod_eq_iff publish_security_event_def tenant_unbound_def demo_agent_def demo_bus_def nb_cfg_def publish_json_def
        ensure_client_def nb_enabled_def demo_bus_world_def)
  show ?thesis using event_published_for_tenant [OF p]
    by (auto simp: nb_cfg_def demo_agent_def demo_bus_def)
qed

theorem credentials_kept_secret_witness:
  "credentials_status (snd (persist_credentials ''u'' ''p1'' [] None [] JNull Absent)) =
     credentials_status (snd (persist_credentials ''u'' ''p2'' [] None [] JNull Absent))"
proof -
  have "strip ''u'' \<noteq> []" by code_simp
  then show ?thesis using credentials_kept_secret [of "''u''"] by blast
qed

theorem registration_spacing_witness:
  "sorted_wrt (\<lambda>x y. of_int (max 1 60) \<le> y - x) (attempts 60 [(demo_bus_world 5, Inl ''x''), (demo_bus_world 70, Inr demo_reply)] demo_agent)"
  using registration_spacing [of "[(demo_bus_world 5, Inl ''x''), (demo_bus_world 70, Inr demo_reply)]" 60 demo_agent]
  by (simp add: demo_bus_world_def)

end
