(* ===== verification/Ticks.thy ===== *)
theory Ticks
  imports Northbound
begin

text \<open>
  The periodic reports of the edge agent: the observe tick of a listen or learn session
  (\<open>northbound/observe_tick_publisher.py\<close>) and the topology snapshot
  (\<open>northbound/topology_snapshot_publisher.py\<close>). Both read the operational mode, the sensor's live
  files and their own state file, and publish over the bus of theory Northbound. Two clocks run: the
  monotonic one and the text of the UTC one, read once per call.
\<close>

section \<open>What the publishers read\<close>

text \<open>\<open>overrides\<close> is None when the agent has no topology override store or it is disabled.\<close>

record tick_files =
  tf_mode :: jfile
  tf_capture :: jfile
  tf_live :: jfile
  tf_overrides :: "jfile option"

text \<open>
  \<open>float(v)\<close>. Of a text it reads here what JSON reads as a number, with an optional plus; the other
  spellings (a bare dot, underscores, inf, nan), which the sensor never writes, raise.
\<close>

definition float_text :: "string \<Rightarrow> pyfloat res" where
  "float_text s = (let t = strip s; t = (if take 1 t = ''+'' then drop 1 t else t) in
     case number t of Some (JInt i, []) \<Rightarrow> Inr (of_int i) | Some (JFloat r, []) \<Rightarrow> Inr r | _ \<Rightarrow> Inl ValueError)"

fun py_float :: "json \<Rightarrow> pyfloat res" where
  "py_float (JInt i) = Inr (of_int i)"
| "py_float (JBool b) = Inr (if b then 1 else 0)"
| "py_float (JFloat r) = Inr r"
| "py_float (JStr s) = float_text s"
| "py_float _ = Inl TypeError"

text \<open>\<open>int(v.get(k) or 0)\<close>\<close>

definition int_field :: "json \<Rightarrow> string \<Rightarrow> int res" where
  "int_field v k = py_int (py_or (jget v k) (JInt 0))"

definition lower_mode :: "json \<Rightarrow> string" where
  "lower_mode artifact = lower (strip (str_or_empty (jget artifact ''mode'')))"

definition manual_overrides :: "tick_files \<Rightarrow> json list" where
  "manual_overrides tf = (case tf_overrides tf of None \<Rightarrow> [] | Some f \<Rightarrow> build_manual_override_list (override_state f))"

text \<open>\<open>str(artifact.get("tenant_id") or self._tenant_id or "").strip()\<close>\<close>

definition tick_tenant :: "json \<Rightarrow> string \<Rightarrow> string" where
  "tick_tenant artifact own = strip (str_or_empty (py_or (jget artifact ''tenant_id'') (JStr own)))"

definition delta_json :: "int \<times> int \<times> int \<Rightarrow> json" where
  "delta_json d = (case d of (a, c, e) \<Rightarrow> JObj [(''new_assets'', JInt a), (''new_conduits'', JInt c), (''new_external'', JInt e)])"

definition counts_json :: "int \<times> int \<times> int \<Rightarrow> json" where
  "counts_json d = (case d of (a, c, e) \<Rightarrow> JObj [(''assets'', JInt a), (''conduits'', JInt c), (''external'', JInt e)])"

section \<open>Observe ticks\<close>

record tick_publisher =
  tp_enabled :: bool
  tp_interval :: int
  tp_tenant :: string
  tp_last_publish :: pyfloat
  tp_boot_at :: pyfloat
  tp_state :: jfile

definition TICK_SCHEMA :: string where
  "TICK_SCHEMA = ''sensel.baseline.observe_tick.v1''"

definition tick_publisher_new :: "bool \<Rightarrow> int \<Rightarrow> string \<Rightarrow> pyfloat \<Rightarrow> jfile \<Rightarrow> tick_publisher" where
  "tick_publisher_new enabled interval tenant now state = \<lparr>tp_enabled = enabled, tp_interval = max 10 interval,
     tp_tenant = tenant, tp_last_publish = 0, tp_boot_at = now, tp_state = state\<rparr>"

definition tick_kind :: "string \<Rightarrow> string option" where
  "tick_kind mode = (if mode = ''listen'' then Some ''observe'' else if mode = ''learning'' then Some ''learn'' else None)"

definition boot_id :: "pyfloat \<Rightarrow> string" where
  "boot_id boot_at = dec_int (trunc_rat boot_at)"

fun top_comm_pairs :: "nat \<Rightarrow> json list \<Rightarrow> json list res" where
  "top_comm_pairs limit [] = Inr []"
| "top_comm_pairs limit (row # rows) =
     (let ip = strip (str_or_empty (jget row ''ip'')) in
      if \<not> is_obj row \<or> ip = [] then top_comm_pairs limit rows
      else bind_res (int_field row ''count'') (\<lambda>n.
        let pair = JObj [(''ip'', JStr ip), (''count'', JInt n)] in
        if limit \<le> 1 then Inr [pair] else bind_res (top_comm_pairs (limit - 1) rows) (\<lambda>more. Inr (pair # more))))"

definition capture_interface_of :: "json \<Rightarrow> json \<Rightarrow> string res" where
  "capture_interface_of live artifact =
     (if truthy (jget live ''capture_interface'') then Inr (py_str (jget live ''capture_interface''))
      else bind_res (jget_res (py_or (jget artifact ''capture'') (JObj [])) ''interface'') (\<lambda>i. Inr (str_or_empty i)))"

definition tick_stats :: "json \<Rightarrow> json \<Rightarrow> json res" where
  "tick_stats live artifact =
     bind_res (int_field live ''total_packets'') (\<lambda>packets. bind_res (int_field live ''unique_ips'') (\<lambda>ips.
     bind_res (int_field live ''unique_macs'') (\<lambda>macs. bind_res (int_field live ''goose_messages'') (\<lambda>goose.
     bind_res (py_float (py_or (jget live ''instant_rate'') (JInt 0))) (\<lambda>rate.
     bind_res (capture_interface_of live artifact) (\<lambda>iface. Inr (JObj
       [(''packets'', JInt packets), (''unique_ips'', JInt ips), (''unique_macs'', JInt macs), (''goose_publishers'', JInt goose),
        (''instant_rate'', JFloat rate), (''capture_interface'', JStr iface)])))))))"

definition continuity :: "tick_publisher \<Rightarrow> json \<Rightarrow> string \<Rightarrow> string" where
  "continuity p state session =
     (if jget state ''session_id'' \<noteq> JStr session then ''reset''
      else if jget state ''agent_boot_id'' \<noteq> JStr (boot_id (tp_boot_at p)) then ''reset'' else ''ok'')"

text \<open>The part of a tick that depends on the kind of session, and the growth it reports.\<close>

definition tick_extra :: "string \<Rightarrow> tick_files \<Rightarrow> json \<Rightarrow> ((string \<times> json) list \<times> bool) res" where
  "tick_extra kind tf state =
     (if kind = ''learn'' then
        (let observed = read_object (tf_live tf) in
         Inr (if truthy observed then [(''snapshot'',
             case tf_overrides tf of Some f \<Rightarrow> if manual_overrides tf \<noteq> [] then merge_manual_overrides observed (override_state f) else observed
              | None \<Rightarrow> observed)] else [], False))
      else bind_res (compute_topology_delta (tf_live tf) (jget state ''topology_counts'')) (\<lambda>delta.
        Inr (case delta of None \<Rightarrow> ([], False) | Some d \<Rightarrow> ([(''topology_delta'', delta_json d)], True))))"

definition build_tick :: "agent \<Rightarrow> tick_publisher \<Rightarrow> string \<Rightarrow> tick_files \<Rightarrow> json \<Rightarrow> string \<Rightarrow> string \<Rightarrow> int \<Rightarrow>
    (json \<times> bool) res" where
  "build_tick a p now tf artifact session kind minute =
     (let live = read_object (tf_capture tf); state = read_object (tp_state p); manual = manual_overrides tf in
      bind_res (tick_stats live artifact) (\<lambda>stats.
      bind_res (bind_res (py_list (py_or (jget live ''top_ips'') (JList []))) (top_comm_pairs 8)) (\<lambda>pairs.
      bind_res (tick_extra kind tf state) (\<lambda>(extra, grew). Inr (JObj
        ([(''schema'', JStr TICK_SCHEMA), (''schema_version'', JStr TICK_SCHEMA),
          (''tenant_id'', JStr (tick_tenant artifact (tp_tenant p))), (''site_id'', JStr (si_site (ag_sensor a))),
          (''sensor_id'', JStr (si_id (ag_sensor a))), (''session_id'', JStr session), (''session_kind'', JStr kind),
          (''minute_index'', JInt minute), (''continuity'', JStr (continuity p state session)), (''observed_at'', JStr now),
          (''stats'', stats), (''top_comm_pairs'', JList pairs)] @
         (if manual = [] then [] else [(''topology_manual_overrides'', JList manual)]) @ extra), grew)))))"

definition tick_state :: "tick_publisher \<Rightarrow> string \<Rightarrow> tick_files \<Rightarrow> string \<Rightarrow> int \<Rightarrow> bool \<Rightarrow> json res" where
  "tick_state p now tf session minute grew =
     (let base = [(''session_id'', JStr session), (''minute_index'', JInt minute), (''agent_boot_id'', JStr (boot_id (tp_boot_at p))),
                  (''last_publish_at'', JStr now)] in
      if grew then bind_res (read_topology_counts (tf_live tf)) (\<lambda>c. Inr (JObj (base @ [(''topology_counts'', counts_json c)])))
      else Inr (JObj base))"

definition maybe_publish_tick :: "nb_world \<Rightarrow> bool \<Rightarrow> tick_files \<Rightarrow> agent \<times> tick_publisher \<Rightarrow>
    bool res \<times> agent \<times> tick_publisher" where
  "maybe_publish_tick w force tf = (\<lambda>(a, p).
     (let artifact = read_object (tf_mode tf); session = strip (str_or_empty (jget artifact ''session_id'')) in
      if \<not> (tp_enabled p \<and> nb_enabled a) then (Inr False, a, p)
      else if \<not> force \<and> bw_mono w - tp_last_publish p < of_int (tp_interval p) then (Inr False, a, p)
      else case tick_kind (lower_mode artifact) of None \<Rightarrow> (Inr False, a, p)
      | Some kind \<Rightarrow>
        if session = [] then (Inr False, a, p)
        else case int_field (read_object (tp_state p)) ''minute_index'' of Inl e \<Rightarrow> (Inl e, a, p)
        | Inr n \<Rightarrow> (case build_tick a p (bw_now w) tf artifact session kind (n + 1) of Inl e \<Rightarrow> (Inl e, a, p)
          | Inr (tick, grew) \<Rightarrow> (case publish_observe_tick w tick a of
              (False, a) \<Rightarrow> (Inr False, a, p)
            | (True, a) \<Rightarrow> (let p = p\<lparr>tp_last_publish := bw_mono w\<rparr> in
                case tick_state p (bw_now w) tf session (n + 1) grew of Inl e \<Rightarrow> (Inl e, a, p)
                | Inr state \<Rightarrow> (Inr True, a, p\<lparr>tp_state := Doc state\<rparr>))))))"

section \<open>Topology snapshots\<close>

record topo_publisher =
  op_enabled :: bool
  op_interval :: int
  op_detect_interval :: int
  op_tenant :: string
  op_last_publish :: pyfloat
  op_last_detect :: pyfloat
  op_state :: jfile

definition SNAPSHOT_SCHEMA :: string where
  "SNAPSHOT_SCHEMA = ''sensel.ot_topology.snapshot.v1''"

definition topo_publisher_new :: "bool \<Rightarrow> int \<Rightarrow> int \<Rightarrow> string \<Rightarrow> jfile \<Rightarrow> topo_publisher" where
  "topo_publisher_new enabled interval detect tenant state = \<lparr>op_enabled = enabled, op_interval = max 30 interval,
     op_detect_interval = max 60 detect, op_tenant = tenant, op_last_publish = 0, op_last_detect = 0, op_state = state\<rparr>"

definition OVERRIDE_FIELDS :: "string list" where
  "OVERRIDE_FIELDS = [''purdue_level'', ''asset_type'', ''zone'', ''criticality'', ''hostname'', ''vendor'', ''model'']"

definition overridden_asset :: "json \<Rightarrow> (string \<times> json) list \<Rightarrow> (string \<times> json) list res" where
  "overridden_asset patch asset =
     (let asset = fold (\<lambda>k d. let v = jget patch k; t = strip (py_str v) in
            if v = JNull \<or> t = [] then d else dict_put k (JStr t) d) OVERRIDE_FIELDS asset;
          asset = dict_put ''manual_override'' (JBool True) asset in
      bind_res (py_list (py_or (jget (JObj asset) ''evidence_sources'') (JList []))) (\<lambda>ev.
        Inr (dict_put ''evidence_sources'' (JList (if JStr ''manual_tag'' \<in> set ev then ev else ev @ [JStr ''manual_tag''])) asset)))"

text \<open>The index of the last asset with the id, as the dict comprehension leaves it.\<close>

definition asset_index :: "json list \<Rightarrow> string \<Rightarrow> nat option" where
  "asset_index assets aid = (let is = filter (\<lambda>i. truthy (jget (assets ! i) ''asset_id'') \<and> py_str (jget (assets ! i) ''asset_id'') = aid)
       [0..<length assets] in if is = [] then None else Some (last is))"

fun apply_overrides :: "json list \<Rightarrow> json list \<Rightarrow> json list \<Rightarrow> json list res" where
  "apply_overrides ids [] assets = Inr assets"
| "apply_overrides ids (raw # raws) assets =
     (let aid = strip (str_or_empty (jget raw ''asset_id'')); patch = (if is_obj (jget raw ''patch'') then jget raw ''patch'' else raw) in
      if \<not> is_obj raw \<or> aid = [] then apply_overrides ids raws assets
      else case asset_index ids aid of None \<Rightarrow> apply_overrides ids raws assets
      | Some i \<Rightarrow> bind_res (overridden_asset patch (obj_items (assets ! i))) (\<lambda>asset.
          apply_overrides ids raws (assets[i := JObj asset])))"

definition apply_manual_overrides :: "json \<Rightarrow> json list \<Rightarrow> json res" where
  "apply_manual_overrides snapshot overrides =
     (if overrides = [] then Inr snapshot
      else bind_res (py_list (py_or (jget snapshot ''assets'') (JList []))) (\<lambda>xs.
        let assets = filter is_obj xs in
        if assets = [] then Inr snapshot
        else bind_res (apply_overrides assets overrides assets) (\<lambda>out.
          Inr (JObj (dict_put ''assets'' (JList out) (obj_items snapshot))))))"

definition none_if_empty :: "string \<Rightarrow> json" where
  "none_if_empty s = (if s = [] then JNull else JStr s)"

definition snapshot_head :: "agent \<Rightarrow> string \<Rightarrow> json \<Rightarrow> string \<Rightarrow> string \<Rightarrow> (string \<times> json) list" where
  "snapshot_head a own artifact now mode =
     [(''schema'', JStr SNAPSHOT_SCHEMA), (''tenant_id'', JStr (tick_tenant artifact own)), (''site_id'', JStr (si_site (ag_sensor a))),
      (''sensor_id'', JStr (si_id (ag_sensor a))), (''observed_at'', JStr now), (''operational_mode'', JStr mode),
      (''baseline_profile_id'', none_if_empty (strip (str_or_empty (jget artifact ''baseline_profile_id''))))]"

definition learning_payload :: "agent \<Rightarrow> string \<Rightarrow> json \<Rightarrow> string \<Rightarrow> json \<Rightarrow> json" where
  "learning_payload a own artifact now topology = JObj (snapshot_head a own artifact now ''learning'' @
     [(''snapshot'', JObj (dict_update (obj_items topology)
        [(''schema'', py_or (jget topology ''schema'') (JStr SNAPSHOT_SCHEMA)), (''tenant_id'', JStr (tick_tenant artifact own)),
         (''site_id'', JStr (si_site (ag_sensor a))), (''sensor_id'', JStr (si_id (ag_sensor a)))]))])"

definition count_fields :: "int \<times> int \<times> int \<Rightarrow> (string \<times> json) list" where
  "count_fields d = (case d of (a, c, e) \<Rightarrow> [(''asset_count'', JInt a), (''conduit_count'', JInt c), (''external_count'', JInt e)])"

definition publish_learning_snapshot :: "nb_world \<Rightarrow> tick_files \<Rightarrow> json \<Rightarrow> agent \<times> topo_publisher \<Rightarrow>
    bool res \<times> agent \<times> topo_publisher" where
  "publish_learning_snapshot w tf artifact = (\<lambda>(a, p).
     (let topology = obj_field (obj_field (read_object (tf_live tf)) ''observed'') ''topology'' in
      if \<not> truthy (jget topology ''assets'') then (Inr False, a, p)
      else case apply_manual_overrides topology (manual_overrides tf) of Inl e \<Rightarrow> (Inl e, a, p)
      | Inr topology \<Rightarrow> (case publish_topology_snapshot w (learning_payload a (op_tenant p) artifact (bw_now w) topology) a of
          (False, a) \<Rightarrow> (Inr False, a, p)
        | (True, a) \<Rightarrow> (let p = p\<lparr>op_last_publish := bw_mono w\<rparr> in
            case read_topology_counts (tf_live tf) of Inl e \<Rightarrow> (Inl e, a, p)
            | Inr c \<Rightarrow> (Inr True, a, p\<lparr>op_state := Doc (JObj
                ([(''last_publish_at'', JStr (bw_now w)), (''last_full_publish_at'', JStr (bw_now w))] @ count_fields c @
                 [(''operational_mode'', JStr ''learning''), (''topology_counts'', counts_json c)]))\<rparr>)))))"

definition publish_detect_delta :: "nb_world \<Rightarrow> tick_files \<Rightarrow> json \<Rightarrow> agent \<times> topo_publisher \<Rightarrow>
    bool res \<times> agent \<times> topo_publisher" where
  "publish_detect_delta w tf artifact = (\<lambda>(a, p).
     (let state = read_object (op_state p) in
      case compute_topology_delta (tf_live tf) (jget state ''topology_counts'') of
        Inl e \<Rightarrow> (Inl e, a, p) | Inr None \<Rightarrow> (Inr False, a, p)
      | Inr (Some delta) \<Rightarrow> (case publish_topology_snapshot w (JObj (snapshot_head a (op_tenant p) artifact (bw_now w) ''detect'' @
              [(''topology_delta'', delta_json delta)])) a of
          (False, a) \<Rightarrow> (Inr False, a, p)
        | (True, a) \<Rightarrow> (let p = p\<lparr>op_last_detect := bw_mono w\<rparr> in
            case read_topology_counts (tf_live tf) of Inl e \<Rightarrow> (Inl e, a, p)
            | Inr c \<Rightarrow> (Inr True, a, p\<lparr>op_state := Doc (JObj (dict_update (obj_items state)
                ([(''last_publish_at'', JStr (bw_now w)), (''last_delta_publish_at'', JStr (bw_now w))] @ count_fields c @
                 [(''operational_mode'', JStr ''detect''), (''topology_counts'', counts_json c),
                  (''last_topology_delta'', delta_json delta)])))\<rparr>)))))"

definition maybe_publish_topology :: "nb_world \<Rightarrow> bool \<Rightarrow> tick_files \<Rightarrow> agent \<times> topo_publisher \<Rightarrow>
    bool res \<times> agent \<times> topo_publisher" where
  "maybe_publish_topology w force tf = (\<lambda>(a, p).
     (let artifact = read_object (tf_mode tf); mode = lower_mode artifact in
      if \<not> (op_enabled p \<and> nb_enabled a) then (Inr False, a, p)
      else if mode \<notin> {''learning'', ''detect''} then (Inr False, a, p)
      else if mode = ''detect'' then
        (if \<not> force \<and> bw_mono w - op_last_detect p < of_int (op_detect_interval p) then (Inr False, a, p)
         else publish_detect_delta w tf artifact (a, p))
      else if \<not> force \<and> bw_mono w - op_last_publish p < of_int (op_interval p) then (Inr False, a, p)
      else publish_learning_snapshot w tf artifact (a, p)))"

section \<open>Lemmas\<close>

text \<open>The payload of the last message handed to the bus.\<close>

definition last_payload :: "agent \<Rightarrow> json" where
  "last_payload a = jget (fst (snd (last (ag_sent a)))) ''payload''"

lemma publish_json_sent:
  assumes "publish_json w topic body qos a = (True, a')"
  obtains q where "ag_sent a' = ag_sent a @ [(topic, body, q)]"
  by (cases rule: publish_json_cases [of w topic body qos a]) (use assms that in auto)

lemma envelope_payload [simp]: "jget (envelope w a kind payload t) ''payload'' = payload"
  by (simp add: envelope_def)

lemma observe_tick_sent: "publish_observe_tick w tick a = (True, a') \<Longrightarrow> last_payload a' = tick"
  by (auto simp: publish_observe_tick_def last_payload_def split: if_splits elim!: publish_json_sent)

lemma topology_snapshot_sent: "publish_topology_snapshot w payload a = (True, a') \<Longrightarrow> last_payload a' = payload"
  by (auto simp: publish_topology_snapshot_def last_payload_def split: if_splits elim!: publish_json_sent)

lemma tick_fields:
  assumes "build_tick a p now tf artifact session kind minute = Inr (tick, grew)"
  shows "jget tick ''minute_index'' = JInt minute" and "jget tick ''session_id'' = JStr session"
    and "jget tick ''continuity'' = JStr (continuity p (read_object (tp_state p)) session)"
  using assms by (auto simp: build_tick_def Let_def bind_res_eq_Inr)

lemma tick_state_fields:
  assumes "tick_state p now tf session minute grew = Inr state"
  shows "jget state ''minute_index'' = JInt minute" and "jget state ''session_id'' = JStr session"
    and "jget state ''agent_boot_id'' = JStr (boot_id (tp_boot_at p))" and "is_obj state"
  using assms by (auto simp: tick_state_def Let_def bind_res_eq_Inr split: if_splits)

text \<open>What a published tick was made of.\<close>

lemma tick_published:
  assumes "maybe_publish_tick w force tf (a, p) = (Inr True, a', p')"
  obtains n kind grew state where
    "force \<or> of_int (tp_interval p) \<le> bw_mono w - tp_last_publish p"
    "int_field (read_object (tp_state p)) ''minute_index'' = Inr n"
    "build_tick a p (bw_now w) tf (read_object (tf_mode tf)) (strip (str_or_empty (jget (read_object (tf_mode tf)) ''session_id''))) kind (n + 1)
       = Inr (last_payload a', grew)"
    "tick_state p (bw_now w) tf (strip (str_or_empty (jget (read_object (tf_mode tf)) ''session_id''))) (n + 1) grew = Inr state"
    "p' = p\<lparr>tp_last_publish := bw_mono w, tp_state := Doc state\<rparr>"
proof -
  define session where "session = strip (str_or_empty (jget (read_object (tf_mode tf)) ''session_id''))"
  have k: "tp_enabled p \<and> nb_enabled a" "force \<or> \<not> bw_mono w - tp_last_publish p < of_int (tp_interval p)"
    using assms by (auto simp: maybe_publish_tick_def Let_def split: if_splits)
  obtain kind where kind: "tick_kind (lower_mode (read_object (tf_mode tf))) = Some kind"
    using assms k by (auto simp: maybe_publish_tick_def Let_def split: if_splits option.splits)
  have s: "session \<noteq> []" using assms k kind by (auto simp: maybe_publish_tick_def Let_def session_def split: if_splits)
  obtain n where n: "int_field (read_object (tp_state p)) ''minute_index'' = Inr n"
    using assms k kind s by (auto simp: maybe_publish_tick_def Let_def session_def [symmetric] split: if_splits sum.splits)
  obtain tick grew where t: "build_tick a p (bw_now w) tf (read_object (tf_mode tf)) session kind (n + 1) = Inr (tick, grew)"
    using assms k kind s n by (auto simp: maybe_publish_tick_def Let_def session_def [symmetric] split: if_splits sum.splits)
  obtain b where b: "publish_observe_tick w tick a = (True, b)"
    using assms k kind s n t by (auto simp: maybe_publish_tick_def Let_def session_def [symmetric] split: if_splits prod.splits bool.splits)
  obtain state where st: "tick_state (p\<lparr>tp_last_publish := bw_mono w\<rparr>) (bw_now w) tf session (n + 1) grew = Inr state"
    using assms k kind s n t b by (auto simp: maybe_publish_tick_def Let_def session_def [symmetric] split: if_splits sum.splits)
  have "b = a'" "p' = p\<lparr>tp_last_publish := bw_mono w, tp_state := Doc state\<rparr>"
    using assms k kind s n t b st by (auto simp: maybe_publish_tick_def Let_def session_def [symmetric] split: if_splits)
  moreover have "tick_state p (bw_now w) tf session (n + 1) grew = Inr state" using st by (simp add: tick_state_def)
  ultimately show thesis
    using that [of n kind grew state] k(2) n t b observe_tick_sent [OF b] by (simp add: session_def not_less)
qed

section \<open>Properties\<close>

text \<open>
  Ticks are numbered without gaps: of two ticks published one after the other, whatever the files and
  the bus did between, the second has the next minute index, its continuity is ok exactly when the
  session is the same, and without force they are at least the interval, ten seconds or more, apart.
\<close>

theorem ticks_numbered:
  assumes "maybe_publish_tick w1 force1 tf1 (a1, p1) = (Inr True, a1', p2)"
    and "maybe_publish_tick w2 force2 tf2 (a2, p2) = (Inr True, a2', p3)"
  shows "\<exists>m s. jget (last_payload a1') ''minute_index'' = JInt m \<and> jget (last_payload a2') ''minute_index'' = JInt (m + 1) \<and>
     jget (last_payload a2') ''session_id'' = JStr s \<and>
     jget (last_payload a2') ''continuity'' = JStr (if jget (last_payload a1') ''session_id'' = JStr s then ''ok'' else ''reset'') \<and>
     (force2 \<or> of_int (tp_interval p1) \<le> bw_mono w2 - bw_mono w1)"
proof -
  define s1 where "s1 = strip (str_or_empty (jget (read_object (tf_mode tf1)) ''session_id''))"
  define s2 where "s2 = strip (str_or_empty (jget (read_object (tf_mode tf2)) ''session_id''))"
  obtain n kind grew state where 1:
    "build_tick a1 p1 (bw_now w1) tf1 (read_object (tf_mode tf1)) s1 kind (n + 1) = Inr (last_payload a1', grew)"
    "tick_state p1 (bw_now w1) tf1 s1 (n + 1) grew = Inr state"
    "p2 = p1\<lparr>tp_last_publish := bw_mono w1, tp_state := Doc state\<rparr>"
    by (rule tick_published [OF assms(1)]) (simp add: s1_def)
  have r: "read_object (tp_state p2) = state" using tick_state_fields(4) [OF 1(2)] by (simp add: 1(3) obj_or_empty_def)
  note st = tick_state_fields(1-3) [OF 1(2)] obj_or_empty_def tick_state_fields(4) [OF 1(2)]
  obtain m kind' grew' where 2: "force2 \<or> of_int (tp_interval p2) \<le> bw_mono w2 - tp_last_publish p2"
    "int_field (read_object (tp_state p2)) ''minute_index'' = Inr m"
    "build_tick a2 p2 (bw_now w2) tf2 (read_object (tf_mode tf2)) s2 kind' (m + 1) = Inr (last_payload a2', grew')"
    by (rule tick_published [OF assms(2)]) (simp add: s2_def)
  have m: "m = n + 1"
    using 2(2) by (cases "n + 1 = 0") (simp_all add: r int_field_def st py_or_def)
  have c: "continuity p2 (read_object (tp_state p2)) s2 = (if s1 = s2 then ''ok'' else ''reset'')"
    using 1(3) by (simp add: continuity_def r st)
  show ?thesis
    using tick_fields [OF 1(1)] tick_fields [OF 2(3)] 2(1) c m 1(3)
    by (intro exI [of _ "n + 1"] exI [of _ s2]) auto
qed

lemma count_positive: "topology_count topo k = Inr n \<Longrightarrow> 0 \<le> n"
  by (auto simp: topology_count_def py_len_def bind_res_eq_Inr)

text \<open>Against the counts of an earlier snapshot the delta is the growth since.\<close>

lemma delta_since:
  assumes "compute_topology_delta f (counts_json (x, y, z)) = Inr (Some delta)" and "read_topology_counts f = Inr (x', y', z')"
  shows "delta = (max 0 (x' - x), max 0 (y' - y), max 0 (z' - z))"
proof -
  have "grown (obj_or_empty (counts_json (x, y, z))) ''assets'' n = Inr (max 0 (n - x))"
    "grown (obj_or_empty (counts_json (x, y, z))) ''conduits'' n = Inr (max 0 (n - y))"
    "grown (obj_or_empty (counts_json (x, y, z))) ''external'' n = Inr (max 0 (n - z))" for n
    by (simp_all add: grown_def counts_json_def obj_or_empty_def py_or_def)
  then show ?thesis using assms by (auto simp: compute_topology_delta_def split: if_splits)
qed

definition snapshot_counts :: "topo_publisher \<Rightarrow> json" where
  "snapshot_counts p = jget (read_object (op_state p)) ''topology_counts''"

lemma detect_published:
  assumes "publish_detect_delta w tf artifact (a, p) = (Inr True, a', p')"
  obtains delta c where "compute_topology_delta (tf_live tf) (snapshot_counts p) = Inr (Some delta)"
    "jget (last_payload a') ''topology_delta'' = delta_json delta"
    "read_topology_counts (tf_live tf) = Inr c" "snapshot_counts p' = counts_json c"
proof -
  obtain delta where d: "compute_topology_delta (tf_live tf) (jget (read_object (op_state p)) ''topology_counts'') = Inr (Some delta)"
    using assms by (auto simp: publish_detect_delta_def Let_def split: sum.splits option.splits)
  define payload where "payload = JObj (snapshot_head a (op_tenant p) artifact (bw_now w) ''detect'' @ [(''topology_delta'', delta_json delta)])"
  obtain b where b: "publish_topology_snapshot w payload a = (True, b)"
    using assms d by (auto simp: publish_detect_delta_def Let_def payload_def split: prod.splits bool.splits)
  obtain c where c: "read_topology_counts (tf_live tf) = Inr c"
    using assms d b by (auto simp: publish_detect_delta_def Let_def payload_def [symmetric] split: sum.splits)
  have a': "a' = b" using assms d b c by (simp add: publish_detect_delta_def Let_def payload_def [symmetric])
  obtain x where "op_state p' = Doc (JObj (dict_update x
      ([(''last_publish_at'', JStr (bw_now w)), (''last_delta_publish_at'', JStr (bw_now w))] @ count_fields c @
       [(''operational_mode'', JStr ''detect''), (''topology_counts'', counts_json c), (''last_topology_delta'', delta_json delta)])))"
    using assms d b c by (auto simp: publish_detect_delta_def Let_def payload_def [symmetric])
  then have "snapshot_counts p' = counts_json c"
    by (simp add: snapshot_counts_def obj_or_empty_def jget_def dict_get_update count_fields_def split: prod.split)
  moreover have "jget (last_payload a') ''topology_delta'' = delta_json delta"
    using topology_snapshot_sent [OF b] by (simp add: a' payload_def snapshot_head_def)
  ultimately show thesis using that d c by (simp add: snapshot_counts_def)
qed

lemma learning_published:
  assumes "publish_learning_snapshot w tf artifact (a, p) = (Inr True, a', p')"
  obtains c where "read_topology_counts (tf_live tf) = Inr c" "snapshot_counts p' = counts_json c"
proof -
  define topology where "topology = obj_field (obj_field (read_object (tf_live tf)) ''observed'') ''topology''"
  have t: "truthy (jget topology ''assets'')"
    using assms by (auto simp: publish_learning_snapshot_def Let_def topology_def split: if_splits)
  obtain out where o: "apply_manual_overrides topology (manual_overrides tf) = Inr out"
    using assms t by (auto simp: publish_learning_snapshot_def Let_def topology_def [symmetric] split: sum.splits)
  obtain b where b: "publish_topology_snapshot w (learning_payload a (op_tenant p) artifact (bw_now w) out) a = (True, b)"
    using assms t o by (auto simp: publish_learning_snapshot_def Let_def topology_def [symmetric] split: prod.splits bool.splits)
  obtain c where c: "read_topology_counts (tf_live tf) = Inr c"
    using assms t o b by (auto simp: publish_learning_snapshot_def Let_def topology_def [symmetric] split: sum.splits)
  have "p' = p\<lparr>op_last_publish := bw_mono w, op_state := Doc (JObj
                ([(''last_publish_at'', JStr (bw_now w)), (''last_full_publish_at'', JStr (bw_now w))] @ count_fields c @
                 [(''operational_mode'', JStr ''learning''), (''topology_counts'', counts_json c)]))\<rparr>"
    using assms t o b c by (simp add: publish_learning_snapshot_def Let_def topology_def [symmetric])
  then have "snapshot_counts p' = counts_json c"
    by (simp add: snapshot_counts_def obj_or_empty_def count_fields_def split: prod.split)
  then show thesis using that c by blast
qed

lemma topology_published:
  assumes "maybe_publish_topology w force tf (a, p) = (Inr True, a', p')"
  obtains (detect) "lower_mode (read_object (tf_mode tf)) = ''detect''"
      "publish_detect_delta w tf (read_object (tf_mode tf)) (a, p) = (Inr True, a', p')"
  | (learning) "lower_mode (read_object (tf_mode tf)) = ''learning''"
      "publish_learning_snapshot w tf (read_object (tf_mode tf)) (a, p) = (Inr True, a', p')"
  using assms by (auto simp: maybe_publish_topology_def Let_def split: if_splits)

text \<open>
  What a detect report says has grown: after a published snapshot or delta, the next delta published
  in detect mode is the growth of the sensor's assets, conduits and external entities since that one.
\<close>

theorem detect_reports_growth:
  assumes "maybe_publish_topology w1 force1 tf1 (a1, p1) = (Inr True, a1', p2)"
    and "maybe_publish_topology w2 force2 tf2 (a2, p2) = (Inr True, a2', p3)"
    and "lower_mode (read_object (tf_mode tf2)) = ''detect''"
  shows "\<exists>x y z x' y' z'. read_topology_counts (tf_live tf1) = Inr (x, y, z) \<and> read_topology_counts (tf_live tf2) = Inr (x', y', z') \<and>
     jget (last_payload a2') ''topology_delta'' = delta_json (max 0 (x' - x), max 0 (y' - y), max 0 (z' - z))"
proof -
  obtain c where c: "read_topology_counts (tf_live tf1) = Inr c" "snapshot_counts p2 = counts_json c"
    using assms(1) by (cases rule: topology_published) (auto elim: detect_published learning_published)
  have "publish_detect_delta w2 tf2 (read_object (tf_mode tf2)) (a2, p2) = (Inr True, a2', p3)"
    using assms(2,3) by (cases rule: topology_published) auto
  then obtain delta d where d: "compute_topology_delta (tf_live tf2) (snapshot_counts p2) = Inr (Some delta)"
    "jget (last_payload a2') ''topology_delta'' = delta_json delta" "read_topology_counts (tf_live tf2) = Inr d"
    by (rule detect_published)
  obtain x y z x' y' z' where xyz: "c = (x, y, z)" "d = (x', y', z')" by (cases c, cases d) auto
  have "delta = (max 0 (x' - x), max 0 (y' - y), max 0 (z' - z))"
    using delta_since [of "tf_live tf2" x y z delta x' y' z'] d c(2) xyz by simp
  then show ?thesis using c(1) d(2,3) xyz by blast
qed

section \<open>Examples\<close>

definition demo_tick_files :: "string \<Rightarrow> json \<Rightarrow> tick_files" where
  "demo_tick_files mode assets = \<lparr>tf_mode = Doc (JObj [(''mode'', JStr mode), (''session_id'', JStr ''s1'')]), tf_capture = Absent,
     tf_live = Doc (JObj [(''observed'', JObj [(''topology'', JObj [(''assets'', assets)])])]), tf_overrides = None\<rparr>"

definition demo_tick :: "agent \<times> tick_publisher \<Rightarrow> bool res \<times> agent \<times> tick_publisher" where
  "demo_tick = maybe_publish_tick (demo_bus_world 100) True (demo_tick_files ''listen'' (JList []))"

definition demo_topology :: "string \<Rightarrow> json \<Rightarrow> agent \<times> topo_publisher \<Rightarrow> bool res \<times> agent \<times> topo_publisher" where
  "demo_topology mode assets = maybe_publish_topology (demo_bus_world 100) True (demo_tick_files mode assets)"

lemma published_pair: "fst r = Inr True \<Longrightarrow> r = (Inr True, fst (snd r), snd (snd r))"
  by (simp add: prod_eq_iff)

definition published_true :: "bool res \<times> 'a \<Rightarrow> bool" where
  "published_true r = (case fst r of Inr b \<Rightarrow> b | Inl _ \<Rightarrow> False)"

lemma published_triple: "published_true r \<Longrightarrow> \<exists>a p. r = (Inr True, a, p)"
  by (cases r) (auto simp: published_true_def split: sum.splits)

theorem ticks_numbered_witness:
  "\<exists>a m. jget (last_payload a) ''minute_index'' = JInt m"
proof -
  let ?p = "tick_publisher_new True 60 [] 7 Absent"
  have f: "published_true (demo_tick (demo_agent, ?p)) \<and> published_true (demo_tick (snd (demo_tick (demo_agent, ?p))))" by code_simp
  then obtain a1 p2 where r: "demo_tick (demo_agent, ?p) = (Inr True, a1, p2)" using published_triple by blast
  then have "published_true (demo_tick (a1, p2))" using f by simp
  then obtain a2 p3 where "demo_tick (a1, p2) = (Inr True, a2, p3)" using published_triple by blast
  from ticks_numbered [OF r [unfolded demo_tick_def] this [unfolded demo_tick_def]] show ?thesis by blast
qed

theorem detect_reports_growth_witness:
  "\<exists>a. jget (last_payload a) ''topology_delta'' = delta_json (1, 0, 0)"
proof -
  let ?p = "topo_publisher_new True 60 60 [] Absent"
  let ?one = "JList [JObj [(''asset_id'', JStr ''a'')]]"
  let ?two = "JList [JObj [(''asset_id'', JStr ''a'')], JObj [(''asset_id'', JStr ''b'')]]"
  have f: "published_true (demo_topology ''learning'' ?one (demo_agent, ?p)) \<and>
      published_true (demo_topology ''detect'' ?two (snd (demo_topology ''learning'' ?one (demo_agent, ?p))))" by code_simp
  then obtain a1 p2 where r: "demo_topology ''learning'' ?one (demo_agent, ?p) = (Inr True, a1, p2)" using published_triple by blast
  then have "published_true (demo_topology ''detect'' ?two (a1, p2))" using f by simp
  then obtain a2 p3 where s: "demo_topology ''detect'' ?two (a1, p2) = (Inr True, a2, p3)" using published_triple by blast
  have m: "lower_mode (read_object (tf_mode (demo_tick_files ''detect'' ?two))) = ''detect''" by code_simp
  have "read_topology_counts (tf_live (demo_tick_files ''learning'' ?one)) = Inr (1, 0, 0)"
    "read_topology_counts (tf_live (demo_tick_files ''detect'' ?two)) = Inr (2, 0, 0)"
    by (simp_all add: demo_tick_files_def read_topology_counts_def topology_count_def py_len_def py_or_def obj_or_empty_def)
  then show ?thesis
    using detect_reports_growth [OF r [unfolded demo_topology_def] s [unfolded demo_topology_def] m] by auto
qed

end
