(* ===== verification/Tail.thy ===== *)
theory Tail
  imports PyValue
begin

text \<open>
  Following a file that another process appends to, as the engine bridges of the packet sensor
  and the event uploader of the edge agent do: read everything behind a byte offset, take the
  complete lines, advance the offset. The contract is the locale \<open>line_tail\<close>: over a growing
  file of LF-terminated lines every line is delivered exactly once, in order, whatever partial
  lines the polls see.
\<close>

section \<open>Bytes and lines\<close>

text \<open>\<open>data[offset:]\<close>; a negative offset counts from the end.\<close>

definition slice_from :: "int \<Rightarrow> bytes \<Rightarrow> bytes" where
  "slice_from off data = (if off < 0 then drop (nat (int (length data) + off)) data else drop (nat off) data)"

text \<open>
  \<open>bytes.splitlines()\<close>: lines end at LF, CR or CR LF; \<open>acc\<close> is the line read so far, \<open>cr\<close>
  that the byte before was a CR.
\<close>

fun split_lines :: "bytes \<Rightarrow> bytes \<Rightarrow> bool \<Rightarrow> bytes list" where
  "split_lines [] acc cr = (if acc = [] then [] else [acc])"
| "split_lines (b # bs) acc cr =
     (if b = 10 \<and> cr then split_lines bs [] False
      else if b = 10 then acc # split_lines bs [] False
      else if b = 13 then acc # split_lines bs [] True
      else split_lines bs (acc @ [b]) False)"

definition splitlines :: "bytes \<Rightarrow> bytes list" where
  "splitlines data = split_lines data [] False"

definition ends_with_newline :: "bytes \<Rightarrow> bool" where
  "ends_with_newline data = (data \<noteq> [] \<and> last data = 10)"

text \<open>\<open>lines if data.endswith(b"\\n") else lines[:-1]\<close>, and the bytes they are counted for.\<close>

definition complete_lines :: "bytes \<Rightarrow> bytes \<Rightarrow> bytes list" where
  "complete_lines data chunk = (if ends_with_newline data then splitlines chunk else butlast (splitlines chunk))"

definition consumed :: "bytes list \<Rightarrow> int" where
  "consumed ls = sum_list (map (\<lambda>l. int (length l) + 1) ls)"

text \<open>What decoding, stripping and \<open>json.loads\<close> make of a line.\<close>

datatype line_text = Blank | NotJson | Value json

text \<open>The offset file: \<open>int(text.strip() or "0")\<close>, zero when it is absent or no number.\<close>

fun load_offset :: "tfile \<Rightarrow> int res" where
  "load_offset NoFile = Inr 0"
| "load_offset ReadError = Inl OSError"
| "load_offset (Text t) = Inr (let s = strip t in case parse_int (if s = [] then ''0'' else s) of Inr n \<Rightarrow> n | Inl _ \<Rightarrow> 0)"

text \<open>A saved offset is read back after a restart.\<close>

lemma load_saved_offset: "load_offset (Text (dec n)) = Inr (int n)"
  by simp

section \<open>Lines with LF only\<close>

definition clean :: "bytes \<Rightarrow> bool" where
  "clean l = (10 \<notin> set l \<and> 13 \<notin> set l)"

definition unlines :: "bytes list \<Rightarrow> bytes" where
  "unlines ls = concat (map (\<lambda>l. l @ [10]) ls)"

lemma unlines_simps [simp]:
  "unlines [] = []" "unlines (l # ls) = l @ 10 # unlines ls" "unlines (xs @ ys) = unlines xs @ unlines ys"
  by (simp_all add: unlines_def)

lemma consumed_simps [simp]: "consumed [] = 0" "consumed (l # ls) = int (length l) + 1 + consumed ls"
  "consumed (xs @ ys) = consumed xs + consumed ys"
  by (simp_all add: consumed_def)

lemma consumed_unlines: "consumed ls = int (length (unlines ls))"
  by (induction ls) auto

lemma split_clean: "clean l \<Longrightarrow> split_lines (l @ rest) acc False =
     split_lines rest (acc @ l) False"
  by (induction l arbitrary: acc) (auto simp: clean_def)

lemma split_unlines:
  "\<forall>l\<in>set ls. clean l \<Longrightarrow> clean p \<Longrightarrow> split_lines (unlines ls @ p) [] False = ls @ (if p = [] then [] else [p])"
proof (induction ls)
  case Nil
  then show ?case using split_clean [of p "[]" "[]"] by simp
next
  case (Cons l ls)
  then show ?case using split_clean [of l "10 # unlines ls @ p" "[]"] by simp
qed

lemma last_unlines: "ls \<noteq> [] \<Longrightarrow> last (unlines ls) = 10"
  by (induction ls rule: rev_induct) auto

lemma unlines_eq_Nil [simp]: "unlines ls = [] \<longleftrightarrow> ls = []"
  by (cases ls) auto

lemma complete_unlines:
  assumes "\<forall>l\<in>set (done @ new). clean l" and "clean p" and "unlines new @ p \<noteq> []"
  shows "complete_lines (unlines (done @ new) @ p) (unlines new @ p) = new"
proof (cases "p = []")
  case True
  then have "new \<noteq> []" using assms(3) by auto
  then show ?thesis
    using True assms(1) split_unlines [of new "[]"] last_unlines [of new]
    by (simp add: complete_lines_def ends_with_newline_def splitlines_def last_append clean_def)
next
  case False
  then have "last p \<noteq> 10" using assms(2) last_in_set [of p] unfolding clean_def by metis
  then show ?thesis
    using False assms split_unlines [of new p]
    by (simp add: complete_lines_def ends_with_newline_def splitlines_def last_append)
qed

section \<open>The contract\<close>

fun run_polls :: "(bytes \<Rightarrow> 's \<Rightarrow> 'o list \<times> 's) \<Rightarrow> bytes list \<Rightarrow> 's \<Rightarrow> 'o list \<times> 's" where
  "run_polls poll [] s = ([], s)"
| "run_polls poll (d # ds) s = (case poll d s of (os, s1) \<Rightarrow> case run_polls poll ds s1 of (os', s2) \<Rightarrow> (os @ os', s2))"

text \<open>The file as the polls see it: each time some new lines, and then a partial one.\<close>

fun snapshots :: "bytes list \<Rightarrow> (bytes list \<times> bytes) list \<Rightarrow> bytes list" where
  "snapshots done [] = []"
| "snapshots done ((new, p) # rest) = (unlines (done @ new) @ p) # snapshots (done @ new) rest"

locale line_tail =
  fixes poll :: "bytes \<Rightarrow> 's \<Rightarrow> 'o list \<times> 's" and off :: "'s \<Rightarrow> int" and core :: "'s \<Rightarrow> 'c"
    and deliver :: "bytes list \<Rightarrow> 'c \<Rightarrow> 'o list \<times> 'c" and ok :: "bytes \<Rightarrow> bool"
  assumes poll_empty: "0 \<le> off s \<Longrightarrow> off s = int (length data) \<Longrightarrow>
      fst (poll data s) = [] \<and> core (snd (poll data s)) = core s \<and> off (snd (poll data s)) = off s"
    and poll_lines: "0 \<le> off s \<Longrightarrow> off s < int (length data) \<Longrightarrow>
      ls = complete_lines data (slice_from (off s) data) \<Longrightarrow> list_all ok ls \<Longrightarrow>
      fst (poll data s) = fst (deliver ls (core s)) \<and> core (snd (poll data s)) = snd (deliver ls (core s)) \<and>
      off (snd (poll data s)) = off s + consumed ls"
    and deliver_Nil: "deliver [] c = ([], c)"
    and deliver_append: "list_all ok (xs @ ys) \<Longrightarrow> deliver (xs @ ys) c =
      (fst (deliver xs c) @ fst (deliver ys (snd (deliver xs c))), snd (deliver ys (snd (deliver xs c))))"
begin

lemma poll_snapshot:
  assumes "\<forall>l\<in>set (done @ new). clean l" and "clean p" and "off s = int (length (unlines done))"
    and "list_all ok new"
  shows "fst (poll (unlines (done @ new) @ p) s) = fst (deliver new (core s)) \<and>
     core (snd (poll (unlines (done @ new) @ p) s)) = snd (deliver new (core s)) \<and>
     off (snd (poll (unlines (done @ new) @ p) s)) = int (length (unlines (done @ new)))"
proof (cases "unlines new @ p = []")
  case True
  then have "new = []" "p = []" by auto
  then show ?thesis using poll_empty [of s "unlines done"] assms(3) by (simp add: deliver_Nil)
next
  case False
  have c: "slice_from (off s) (unlines (done @ new) @ p) = unlines new @ p"
    using assms(3) by (simp add: slice_from_def)
  have "0 < length (unlines new @ p)" using False by blast
  then have "0 \<le> off s" "off s < int (length (unlines (done @ new) @ p))"
    using assms(3) by (simp_all add: of_nat_add [symmetric] del: of_nat_add)
  moreover have "complete_lines (unlines (done @ new) @ p) (slice_from (off s) (unlines (done @ new) @ p)) = new"
    unfolding c using complete_unlines [OF assms(1,2) False] .
  ultimately show ?thesis
    using poll_lines [of s "unlines (done @ new) @ p" new] assms(3,4) consumed_unlines [of new] by simp
qed

lemma exactly_once:
  assumes "\<forall>l\<in>set (done @ concat (map fst steps)). clean l" and "\<forall>p\<in>set (map snd steps). clean p"
    and "off s = int (length (unlines done))" and "list_all ok (concat (map fst steps))"
  shows "fst (run_polls poll (snapshots done steps) s) = fst (deliver (concat (map fst steps)) (core s)) \<and>
     off (snd (run_polls poll (snapshots done steps) s)) = int (length (unlines (done @ concat (map fst steps))))"
  using assms
proof (induction steps arbitrary: "done" s)
  case (Cons st steps)
  obtain new p where st: "st = (new, p)" by fastforce
  obtain os s1 where po: "poll (unlines (done @ new) @ p) s = (os, s1)" by fastforce
  obtain os2 s2 where ro: "run_polls poll (snapshots (done @ new) steps) s1 = (os2, s2)" by fastforce
  have p: "os = fst (deliver new (core s))" "core s1 = snd (deliver new (core s))"
    "off s1 = int (length (unlines (done @ new)))"
    using poll_snapshot [of "done" new p s] Cons.prems po by (auto simp: st list_all_iff)
  have IH: "os2 = fst (deliver (concat (map fst steps)) (core s1))"
    "off s2 = int (length (unlines ((done @ new) @ concat (map fst steps))))"
    using Cons.IH [of "done @ new" s1] Cons.prems p(3) ro by (auto simp: st)
  have ap: "deliver (new @ concat (map fst steps)) (core s) =
      (fst (deliver new (core s)) @ fst (deliver (concat (map fst steps)) (core s1)),
       snd (deliver (concat (map fst steps)) (core s1)))"
    using deliver_append [of new "concat (map fst steps)" "core s"] Cons.prems p(2) by (simp add: st)
  show ?case using po ro p IH ap by (simp add: st)
qed (simp add: deliver_Nil)

end

end
