(* ===== verification/Upload.thy ===== *)
theory Upload
  imports Tail
begin

text \<open>
  The upload side of the edge agent: following the event file (\<open>upload/events.py\<close>) and adding
  the operational context to an event (\<open>upload/event_context.py\<close>).
\<close>

section \<open>Following the event file\<close>

record event_tailer =
  tl_offset :: int
  tl_saved :: "string option"

definition event_tailer_init :: "tfile \<Rightarrow> event_tailer res" where
  "event_tailer_init offset_file = bind_res (load_offset offset_file) (\<lambda>n. Inr
     \<lparr>tl_offset = n, tl_saved = (case offset_file of Text t \<Rightarrow> Some t | _ \<Rightarrow> None)\<rparr>)"

fun line_events :: "(bytes \<Rightarrow> line_text) \<Rightarrow> bytes list \<Rightarrow> json list" where
  "line_events decode [] = []"
| "line_events decode (l # ls) = (case decode l of
     Value v \<Rightarrow> v # line_events decode ls | _ \<Rightarrow> line_events decode ls)"

definition pending_events :: "(bytes \<Rightarrow> line_text) \<Rightarrow> bytes option \<Rightarrow> event_tailer \<Rightarrow> json list \<times> event_tailer" where
  "pending_events decode file t = (case file of None \<Rightarrow> ([], t)
     | Some data \<Rightarrow>
        let t = (if tl_offset t > int (length data) then t\<lparr>tl_offset := 0\<rparr> else t);
            chunk = slice_from (tl_offset t) data in
        if chunk = [] then ([], t)
        else if splitlines chunk = [] then ([], t)
        else let complete = complete_lines data chunk; offset = tl_offset t + consumed complete in
          (line_events decode complete, t\<lparr>tl_offset := offset, tl_saved := Some (dec_int offset)\<rparr>))"

lemma line_events_append: "line_events decode (xs @ ys) = line_events decode xs @ line_events decode ys"
  by (induction xs) (auto split: line_text.split)

lemma split_lines_nonempty: "bs \<noteq> [] \<or> acc \<noteq> [] \<Longrightarrow> \<not> (cr \<and> bs = [10]) \<Longrightarrow> \<not> cr \<Longrightarrow> split_lines bs acc cr \<noteq> []"
  by (induction bs acc cr rule: split_lines.induct) auto

lemma splitlines_nonempty: "chunk \<noteq> [] \<Longrightarrow> splitlines chunk \<noteq> []"
  unfolding splitlines_def by (rule split_lines_nonempty) auto

interpretation tailer_lt: line_tail "\<lambda>data t. pending_events decode (Some data) t" tl_offset "\<lambda>_. ()"
  "\<lambda>ls u. (line_events decode ls, ())" "\<lambda>_. True" for decode
proof (unfold_locales, goal_cases)
  case (1 s data)
  then show ?case by (simp add: pending_events_def Let_def slice_from_def)
next
  case (2 s data ls)
  then have "slice_from (tl_offset s) data \<noteq> []" by (simp add: slice_from_def)
  then show ?case using 2 splitlines_nonempty
    by (simp add: pending_events_def Let_def)
qed (simp_all add: line_events_append)

section \<open>Event context\<close>

definition keep_non_null :: "(string \<times> json) list \<Rightarrow> (string \<times> json) list" where
  "keep_non_null d = filter (\<lambda>p. snd p \<noteq> JNull) d"

record context_files =
  cx_mode :: jfile
  cx_policy :: jfile
  cx_profile :: jfile

definition put_if :: "bool \<Rightarrow> string \<Rightarrow> json \<Rightarrow> (string, json) dict \<Rightarrow> (string, json) dict" where
  "put_if b k v d = (if b then dict_put k v d else d)"

definition enrich_security_event :: "context_files \<Rightarrow> (string, json) dict \<Rightarrow> (string, json) dict" where
  "enrich_security_event f event =
     (let op = read_object (cx_mode f); policy = read_object (cx_policy f); profile = read_object (cx_profile f);
          mode = py_str (py_or (jget op ''mode'') (JStr ''listen''));
          pid = py_or (jget op ''baseline_profile_id'') (jget profile ''profile_id'');
          pver = py_or (jget op ''baseline_profile_version'') (jget profile ''version'');
          dver = str_or_empty (jget policy ''version'');
          ctx = obj_items (obj_or_empty (jget (JObj event) ''context''));
          merged = dict_update ctx [(''operational_mode'', JStr mode), (''baseline_profile_id'', pid),
            (''baseline_profile_version'', pver),
            (''detection_policy_version'', if dver = [] then JNull else JStr dver)]
      in dict_put ''operational_mode'' (JStr mode)
          (put_if (dver \<noteq> []) ''detection_policy_version'' (JStr dver)
            (put_if (truthy pver) ''baseline_profile_version'' pver
              (put_if (truthy pid) ''baseline_profile_id'' pid
                (dict_put ''context'' (JObj (keep_non_null merged)) event)))))"

lemma dict_put_same: "dict_get d k = Some v \<Longrightarrow> dict_put k v d = d"
  by (induction d) (auto split: if_splits)

lemma dict_put_commute:
  "k \<noteq> k' \<Longrightarrow> dict_get d k \<noteq> None \<Longrightarrow> dict_put k v (dict_put k' v' d) = dict_put k' v' (dict_put k v d)"
  by (induction d) auto

lemma dict_put_put: "dict_put k v (dict_put k v' d) = dict_put k v d"
  by (induction d) auto

text \<open>Merging twice and dropping nulls is merging once.\<close>

lemma keep_put_null: "dict_get d k = None \<Longrightarrow> keep_non_null (dict_put k JNull d) = keep_non_null d"
  by (induction d) (auto simp: keep_non_null_def split: if_splits)

lemma keep_keep [simp]: "keep_non_null (keep_non_null d) = keep_non_null d"
  by (simp add: keep_non_null_def)

lemma dict_get_keep: "dict_wf d \<Longrightarrow> dict_get (keep_non_null d) k =
    (case dict_get d k of None \<Rightarrow> None | Some v \<Rightarrow> if v = JNull then None else Some v)"
proof (induction d)
  case (Cons p d)
  obtain a b where p: "p = (a, b)" by fastforce
  have "dict_wf d" "dict_get d a = None"
    using Cons.prems by (auto simp: p dict_wf_def dict_keys_def dict_get_def map_of_eq_None_iff)
  then show ?case using Cons.IH by (auto simp: p keep_non_null_def)
qed (simp add: keep_non_null_def)

lemma dict_wf_keep: "dict_wf d \<Longrightarrow> dict_wf (keep_non_null d)"
  unfolding dict_wf_def dict_keys_def keep_non_null_def by (simp add: distinct_map_filter)

lemma dict_wf_update: "dict_wf a \<Longrightarrow> dict_wf (dict_update a b)"
  unfolding dict_update_def by (induction b arbitrary: a) (auto split: prod.split)

lemma keep_put_again:
  assumes "dict_get c k = (if v = JNull then None else Some v)"
  shows "keep_non_null (dict_put k v c) = keep_non_null c"
  using assms by (cases "v = JNull") (simp_all add: keep_put_null dict_put_same)

lemma keep_update_again:
  assumes "\<forall>(k, v)\<in>set m. dict_get c k = (if v = JNull then None else Some v)" and "distinct (map fst m)"
  shows "keep_non_null (dict_update c m) = keep_non_null c"
  using assms
proof (induction m arbitrary: c)
  case (Cons p m)
  obtain k v where p: "p = (k, v)" by fastforce
  have "\<forall>(k', v')\<in>set m. dict_get (dict_put k v c) k' = (if v' = JNull then None else Some v')"
    using Cons.prems by (force simp: p)
  then have "keep_non_null (dict_update (dict_put k v c) m) = keep_non_null (dict_put k v c)"
    using Cons by simp
  then show ?case using keep_put_again [of c k v] Cons.prems(1) by (simp add: dict_update_def p)
qed simp

lemma merge_again:
  assumes "dict_wf ctx" and "distinct (map fst m)"
  shows "keep_non_null (dict_update (keep_non_null (dict_update ctx m)) m) = keep_non_null (dict_update ctx m)"
proof -
  have "dict_get (keep_non_null (dict_update ctx m)) k = (if v = JNull then None else Some v)"
    if "(k, v) \<in> set m" for k v
  proof -
    have "map_of (rev m) k = Some v" using assms(2) that by (simp add: map_of_eq_Some_iff rev_map [symmetric])
    then have "dict_get (dict_update ctx m) k = Some v" by (simp add: dict_get_update)
    then show ?thesis using dict_get_keep [OF dict_wf_update [OF assms(1)]] by simp
  qed
  then have h: "\<forall>(k, v)\<in>set m. dict_get (keep_non_null (dict_update ctx m)) k = (if v = JNull then None else Some v)"
    by blast
  show ?thesis using keep_update_again [OF h assms(2)] by (simp only: keep_keep)
qed

section \<open>Properties\<close>

text \<open>
  C33. The uploader delivers every event exactly once: however the reads cut the event file as
  it grows, partial lines included, the events returned are those of the lines that are JSON,
  in order, each once, when the lines end in LF.
\<close>

theorem events_delivered_once:
  fixes steps :: "(bytes list \<times> bytes) list"
  defines "ls \<equiv> concat (map fst steps)"
  assumes "\<forall>l\<in>set ls. clean l" and "\<forall>p\<in>set (map snd steps). clean p" and "tl_offset t = 0"
  shows "fst (run_polls (\<lambda>data. pending_events decode (Some data)) (snapshots [] steps) t) = line_events decode ls \<and>
     tl_offset (snd (run_polls (\<lambda>data. pending_events decode (Some data)) (snapshots [] steps) t)) =
       int (length (unlines ls))"
  using tailer_lt.exactly_once [of "[]" steps t decode] assms by (simp add: list_all_iff)

theorem events_delivered_once_witness:
  "fst (run_polls (\<lambda>data. pending_events (\<lambda>l. if l = [] then Blank else Value (JInt (int (length l)))) (Some data))
     (snapshots [] [([[65]], [66]), ([[66, 67]], [])]) \<lparr>tl_offset = 0, tl_saved = None\<rparr>) = [JInt 1, JInt 2]"
  using events_delivered_once [of "[([[65]], [66]), ([[66, 67]], [])]" "\<lparr>tl_offset = 0, tl_saved = None\<rparr>"
      "\<lambda>l. if l = [] then Blank else Value (JInt (int (length l)))"]
  by (simp add: clean_def del: snapshots.simps)

text \<open>
  Adding the operational context is idempotent: an event that went through it and is
  queued and enriched again with the same files does not change, and no field other than the
  context and its four copies is touched.
\<close>

theorem enrich_idempotent:
  assumes "dict_wf event" and "dict_wf (obj_items (obj_or_empty (jget (JObj event) ''context'')))"
  shows "enrich_security_event f (enrich_security_event f event) = enrich_security_event f event \<and>
     (\<forall>k. k \<in> {''context'', ''operational_mode'', ''baseline_profile_id'', ''baseline_profile_version'',
               ''detection_policy_version''} \<or>
          dict_get (enrich_security_event f event) k = dict_get event k)"
proof -
  define ctx where "ctx = obj_items (obj_or_empty (jget (JObj event) ''context''))"
  define mode where "mode = py_str (py_or (jget (read_object (cx_mode f)) ''mode'') (JStr ''listen''))"
  define pid where "pid = py_or (jget (read_object (cx_mode f)) ''baseline_profile_id'') (jget (read_object (cx_profile f)) ''profile_id'')"
  define pver where "pver = py_or (jget (read_object (cx_mode f)) ''baseline_profile_version'') (jget (read_object (cx_profile f)) ''version'')"
  define dver where "dver = str_or_empty (jget (read_object (cx_policy f)) ''version'')"
  define m where "m = [(''operational_mode'', JStr mode), (''baseline_profile_id'', pid),
            (''baseline_profile_version'', pver), (''detection_policy_version'', if dver = [] then JNull else JStr dver)]"
  define top where "top = (\<lambda>c e. dict_put ''operational_mode'' (JStr mode)
          (put_if (dver \<noteq> []) ''detection_policy_version'' (JStr dver)
            (put_if (truthy pver) ''baseline_profile_version'' pver
              (put_if (truthy pid) ''baseline_profile_id'' pid (dict_put ''context'' (JObj c) e)))))"
  define c where "c = keep_non_null (dict_update ctx m)"
  have enrich: "enrich_security_event f e = top (keep_non_null (dict_update
      (obj_items (obj_or_empty (jget (JObj e) ''context''))) m)) e" for e
    by (simp only: enrich_security_event_def Let_def top_def m_def mode_def pid_def pver_def dver_def)
  have e1: "enrich_security_event f event = top c event"
    by (simp only: enrich c_def ctx_def)
  have g: "dict_get (top c event) ''context'' = Some (JObj c)"
    by (simp add: top_def put_if_def)
  have "obj_items (obj_or_empty (jget (JObj (top c event)) ''context'')) = c"
    using g by (simp add: jget_def obj_or_empty_def)
  moreover have "keep_non_null (dict_update c m) = c"
    unfolding c_def by (rule merge_again) (use assms(2) in \<open>simp_all add: ctx_def m_def\<close>)
  ultimately have "enrich_security_event f (top c event) = top c (top c event)"
    by (simp only: enrich)
  moreover have "top c (top c event) = top c event"
  proof -
    have a: "dict_get (top c event) ''operational_mode'' = Some (JStr mode)"
      "dver \<noteq> [] \<Longrightarrow> dict_get (top c event) ''detection_policy_version'' = Some (JStr dver)"
      "truthy pver \<Longrightarrow> dict_get (top c event) ''baseline_profile_version'' = Some pver"
      "truthy pid \<Longrightarrow> dict_get (top c event) ''baseline_profile_id'' = Some pid"
      by (simp_all add: top_def put_if_def)
    define x where "x = top c event"
    have "top c x = x"
      using a g unfolding x_def [symmetric] by (simp add: top_def put_if_def dict_put_same)
    then show ?thesis by (simp add: x_def)
  qed
  ultimately have "enrich_security_event f (enrich_security_event f event) = enrich_security_event f event"
    by (simp only: e1)
  moreover have "k \<in> {''context'', ''operational_mode'', ''baseline_profile_id'', ''baseline_profile_version'',
               ''detection_policy_version''} \<or> dict_get (top c event) k = dict_get event k" for k
    by (auto simp: top_def put_if_def)
  ultimately show ?thesis by (simp only: e1) blast
qed

theorem enrich_idempotent_witness:
  "enrich_security_event \<lparr>cx_mode = Absent, cx_policy = Doc (JObj [(''version'', JStr ''3'')]), cx_profile = Absent\<rparr>
     (enrich_security_event \<lparr>cx_mode = Absent, cx_policy = Doc (JObj [(''version'', JStr ''3'')]), cx_profile = Absent\<rparr>
        [(''event_id'', JStr ''e1'')])
   = enrich_security_event \<lparr>cx_mode = Absent, cx_policy = Doc (JObj [(''version'', JStr ''3'')]), cx_profile = Absent\<rparr>
        [(''event_id'', JStr ''e1'')]"
  by (rule enrich_idempotent [THEN conjunct1]) (simp_all add: obj_or_empty_def dict_wf_def dict_keys_def)

end
