(* ===== verification/Engines.thy ===== *)
theory Engines
  imports Tail Isotime Events
begin

text \<open>
  The bridges from Snort and Suricata (\<open>detection/external_engine/snort_source.py\<close>,
  \<open>detection/external_engine/suricata_source.py\<close>): mapping one alert to an event, and tailing
  the engine's file with a byte offset. What a line decodes to is the argument \<open>decode\<close>; the
  output file is the list of JSON objects appended to it.
\<close>

section \<open>Severity, ports and times\<close>

definition severity_of_rank :: "json \<Rightarrow> string" where
  "severity_of_rank rank = (case py_int rank of Inl _ \<Rightarrow> ''medium''
     | Inr n \<Rightarrow> if n = 1 then ''high'' else if n = 2 then ''medium'' else if n = 3 then ''low'' else ''medium'')"

definition severity_risk :: "string \<Rightarrow> int" where
  "severity_risk sev = (if sev = ''critical'' then 95 else if sev = ''high'' then 85
     else if sev = ''medium'' then 60 else 40)"

definition coerce_port :: "json \<Rightarrow> int option" where
  "coerce_port v = (if v = JNull \<or> v = JStr [] then None
     else (case py_int v of Inr n \<Rightarrow> Some n | Inl _ \<Rightarrow> None))"

lemma severity_of_rank_cases: "severity_of_rank r \<in> {''high'', ''medium'', ''low''}"
  by (auto simp: severity_of_rank_def split: sum.split)

lemma severity_risk_bounds: "40 \<le> severity_risk s" "severity_risk s \<le> 95"
  by (simp_all add: severity_risk_def)

text \<open>One number of \<open>strptime\<close>: one or two digits within the directive's range.\<close>

definition num_field :: "nat \<Rightarrow> nat \<Rightarrow> string \<Rightarrow> nat option" where
  "num_field lo hi s = (if s \<noteq> [] \<and> length s \<le> 2 \<and> list_all is_digit s \<and> lo \<le> dec_val s \<and> dec_val s \<le> hi
     then Some (dec_val s) else None)"

definition cut :: "char \<Rightarrow> string \<Rightarrow> string \<times> string" where
  "cut c s = (takeWhile (\<lambda>x. x \<noteq> c) s, drop (Suc (length (takeWhile (\<lambda>x. x \<noteq> c) s))) s)"

text \<open>\<open>MM/DD-HH:MM:SS.ffffff\<close> in the given year; the fraction must be there.\<close>

definition snort_time :: "nat \<Rightarrow> string \<Rightarrow> string option" where
  "snort_time year s =
     (let (mo, r1) = cut (CHR ''/'') s; (d, r2) = cut (CHR ''-'') r1; (h, r3) = cut (CHR '':'') r2;
          (mi, r4) = cut (CHR '':'') r3; (sec, f) = cut (CHR ''.'') r4 in
      case (num_field 1 12 mo, num_field 1 31 d, num_field 0 23 h, num_field 0 59 mi, num_field 0 59 sec) of
        (Some mo, Some d, Some h, Some mi, Some sec) \<Rightarrow>
          if f \<noteq> [] \<and> length f \<le> 6 \<and> list_all is_digit f \<and> valid_date year mo d
          then Some (isoformat (mk_date_time (year, mo, d) (h, mi, sec, 0) (Some 0))) else None
      | _ \<Rightarrow> None)"

text \<open>A timestamp that is neither text nor falsy is taken to raise TypeError.\<close>

definition parse_snort_timestamp :: "clock \<Rightarrow> nat \<Rightarrow> json \<Rightarrow> string res" where
  "parse_snort_timestamp clk year raw =
     (if \<not> truthy raw then Inr (now_iso clk)
      else (case raw of
        JStr s \<Rightarrow> if CHR ''T'' \<in> set s then Inr s
                  else Inr (case snort_time year s of Some t \<Rightarrow> t | None \<Rightarrow> now_iso clk)
      | _ \<Rightarrow> Inl TypeError))"

definition colon_offset :: "string \<Rightarrow> string" where
  "colon_offset text =
     (let n = length text in
      if 5 \<le> n \<and> text ! (n - 5) \<in> {CHR ''+'', CHR ''-''} \<and> text ! (n - 3) \<noteq> CHR '':''
      then take (n - 2) text @ '':'' @ drop (n - 2) text else text)"

definition parse_eve_timestamp :: "clock \<Rightarrow> json \<Rightarrow> string res" where
  "parse_eve_timestamp clk raw =
     (if \<not> truthy raw then Inr (now_iso clk)
      else (case raw of
        JStr s \<Rightarrow> Inr (case fromisoformat (colon_offset (strip s)) of
            None \<Rightarrow> now_iso clk
          | Some t \<Rightarrow> isoformat (t\<lparr>dt_micro := 0, dt_offset := Some (case dt_offset t of None \<Rightarrow> 0 | Some z \<Rightarrow> z)\<rparr>))
      | _ \<Rightarrow> Inl AttributeError))"

section \<open>Mapping one alert\<close>

record bridge =
  br_site :: string
  br_sensor :: string
  br_seq :: nat

text \<open>The alert must be an object; the event number is taken before the timestamp is read.\<close>

definition snort_map :: "clock \<Rightarrow> nat \<Rightarrow> json \<Rightarrow> bridge \<Rightarrow> security_event res \<times> bridge" where
  "snort_map clk year alert b =
     (if \<not> is_obj alert then (Inl AttributeError, b)
      else
        let severity = severity_of_rank (jget alert ''priority'');
            gid = jget_default alert ''gid'' (JInt 1); sid = jget_default alert ''sid'' (JInt 0);
            seq = br_seq b + 1; b = b\<lparr>br_seq := seq\<rparr>
        in (bind_res (parse_snort_timestamp clk year (jget alert ''timestamp'')) (\<lambda>ts. Inr
              \<lparr>ev_id = event_id (utc_day clk) ''snort'' seq, ev_site = br_site b, ev_sensor = br_sensor b,
               ev_type = ''SNORT_ALERT'', ev_severity = severity,
               ev_rule = ''snort-'' @ py_str gid @ ''-'' @ py_str sid,
               ev_protocol = lower (py_str (py_or (jget alert ''proto'') (JStr ''ip''))),
               ev_description = py_str (py_or (jget alert ''msg'') (JStr ''Snort alert'')), ev_asset = [],
               ev_src_ip = str_or_empty (jget alert ''src_addr''), ev_dst_ip = str_or_empty (jget alert ''dst_addr''),
               ev_dst_port = coerce_port (jget alert ''dst_port''), ev_risk = severity_risk severity,
               ev_evidence = [(''engine'', JStr ''snort''), (''sid'', sid), (''gid'', gid),
                 (''rev'', jget alert ''rev''), (''priority'', jget alert ''priority''),
                 (''classtype'', jget alert ''class''), (''action'', jget alert ''action''),
                 (''service'', jget alert ''service''), (''src_port'', jget alert ''src_port''),
                 (''iface'', jget alert ''iface''), (''snort_pkt_num'', jget alert ''pkt_num''),
                 (''raw_event'', alert)],
               ev_evidence_ref = [], ev_timestamp = ts\<rparr>), b))"

text \<open>Records other than alerts are skipped and use no number.\<close>

definition suricata_map :: "clock \<Rightarrow> json \<Rightarrow> bridge \<Rightarrow> security_event option res \<times> bridge" where
  "suricata_map clk record b =
     (if \<not> is_obj record then (Inl AttributeError, b)
      else if str_or_empty (jget record ''event_type'') \<noteq> ''alert'' then (Inr None, b)
      else
        let alert = obj_or_empty (jget record ''alert'');
            severity = severity_of_rank (jget alert ''severity'');
            gid = jget_default alert ''gid'' (JInt 1); sid = jget_default alert ''signature_id'' (JInt 0);
            seq = br_seq b + 1; b = b\<lparr>br_seq := seq\<rparr>
        in (bind_res (parse_eve_timestamp clk (jget record ''timestamp'')) (\<lambda>ts. Inr (Some
              \<lparr>ev_id = event_id (utc_day clk) ''suricata'' seq, ev_site = br_site b, ev_sensor = br_sensor b,
               ev_type = ''SURICATA_ALERT'', ev_severity = severity,
               ev_rule = ''suricata-'' @ py_str gid @ ''-'' @ py_str sid,
               ev_protocol = lower (py_str (py_or (jget record ''proto'') (JStr ''ip''))),
               ev_description = py_str (py_or (jget alert ''signature'') (JStr ''Suricata alert'')), ev_asset = [],
               ev_src_ip = str_or_empty (jget record ''src_ip''), ev_dst_ip = str_or_empty (jget record ''dest_ip''),
               ev_dst_port = coerce_port (jget record ''dest_port''), ev_risk = severity_risk severity,
               ev_evidence = [(''engine'', JStr ''suricata''), (''sid'', sid), (''gid'', gid),
                 (''rev'', jget alert ''rev''), (''severity'', jget alert ''severity''),
                 (''category'', jget alert ''category''), (''action'', jget alert ''action''),
                 (''app_proto'', jget record ''app_proto''), (''flow_id'', jget record ''flow_id''),
                 (''src_port'', jget record ''src_port''), (''raw_event'', record)],
               ev_evidence_ref = [], ev_timestamp = ts\<rparr>)), b))"

section \<open>The sources\<close>

record engine_source =
  es_bridge :: bridge
  es_offset :: int
  es_saved :: "string option"
  es_out :: "json list"

definition engine_source_init :: "string \<Rightarrow> string \<Rightarrow> tfile \<Rightarrow> json list \<Rightarrow> engine_source res" where
  "engine_source_init site sensor offset_file out =
     bind_res (load_offset offset_file) (\<lambda>n. Inr
       \<lparr>es_bridge = \<lparr>br_site = site, br_sensor = sensor, br_seq = 0\<rparr>, es_offset = n,
        es_saved = (case offset_file of Text t \<Rightarrow> Some t | _ \<Rightarrow> None), es_out = out\<rparr>)"

fun snort_lines :: "(bytes \<Rightarrow> line_text) \<Rightarrow> clock \<Rightarrow> nat \<Rightarrow> bytes list \<Rightarrow> bridge \<Rightarrow> json list res \<times> bridge" where
  "snort_lines decode clk year [] b = (Inr [], b)"
| "snort_lines decode clk year (l # ls) b = (case decode l of
       Blank \<Rightarrow> snort_lines decode clk year ls b
     | NotJson \<Rightarrow> snort_lines decode clk year ls b
     | Value alert \<Rightarrow> (case snort_map clk year alert b of
           (Inl e, b1) \<Rightarrow> (Inl e, b1)
         | (Inr ev, b1) \<Rightarrow> (case snort_lines decode clk year ls b1 of
               (Inl e, b2) \<Rightarrow> (Inl e, b2)
             | (Inr es, b2) \<Rightarrow> (Inr (JObj (event_to_dict ev) # es), b2))))"

fun suricata_lines :: "(bytes \<Rightarrow> line_text) \<Rightarrow> clock \<Rightarrow> bytes list \<Rightarrow> bridge \<Rightarrow> json list res \<times> bridge" where
  "suricata_lines decode clk [] b = (Inr [], b)"
| "suricata_lines decode clk (l # ls) b = (case decode l of
       Blank \<Rightarrow> suricata_lines decode clk ls b
     | NotJson \<Rightarrow> suricata_lines decode clk ls b
     | Value record \<Rightarrow> (case suricata_map clk record b of
           (Inl e, b1) \<Rightarrow> (Inl e, b1)
         | (Inr ev, b1) \<Rightarrow> (case suricata_lines decode clk ls b1 of
               (Inl e, b2) \<Rightarrow> (Inl e, b2)
             | (Inr es, b2) \<Rightarrow> (Inr ((case ev of None \<Rightarrow> [] | Some v \<Rightarrow> [JObj (event_to_dict v)]) @ es), b2))))"

definition snort_poll :: "(bytes \<Rightarrow> line_text) \<Rightarrow> clock \<Rightarrow> nat \<Rightarrow> bytes option \<Rightarrow> engine_source \<Rightarrow>
    nat res \<times> engine_source" where
  "snort_poll decode clk year file s = (case file of None \<Rightarrow> (Inr 0, s)
     | Some data \<Rightarrow>
        let s = (if es_offset s > int (length data) then s\<lparr>es_offset := 0\<rparr> else s);
            chunk = slice_from (es_offset s) data in
        if chunk = [] then (Inr 0, s)
        else let complete = complete_lines data chunk in
          (case snort_lines decode clk year complete (es_bridge s) of
             (Inl e, b) \<Rightarrow> (Inl e, s\<lparr>es_bridge := b\<rparr>)
           | (Inr events, b) \<Rightarrow>
               let offset = es_offset s + consumed complete in
               (Inr (length events), s\<lparr>es_bridge := b, es_out := es_out s @ events, es_offset := offset,
                  es_saved := Some (dec_int offset)\<rparr>)))"

definition suricata_poll :: "(bytes \<Rightarrow> line_text) \<Rightarrow> clock \<Rightarrow> bytes option \<Rightarrow> engine_source \<Rightarrow>
    nat res \<times> engine_source" where
  "suricata_poll decode clk file s = (case file of None \<Rightarrow> (Inr 0, s)
     | Some data \<Rightarrow>
        let s = (if es_offset s > int (length data) then s\<lparr>es_offset := 0\<rparr> else s);
            chunk = slice_from (es_offset s) data in
        if chunk = [] then (Inr 0, s)
        else let complete = complete_lines data chunk in
          (case suricata_lines decode clk complete (es_bridge s) of
             (Inl e, b) \<Rightarrow> (Inl e, s\<lparr>es_bridge := b\<rparr>)
           | (Inr events, b) \<Rightarrow>
               let offset = es_offset s + consumed complete in
               (Inr (length events), s\<lparr>es_bridge := b, es_out := es_out s @ events, es_offset := offset,
                  es_saved := Some (dec_int offset)\<rparr>)))"

section \<open>Lemmas\<close>

text \<open>Lines the Snort bridge can map: anything but a JSON value that makes it raise.\<close>

definition snort_line_ok :: "(bytes \<Rightarrow> line_text) \<Rightarrow> bytes \<Rightarrow> bool" where
  "snort_line_ok decode l = (case decode l of
     Value a \<Rightarrow> is_obj a \<and> (\<not> truthy (jget a ''timestamp'') \<or> (\<exists>t. jget a ''timestamp'' = JStr t))
   | _ \<Rightarrow> True)"

definition suricata_line_ok :: "(bytes \<Rightarrow> line_text) \<Rightarrow> bytes \<Rightarrow> bool" where
  "suricata_line_ok decode l = snort_line_ok decode l"

lemma snort_map_ok:
  "is_obj a \<Longrightarrow> \<not> truthy (jget a ''timestamp'') \<or> (\<exists>t. jget a ''timestamp'' = JStr t) \<Longrightarrow>
     \<exists>e. fst (snort_map clk year a b) = Inr e"
  by (auto simp: snort_map_def Let_def parse_snort_timestamp_def)

lemma suricata_map_ok:
  "is_obj a \<Longrightarrow> \<not> truthy (jget a ''timestamp'') \<or> (\<exists>t. jget a ''timestamp'' = JStr t) \<Longrightarrow>
     \<exists>e. fst (suricata_map clk a b) = Inr e"
  by (auto simp: suricata_map_def Let_def parse_eve_timestamp_def)

lemma snort_lines_ok: "list_all (snort_line_ok decode) ls \<Longrightarrow> \<exists>es. fst (snort_lines decode clk year ls b) = Inr es"
proof (induction ls arbitrary: b)
  case (Cons l ls)
  show ?case
  proof (cases "decode l")
    case (Value a)
    obtain ev b1 where m: "snort_map clk year a b = (Inr ev, b1)"
      using snort_map_ok [of a clk year b] Cons.prems Value by (cases "snort_map clk year a b") (auto simp: snort_line_ok_def)
    obtain es where "fst (snort_lines decode clk year ls b1) = Inr es" using Cons by auto
    then show ?thesis using Value m by (cases "snort_lines decode clk year ls b1") simp
  qed (use Cons in auto)
qed simp

lemma suricata_lines_ok:
  "list_all (suricata_line_ok decode) ls \<Longrightarrow> \<exists>es. fst (suricata_lines decode clk ls b) = Inr es"
proof (induction ls arbitrary: b)
  case (Cons l ls)
  show ?case
  proof (cases "decode l")
    case (Value a)
    obtain ev b1 where m: "suricata_map clk a b = (Inr ev, b1)"
      using suricata_map_ok [of a clk b] Cons.prems Value
      by (cases "suricata_map clk a b") (auto simp: suricata_line_ok_def snort_line_ok_def)
    obtain es where "fst (suricata_lines decode clk ls b1) = Inr es" using Cons by auto
    then show ?thesis using Value m by (cases "suricata_lines decode clk ls b1") simp
  qed (use Cons in auto)
qed simp

text \<open>The polls as the contract sees them: what was appended, and the state.\<close>

definition events_of :: "json list res \<times> bridge \<Rightarrow> json list \<times> bridge" where
  "events_of r = ((case fst r of Inl _ \<Rightarrow> [] | Inr es \<Rightarrow> es), snd r)"

definition snort_tail :: "(bytes \<Rightarrow> line_text) \<Rightarrow> clock \<Rightarrow> nat \<Rightarrow> bytes \<Rightarrow> engine_source \<Rightarrow> json list \<times> engine_source" where
  "snort_tail decode clk year data s = (let s' = snd (snort_poll decode clk year (Some data) s) in
     (drop (length (es_out s)) (es_out s'), s'))"

definition suricata_tail :: "(bytes \<Rightarrow> line_text) \<Rightarrow> clock \<Rightarrow> bytes \<Rightarrow> engine_source \<Rightarrow> json list \<times> engine_source" where
  "suricata_tail decode clk data s = (let s' = snd (suricata_poll decode clk (Some data) s) in
     (drop (length (es_out s)) (es_out s'), s'))"

lemma snort_lines_append:
  "list_all (snort_line_ok decode) (xs @ ys) \<Longrightarrow>
   events_of (snort_lines decode clk year (xs @ ys) b) =
     (fst (events_of (snort_lines decode clk year xs b)) @
        fst (events_of (snort_lines decode clk year ys (snd (snort_lines decode clk year xs b)))),
      snd (snort_lines decode clk year ys (snd (snort_lines decode clk year xs b))))"
proof (induction xs arbitrary: b)
  case (Cons l xs)
  show ?case
  proof (cases "decode l")
    case (Value a)
    obtain ev b1 where m: "snort_map clk year a b = (Inr ev, b1)"
      using snort_map_ok [of a clk year b] Cons.prems Value by (cases "snort_map clk year a b") (auto simp: snort_line_ok_def)
    have ok: "list_all (snort_line_ok decode) xs" "list_all (snort_line_ok decode) (xs @ ys)" using Cons.prems by auto
    obtain es b2 where x: "snort_lines decode clk year xs b1 = (Inr es, b2)"
      using snort_lines_ok [OF ok(1), of clk year b1] by (cases "snort_lines decode clk year xs b1") auto
    obtain es' b3 where xy: "snort_lines decode clk year (xs @ ys) b1 = (Inr es', b3)"
      using snort_lines_ok [OF ok(2), of clk year b1] by (cases "snort_lines decode clk year (xs @ ys) b1") auto
    show ?thesis using Cons.IH [OF ok(2), of b1] Value m x xy by (simp add: events_of_def)
  qed (use Cons in \<open>simp_all add: events_of_def\<close>)
qed (simp add: events_of_def)

lemma suricata_lines_append:
  "list_all (suricata_line_ok decode) (xs @ ys) \<Longrightarrow>
   events_of (suricata_lines decode clk (xs @ ys) b) =
     (fst (events_of (suricata_lines decode clk xs b)) @
        fst (events_of (suricata_lines decode clk ys (snd (suricata_lines decode clk xs b)))),
      snd (suricata_lines decode clk ys (snd (suricata_lines decode clk xs b))))"
proof (induction xs arbitrary: b)
  case (Cons l xs)
  show ?case
  proof (cases "decode l")
    case (Value a)
    obtain ev b1 where m: "suricata_map clk a b = (Inr ev, b1)"
      using suricata_map_ok [of a clk b] Cons.prems Value
      by (cases "suricata_map clk a b") (auto simp: suricata_line_ok_def snort_line_ok_def)
    have ok: "list_all (suricata_line_ok decode) xs" "list_all (suricata_line_ok decode) (xs @ ys)" using Cons.prems by auto
    obtain es b2 where x: "suricata_lines decode clk xs b1 = (Inr es, b2)"
      using suricata_lines_ok [OF ok(1), of clk b1] by (cases "suricata_lines decode clk xs b1") auto
    obtain es' b3 where xy: "suricata_lines decode clk (xs @ ys) b1 = (Inr es', b3)"
      using suricata_lines_ok [OF ok(2), of clk b1] by (cases "suricata_lines decode clk (xs @ ys) b1") auto
    show ?thesis using Cons.IH [OF ok(2), of b1] Value m x xy by (simp add: events_of_def)
  qed (use Cons in \<open>simp_all add: events_of_def\<close>)
qed (simp add: events_of_def)

interpretation snort_lt: line_tail "snort_tail decode clk year" es_offset es_bridge
  "\<lambda>ls b. events_of (snort_lines decode clk year ls b)" "snort_line_ok decode"
  for decode clk year
proof (unfold_locales, goal_cases)
  case (1 s data)
  then show ?case by (simp add: snort_tail_def snort_poll_def Let_def slice_from_def)
next
  case (2 s data ls)
  then obtain es where es: "fst (snort_lines decode clk year ls (es_bridge s)) = Inr es"
    using snort_lines_ok by blast
  have "slice_from (es_offset s) data \<noteq> []" using 2 by (simp add: slice_from_def)
  then show ?case using 2 es
    by (cases "snort_lines decode clk year ls (es_bridge s)") (simp add: snort_tail_def snort_poll_def Let_def events_of_def)
next
  case (4 xs ys c)
  then show ?case using snort_lines_append [of decode xs ys clk year c] by (simp add: events_of_def)
qed (simp add: events_of_def)

interpretation suricata_lt: line_tail "suricata_tail decode clk" es_offset es_bridge
  "\<lambda>ls b. events_of (suricata_lines decode clk ls b)" "suricata_line_ok decode"
  for decode clk
proof (unfold_locales, goal_cases)
  case (1 s data)
  then show ?case by (simp add: suricata_tail_def suricata_poll_def Let_def slice_from_def)
next
  case (2 s data ls)
  then obtain es where es: "fst (suricata_lines decode clk ls (es_bridge s)) = Inr es"
    using suricata_lines_ok by blast
  have "slice_from (es_offset s) data \<noteq> []" using 2 by (simp add: slice_from_def)
  then show ?case using 2 es
    by (cases "suricata_lines decode clk ls (es_bridge s)") (simp add: suricata_tail_def suricata_poll_def Let_def events_of_def)
next
  case (4 xs ys c)
  then show ?case using suricata_lines_append [of decode xs ys clk c] by (simp add: events_of_def)
qed (simp add: events_of_def)

section \<open>What was appended\<close>

lemma snort_poll_appends: "\<exists>es. es_out (snd (snort_poll decode clk year file s)) = es_out s @ es"
  by (auto simp: snort_poll_def Let_def split: option.split prod.split sum.split)

lemma suricata_poll_appends: "\<exists>es. es_out (snd (suricata_poll decode clk file s)) = es_out s @ es"
  by (auto simp: suricata_poll_def Let_def split: option.split prod.split sum.split)

lemma run_polls_out:
  assumes "\<And>d s. es_out (snd (poll d s)) = es_out s @ fst (poll d s)"
  shows "es_out (snd (run_polls poll ds s)) = es_out s @ fst (run_polls poll ds s)"
proof (induction ds arbitrary: s)
  case (Cons d ds)
  then show ?case using assms [of d s] by (simp split: prod.split) (metis append.assoc fst_conv snd_conv)
qed simp

lemma snort_tail_out: "es_out (snd (snort_tail decode clk year d s)) = es_out s @ fst (snort_tail decode clk year d s)"
  using snort_poll_appends [of decode clk year "Some d" s] by (auto simp: snort_tail_def Let_def)

lemma suricata_tail_out: "es_out (snd (suricata_tail decode clk d s)) = es_out s @ fst (suricata_tail decode clk d s)"
  using suricata_poll_appends [of decode clk "Some d" s] by (auto simp: suricata_tail_def Let_def)

text \<open>The alert an output event was made of, and the alerts among some lines.\<close>

definition raw_event :: "json \<Rightarrow> json" where
  "raw_event e = jget (jget e ''evidence'') ''raw_event''"

definition line_value :: "(bytes \<Rightarrow> line_text) \<Rightarrow> bytes \<Rightarrow> json option" where
  "line_value decode l = (case decode l of Value v \<Rightarrow> Some v | _ \<Rightarrow> None)"

definition is_alert_record :: "json \<Rightarrow> bool" where
  "is_alert_record v = (str_or_empty (jget v ''event_type'') = ''alert'')"

lemma snort_map_raw:
  "snort_map clk year a b = (Inr ev, b1) \<Longrightarrow> raw_event (JObj (event_to_dict ev)) = a"
  by (auto simp: snort_map_def Let_def bind_res_eq_Inr raw_event_def event_to_dict_def jget_def split: if_splits)

lemma suricata_map_raw:
  "suricata_map clk a b = (Inr r, b1) \<Longrightarrow>
     (case r of None \<Rightarrow> \<not> is_alert_record a
      | Some ev \<Rightarrow> is_alert_record a \<and> raw_event (JObj (event_to_dict ev)) = a)"
  by (auto simp: suricata_map_def Let_def bind_res_eq_Inr raw_event_def event_to_dict_def jget_def is_alert_record_def
      split: if_splits)

lemma snort_lines_raw:
  "snort_lines decode clk year ls b = (Inr es, b') \<Longrightarrow> map raw_event es = List.map_filter (line_value decode) ls"
proof (induction ls arbitrary: b es b')
  case (Cons l ls)
  show ?case
  proof (cases "decode l")
    case (Value a)
    then obtain ev b1 es1 where "snort_map clk year a b = (Inr ev, b1)"
      "snort_lines decode clk year ls b1 = (Inr es1, b')" "es = JObj (event_to_dict ev) # es1"
      using Cons.prems by (auto split: prod.splits sum.splits)
    then show ?thesis using Cons.IH snort_map_raw Value by (auto simp: List.map_filter_simps line_value_def)
  qed (use Cons in \<open>auto simp: List.map_filter_simps line_value_def\<close>)
qed (simp add: List.map_filter_simps)

lemma suricata_lines_raw:
  "suricata_lines decode clk ls b = (Inr es, b') \<Longrightarrow>
     map raw_event es = filter is_alert_record (List.map_filter (line_value decode) ls)"
proof (induction ls arbitrary: b es b')
  case (Cons l ls)
  show ?case
  proof (cases "decode l")
    case (Value a)
    then obtain r b1 es1 where m: "suricata_map clk a b = (Inr r, b1)"
      "suricata_lines decode clk ls b1 = (Inr es1, b')"
      "es = (case r of None \<Rightarrow> [] | Some v \<Rightarrow> [JObj (event_to_dict v)]) @ es1"
      using Cons.prems by (auto split: prod.splits sum.splits)
    then show ?thesis using Cons.IH [OF m(2)] suricata_map_raw [OF m(1)] Value
      by (auto simp: List.map_filter_simps line_value_def split: option.splits)
  qed (use Cons in \<open>auto simp: List.map_filter_simps line_value_def\<close>)
qed (simp add: List.map_filter_simps)

section \<open>Properties\<close>

text \<open>
  C32. Snort alerts cross the bridge exactly once: however the polls cut the alert file as it
  grows, partial lines included, the events appended to the output carry, in order, the alert of
  every line that is JSON, each once, provided the lines end in LF and every JSON line is an
  alert object with a textual or no timestamp.
\<close>

theorem snort_exactly_once:
  fixes steps :: "(bytes list \<times> bytes) list"
  defines "ls \<equiv> concat (map fst steps)"
  assumes "\<forall>l\<in>set ls. clean l" and "\<forall>p\<in>set (map snd steps). clean p"
    and "es_offset s = 0" and "list_all (snort_line_ok decode) ls"
  shows "\<exists>new. es_out (snd (run_polls (snort_tail decode clk year) (snapshots [] steps) s)) = es_out s @ new \<and>
     map raw_event new = List.map_filter (line_value decode) ls"
proof -
  have e: "fst (run_polls (snort_tail decode clk year) (snapshots [] steps) s) =
      fst (events_of (snort_lines decode clk year ls (es_bridge s)))"
    using snort_lt.exactly_once [of "[]" steps s decode clk year] assms by simp
  obtain es b where r: "snort_lines decode clk year ls (es_bridge s) = (Inr es, b)"
    using snort_lines_ok [OF assms(5), of clk year "es_bridge s"] by (metis prod.collapse)
  show ?thesis
    using run_polls_out [OF snort_tail_out, where ds = "snapshots [] steps" and s = s] e snort_lines_raw [OF r]
    by (simp add: r events_of_def)
qed

definition alert_line :: "bytes \<Rightarrow> line_text" where
  "alert_line l = (if l = [] then Blank else Value (JObj [(''priority'', JInt (int (length l)))]))"

definition engine_start :: engine_source where
  "engine_start = \<lparr>es_bridge = \<lparr>br_site = [], br_sensor = [], br_seq = 0\<rparr>, es_offset = 0, es_saved = None, es_out = []\<rparr>"

theorem snort_exactly_once_witness:
  "\<exists>new. es_out (snd (run_polls (snort_tail alert_line (clock_at 0) 2026)
        (snapshots [] [([[65]], [66]), ([[66, 67]], [])]) engine_start)) = new \<and>
     map raw_event new = [JObj [(''priority'', JInt 1)], JObj [(''priority'', JInt 2)]]"
  using snort_exactly_once [of "[([[65]], [66]), ([[66, 67]], [])]" engine_start alert_line "clock_at 0" 2026]
  by (simp add: clean_def engine_start_def snort_line_ok_def alert_line_def List.map_filter_simps line_value_def del: snapshots.simps)

text \<open>
  The same for Suricata's EVE file: the appended events carry exactly the records of type
  alert, in order, each once.
\<close>

theorem suricata_exactly_once:
  fixes steps :: "(bytes list \<times> bytes) list"
  defines "ls \<equiv> concat (map fst steps)"
  assumes "\<forall>l\<in>set ls. clean l" and "\<forall>p\<in>set (map snd steps). clean p"
    and "es_offset s = 0" and "list_all (suricata_line_ok decode) ls"
  shows "\<exists>new. es_out (snd (run_polls (suricata_tail decode clk) (snapshots [] steps) s)) = es_out s @ new \<and>
     map raw_event new = filter is_alert_record (List.map_filter (line_value decode) ls)"
proof -
  have e: "fst (run_polls (suricata_tail decode clk) (snapshots [] steps) s) =
      fst (events_of (suricata_lines decode clk ls (es_bridge s)))"
    using suricata_lt.exactly_once [of "[]" steps s decode clk] assms by simp
  obtain es b where r: "suricata_lines decode clk ls (es_bridge s) = (Inr es, b)"
    using suricata_lines_ok [OF assms(5), of clk "es_bridge s"] by (metis prod.collapse)
  show ?thesis
    using run_polls_out [OF suricata_tail_out, where ds = "snapshots [] steps" and s = s] e suricata_lines_raw [OF r]
    by (simp add: r events_of_def)
qed

definition eve_line :: "bytes \<Rightarrow> line_text" where
  "eve_line l = (if l = [] then Blank else if l = [65] then Value (JObj [(''event_type'', JStr ''alert'')])
     else Value (JObj [(''event_type'', JStr ''flow'')]))"

theorem suricata_exactly_once_witness:
  "\<exists>new. es_out (snd (run_polls (suricata_tail eve_line (clock_at 0))
        (snapshots [] [([[65]], [66]), ([[66, 67]], [])]) engine_start)) = new \<and>
     map raw_event new = [JObj [(''event_type'', JStr ''alert'')]]"
  using suricata_exactly_once [of "[([[65]], [66]), ([[66, 67]], [])]" engine_start eve_line "clock_at 0"]
  by (simp add: clean_def engine_start_def suricata_line_ok_def snort_line_ok_def eve_line_def List.map_filter_simps
      line_value_def is_alert_record_def del: snapshots.simps)

text \<open>
  One bad line stops the bridge: when the next pending line of the alert file is JSON but
  not an object, the poll raises AttributeError and leaves offset and output as they were, and
  so does every later poll, however the file grows behind that line.
\<close>

theorem snort_poison_line_blocks:
  assumes "\<forall>x\<in>set (done @ l # later). clean x" and "clean p" and "es_offset s = int (length (unlines done))"
    and "decode l = Value v" and "\<not> is_obj v"
  shows "snort_poll decode clk year (Some (unlines (done @ l # later) @ p)) s = (Inl AttributeError, s)"
proof -
  have ne: "unlines (l # later) @ p \<noteq> []" by simp
  have c: "slice_from (es_offset s) (unlines (done @ l # later) @ p) = unlines (l # later) @ p"
    using assms(3) by (simp add: slice_from_def)
  have ls: "complete_lines (unlines (done @ l # later) @ p) (unlines (l # later) @ p) = l # later"
    using complete_unlines [OF assms(1,2) ne] .
  have len: "\<not> es_offset s > int (length (unlines (done @ l # later) @ p))" using assms(3) by simp
  show ?thesis
    unfolding snort_poll_def option.case Let_def if_not_P [OF len] c if_not_P [OF ne] ls
    using assms(4,5) by (simp add: snort_map_def)
qed

theorem snort_poison_line_blocks_witness:
  "snort_poll (\<lambda>l. Value (JInt 3)) (clock_at 0) 2026 (Some (unlines ([] @ [51] # [[65], [66]]) @ [])) engine_start
     = (Inl AttributeError, engine_start)"
  by (rule snort_poison_line_blocks [where v = "JInt 3"]) (simp_all add: clean_def engine_start_def)

text \<open>
  Why the lines must end in LF: a CR LF counts as one byte, so after reading \<open>n\<close> lines of a
  CR LF file the offset is \<open>n\<close> bytes short, and the tail of the last line is read again.
\<close>

lemma split_crlf:
  "\<forall>l\<in>set ls. clean l \<Longrightarrow> split_lines (concat (map (\<lambda>l. l @ [13, 10]) ls)) [] cr = ls"
proof (induction ls arbitrary: cr)
  case (Cons l ls)
  have "split_lines (l @ rest) [] cr = split_lines rest l False" if "l \<noteq> []" for rest
    using that Cons.prems split_clean [of "tl l" rest "[hd l]"] by (cases l) (auto simp: clean_def)
  moreover have "split_lines (10 # concat (map (\<lambda>l. l @ [13, 10]) ls)) [] True = ls" using Cons by simp
  ultimately show ?case by (cases "l = []") simp_all
qed simp

lemma crlf_offset_short:
  assumes "\<forall>l\<in>set ls. clean l" and "ls \<noteq> []"
  defines "data \<equiv> concat (map (\<lambda>l. l @ [13, 10]) ls)"
  shows "consumed (complete_lines data data) = int (length data) - int (length ls)"
proof -
  have "last data = 10" using assms(2) unfolding data_def by (induction ls rule: rev_induct) auto
  moreover have "data \<noteq> []" using assms(2) by (cases ls) (auto simp: data_def)
  ultimately have "complete_lines data data = ls"
    using split_crlf [OF assms(1)] by (simp add: complete_lines_def ends_with_newline_def splitlines_def data_def)
  moreover have "int (length (concat (map (\<lambda>l. l @ [13, 10 :: 8 word]) ls))) = consumed ls + int (length ls)"
    for ls by (induction ls) auto
  ultimately show ?thesis by (simp add: data_def)
qed

end
