(* ===== verification/Sightings.thy ===== *)
theory Sightings
  imports Jsontext Upload Ioc Engines
begin

text \<open>
  The sighting reporter of the edge agent: \<open>sighting/queue.py\<close>, the JSON-lines file of reports
  that could not be delivered, and \<open>sighting/reporter.py\<close>, which turns CTI events into reports,
  posts them and retries with exponential backoff. The queue file is its text: every operation
  reads it with the JSON reader of \<open>Jsontext\<close> and writes it back. The ingest server is an
  argument: its answer to the \<open>n\<close>-th post of a payload. One call reads the clock once.
\<close>

section \<open>The queue file\<close>

record queued_sighting =
  qs_event_id :: string
  qs_payload :: "(string \<times> json) list"
  qs_attempts :: int
  qs_queued_at :: string
  qs_next_retry_at :: string
  qs_last_error :: "string option"

definition queued_to_dict :: "queued_sighting \<Rightarrow> json" where
  "queued_to_dict i = JObj [(''event_id'', JStr (qs_event_id i)), (''payload'', JObj (qs_payload i)),
     (''attempts'', JInt (qs_attempts i)), (''queued_at'', JStr (qs_queued_at i)),
     (''next_retry_at'', JStr (qs_next_retry_at i)),
     (''last_error'', case qs_last_error i of None \<Rightarrow> JNull | Some e \<Rightarrow> JStr e)]"

definition queued_event_id :: "json \<Rightarrow> json \<Rightarrow> string res" where
  "queued_event_id raw payload =
     (if truthy (jget raw ''event_id'') then Inr (str_or_empty (jget raw ''event_id''))
      else bind_res (jget_res (jget_default payload ''raw_event'' (JObj [])) ''event_id'') (\<lambda>e. Inr (str_or_empty e)))"

definition queued_from_dict :: "string \<Rightarrow> json \<Rightarrow> queued_sighting option res" where
  "queued_from_dict now raw =
     (if \<not> is_obj raw then Inr None
      else let payload = jget raw ''payload'' in
       if \<not> is_obj payload then Inr None
       else bind_res (queued_event_id raw payload) (\<lambda>eid.
         if eid = [] then Inr None
         else bind_res (py_int (py_or (jget raw ''attempts'') (JInt 0))) (\<lambda>attempts. Inr (Some
          \<lparr>qs_event_id = eid, qs_payload = obj_items payload, qs_attempts = attempts,
           qs_queued_at = py_str (py_or (jget raw ''queued_at'') (JStr now)),
           qs_next_retry_at = py_str (py_or (jget raw ''next_retry_at'') (JStr now)),
           qs_last_error = (if truthy (jget raw ''last_error'') then Some (py_str (jget raw ''last_error'')) else None)\<rparr>))))"

text \<open>
  The lines of the file. \<open>splitlines\<close> breaks the text at U+0085 too, which the writer leaves in a line as it is;
  in the program it does so at U+2028 and U+2029, which the texts of the model cannot hold.
\<close>

fun load_lines :: "string \<Rightarrow> string list \<Rightarrow> queued_sighting list res" where
  "load_lines now [] = Inr []"
| "load_lines now (l # ls) =
     (let text = strip l in
      if text = [] then load_lines now ls
      else case loads text of None \<Rightarrow> load_lines now ls
       | Some raw \<Rightarrow> bind_res (queued_from_dict now raw) (\<lambda>item.
           bind_res (load_lines now ls) (\<lambda>rest. Inr (case item of None \<Rightarrow> rest | Some i \<Rightarrow> i # rest))))"

definition load_all :: "string \<Rightarrow> tfile \<Rightarrow> queued_sighting list res" where
  "load_all now f = (case f of NoFile \<Rightarrow> Inr [] | ReadError \<Rightarrow> Inl OSError
     | Text t \<Rightarrow> load_lines now (text_lines t))"

definition queue_text :: "queued_sighting list \<Rightarrow> string" where
  "queue_text items = join_with [CHR 0x0A] (map (\<lambda>i. dumps (queued_to_dict i)) items) @ [CHR 0x0A]"

definition rewrite_queue :: "queued_sighting list \<Rightarrow> tfile" where
  "rewrite_queue items = (if items = [] then NoFile else Text (queue_text items))"

definition enqueue_sighting :: "string \<Rightarrow> queued_sighting \<Rightarrow> tfile \<Rightarrow> tfile res" where
  "enqueue_sighting now item f = bind_res (load_all now f) (\<lambda>existing.
     if list_ex (\<lambda>e. qs_event_id e = qs_event_id item) existing then Inr f
     else Inr (rewrite_queue (existing @ [item])))"

definition remove_sighting :: "string \<Rightarrow> string \<Rightarrow> tfile \<Rightarrow> tfile res" where
  "remove_sighting now eid f =
     (if eid = [] then Inr f
      else bind_res (load_all now f) (\<lambda>items. Inr (rewrite_queue (filter (\<lambda>i. qs_event_id i \<noteq> eid) items))))"

section \<open>The allow list of the agent\<close>

text \<open>
  The agent's copy of the enforcer reads the same file as the sensor's and has the same lookups;
  its \<open>is_event_whitelisted\<close> looks at two more fields of the evidence.
\<close>

definition agent_event_whitelisted :: "enforcer \<Rightarrow> json \<Rightarrow> bool" where
  "agent_event_whitelisted s event =
     (let evidence = obj_field event ''evidence'';
          ioc_value = strip (str_or_empty (jget evidence ''ioc_value''));
          ioc_type = lower (str_or_empty (jget evidence ''ioc_type''));
          domain = strip (str_or_empty (jget evidence ''domain''));
          file_hash = strip (str_or_empty (py_or (jget evidence ''hash'') (jget evidence ''file_hash''))) in
      if is_ip_whitelisted s (str_or_empty (jget event ''src_ip'')) then True
      else if is_ip_whitelisted s (str_or_empty (jget event ''dst_ip'')) then True
      else if ioc_type \<in> {''ipv4'', ''ip'', []} \<and> ioc_value \<noteq> [] \<and> is_ip_whitelisted s ioc_value then True
      else if ioc_type = ''domain'' \<and> is_domain_whitelisted s ioc_value then True
      else if ioc_type = ''hash'' \<and> is_hash_whitelisted s ioc_value then True
      else if domain \<noteq> [] \<and> is_domain_whitelisted s domain then True
      else file_hash \<noteq> [] \<and> is_hash_whitelisted s file_hash)"

section \<open>From an event to a report\<close>

record sighting_config =
  sc_enabled :: bool
  sc_api_key :: string
  sc_source_system :: string
  sc_sensor_id :: string
  sc_site_id :: string
  sc_max_attempts :: int
  sc_backoff_base :: int
  sc_backoff_max :: int
  sc_interval :: int
  sc_snort_enabled :: bool
  sc_suricata_enabled :: bool
  sc_sid_min :: int
  sc_sid_max :: int

definition as_confidence :: "json \<Rightarrow> int \<Rightarrow> int" where
  "as_confidence v fallback = (case py_int v of Inr n \<Rightarrow> n | Inl _ \<Rightarrow> fallback)"

definition percent :: "int \<Rightarrow> json" where
  "percent n = JInt (max 0 (min 100 n))"

definition build_ot019_payload :: "sighting_config \<Rightarrow> json \<Rightarrow> (string \<times> json) list option" where
  "build_ot019_payload cfg event =
     (if str_or_empty (jget event ''rule_id'') \<noteq> ''OT-019'' then None
      else let evidence = obj_field event ''evidence'';
               ioc_type = lower (py_str (py_or (jget evidence ''ioc_type'') (JStr ''ipv4'')));
               ioc_value = strip (str_or_empty (jget evidence ''ioc_value'')) in
       if ioc_value = [] then None
       else let confidence = (if jget evidence ''confidence'' = JNull then jget_default event ''risk_score'' (JInt 80)
                              else jget evidence ''confidence'');
                confidence_int = as_confidence confidence 80;
                severity_int = as_confidence (jget_default event ''risk_score'' (JInt confidence_int)) confidence_int;
                raw_event = JObj
                 [(''event_id'', JStr (str_or_empty (jget event ''event_id''))), (''event_type'', JStr ''cti_ioc_observed''),
                  (''timestamp'', jget event ''timestamp''), (''sensor_id'', JStr (sc_sensor_id cfg)),
                  (''site_id'', JStr (sc_site_id cfg)), (''ioc_type'', JStr ioc_type), (''ioc_value'', JStr ioc_value),
                  (''intel_item_id'', jget evidence ''intel_item_id''),
                  (''artifact_version'', jget evidence ''artifact_version''), (''direction'', jget evidence ''direction''),
                  (''mirror_passive'', jget_default evidence ''mirror_passive'' (JBool True)),
                  (''description'', py_or (jget event ''description'') (JStr ''SenseL OT Edge passive IoC match on mirror'')),
                  (''src_ip'', jget event ''src_ip''), (''dst_ip'', jget event ''dst_ip''), (''dst_port'', jget event ''dst_port''),
                  (''protocol'', jget event ''protocol''), (''asset_name'', JStr (sc_sensor_id cfg))]
            in Some [(''source_system'', JStr (sc_source_system cfg)), (''raw_event'', raw_event),
                 (''defaults'', JObj [(''source_event_type'', JStr ''CTI_IOC_OBSERVED''),
                    (''confidence'', percent confidence_int), (''severity'', percent severity_int)])])"

definition str_or_null :: "string \<Rightarrow> json" where
  "str_or_null s = (if s = [] then JNull else JStr s)"

definition engine_enabled :: "sighting_config \<Rightarrow> string \<Rightarrow> bool" where
  "engine_enabled cfg engine = (if engine = ''snort'' then sc_snort_enabled cfg
     else engine = ''suricata'' \<and> sc_suricata_enabled cfg)"

definition build_external_cti_payload :: "sighting_config \<Rightarrow> string \<Rightarrow> json \<Rightarrow> (string \<times> json) list option" where
  "build_external_cti_payload cfg engine event =
     (if \<not> engine_enabled cfg engine \<or> sc_sid_max cfg \<le> 0 then None
      else let evidence = obj_field event ''evidence'' in
       case py_int (jget evidence ''sid'') of Inl _ \<Rightarrow> None
       | Inr sid \<Rightarrow>
        if \<not> (sc_sid_min cfg \<le> sid \<and> sid \<le> sc_sid_max cfg) then None
        else let dst_ip = strip (str_or_empty (jget event ''dst_ip'')); src_ip = strip (str_or_empty (jget event ''src_ip'')) in
         if dst_ip = [] \<and> src_ip = [] then None
         else let (ioc_value, matched_field) = (if dst_ip \<noteq> [] then (dst_ip, ''dst_ip'') else (src_ip, ''src_ip''));
                  confidence_int = as_confidence (jget event ''risk_score'') 80;
                  raw_event = JObj
                   [(''event_id'', JStr (str_or_empty (jget event ''event_id''))),
                    (''event_type'', JStr (engine @ ''_cti_observed'')),
                    (''timestamp'', jget event ''timestamp''), (''sensor_id'', JStr (sc_sensor_id cfg)),
                    (''site_id'', JStr (sc_site_id cfg)), (''ioc_type'', JStr ''ipv4''), (''ioc_value'', JStr ioc_value),
                    (''matched_field'', JStr matched_field), (''engine'', JStr engine), (''rule_id'', jget event ''rule_id''),
                    (''sid'', JInt sid), (''gid'', jget evidence ''gid''),
                    (''classtype'', py_or (jget evidence ''classtype'') (jget evidence ''category'')),
                    (''description'', py_or (jget event ''description'') (JStr (''SenseL NDR Edge '' @ engine @ '' CTI rule hit''))),
                    (''src_ip'', str_or_null src_ip), (''dst_ip'', str_or_null dst_ip), (''dst_port'', jget event ''dst_port''),
                    (''protocol'', jget event ''protocol''), (''asset_name'', JStr (sc_sensor_id cfg))]
              in Some [(''source_system'', JStr (sc_source_system cfg)), (''raw_event'', raw_event),
                   (''defaults'', JObj [(''source_event_type'', JStr (upper engine @ ''_CTI_OBSERVED'')),
                      (''confidence'', percent confidence_int), (''severity'', percent confidence_int)])])"

definition build_sighting_ingest_payload :: "sighting_config \<Rightarrow> json \<Rightarrow> (string \<times> json) list option" where
  "build_sighting_ingest_payload cfg event =
     (let event_type = str_or_empty (jget event ''event_type'') in
      if event_type = ''CTI_IOC_OBSERVED'' then build_ot019_payload cfg event
      else if event_type = ''SNORT_ALERT'' then build_external_cti_payload cfg ''snort'' event
      else if event_type = ''SURICATA_ALERT'' then build_external_cti_payload cfg ''suricata'' event
      else None)"

section \<open>Posting and retrying\<close>

datatype http_reply = HttpError string | HttpReply int string "json option"

record ingest_result =
  ir_ok :: bool
  ir_status :: int
  ir_sighting_id :: "string option"
  ir_matched :: json
  ir_error :: "string option"

definition ingest_failed :: "int \<Rightarrow> string \<Rightarrow> ingest_result" where
  "ingest_failed code e = \<lparr>ir_ok = False, ir_status = code, ir_sighting_id = None, ir_matched = JNull, ir_error = Some e\<rparr>"

definition reply_sighting_id :: "json \<Rightarrow> string option" where
  "reply_sighting_id body = (let sighting = (if is_obj body then jget body ''sighting'' else JNull);
       s = str_or_empty (jget sighting ''sighting_id'') in
     if is_obj sighting \<and> s \<noteq> [] then Some s else None)"

definition reply_matched :: "json \<Rightarrow> json" where
  "reply_matched body = (let correlation = (if is_obj body then jget body ''correlation'' else JNull) in
     if is_obj correlation then jget correlation ''matched'' else JNull)"

definition post_ingest :: "http_reply \<Rightarrow> ingest_result" where
  "post_ingest reply = (case reply of HttpError e \<Rightarrow> ingest_failed 0 e
     | HttpReply code text body \<Rightarrow>
        if 400 \<le> code then
          (let detail = take 300 text in ingest_failed code (if detail = [] then ''HTTP '' @ dec_int code else detail))
        else \<lparr>ir_ok = True, ir_status = code,
               ir_sighting_id = (case body of None \<Rightarrow> None | Some b \<Rightarrow> reply_sighting_id b),
               ir_matched = (case body of None \<Rightarrow> JNull | Some b \<Rightarrow> reply_matched b), ir_error = None\<rparr>)"

definition backoff_sec :: "sighting_config \<Rightarrow> int \<Rightarrow> int" where
  "backoff_sec cfg attempts = min (sc_backoff_max cfg) (sc_backoff_base cfg * 2 ^ nat (max (attempts - 1) 0))"

definition second :: int where
  "second = 1000000"

definition schedule_retry :: "sighting_config \<Rightarrow> int \<Rightarrow> queued_sighting \<Rightarrow> string \<Rightarrow> queued_sighting res" where
  "schedule_retry cfg now item e =
     (let attempts = qs_attempts item + 1 in
      bind_res (utc_iso (now + backoff_sec cfg attempts * second)) (\<lambda>retry_at. Inr
        \<lparr>qs_event_id = qs_event_id item, qs_payload = qs_payload item, qs_attempts = attempts,
         qs_queued_at = qs_queued_at item, qs_next_retry_at = retry_at, qs_last_error = Some (take 500 e)\<rparr>))"

definition retry_due :: "int \<Rightarrow> queued_sighting \<Rightarrow> bool" where
  "retry_due now item =
     (let text = qs_next_retry_at item;
          text = (if text \<noteq> [] \<and> last text = CHR ''Z''
                  then concat (map (\<lambda>c. if c = CHR ''Z'' then ''+00:00'' else [c]) text) else text) in
      case fromisoformat text of None \<Rightarrow> True
      | Some d \<Rightarrow> (case instant d of Naive t \<Rightarrow> t \<le> now | Aware t \<Rightarrow> t \<le> now))"

record reporter =
  rp_queue :: tfile
  rp_tailers :: "event_tailer list"
  rp_last_flush :: pyfloat
  rp_listfile :: "enforcer option"
  rp_posts :: "(string \<times> json) list list"

text \<open>What one call sees: the clocks, the answers of the server, the event files and the allow list.\<close>

record agent_world =
  aw_now :: int
  aw_now_text :: string
  aw_mono :: pyfloat
  aw_server :: "nat \<Rightarrow> (string \<times> json) list \<Rightarrow> http_reply"
  aw_events :: "bytes option list"
  aw_decode :: "bytes \<Rightarrow> line_text"
  aw_allow :: allow_files

definition reporter_init :: "sighting_config \<Rightarrow> enforcer option \<Rightarrow> tfile \<Rightarrow> tfile list \<Rightarrow> reporter res" where
  "reporter_init cfg listfile queue offsets =
     (let wanted = [True, sc_snort_enabled cfg, sc_suricata_enabled cfg];
          files = map snd (filter fst (zip wanted offsets)) in
      bind_res (fold_res (\<lambda>f ts. bind_res (event_tailer_init f) (\<lambda>t. Inr (ts @ [t]))) files []) (\<lambda>ts. Inr
        \<lparr>rp_queue = queue, rp_tailers = ts, rp_last_flush = 0, rp_listfile = listfile, rp_posts = []\<rparr>))"

definition reporter_enabled :: "sighting_config \<Rightarrow> bool" where
  "reporter_enabled cfg = (sc_enabled cfg \<and> strip (sc_api_key cfg) \<noteq> [])"

definition post_payload :: "agent_world \<Rightarrow> (string \<times> json) list \<Rightarrow> reporter \<Rightarrow> ingest_result \<times> reporter" where
  "post_payload w payload s =
     (post_ingest (aw_server w (length (rp_posts s)) payload), s\<lparr>rp_posts := rp_posts s @ [payload]\<rparr>)"

definition result_error :: "ingest_result \<Rightarrow> string" where
  "result_error r = (case ir_error r of None \<Rightarrow> ''unknown error'' | Some e \<Rightarrow> if e = [] then ''unknown error'' else e)"

definition new_sighting :: "agent_world \<Rightarrow> string \<Rightarrow> (string \<times> json) list \<Rightarrow> queued_sighting" where
  "new_sighting w eid payload = \<lparr>qs_event_id = eid, qs_payload = payload, qs_attempts = 0,
     qs_queued_at = aw_now_text w, qs_next_retry_at = aw_now_text w, qs_last_error = None\<rparr>"

text \<open>\<open>_submit\<close>: whether the report was accepted, and the queue file afterwards.\<close>

definition put_queue :: "'a \<Rightarrow> tfile res \<Rightarrow> reporter \<Rightarrow> 'a res \<times> reporter" where
  "put_queue v q s = (case q of Inl e \<Rightarrow> (Inl e, s) | Inr f \<Rightarrow> (Inr v, s\<lparr>rp_queue := f\<rparr>))"

definition after_failure :: "sighting_config \<Rightarrow> agent_world \<Rightarrow> (string \<times> json) list \<Rightarrow> string \<Rightarrow> string \<Rightarrow> tfile \<Rightarrow> tfile res" where
  "after_failure cfg w payload eid e f =
     bind_res (load_all (aw_now_text w) f) (\<lambda>items.
       let existing = find (\<lambda>i. qs_event_id i = eid) items in
       if (case existing of Some i \<Rightarrow> sc_max_attempts cfg \<le> qs_attempts i | None \<Rightarrow> False)
       then remove_sighting (aw_now_text w) eid f
       else bind_res (schedule_retry cfg (aw_now w) (case existing of Some i \<Rightarrow> i | None \<Rightarrow> new_sighting w eid payload) e)
         (\<lambda>updated. if sc_max_attempts cfg \<le> qs_attempts updated then remove_sighting (aw_now_text w) eid f
            else Inr (rewrite_queue (filter (\<lambda>i. qs_event_id i \<noteq> eid) items @ [updated]))))"

definition submit :: "sighting_config \<Rightarrow> agent_world \<Rightarrow> (string \<times> json) list \<Rightarrow> string \<Rightarrow> reporter \<Rightarrow> bool res \<times> reporter" where
  "submit cfg w payload eid s = (case post_payload w payload s of (r, s) \<Rightarrow>
     if ir_ok r then put_queue True (remove_sighting (aw_now_text w) eid (rp_queue s)) s
     else put_queue False (after_failure cfg w payload eid (result_error r) (rp_queue s)) s)"

text \<open>One event of an event file; a line that is not a JSON object has no \<open>get\<close>.\<close>

definition sighting_event_id :: "json \<Rightarrow> (string \<times> json) list \<Rightarrow> string" where
  "sighting_event_id event payload = str_or_empty (py_or (jget event ''event_id'') (jget (jget (JObj payload) ''raw_event'') ''event_id''))"

definition report_event :: "sighting_config \<Rightarrow> agent_world \<Rightarrow> json \<Rightarrow> reporter \<Rightarrow> nat res \<times> reporter" where
  "report_event cfg w event s =
     (if \<not> is_obj event then (Inl AttributeError, s)
      else if (case rp_listfile s of Some en \<Rightarrow> agent_event_whitelisted en event | None \<Rightarrow> False) then (Inr 0, s)
      else case build_sighting_ingest_payload cfg event of None \<Rightarrow> (Inr 0, s)
       | Some payload \<Rightarrow> let eid = sighting_event_id event payload in
          if eid = [] then (Inr 0, s)
          else (case submit cfg w payload eid s of
              (Inl e, s) \<Rightarrow> (Inl e, s) | (Inr b, s) \<Rightarrow> (Inr (if b then 1 else 0), s)))"

fun report_events :: "sighting_config \<Rightarrow> agent_world \<Rightarrow> json list \<Rightarrow> reporter \<Rightarrow> nat res \<times> reporter" where
  "report_events cfg w [] s = (Inr 0, s)"
| "report_events cfg w (e # es) s = (case report_event cfg w e s of (Inl x, s) \<Rightarrow> (Inl x, s)
     | (Inr n, s) \<Rightarrow> (case report_events cfg w es s of (Inl x, s) \<Rightarrow> (Inl x, s) | (Inr m, s) \<Rightarrow> (Inr (n + m), s)))"

text \<open>The tailer saves its offset before the first of its events is handled.\<close>

definition follow_file :: "sighting_config \<Rightarrow> agent_world \<Rightarrow> nat \<Rightarrow> reporter \<Rightarrow> nat res \<times> reporter" where
  "follow_file cfg w k s = (case pending_events (aw_decode w) (aw_events w ! k) (rp_tailers s ! k) of (es, t) \<Rightarrow>
     report_events cfg w es (s\<lparr>rp_tailers := (rp_tailers s)[k := t]\<rparr>))"

fun follow_files :: "sighting_config \<Rightarrow> agent_world \<Rightarrow> nat list \<Rightarrow> reporter \<Rightarrow> nat res \<times> reporter" where
  "follow_files cfg w [] s = (Inr 0, s)"
| "follow_files cfg w (k # ks) s = (case follow_file cfg w k s of (Inl x, s) \<Rightarrow> (Inl x, s)
     | (Inr n, s) \<Rightarrow> (case follow_files cfg w ks s of (Inl x, s) \<Rightarrow> (Inl x, s) | (Inr m, s) \<Rightarrow> (Inr (n + m), s)))"

definition reload_allow :: "agent_world \<Rightarrow> reporter \<Rightarrow> py_error option \<times> reporter" where
  "reload_allow w s = (case rp_listfile s of None \<Rightarrow> (None, s)
     | Some en \<Rightarrow> (case enforcer_reload False (aw_mono w) (aw_allow w) en of
          (Inl e, en) \<Rightarrow> (Some e, s\<lparr>rp_listfile := Some en\<rparr>) | (Inr _, en) \<Rightarrow> (None, s\<lparr>rp_listfile := Some en\<rparr>)))"

definition process_new_events :: "sighting_config \<Rightarrow> agent_world \<Rightarrow> reporter \<Rightarrow> nat res \<times> reporter" where
  "process_new_events cfg w s =
     (if \<not> reporter_enabled cfg then (Inr 0, s)
      else case reload_allow w s of (Some e, s) \<Rightarrow> (Inl e, s)
       | (None, s) \<Rightarrow> follow_files cfg w [0..<length (rp_tailers s)] s)"

text \<open>The loop of \<open>flush_queue\<close>: how many reports were accepted and what stays in the queue.\<close>

fun flush_items :: "sighting_config \<Rightarrow> agent_world \<Rightarrow> queued_sighting list \<Rightarrow> reporter \<Rightarrow>
    (nat \<times> queued_sighting list) res \<times> reporter" where
  "flush_items cfg w [] s = (Inr (0, []), s)"
| "flush_items cfg w (i # items) s =
     (let keep = (\<lambda>n kept s. case flush_items cfg w items s of (Inl e, s) \<Rightarrow> (Inl e, s)
            | (Inr (m, rest), s) \<Rightarrow> (Inr (n + m, kept @ rest), s)) in
      if sc_max_attempts cfg \<le> qs_attempts i then keep 0 [] s
      else if \<not> retry_due (aw_now w) i then keep 0 [i] s
      else (case post_payload w (qs_payload i) s of (r, s) \<Rightarrow>
        if ir_ok r then keep 1 [] s
        else (case schedule_retry cfg (aw_now w) i (result_error r) of Inl e \<Rightarrow> (Inl e, s)
          | Inr updated \<Rightarrow> if sc_max_attempts cfg \<le> qs_attempts updated then keep 0 [] s else keep 0 [updated] s)))"

definition flush_queue :: "sighting_config \<Rightarrow> agent_world \<Rightarrow> reporter \<Rightarrow> nat res \<times> reporter" where
  "flush_queue cfg w s =
     (if \<not> reporter_enabled cfg then (Inr 0, s)
      else case load_all (aw_now_text w) (rp_queue s) of Inl e \<Rightarrow> (Inl e, s)
       | Inr [] \<Rightarrow> (Inr 0, s)
       | Inr pending \<Rightarrow> (case flush_items cfg w pending s of (Inl e, s) \<Rightarrow> (Inl e, s)
           | (Inr (n, remaining), s) \<Rightarrow> (Inr n, s\<lparr>rp_queue := rewrite_queue remaining\<rparr>)))"

definition run_cycle :: "sighting_config \<Rightarrow> bool \<Rightarrow> agent_world \<Rightarrow> reporter \<Rightarrow> py_error option \<times> reporter" where
  "run_cycle cfg force w s =
     (if \<not> reporter_enabled cfg then (None, s)
      else case process_new_events cfg w s of (Inl e, s) \<Rightarrow> (Some e, s)
       | (Inr _, s) \<Rightarrow>
          if force \<or> of_int (sc_interval cfg) \<le> aw_mono w - rp_last_flush s
          then (case flush_queue cfg w s of (Inl e, s) \<Rightarrow> (Some e, s)
             | (Inr _, s) \<Rightarrow> (None, s\<lparr>rp_last_flush := aw_mono w\<rparr>))
          else (None, s))"

section \<open>Reading the queue back\<close>

text \<open>What the reporter writes into the queue: texts that stay on one line and read back as they are.\<close>

definition storable :: "(string \<times> json) list \<Rightarrow> bool" where
  "storable payload = (plain (JObj payload) \<and> one_line (JObj payload))"

definition sound_text :: "string \<Rightarrow> bool" where
  "sound_text s = (s \<noteq> [] \<and> nel_free s)"

definition sighting_ok :: "queued_sighting \<Rightarrow> bool" where
  "sighting_ok i = (storable (qs_payload i) \<and> sound_text (qs_event_id i) \<and> sound_text (qs_queued_at i) \<and>
     sound_text (qs_next_retry_at i) \<and> (\<forall>e. qs_last_error i = Some e \<longrightarrow> sound_text e))"

lemma queued_from_to_dict: "sighting_ok i \<Longrightarrow> queued_from_dict now (queued_to_dict i) = Inr (Some i)"
  by (cases i) (auto simp: sighting_ok_def sound_text_def queued_from_dict_def queued_to_dict_def queued_event_id_def
      py_or_def Let_def split: option.splits)

lemma queued_plain: "sighting_ok i \<Longrightarrow> plain (queued_to_dict i) \<and> one_line (queued_to_dict i)"
  by (auto simp: sighting_ok_def storable_def sound_text_def queued_to_dict_def nel_free_def split: option.splits)

lemma queue_text_concat:
  "items \<noteq> [] \<Longrightarrow> queue_text items = concat (map (\<lambda>l. l @ [CHR 0x0A]) (map (\<lambda>i. dumps (queued_to_dict i)) items))"
proof -
  have "ls \<noteq> [] \<Longrightarrow> join_with [CHR 0x0A] ls @ [CHR 0x0A] = concat (map (\<lambda>l. l @ [CHR 0x0A]) ls)" for ls
    by (induction "[CHR 0x0A]" ls rule: join_with.induct) auto
  then show "items \<noteq> [] \<Longrightarrow> ?thesis" by (simp add: queue_text_def del: map_map)
qed

lemma load_lines_written:
  "\<forall>i\<in>set items. sighting_ok i \<Longrightarrow> load_lines now (map (\<lambda>i. dumps (queued_to_dict i)) items) = Inr items"
proof (induction items)
  case (Cons i items)
  then have ok: "sighting_ok i" by simp
  obtain d where d: "queued_to_dict i = JObj d" by (simp add: queued_to_dict_def)
  have "loads (dumps (queued_to_dict i)) = Some (queued_to_dict i)" using loads_dumps queued_plain [OF ok] by blast
  moreover have "strip (dumps (queued_to_dict i)) = dumps (queued_to_dict i)" unfolding d by (rule strip_object)
  moreover have "dumps (queued_to_dict i) \<noteq> []" by (simp add: d)
  ultimately show ?case using Cons queued_from_to_dict [OF ok] by (simp add: Let_def del: dumps.simps)
qed simp

lemma load_rewritten: "\<forall>i\<in>set items. sighting_ok i \<Longrightarrow> load_all now (rewrite_queue items) = Inr items"
proof (cases "items = []")
  case False
  assume ok: "\<forall>i\<in>set items. sighting_ok i"
  then have "\<forall>l\<in>set (map (\<lambda>i. dumps (queued_to_dict i)) items). unbroken l"
    using queued_plain dumps_unbroken by auto
  then show ?thesis
    using False load_lines_written [OF ok]
    by (simp add: load_all_def rewrite_queue_def queue_text_concat text_lines_concat del: map_map)
qed (simp add: load_all_def rewrite_queue_def)

section \<open>The queue as a table of pending reports\<close>

definition queue_holds :: "sighting_config \<Rightarrow> tfile \<Rightarrow> queued_sighting list \<Rightarrow> bool" where
  "queue_holds cfg f items = (f = rewrite_queue items \<and> distinct (map qs_event_id items) \<and>
     (\<forall>i\<in>set items. sighting_ok i \<and> 0 \<le> qs_attempts i \<and> qs_attempts i < sc_max_attempts cfg))"

definition pending_of :: "queued_sighting list \<Rightarrow> string \<Rightarrow> ((string \<times> json) list \<times> int) option" where
  "pending_of items e = map_option (\<lambda>i. (qs_payload i, qs_attempts i)) (find (\<lambda>i. qs_event_id i = e) items)"

definition sane_config :: "sighting_config \<Rightarrow> bool" where
  "sane_config cfg = (0 \<le> sc_backoff_base cfg \<and> 0 \<le> sc_backoff_max cfg)"

definition in_calendar :: "sighting_config \<Rightarrow> int \<Rightarrow> bool" where
  "in_calendar cfg now = (year_start 1 * 86400000000 \<le> now \<and>
     now + sc_backoff_max cfg * second < year_start 10000 * 86400000000)"

definition sound_world :: "sighting_config \<Rightarrow> agent_world \<Rightarrow> bool" where
  "sound_world cfg w = (in_calendar cfg (aw_now w) \<and> sound_text (aw_now_text w) \<and>
     (\<forall>n p. nel_free (result_error (post_ingest (aw_server w n p)))))"

lemma backoff_bounds: "sane_config cfg \<Longrightarrow> 0 \<le> backoff_sec cfg n \<and> backoff_sec cfg n \<le> sc_backoff_max cfg"
  by (simp add: sane_config_def backoff_sec_def)

lemma isoformat_text:
  assumes "utc_valid d"
  shows "sound_text (isoformat d)" and "isoformat d \<noteq> [] \<and> last (isoformat d) = CHR ''0''"
proof -
  have off: "iso_offset (Some 0) = ''+00:00''" by (simp add: iso_offset_def zpad_def dec.simps [of 0] digit_char_def)
  have nel: "CHR 0x85 \<notin> set (zpad k n)" for k n
    using zpad_all_digits [of "CHR 0x85" k n] by (auto simp: is_digit_def chr_code_def)
  show "sound_text (isoformat d)" "isoformat d \<noteq> [] \<and> last (isoformat d) = CHR ''0''"
    using assms nel by (auto simp: sound_text_def nel_free_def isoformat_def utc_valid_def off)
qed

text \<open>One failed attempt: counted, and put off by the backoff.\<close>

lemma schedule_retry_ok:
  assumes "sane_config cfg" and "in_calendar cfg now"
  obtains updated where "schedule_retry cfg now item e = Inr updated" and "qs_attempts updated = qs_attempts item + 1"
    and "qs_event_id updated = qs_event_id item" and "qs_payload updated = qs_payload item"
    and "qs_last_error updated = Some (take 500 e)" and "qs_queued_at updated = qs_queued_at item"
    and "sound_text (qs_next_retry_at updated)"
    and "\<And>later. retry_due later updated \<longleftrightarrow> now + backoff_sec cfg (qs_attempts item + 1) * second \<le> later"
proof -
  let ?t = "now + backoff_sec cfg (qs_attempts item + 1) * second"
  have b: "0 \<le> backoff_sec cfg (qs_attempts item + 1) * second"
    "backoff_sec cfg (qs_attempts item + 1) * second \<le> sc_backoff_max cfg * second"
    using backoff_bounds [OF assms(1)] by (simp_all add: second_def)
  have "year_start 1 * 86400000000 \<le> ?t" "?t < year_start 10000 * 86400000000"
    using assms(2) b unfolding in_calendar_def by linarith+
  then obtain s where s: "utc_iso ?t = Inr s" using utc_iso_total by blast
  then obtain d where d: "s = isoformat d" "fromisoformat s = Some d" "instant d = Aware ?t" "utc_valid d"
    using utc_of_micros_sound [of ?t] by (auto simp: utc_iso_def fromisoformat_isoformat split: option.splits)
  let ?u = "\<lparr>qs_event_id = qs_event_id item, qs_payload = qs_payload item, qs_attempts = qs_attempts item + 1,
         qs_queued_at = qs_queued_at item, qs_next_retry_at = s, qs_last_error = Some (take 500 e)\<rparr>"
  have l: "last s = CHR ''0''" using isoformat_text(2) [OF d(4)] d(1) by simp
  have "retry_due later ?u \<longleftrightarrow> ?t \<le> later" for later
    using d(2,3) l by (simp add: retry_due_def Let_def)
  then show thesis using that [of ?u] s isoformat_text(1) [OF d(4)] d(1) by (simp add: schedule_retry_def Let_def)
qed

lemma find_filter_id:
  "find (\<lambda>i. qs_event_id i = e) (filter (\<lambda>i. qs_event_id i \<noteq> e') items) =
     (if e = e' then None else find (\<lambda>i. qs_event_id i = e) items)"
  by (induction items) auto

lemma find_append: "find P (xs @ ys) = (case find P xs of None \<Rightarrow> find P ys | Some x \<Rightarrow> Some x)"
  by (induction xs) auto

lemma pending_without: "pending_of (filter (\<lambda>i. qs_event_id i \<noteq> e) items) = (pending_of items)(e := None)"
  by (rule ext) (simp add: pending_of_def find_filter_id)

lemma pending_replace:
  "qs_event_id u = e \<Longrightarrow> pending_of (filter (\<lambda>i. qs_event_id i \<noteq> e) items @ [u]) =
     (pending_of items)(e \<mapsto> (qs_payload u, qs_attempts u))"
  by (rule ext) (simp add: pending_of_def find_append find_filter_id split: option.split)

lemma queue_holds_load: "queue_holds cfg f items \<Longrightarrow> load_all now f = Inr items"
  by (simp add: queue_holds_def load_rewritten)

lemma queue_holds_filter:
  "queue_holds cfg f items \<Longrightarrow> queue_holds cfg (rewrite_queue (filter P items)) (filter P items)"
  by (auto simp: queue_holds_def distinct_map_filter)

lemma remove_holds:
  "queue_holds cfg f items \<Longrightarrow> e \<noteq> [] \<Longrightarrow>
     remove_sighting now e f = Inr (rewrite_queue (filter (\<lambda>i. qs_event_id i \<noteq> e) items))"
  by (simp add: remove_sighting_def queue_holds_load)

text \<open>The table after a failed post: the report enters with one attempt, or counts one more, until it has too many.\<close>

definition one_more :: "sighting_config \<Rightarrow> (string \<times> json) list \<Rightarrow> ((string \<times> json) list \<times> int) option \<Rightarrow>
    ((string \<times> json) list \<times> int) option" where
  "one_more cfg payload old = (let (p, n) = (case old of None \<Rightarrow> (payload, 0) | Some q \<Rightarrow> q) in
     if n + 1 < sc_max_attempts cfg then Some (p, n + 1) else None)"

lemma updated_ok:
  assumes "sighting_ok i" and "qs_event_id u = qs_event_id i" and "qs_payload u = qs_payload i"
    and "qs_queued_at u = qs_queued_at i" and "sound_text (qs_next_retry_at u)" and "qs_last_error u = Some (take 500 e)"
    and "sound_text e"
  shows "sighting_ok u"
  using assms by (auto simp: sighting_ok_def sound_text_def nel_free_def dest: in_set_takeD)

lemma result_error_text: "sound_world cfg w \<Longrightarrow> sound_text (result_error (post_ingest (aw_server w n p)))"
  by (auto simp: sound_world_def sound_text_def result_error_def split: option.split)

lemma after_failure_holds:
  assumes "queue_holds cfg f items" and "sane_config cfg" and "in_calendar cfg (aw_now w)" and "sound_text (aw_now_text w)"
    and "sound_text eid" and "storable payload" and "sound_text e"
  shows "\<exists>items'. after_failure cfg w payload eid e f = Inr (rewrite_queue items') \<and>
     queue_holds cfg (rewrite_queue items') items' \<and>
     pending_of items' = (pending_of items)(eid := one_more cfg payload (pending_of items eid))"
proof -
  define old where "old = find (\<lambda>i. qs_event_id i = eid) items"
  define i where "i = (case old of Some i \<Rightarrow> i | None \<Rightarrow> new_sighting w eid payload)"
  define kept where "kept = filter (\<lambda>i. qs_event_id i \<noteq> eid) items"
  have all: "\<forall>i\<in>set items. sighting_ok i \<and> 0 \<le> qs_attempts i \<and> qs_attempts i < sc_max_attempts cfg"
    using assms(1) by (simp add: queue_holds_def)
  have found: "j \<in> set items \<and> qs_event_id j = eid" if "old = Some j" for j
    using that unfolding old_def by (auto simp: find_Some_iff)
  have i_ok: "sighting_ok i" "qs_event_id i = eid" "0 \<le> qs_attempts i"
    using found all assms by (cases old; auto simp: i_def new_sighting_def sighting_ok_def sound_text_def nel_free_def)+
  have few: "(case old of Some i \<Rightarrow> sc_max_attempts cfg \<le> qs_attempts i | None \<Rightarrow> False) = False"
    using found all by (force split: option.split)
  have onem: "one_more cfg payload (pending_of items eid) =
      (if qs_attempts i + 1 < sc_max_attempts cfg then Some (qs_payload i, qs_attempts i + 1) else None)"
    by (simp add: one_more_def pending_of_def old_def [symmetric] i_def new_sighting_def split: option.split)
  obtain u where u: "schedule_retry cfg (aw_now w) i e = Inr u" "qs_attempts u = qs_attempts i + 1"
    "qs_event_id u = qs_event_id i" "qs_payload u = qs_payload i" "qs_last_error u = Some (take 500 e)"
    "qs_queued_at u = qs_queued_at i" "sound_text (qs_next_retry_at u)"
    using schedule_retry_ok [OF assms(2,3), of i e] by metis
  have kept_holds: "queue_holds cfg (rewrite_queue kept) kept"
    unfolding kept_def by (rule queue_holds_filter [OF assms(1)])
  have run: "after_failure cfg w payload eid e f = Inr (rewrite_queue
      (if sc_max_attempts cfg \<le> qs_attempts u then kept else kept @ [u]))"
    using assms(5) u(1) remove_holds [OF assms(1), of eid "aw_now_text w"] few
    by (simp add: after_failure_def queue_holds_load [OF assms(1)] Let_def old_def [symmetric] i_def [symmetric] kept_def
        sound_text_def)
  show ?thesis
  proof (cases "sc_max_attempts cfg \<le> qs_attempts u")
    case True
    then show ?thesis using run kept_holds onem u(2) pending_without [of eid items] by (auto simp: kept_def)
  next
    case False
    have "sighting_ok u" by (rule updated_ok [OF i_ok(1) u(3,4,6,7,5) assms(7)])
    then have "queue_holds cfg (rewrite_queue (kept @ [u])) (kept @ [u])"
      using kept_holds u i_ok False by (auto simp: queue_holds_def kept_def)
    then show ?thesis using run onem u(2,4) False pending_replace [of u eid items] u(3) i_ok(2) by (auto simp: kept_def)
  qed
qed

lemma submit_holds:
  assumes "queue_holds cfg (rp_queue s) items" and "sane_config cfg" and "sound_world cfg w"
    and "sound_text eid" and "storable payload"
  defines "b \<equiv> ir_ok (post_ingest (aw_server w (length (rp_posts s)) payload))"
  shows "\<exists>items'. submit cfg w payload eid s =
       (Inr b, s\<lparr>rp_queue := rewrite_queue items', rp_posts := rp_posts s @ [payload]\<rparr>) \<and>
     queue_holds cfg (rewrite_queue items') items' \<and>
     pending_of items' = (pending_of items)
       (eid := if b then None else one_more cfg payload (pending_of items eid))"
proof (cases b)
  case True
  have e: "eid \<noteq> []" using assms(4) by (simp add: sound_text_def)
  show ?thesis
    using True queue_holds_filter [OF assms(1)] pending_without [of eid items]
    by (intro exI [of _ "filter (\<lambda>i. qs_event_id i \<noteq> eid) items"])
      (simp add: submit_def post_payload_def b_def put_queue_def remove_holds [OF assms(1) e])
next
  case False
  have t: "sound_text (aw_now_text w)" "in_calendar cfg (aw_now w)" using assms(3) by (simp_all add: sound_world_def)
  obtain items' where "after_failure cfg w payload eid
       (result_error (post_ingest (aw_server w (length (rp_posts s)) payload))) (rp_queue s) = Inr (rewrite_queue items') \<and>
     queue_holds cfg (rewrite_queue items') items' \<and>
     pending_of items' = (pending_of items)(eid := one_more cfg payload (pending_of items eid))"
    using after_failure_holds [OF assms(1,2) t(2,1) assms(4,5) result_error_text [OF assms(3)]] by blast
  then show ?thesis using False
    by (intro exI [of _ items']) (simp add: submit_def post_payload_def b_def put_queue_def)
qed

section \<open>Flushing the queue\<close>

text \<open>The attempts the queued reports have left.\<close>

definition attempts_left :: "sighting_config \<Rightarrow> queued_sighting list \<Rightarrow> nat" where
  "attempts_left cfg items = sum_list (map (\<lambda>i. nat (sc_max_attempts cfg - qs_attempts i)) items)"

definition queued_ok :: "sighting_config \<Rightarrow> queued_sighting \<Rightarrow> bool" where
  "queued_ok cfg i = (sighting_ok i \<and> 0 \<le> qs_attempts i \<and> qs_attempts i < sc_max_attempts cfg)"

definition tried_again :: "sighting_config \<Rightarrow> int \<Rightarrow> queued_sighting \<Rightarrow> queued_sighting \<Rightarrow> bool" where
  "tried_again cfg now j i = (qs_attempts i = qs_attempts j + 1 \<and>
     (\<forall>later. now + sc_backoff_max cfg * second \<le> later \<longrightarrow> retry_due later i))"

lemma tried_again_sched:
  assumes "sane_config cfg" and "sound_world cfg w" and "queued_ok cfg j" and "sound_text e"
  obtains u where "schedule_retry cfg (aw_now w) j e = Inr u" and "tried_again cfg (aw_now w) j u"
    and "qs_event_id u = qs_event_id j" and "sighting_ok u"
proof -
  have c: "in_calendar cfg (aw_now w)" using assms(2) by (simp add: sound_world_def)
  obtain u where u: "schedule_retry cfg (aw_now w) j e = Inr u" "qs_attempts u = qs_attempts j + 1"
    "qs_event_id u = qs_event_id j" "qs_payload u = qs_payload j" "qs_last_error u = Some (take 500 e)"
    "qs_queued_at u = qs_queued_at j" "sound_text (qs_next_retry_at u)"
    "\<And>later. retry_due later u \<longleftrightarrow> aw_now w + backoff_sec cfg (qs_attempts j + 1) * second \<le> later"
    using schedule_retry_ok [OF assms(1) c, of j e] by metis
  have j: "sighting_ok j" using assms(3) by (simp add: queued_ok_def)
  have ok: "sighting_ok u" by (rule updated_ok [OF j u(3,4,6,7,5) assms(4)])
  have "backoff_sec cfg (qs_attempts j + 1) * second \<le> sc_backoff_max cfg * second"
    using backoff_bounds [OF assms(1)] by (simp add: second_def)
  then have "tried_again cfg (aw_now w) j u" using u(2,8) by (auto simp: tried_again_def)
  then show thesis using that u(1,3) ok by blast
qed

definition flushed_to :: "sighting_config \<Rightarrow> agent_world \<Rightarrow> queued_sighting list \<Rightarrow> queued_sighting list \<Rightarrow> nat \<Rightarrow> bool" where
  "flushed_to cfg w items rest k = (
     (\<forall>i\<in>set rest. queued_ok cfg i \<and> ((i \<in> set items \<and> \<not> retry_due (aw_now w) i) \<or> (\<exists>j\<in>set items. tried_again cfg (aw_now w) j i))) \<and>
     set (map qs_event_id rest) \<subseteq> set (map qs_event_id items) \<and>
     (distinct (map qs_event_id items) \<longrightarrow> distinct (map qs_event_id rest)) \<and>
     k + attempts_left cfg rest \<le> attempts_left cfg items)"

lemma flushed_keep:
  assumes "flushed_to cfg w items rest k" and "queued_ok cfg i"
    and "kept = [] \<or> (kept = [i] \<and> \<not> retry_due (aw_now w) i) \<or>
      (\<exists>u. kept = [u] \<and> qs_event_id u = qs_event_id i \<and> tried_again cfg (aw_now w) i u \<and> queued_ok cfg u)"
    and "m + attempts_left cfg kept \<le> attempts_left cfg [i]"
  shows "flushed_to cfg w (i # items) (kept @ rest) (m + k)"
  using assms unfolding flushed_to_def attempts_left_def by auto

lemma flush_items_run:
  assumes "sane_config cfg" and "sound_world cfg w" and "\<forall>i\<in>set items. queued_ok cfg i"
  shows "\<exists>n rest ps. flush_items cfg w items s = (Inr (n, rest), s\<lparr>rp_posts := rp_posts s @ ps\<rparr>) \<and>
     flushed_to cfg w items rest (length ps)"
  using assms(3)
proof (induction items arbitrary: s)
  case Nil
  then show ?case by (intro exI [of _ 0] exI [of _ "[]"]) (simp add: flushed_to_def attempts_left_def)
next
  case (Cons i items)
  have i: "queued_ok cfg i" and items: "\<forall>i\<in>set items. queued_ok cfg i" using Cons.prems by simp_all
  have a: "\<not> sc_max_attempts cfg \<le> qs_attempts i" "0 \<le> qs_attempts i" using i by (simp_all add: queued_ok_def)
  have left: "attempts_left cfg [j] = nat (sc_max_attempts cfg - qs_attempts j)" "attempts_left cfg [] = 0" for j
    by (simp_all add: attempts_left_def)
  show ?case
  proof (cases "retry_due (aw_now w) i")
    case False
    obtain n rest ps where r: "flush_items cfg w items s = (Inr (n, rest), s\<lparr>rp_posts := rp_posts s @ ps\<rparr>)"
      "flushed_to cfg w items rest (length ps)" using Cons.IH [OF items] by blast
    then show ?thesis using False a flushed_keep [OF r(2) i, of "[i]" 0]
      by (intro exI [of _ n] exI [of _ "[i] @ rest"] exI [of _ ps]) simp
  next
    case True
    define res where "res = post_ingest (aw_server w (length (rp_posts s)) (qs_payload i))"
    define s1 where "s1 = s\<lparr>rp_posts := rp_posts s @ [qs_payload i]\<rparr>"
    have p: "post_payload w (qs_payload i) s = (res, s1)" by (simp add: post_payload_def res_def s1_def)
    obtain n rest ps where r: "flush_items cfg w items s1 = (Inr (n, rest), s1\<lparr>rp_posts := rp_posts s1 @ ps\<rparr>)"
      "flushed_to cfg w items rest (length ps)" using Cons.IH [OF items] by blast
    have s1_posts: "s1\<lparr>rp_posts := rp_posts s1 @ ps\<rparr> = s\<lparr>rp_posts := rp_posts s @ (qs_payload i # ps)\<rparr>"
      by (simp add: s1_def)
    show ?thesis
    proof (cases "ir_ok res")
      case ok: True
      have "flushed_to cfg w (i # items) ([] @ rest) (1 + length ps)"
        by (rule flushed_keep [OF r(2) i]) (use a left in auto)
      then show ?thesis using ok a p r(1) True s1_posts
        by (intro exI [of _ "1 + n"] exI [of _ rest] exI [of _ "qs_payload i # ps"]) simp
    next
      case bad: False
      obtain u where u: "schedule_retry cfg (aw_now w) i (result_error res) = Inr u" "tried_again cfg (aw_now w) i u"
        "qs_event_id u = qs_event_id i" "sighting_ok u"
        using tried_again_sched [OF assms(1,2) i result_error_text [OF assms(2)]] unfolding res_def by metis
      define kept where "kept = (if sc_max_attempts cfg \<le> qs_attempts u then [] else [u])"
      have ua: "qs_attempts u = qs_attempts i + 1" using u(2) by (simp add: tried_again_def)
      have "flushed_to cfg w (i # items) (kept @ rest) (1 + length ps)"
      proof (rule flushed_keep [OF r(2) i])
        show "kept = [] \<or> kept = [i] \<and> \<not> retry_due (aw_now w) i \<or>
          (\<exists>v. kept = [v] \<and> qs_event_id v = qs_event_id i \<and> tried_again cfg (aw_now w) i v \<and> queued_ok cfg v)"
          using u a ua by (auto simp: kept_def queued_ok_def)
        show "1 + attempts_left cfg kept \<le> attempts_left cfg [i]"
          using a ua by (auto simp: kept_def left)
      qed
      then show ?thesis using bad a p r(1) True s1_posts u(1)
        by (intro exI [of _ n] exI [of _ "kept @ rest"] exI [of _ "qs_payload i # ps"]) (simp add: kept_def)
    qed
  qed
qed

lemma queue_holds_iff: "queue_holds cfg f items \<longleftrightarrow>
    f = rewrite_queue items \<and> distinct (map qs_event_id items) \<and> (\<forall>i\<in>set items. queued_ok cfg i)"
  by (auto simp: queue_holds_def queued_ok_def)

lemma flush_queue_run:
  assumes "sane_config cfg" and "sound_world cfg w" and "reporter_enabled cfg" and "queue_holds cfg (rp_queue s) items"
  shows "\<exists>n rest ps. flush_queue cfg w s = (Inr n, s\<lparr>rp_queue := rewrite_queue rest, rp_posts := rp_posts s @ ps\<rparr>) \<and>
     queue_holds cfg (rewrite_queue rest) rest \<and> flushed_to cfg w items rest (length ps)"
proof (cases items)
  case Nil
  then have "flush_queue cfg w s = (Inr 0, s\<lparr>rp_queue := rewrite_queue [], rp_posts := rp_posts s @ []\<rparr>)"
    using assms(3,4) load_rewritten [of "[]"] by (simp add: flush_queue_def queue_holds_def)
  moreover have "queue_holds cfg (rewrite_queue []) []" "flushed_to cfg w items [] (length [])"
    by (simp_all add: queue_holds_def flushed_to_def Nil attempts_left_def)
  ultimately show ?thesis by blast
next
  case (Cons i more_items)
  obtain n rest ps where r: "flush_items cfg w items s = (Inr (n, rest), s\<lparr>rp_posts := rp_posts s @ ps\<rparr>)"
    "flushed_to cfg w items rest (length ps)"
    using flush_items_run [OF assms(1,2), of items s] assms(4) by (auto simp: queue_holds_iff)
  then have "flush_queue cfg w s = (Inr n, s\<lparr>rp_queue := rewrite_queue rest, rp_posts := rp_posts s @ ps\<rparr>)"
    using assms(3) Cons by (simp add: flush_queue_def queue_holds_load [OF assms(4)])
  moreover have "queue_holds cfg (rewrite_queue rest) rest"
    using r(2) assms(4) by (auto simp: queue_holds_iff flushed_to_def)
  ultimately show ?thesis using r(2) by blast
qed

definition flush_run :: "sighting_config \<Rightarrow> agent_world list \<Rightarrow> reporter \<Rightarrow> reporter" where
  "flush_run cfg ws s = fold (\<lambda>w s. snd (flush_queue cfg w s)) ws s"

lemma flush_run_Cons [simp]: "flush_run cfg (w # ws) s = flush_run cfg ws (snd (flush_queue cfg w s))"
  and flush_run_Nil [simp]: "flush_run cfg [] s = s"
  by (simp_all add: flush_run_def)

lemma retry_due_mono: "retry_due now i \<Longrightarrow> now \<le> later \<Longrightarrow> retry_due later i"
  by (auto simp: retry_due_def Let_def split: option.splits py_datetime.splits)

text \<open>Flushes each at least the longest backoff apart.\<close>

fun spaced :: "sighting_config \<Rightarrow> int \<Rightarrow> agent_world list \<Rightarrow> bool" where
  "spaced cfg t [] = True"
| "spaced cfg t (w # ws) = (t \<le> aw_now w \<and> spaced cfg (aw_now w + sc_backoff_max cfg * second) ws)"

lemma flush_run_bounded:
  assumes "sane_config cfg" and "reporter_enabled cfg" and "\<forall>w\<in>set ws. sound_world cfg w"
    and "queue_holds cfg (rp_queue s) items"
  shows "length (rp_posts (flush_run cfg ws s)) \<le> length (rp_posts s) + attempts_left cfg items"
  using assms(3,4)
proof (induction ws arbitrary: s items)
  case (Cons w ws)
  obtain n rest ps where r: "flush_queue cfg w s = (Inr n, s\<lparr>rp_queue := rewrite_queue rest, rp_posts := rp_posts s @ ps\<rparr>)"
    "queue_holds cfg (rewrite_queue rest) rest" "flushed_to cfg w items rest (length ps)"
    using flush_queue_run [OF assms(1) _ assms(2) Cons.prems(2), of w] Cons.prems(1) by auto
  have "length (rp_posts (flush_run cfg (w # ws) s)) \<le> length (rp_posts s @ ps) + attempts_left cfg rest"
    using Cons.IH [of "s\<lparr>rp_queue := rewrite_queue rest, rp_posts := rp_posts s @ ps\<rparr>" rest] Cons.prems(1) r(1,2) by simp
  then show ?case using r(3) by (simp add: flushed_to_def)
qed simp

lemma flush_run_drains:
  assumes "sane_config cfg" and "reporter_enabled cfg" and "\<forall>w\<in>set ws. sound_world cfg w"
    and "queue_holds cfg (rp_queue s) items" and "\<forall>i\<in>set items. retry_due t i \<and> sc_max_attempts cfg \<le> qs_attempts i + int (length ws)"
    and "spaced cfg t ws"
  shows "rp_queue (flush_run cfg ws s) = NoFile"
  using assms(3-)
proof (induction ws arbitrary: s items t)
  case Nil
  then have "items = []" by (cases items) (auto simp: queue_holds_iff queued_ok_def)
  then show ?case using Nil.prems(2) by (simp add: queue_holds_def rewrite_queue_def)
next
  case (Cons w ws)
  obtain n rest ps where r: "flush_queue cfg w s = (Inr n, s\<lparr>rp_queue := rewrite_queue rest, rp_posts := rp_posts s @ ps\<rparr>)"
    "queue_holds cfg (rewrite_queue rest) rest" "flushed_to cfg w items rest (length ps)"
    using flush_queue_run [OF assms(1) _ assms(2) Cons.prems(2), of w] Cons.prems(1) by auto
  have due: "retry_due (aw_now w) i" if "i \<in> set items" for i
    using Cons.prems(3,4) that retry_due_mono [of t i "aw_now w"] by auto
  have "retry_due (aw_now w + sc_backoff_max cfg * second) i \<and> sc_max_attempts cfg \<le> qs_attempts i + int (length ws)"
    if i: "i \<in> set rest" for i
  proof -
    obtain j where j: "j \<in> set items" "tried_again cfg (aw_now w) j i"
      using r(3) i due unfolding flushed_to_def by blast
    then show ?thesis using Cons.prems(3) by (fastforce simp: tried_again_def)
  qed
  then show ?case
    using Cons.IH [of "s\<lparr>rp_queue := rewrite_queue rest, rp_posts := rp_posts s @ ps\<rparr>" rest
        "aw_now w + sc_backoff_max cfg * second"] Cons.prems(1,4) r(1,2) by simp
qed

section \<open>Alerts of the sensor as sightings\<close>

text \<open>The fields of the sensor's events the reporter reads.\<close>

lemma event_field_reads:
  "jget (JObj (event_to_dict e)) ''event_id'' = JStr (ev_id e)"
  "jget (JObj (event_to_dict e)) ''event_type'' = JStr (ev_type e)"
  "jget (JObj (event_to_dict e)) ''rule_id'' = JStr (ev_rule e)"
  "jget (JObj (event_to_dict e)) ''evidence'' = JObj (ev_evidence e)"
  "jget_default (JObj (event_to_dict e)) ''risk_score'' d = JInt (ev_risk e)"
  "str_or_empty (jget (JObj (event_to_dict e)) ''src_ip'') = ev_src_ip e"
  "str_or_empty (jget (JObj (event_to_dict e)) ''dst_ip'') = ev_dst_ip e"
  by (auto simp: event_to_dict_def jget_def jget_default_def opt_entry_def str_or_empty_def split: option.split)

text \<open>
  The addresses of a packet that the cache of the matcher knows at this call: the source, looked up first, and
  the destination, looked up in the cache the source has left.
\<close>

definition known_address :: "clock \<Rightarrow> ioc_files \<Rightarrow> string option \<Rightarrow> ioc_matcher \<Rightarrow> bool" where
  "known_address clk f ip m = (case lookup_ipv4 (mono clk) f (text_of ip) (im_cache m) of (Inr (Some _), _) \<Rightarrow> True | _ \<Rightarrow> False)"

definition matched_addresses :: "clock \<Rightarrow> ioc_files \<Rightarrow> (string \<Rightarrow> bool) \<Rightarrow> ioc_query \<Rightarrow> ioc_matcher \<Rightarrow> string option set" where
  "matched_addresses clk f wl q m = {ip. ip = iq_src_ip q \<and> known_address clk f ip m \<or>
     ip = iq_dst_ip q \<and> known_address clk f ip (snd (ioc_direction clk f wl q ''src'' (iq_src_ip q) m))}"

lemma ioc_direction_origin:
  assumes "ioc_direction clk f wl q direction ip m = (Inr es, m')" and "e \<in> set es"
  shows "some_text ip \<and> known_address clk f ip m \<and> (\<exists>entry m1 m2. ioc_event clk (text_of ip) direction entry q m1 = (Inr e, m2))"
proof -
  obtain c entry where "some_text ip" "lookup_ipv4 (mono clk) f (text_of ip) (im_cache m) = (Inr (Some entry), c)"
    "\<exists>entry m1 m2. ioc_event clk (text_of ip) direction entry q m1 = (Inr e, m2)"
    using assms by (auto simp: ioc_direction_def Let_def bind_res_eq_Inr split: if_splits prod.splits sum.splits option.splits) blast+
  then show ?thesis by (auto simp: known_address_def)
qed

lemma ioc_evaluate_origin:
  assumes "ioc_evaluate clk f wl q m = (Inr es, m')" and "e \<in> set es"
  shows "\<exists>ip\<in>matched_addresses clk f wl q m. \<exists>direction entry m1 m2. some_text ip \<and>
     ioc_event clk (text_of ip) direction entry q m1 = (Inr e, m2)"
proof -
  have "ioc_enabled m" using assms by (auto simp: ioc_evaluate_def split: if_splits)
  then obtain es1 m1 es2 m2 where d: "ioc_direction clk f wl q ''src'' (iq_src_ip q) m = (Inr es1, m1)"
    "ioc_direction clk f wl q ''dst'' (iq_dst_ip q) m1 = (Inr es2, m2)" "es = es1 @ es2"
    using assms(1) by (auto simp: ioc_evaluate_def split: prod.splits sum.splits)
  then consider "e \<in> set es1" | "e \<in> set es2" using assms(2) by auto
  then show ?thesis
  proof cases
    case 1
    note src = ioc_direction_origin [OF d(1) 1]
    then have "iq_src_ip q \<in> matched_addresses clk f wl q m" by (simp add: matched_addresses_def)
    then show ?thesis using src by blast
  next
    case 2
    note dst = ioc_direction_origin [OF d(2) 2]
    then have "iq_dst_ip q \<in> matched_addresses clk f wl q m" by (simp add: matched_addresses_def d(1))
    then show ?thesis using dst by blast
  qed
qed

lemma py_str_lists [simp]: "py_str (JStr s) = s" by simp

lemma ioc_event_payload:
  assumes "ioc_event clk ip direction entry q m1 = (Inr e, m2)" and "strip ip = ip" and "ip \<noteq> []"
  shows "\<exists>p. build_sighting_ingest_payload cfg (JObj (event_to_dict e)) = Some p \<and>
     jget (jget (JObj p) ''raw_event'') ''ioc_value'' = JStr ip \<and>
     jget (jget (JObj p) ''raw_event'') ''event_id'' = JStr (ev_id e) \<and>
     jget (jget (JObj p) ''defaults'') ''confidence'' = JInt (ev_risk e) \<and>
     sighting_event_id (JObj (event_to_dict e)) p = ev_id e"
proof -
  have e: "ev_type e = ''CTI_IOC_OBSERVED''" "ev_rule e = ''OT-019''" "70 \<le> ev_risk e" "ev_risk e \<le> 95"
    "ev_id e \<noteq> []" "jget (JObj (ev_evidence e)) ''ioc_value'' = JStr ip" "jget (JObj (ev_evidence e)) ''ioc_type'' = JStr ''ipv4''"
    "jget (JObj (ev_evidence e)) ''confidence'' = JNull"
    using assms(1) by (auto simp: ioc_event_def Let_def bind_res_eq_Inr clamp_risk_def event_id_def)
  have v: "obj_field (JObj (event_to_dict e)) ''evidence'' = JObj (ev_evidence e)"
    by (simp add: obj_field_def event_field_reads obj_or_empty_def)
  have r: "max 0 (min 100 (ev_risk e)) = ev_risk e" using e(3,4) by simp
  show ?thesis
    by (simp add: build_sighting_ingest_payload_def build_ot019_payload_def event_field_reads v e assms(2,3) Let_def
        as_confidence_def percent_def r py_or_def sighting_event_id_def)
qed

section \<open>Properties\<close>

text \<open>
  The queue file survives a restart: what \<open>rewrite\<close> stores, \<open>load_all\<close> reads back, report for
  report and in order, when the stored texts are not empty, hold no U+0085 (nor, beyond the texts of the
  model, U+2028 and U+2029), and the payload has no floats.
\<close>

theorem queue_file_roundtrip:
  "\<forall>i\<in>set items. sighting_ok i \<Longrightarrow> load_all now (rewrite_queue items) = Inr items"
  by (rule load_rewritten)

definition demo_payload :: "string \<Rightarrow> (string \<times> json) list" where
  "demo_payload text = [(''raw_event'', JObj [(''event_id'', JStr ''evt-1''), (''description'', JStr text)])]"

definition demo_sighting :: "string \<Rightarrow> int \<Rightarrow> queued_sighting" where
  "demo_sighting text n = \<lparr>qs_event_id = ''evt-1'', qs_payload = demo_payload text, qs_attempts = n,
     qs_queued_at = ''2026-01-01T00:00:00+00:00'', qs_next_retry_at = ''2026-01-01T00:00:00+00:00'', qs_last_error = None\<rparr>"

lemma demo_sighting_ok: "nel_free text \<Longrightarrow> sighting_ok (demo_sighting text n)"
  by (simp add: sighting_ok_def storable_def sound_text_def demo_sighting_def demo_payload_def) (simp add: nel_free_def)

theorem queue_file_roundtrip_witness:
  "load_all ''now'' (rewrite_queue [demo_sighting ''C2 beacon'' 3]) = Inr [demo_sighting ''C2 beacon'' 3]"
  by (rule queue_file_roundtrip) (simp add: demo_sighting_ok nel_free_def)

text \<open>
  An example of a report whose text holds U+0085 and which the queue loses: \<open>json.dumps\<close> leaves the character
  as it is, \<open>splitlines\<close> ends the line at it, neither half is JSON, and the next read of the file finds
  no report.
\<close>

theorem nel_report_lost:
  "load_all now (rewrite_queue [demo_sighting (''C2'' @ [CHR 0x85] @ ''beacon'') 1]) = Inr []"
  by code_simp

lemma calendar_ends: "year_start (Suc 0) = -719162" "year_start 10000 = 2932897"
  using year_start_nat [of 0] year_start_nat [of 9999] by simp_all

definition demo_config :: "int \<Rightarrow> sighting_config" where
  "demo_config attempts = \<lparr>sc_enabled = True, sc_api_key = ''key'', sc_source_system = ''ndr'', sc_sensor_id = ''s1'',
     sc_site_id = ''site'', sc_max_attempts = attempts, sc_backoff_base = 5, sc_backoff_max = 300, sc_interval = 10,
     sc_snort_enabled = False, sc_suricata_enabled = False, sc_sid_min = 0, sc_sid_max = 0\<rparr>"

definition down_server :: "nat \<Rightarrow> (string \<times> json) list \<Rightarrow> http_reply" where
  "down_server n p = HttpReply 503 ''unavailable'' None"

text \<open>A call \<open>t\<close> seconds after the start of 2026.\<close>

definition demo_world :: "int \<Rightarrow> agent_world" where
  "demo_world t = \<lparr>aw_now = 1767225600000000 + t * 1000000, aw_now_text = ''2026-01-01T00:00:00+00:00'', aw_mono = of_int t,
     aw_server = down_server, aw_events = [None], aw_decode = (\<lambda>_. Blank), aw_allow = \<lparr>af_cache = Absent, af_mtime = None\<rparr>\<rparr>"

definition demo_reporter :: "queued_sighting list \<Rightarrow> reporter" where
  "demo_reporter items = \<lparr>rp_queue = rewrite_queue items, rp_tailers = [\<lparr>tl_offset = 0, tl_saved = None\<rparr>], rp_last_flush = 0,
     rp_listfile = None, rp_posts = []\<rparr>"

lemma demo_facts:
  "sane_config (demo_config n)" "reporter_enabled (demo_config n)"
  "0 \<le> t \<Longrightarrow> t \<le> 100000 \<Longrightarrow> sound_world (demo_config n) (demo_world t)"
  "ir_ok (post_ingest (down_server k p)) = False"
  by (simp_all add: demo_config_def sane_config_def reporter_enabled_def sound_world_def demo_world_def in_calendar_def
      calendar_ends second_def sound_text_def nel_free_def result_error_def post_ingest_def down_server_def ingest_failed_def
      strip_def lstrip_def rstrip_def is_space_def chr_code_def)

lemma demo_queue_holds: "0 \<le> k \<Longrightarrow> k < n \<Longrightarrow> nel_free text \<Longrightarrow>
    queue_holds (demo_config n) (rewrite_queue [demo_sighting text k]) [demo_sighting text k]"
  by (simp add: queue_holds_def demo_sighting_ok) (simp add: demo_sighting_def demo_config_def)

lemma demo_due: "0 \<le> t \<Longrightarrow> retry_due (1767225600000000 + t * 1000000) (demo_sighting text k)"
proof -
  assume t: "0 \<le> t"
  have "fromisoformat ''2026-01-01T00:00:00+00:00'' = Some \<lparr>dt_year = 2026, dt_month = 1, dt_day = 1, dt_hour = 0,
     dt_minute = 0, dt_second = 0, dt_micro = 0, dt_offset = Some 0\<rparr>"
    by code_simp
  moreover have "epoch_days 2026 1 1 = 20454" by (simp add: epoch_days_def)
  ultimately show ?thesis using t by (simp add: retry_due_def demo_sighting_def instant_def clock_micros_def)
qed



text \<open>
  C12. A report that could not be delivered is put off by the backoff of its attempt, neither less
  nor more: after a failure at time \<open>now\<close> the next flush that posts it is the first one at or after
  \<open>now\<close> plus \<open>min(max, base * 2^(n-1))\<close> seconds, where \<open>n\<close> is the number of the failed attempt; the
  time survives being written as ISO text and read back.
\<close>

theorem retry_waits_backoff:
  assumes "sane_config cfg" and "in_calendar cfg now"
  shows "\<exists>updated. schedule_retry cfg now item e = Inr updated \<and> qs_attempts updated = qs_attempts item + 1 \<and>
     (\<forall>later. retry_due later updated \<longleftrightarrow>
        now + min (sc_backoff_max cfg) (sc_backoff_base cfg * 2 ^ nat (max (qs_attempts item) 0)) * 1000000 \<le> later)"
proof -
  obtain u where "schedule_retry cfg now item e = Inr u" "qs_attempts u = qs_attempts item + 1"
    "\<And>later. retry_due later u \<longleftrightarrow> now + backoff_sec cfg (qs_attempts item + 1) * second \<le> later"
    using schedule_retry_ok [OF assms, of item e] by metis
  then show ?thesis by (simp add: backoff_sec_def second_def)
qed

theorem retry_waits_backoff_witness:
  "\<exists>u. schedule_retry (demo_config 3) 1767225600000000 (demo_sighting ''C2'' 2) ''down'' = Inr u \<and>
     \<not> retry_due (1767225600000000 + 19 * 1000000) u \<and> retry_due (1767225600000000 + 20 * 1000000) u"
proof -
  have "in_calendar (demo_config 3) 1767225600000000"
    by (simp add: in_calendar_def demo_config_def calendar_ends second_def)
  from retry_waits_backoff [OF demo_facts(1) this, of "demo_sighting ''C2'' 2" "''down''"]
  show ?thesis by (auto simp: demo_config_def demo_sighting_def)
qed

text \<open>
  C99. Retries are bounded: with the reporter enabled and a queue file that holds well-formed reports,
  the flushes, whenever they run, post altogether at most as often as the queued reports have attempts
  left. The server may answer anything whose error text is free of the line breaks of \<open>splitlines\<close>
  (U+0085, and in texts beyond the model's also U+2028 and U+2029); the backoffs are not negative and
  the clock stays within the calendar.
\<close>

theorem retry_posts_bounded:
  assumes "sane_config cfg" and "reporter_enabled cfg" and "\<forall>w\<in>set ws. sound_world cfg w"
    and "queue_holds cfg (rp_queue s) items"
  shows "length (rp_posts (flush_run cfg ws s)) \<le>
     length (rp_posts s) + sum_list (map (\<lambda>i. nat (sc_max_attempts cfg - qs_attempts i)) items)"
  using flush_run_bounded [OF assms] by (simp add: attempts_left_def)

theorem retry_posts_bounded_witness:
  "length (rp_posts (flush_run (demo_config 3) (map demo_world [0, 400, 800, 1200, 1600]) (demo_reporter [demo_sighting ''C2'' 1]))) \<le> 2"
  using retry_posts_bounded [of "demo_config 3" "map demo_world [0, 400, 800, 1200, 1600]" "demo_reporter [demo_sighting ''C2'' 1]"
      "[demo_sighting ''C2'' 1]"] demo_queue_holds [of 1 3 "''C2''"]
  by (simp add: demo_facts demo_reporter_def nel_free_def) (simp add: demo_config_def demo_sighting_def)

text \<open>
  C10. No report stays in the queue for ever: after as many flushes as there are attempts, each at
  least the longest backoff after the one before and the first when the queue is due, the queue
  file is gone: every report was delivered or dropped. This is with the reporter enabled, a queue file
  that holds well-formed reports, backoffs that are not negative, a clock within the calendar, and for
  answers of the server whose error text is free of the line breaks of \<open>splitlines\<close> (U+0085, and in
  texts beyond the model's also U+2028 and U+2029); an answer with one of them destroys the file's
  lines, and what is left of it then stays.
\<close>

theorem retries_end:
  assumes "sane_config cfg" and "reporter_enabled cfg" and "\<forall>w\<in>set ws. sound_world cfg w"
    and "queue_holds cfg (rp_queue s) items" and "\<forall>i\<in>set items. retry_due t i" and "spaced cfg t ws"
    and "sc_max_attempts cfg \<le> int (length ws)"
  shows "rp_queue (flush_run cfg ws s) = NoFile"
proof (rule flush_run_drains [OF assms(1-4) _ assms(6)])
  have "\<forall>i\<in>set items. 0 \<le> qs_attempts i" using assms(4) by (simp add: queue_holds_def)
  then show "\<forall>i\<in>set items. retry_due t i \<and> sc_max_attempts cfg \<le> qs_attempts i + int (length ws)"
    using assms(5,7) by fastforce
qed

theorem retries_end_witness:
  "rp_queue (flush_run (demo_config 3) (map demo_world [0, 400, 800]) (demo_reporter [demo_sighting ''C2'' 0])) = NoFile"
proof (rule retries_end)
  show "queue_holds (demo_config 3) (rp_queue (demo_reporter [demo_sighting ''C2'' 0])) [demo_sighting ''C2'' 0]"
    using demo_queue_holds [of 0 3 "''C2''"] by (simp add: demo_reporter_def nel_free_def)
  show "\<forall>i\<in>set [demo_sighting ''C2'' 0]. retry_due 1767225600000000 i" using demo_due [of 0] by simp
  show "\<forall>w\<in>set (map demo_world [0, 400, 800]). sound_world (demo_config 3) w" by (simp add: demo_facts)
qed (simp_all add: demo_facts, simp_all add: demo_world_def demo_config_def second_def)



end
