(* ===== verification/Agentloop.thy ===== *)
theory Agentloop
  imports Ticks Sightings Buffers
begin

text \<open>
  The upload part of the edge agent's main loop (\<open>main.py\<close>): the buffered entries are flushed, the
  pending events of the three tailers are published, posted or buffered, the health report is posted or
  buffered, the coverage tally is forwarded. The bus is that of theory Northbound, the table that of
  theory Buffers; each entry has its own world, so that the bus and the portal may answer differently
  at each. A post is accepted or raises.
\<close>

section \<open>One entry\<close>

record entry_world =
  ew_bus :: nb_world
  ew_post :: "string \<Rightarrow> json \<Rightarrow> bool"

record uplink =
  ul_agent :: agent
  ul_buffer :: upload_buffer

datatype outcome = Exempt | On_bus | Posted | Queued | Unknown_kind

definition exempts :: "enforcer option \<Rightarrow> json \<Rightarrow> bool res" where
  "exempts enf v = (case enf of None \<Rightarrow> Inr False
     | Some en \<Rightarrow> if is_obj v then Inr (agent_event_whitelisted en v) else Inl AttributeError)"

definition enriched :: "context_files \<Rightarrow> json \<Rightarrow> json res" where
  "enriched cx v = bind_res (py_dict v) (\<lambda>d. Inr (JObj (enrich_security_event cx d)))"

text \<open>\<open>mqtt and mqtt.enabled\<close>, then the publish.\<close>

definition bus_event :: "entry_world \<Rightarrow> json \<Rightarrow> uplink \<Rightarrow> bool \<times> uplink" where
  "bus_event ew v s = (if nb_enabled (ul_agent s)
     then (case publish_security_event (ew_bus ew) v (ul_agent s) of (ok, a) \<Rightarrow> (ok, s\<lparr>ul_agent := a\<rparr>)) else (False, s))"

definition drop_entry :: "nat \<Rightarrow> uplink \<Rightarrow> uplink" where
  "drop_entry i s = s\<lparr>ul_buffer := upload_remove i (ul_buffer s)\<rparr>"

section \<open>Flushing the buffer\<close>

text \<open>What happens to one buffered entry; None: it failed and stays.\<close>

definition flush_entry :: "entry_world \<Rightarrow> enforcer option \<Rightarrow> context_files \<Rightarrow> string \<Rightarrow> json \<Rightarrow> uplink \<Rightarrow> outcome option \<times> uplink" where
  "flush_entry ew enf cx kind payload s =
     (if kind = ''event'' then
        (case exempts enf payload of Inl _ \<Rightarrow> (None, s) | Inr True \<Rightarrow> (Some Exempt, s)
         | Inr False \<Rightarrow>
            (case (if nb_enabled (ul_agent s) then map_sum id Some (enriched cx payload) else Inr None) of
               Inl _ \<Rightarrow> (None, s)
             | Inr None \<Rightarrow> (if ew_post ew kind payload then Some Posted else None, s)
             | Inr (Some v) \<Rightarrow> (case bus_event ew v s of (True, s) \<Rightarrow> (Some On_bus, s)
                 | (False, s) \<Rightarrow> (if ew_post ew kind payload then Some Posted else None, s))))
      else if kind = ''health'' then (if ew_post ew kind payload then Some Posted else None, s)
      else (Some Unknown_kind, s))"

fun flush_entries :: "(nat \<Rightarrow> entry_world) \<Rightarrow> enforcer option \<Rightarrow> context_files \<Rightarrow> (nat \<times> string \<times> json) list \<Rightarrow> uplink \<Rightarrow>
    outcome list \<times> uplink" where
  "flush_entries ws enf cx [] s = ([], s)"
| "flush_entries ws enf cx ((i, kind, payload) # es) s = (case flush_entry (ws i) enf cx kind payload s of
     (None, s) \<Rightarrow> ([], s)
   | (Some out, s) \<Rightarrow> (case flush_entries ws enf cx es (drop_entry i s) of (outs, s) \<Rightarrow> (out # outs, s)))"

definition reload_enforcer :: "pyfloat \<Rightarrow> allow_files \<Rightarrow> enforcer option \<Rightarrow> unit res \<times> enforcer option" where
  "reload_enforcer now f enf = (case enf of None \<Rightarrow> (Inr (), None)
     | Some en \<Rightarrow> (case enforcer_reload False now f en of (r, en) \<Rightarrow> (map_sum id (\<lambda>_. ()) r, Some en)))"

definition flush_buffer :: "(nat \<Rightarrow> entry_world) \<Rightarrow> pyfloat \<Rightarrow> allow_files \<Rightarrow> context_files \<Rightarrow> enforcer option \<times> uplink \<Rightarrow>
    outcome list res \<times> enforcer option \<times> uplink" where
  "flush_buffer ws now f cx = (\<lambda>(enf, s). case reload_enforcer now f enf of (Inl e, enf) \<Rightarrow> (Inl e, enf, s)
     | (Inr _, enf) \<Rightarrow> (case flush_entries ws enf cx (upload_pending (ul_buffer s)) s of (outs, s) \<Rightarrow> (Inr outs, enf, s)))"

section \<open>Uploading what the tailers found\<close>

definition forget_event :: "json \<Rightarrow> uplink \<Rightarrow> uplink" where
  "forget_event v s = s\<lparr>ul_buffer := upload_remove_by_event_id (str_or_empty (jget v ''event_id'')) (ul_buffer s)\<rparr>"

definition queue_entry :: "string \<Rightarrow> json \<Rightarrow> uplink \<Rightarrow> uplink" where
  "queue_entry kind v s = s\<lparr>ul_buffer := upload_enqueue (kind, v) (ul_buffer s)\<rparr>"

definition upload_event :: "entry_world \<Rightarrow> context_files \<Rightarrow> json \<Rightarrow> uplink \<Rightarrow> outcome \<times> uplink" where
  "upload_event ew cx v s = (case bus_event ew v s of
     (True, s) \<Rightarrow> (On_bus, forget_event v s)
   | (False, s) \<Rightarrow> if ew_post ew ''event'' v then (Posted, forget_event v s) else (Queued, queue_entry ''event'' v s))"

text \<open>The events are numbered from \<open>n\<close>. What raises here is not caught.\<close>

fun upload_events :: "(nat \<Rightarrow> entry_world) \<Rightarrow> enforcer option \<Rightarrow> context_files \<Rightarrow> nat \<Rightarrow> json list \<Rightarrow> uplink \<Rightarrow>
    (json \<times> outcome) list \<times> unit res \<times> uplink" where
  "upload_events ws enf cx n [] s = ([], Inr (), s)"
| "upload_events ws enf cx n (e # es) s = (case exempts enf e of
     Inl x \<Rightarrow> ([], Inl x, s)
   | Inr True \<Rightarrow> (case upload_events ws enf cx (n + 1) es s of (outs, r, s) \<Rightarrow> ((e, Exempt) # outs, r, s))
   | Inr False \<Rightarrow> (case enriched cx e of Inl x \<Rightarrow> ([], Inl x, s)
     | Inr v \<Rightarrow> (case upload_event (ws n) cx v s of (out, s) \<Rightarrow>
         (case upload_events ws enf cx (n + 1) es s of (outs, r, s) \<Rightarrow> ((v, out) # outs, r, s)))))"

definition upload_pending_events :: "(nat \<Rightarrow> entry_world) \<Rightarrow> pyfloat \<Rightarrow> allow_files \<Rightarrow> context_files \<Rightarrow> (bytes \<Rightarrow> line_text) \<Rightarrow> bytes option \<Rightarrow>
    event_tailer \<times> enforcer option \<times> uplink \<Rightarrow> (json \<times> outcome) list \<times> unit res \<times> event_tailer \<times> enforcer option \<times> uplink" where
  "upload_pending_events ws now f cx decode file = (\<lambda>(t, enf, s). case reload_enforcer now f enf of
     (Inl e, enf) \<Rightarrow> ([], Inl e, t, enf, s)
   | (Inr _, enf) \<Rightarrow> (case pending_events decode file t of (events, t) \<Rightarrow>
       (case upload_events ws enf cx 0 events s of (outs, r, s) \<Rightarrow> (outs, r, t, enf, s))))"

section \<open>Health, state and coverage\<close>

definition upload_health_report :: "entry_world \<Rightarrow> json \<Rightarrow> uplink \<Rightarrow> uplink" where
  "upload_health_report ew health s = (if ew_post ew ''health'' health then s else queue_entry ''health'' health s)"

definition operational_state_payload :: "jfile \<Rightarrow> jfile option \<Rightarrow> jfile option \<Rightarrow> json" where
  "operational_state_payload mode_file policy profile_file =
     (let artifact = read_object mode_file; mode = first_text [jget artifact ''mode''] ''listen'';
          capture = obj_or_empty (jget artifact ''capture'');
          profile = (case profile_file of None \<Rightarrow> JObj [] | Some f \<Rightarrow> read_object f);
          version = (case policy of None \<Rightarrow> [] | Some f \<Rightarrow> read_version f) in
      JObj [(''operational_mode'', JStr mode), (''session_id'', jget artifact ''session_id''), (''session_kind'', session_kind mode),
        (''baseline_profile_id'', py_or (jget artifact ''baseline_profile_id'') (jget profile ''profile_id'')),
        (''baseline_profile_version'', py_or (jget artifact ''baseline_profile_version'') (jget profile ''version'')),
        (''detection_policy_version'', none_if_empty version), (''capture_interface'', jget capture ''interface'')])"

text \<open>\<open>mtime\<close> is None when the file does not exist; whatever raises is caught and changes nothing.\<close>

definition maybe_publish_coverage :: "nb_world \<Rightarrow> pyfloat option \<Rightarrow> jfile \<Rightarrow> pyfloat \<times> agent \<Rightarrow> pyfloat \<times> agent" where
  "maybe_publish_coverage w mtime f = (\<lambda>(last_mtime, a). case mtime of None \<Rightarrow> (last_mtime, a)
     | Some t \<Rightarrow> if t \<le> last_mtime then (last_mtime, a)
       else (case f of Doc v \<Rightarrow>
           if \<not> is_obj v then (last_mtime, a)
           else (case publish_coverage w v a of (True, a) \<Rightarrow>
                 (if is_obj (py_or (jget v ''totals'') (JObj [])) then t else last_mtime, a)
               | (False, a) \<Rightarrow> (last_mtime, a))
         | _ \<Rightarrow> (last_mtime, a)))"

section \<open>Lemmas\<close>

lemma bus_event_buffer [simp]: "ul_buffer (snd (bus_event ew v s)) = ul_buffer s"
  by (simp add: bus_event_def split: prod.split)

lemma bus_event_pair: "bus_event ew v s = (b, s') \<Longrightarrow> ul_buffer s' = ul_buffer s"
  using bus_event_buffer [of ew v s] by simp

subsection \<open>The flush\<close>

lemma flush_entry_buffer [simp]: "ul_buffer (snd (flush_entry ew enf cx kind payload s)) = ul_buffer s"
  by (auto simp: flush_entry_def dest: bus_event_pair split: sum.split option.split bool.split prod.split)

lemma flush_entry_pair: "flush_entry ew enf cx kind payload s = (r, s') \<Longrightarrow> ul_buffer s' = ul_buffer s"
  using flush_entry_buffer [of ew enf cx kind payload s] by simp

lemma drop_entry_rows:
  assumes "upload_wf (ul_buffer s)" and "ub_rows (ul_buffer s) = (i, x) # rows"
  shows "ub_rows (ul_buffer (drop_entry i s)) = rows \<and> upload_wf (ul_buffer (drop_entry i s))"
proof -
  have "\<forall>r\<in>set rows. i < fst r" using assms by (auto simp: upload_wf_def)
  then have "filter (\<lambda>r. fst r \<noteq> i) rows = rows" by (auto simp: filter_id_conv)
  then show ?thesis using assms(2) upload_remove_wf [OF assms(1), of i] by (simp add: drop_entry_def upload_remove_def)
qed

lemma flush_prefix:
  assumes "upload_wf (ul_buffer s)" and "flush_entries ws enf cx (ub_rows (ul_buffer s)) s = (outs, s')"
  shows "ub_rows (ul_buffer s') = drop (length outs) (ub_rows (ul_buffer s)) \<and> upload_wf (ul_buffer s') \<and>
    length outs \<le> length (ub_rows (ul_buffer s))"
  using assms
proof (induction "ub_rows (ul_buffer s)" arbitrary: s outs)
  case Nil
  then show ?case by simp
next
  case (Cons r rows)
  obtain i kind payload where r: "r = (i, kind, payload)" by (rule prod_cases3)
  obtain out t where f: "flush_entry (ws i) enf cx kind payload s = (out, t)" by fastforce
  have t: "ul_buffer t = ul_buffer s" by (rule flush_entry_pair [OF f])
  show ?case
  proof (cases out)
    case None
    then show ?thesis using Cons.prems f t Cons.hyps(2) by (simp add: r flip: Cons.hyps(2))
  next
    case (Some o')
    have d: "ub_rows (ul_buffer (drop_entry i t)) = rows" "upload_wf (ul_buffer (drop_entry i t))"
      using drop_entry_rows [of t i "(kind, payload)" rows] Cons.prems(1) Cons.hyps(2) by (simp_all add: t r)
    obtain os where o: "flush_entries ws enf cx rows (drop_entry i t) = (os, s')" "outs = o' # os"
      using Cons.prems(2) f Some by (auto simp: r split: prod.splits simp flip: Cons.hyps(2))
    show ?thesis using Cons.hyps(1) [of "drop_entry i t" os] d o by (simp flip: Cons.hyps(2))
  qed
qed

text \<open>
  The flush keeps the order and loses nothing: when it returns, the entries it answers for are the
  oldest ones, as many as it reports, and the buffer is what comes after them.
\<close>

theorem flush_takes_prefix:
  assumes "upload_wf (ul_buffer s)" and "flush_buffer ws now f cx (enf, s) = (Inr outs, enf', s')"
  shows "upload_pending (ul_buffer s') = drop (length outs) (upload_pending (ul_buffer s)) \<and>
    length outs \<le> length (upload_pending (ul_buffer s)) \<and> upload_wf (ul_buffer s')"
proof -
  obtain en where "flush_entries ws en cx (upload_pending (ul_buffer s)) s = (outs, s')"
    using assms(2) by (auto simp: flush_buffer_def split: prod.splits sum.splits)
  then show ?thesis using flush_prefix [OF assms(1)] upload_pending_rows assms(1) by metis
qed

text \<open>An entry that the portal refuses and the bus does not take stops the flush: nothing behind it moves.\<close>

theorem refused_entry_blocks:
  assumes "upload_wf (ul_buffer s)" and "upload_pending (ul_buffer s) = (i, ''health'', payload) # rest"
    and "\<not> ew_post (ws i) ''health'' payload" and "flush_buffer ws now f cx (enf, s) = (Inr outs, enf', s')"
  shows "outs = [] \<and> s' = s"
  using assms by (auto simp: flush_buffer_def flush_entry_def split: prod.splits sum.splits)

subsection \<open>The upload\<close>

definition event_key :: "json \<Rightarrow> string" where
  "event_key v = str_or_empty (jget v ''event_id'')"

text \<open>Some event with the row's id was delivered.\<close>

definition covered :: "(json \<times> outcome) list \<Rightarrow> nat \<times> string \<times> json \<Rightarrow> bool" where
  "covered outs r = (\<exists>(v, out)\<in>set outs. out \<in> {On_bus, Posted} \<and> event_key v \<noteq> [] \<and> row_has_event (event_key v) r)"

lemma forget_rows:
  assumes "upload_wf (ul_buffer s)"
  shows "upload_wf (ul_buffer (forget_event v s))" and "ub_max (ul_buffer (forget_event v s)) = ub_max (ul_buffer s)"
    and "length (ub_rows (ul_buffer (forget_event v s))) \<le> length (ub_rows (ul_buffer s))"
    and "r \<in> set (ub_rows (ul_buffer s)) \<Longrightarrow> r \<in> set (ub_rows (ul_buffer (forget_event v s))) \<or>
       event_key v \<noteq> [] \<and> row_has_event (event_key v) r"
  using assms upload_remove_by_event_rows [OF assms, of "event_key v"]
  by (auto simp: forget_event_def event_key_def upload_remove_by_event_id_def upload_remove_fold)

lemma queue_rows:
  assumes "upload_wf (ul_buffer s)" and "length (ub_rows (ul_buffer s)) < ub_max (ul_buffer s)"
  shows "ub_rows (ul_buffer (queue_entry kind v s)) = ub_rows (ul_buffer s) @ [(ub_next_id (ul_buffer s), kind, v)]"
    and "upload_wf (ul_buffer (queue_entry kind v s))" and "ub_max (ul_buffer (queue_entry kind v s)) = ub_max (ul_buffer s)"
  using upload_enqueue_rows [OF assms(1), of "(kind, v)"] assms(2)
  by (simp_all add: queue_entry_def last_n_def)

text \<open>One event, when the buffer has room.\<close>

lemma upload_event_row:
  assumes "upload_wf (ul_buffer s)" and "length (ub_rows (ul_buffer s)) < ub_max (ul_buffer s)"
    and "upload_event ew cx v s = (out, s')"
  shows "upload_wf (ul_buffer s') \<and> ub_max (ul_buffer s') = ub_max (ul_buffer s) \<and>
    length (ub_rows (ul_buffer s')) \<le> Suc (length (ub_rows (ul_buffer s))) \<and> out \<in> {On_bus, Posted, Queued} \<and>
    (\<forall>r\<in>set (ub_rows (ul_buffer s)). r \<in> set (ub_rows (ul_buffer s')) \<or> covered [(v, out)] r) \<and>
    (out = Queued \<longrightarrow> (\<exists>i. (i, ''event'', v) \<in> set (ub_rows (ul_buffer s'))))"
proof -
  obtain b t where b: "bus_event ew v s = (b, t)" by fastforce
  have t: "ul_buffer t = ul_buffer s" by (rule bus_event_pair [OF b])
  note f = forget_rows [where s = t and v = v, unfolded t, OF assms(1)]
  note q = queue_rows [where s = t and v = v and kind = "''event''", unfolded t, OF assms(1,2)]
  consider "out = On_bus" "s' = forget_event v t" | "out = Posted" "s' = forget_event v t" | "out = Queued" "s' = queue_entry ''event'' v t"
    using assms(3) b by (auto simp: upload_event_def split: bool.splits if_splits)
  then show ?thesis
  proof cases
    case 3
    then show ?thesis using q by auto
  qed (use f le_SucI in \<open>auto simp: covered_def\<close>)
qed

lemma covered_Cons: "covered (x # outs) r \<longleftrightarrow> covered [x] r \<or> covered outs r"
  by (auto simp: covered_def)

lemma covered_exempt [simp]: "\<not> covered [(e, Exempt)] r"
  by (simp add: covered_def)

text \<open>How an event and what was done with it belong together.\<close>

definition answers_for :: "enforcer option \<Rightarrow> context_files \<Rightarrow> json \<Rightarrow> json \<times> outcome \<Rightarrow> bool" where
  "answers_for enf cx e = (\<lambda>(v, out). if out = Exempt then v = e \<and> exempts enf e = Inr True
     else exempts enf e = Inr False \<and> enriched cx e = Inr v \<and> out \<in> {On_bus, Posted, Queued})"

text \<open>A run of the loop body over the events, with what it keeps.\<close>

definition kept_rows :: "uplink \<Rightarrow> (json \<times> outcome) list \<Rightarrow> uplink \<Rightarrow> bool" where
  "kept_rows s outs s' = (\<forall>r\<in>set (ub_rows (ul_buffer s)). r \<in> set (ub_rows (ul_buffer s')) \<or> covered outs r)"

definition queued_rows :: "(json \<times> outcome) list \<Rightarrow> uplink \<Rightarrow> bool" where
  "queued_rows outs s' = (\<forall>(v, out)\<in>set outs. out = Queued \<longrightarrow>
     (\<exists>i. (i, ''event'', v) \<in> set (ub_rows (ul_buffer s')) \<or> covered outs (i, ''event'', v)))"

lemma upload_events_accounted:
  assumes "upload_wf (ul_buffer s)" and "length (ub_rows (ul_buffer s)) + length es \<le> ub_max (ul_buffer s)"
    and "upload_events ws enf cx n es s = (outs, r, s')"
  shows "kept_rows s outs s' \<and> queued_rows outs s' \<and> (r = Inr () \<longrightarrow> list_all2 (answers_for enf cx) es outs)"
  using assms
proof (induction es arbitrary: s n outs)
  case Nil
  then show ?case by (auto simp: kept_rows_def queued_rows_def)
next
  case (Cons e es)
  show ?case
  proof (cases "exempts enf e")
    case (Inl x)
    then show ?thesis using Cons.prems(3) by (auto simp: kept_rows_def queued_rows_def)
  next
    case (Inr exempt)
    show ?thesis
    proof (cases exempt)
      case True
      obtain os where o: "upload_events ws enf cx (n + 1) es s = (os, r, s')" "outs = (e, Exempt) # os"
        using Cons.prems(3) Inr True by (auto split: prod.splits)
      have "kept_rows s os s' \<and> queued_rows os s' \<and> (r = Inr () \<longrightarrow> list_all2 (answers_for enf cx) es os)"
        using Cons.IH [OF _ _ o(1)] Cons.prems(1,2) by simp
      moreover have "answers_for enf cx e (e, Exempt)" using Inr True by (simp add: answers_for_def)
      ultimately show ?thesis by (auto simp: o(2) kept_rows_def queued_rows_def covered_Cons [of "(e, Exempt)"])
    next
      case False
      show ?thesis
      proof (cases "enriched cx e")
        case (Inl x)
        then show ?thesis using Cons.prems(3) Inr False by (auto simp: kept_rows_def queued_rows_def)
      next
        case v: (Inr v)
        obtain out t where u: "upload_event (ws n) cx v s = (out, t)" by fastforce
        obtain os where o: "upload_events ws enf cx (n + 1) es t = (os, r, s')" "outs = (v, out) # os"
          using Cons.prems(3) Inr False v u by (auto split: prod.splits)
        have k: "upload_wf (ul_buffer t) \<and> ub_max (ul_buffer t) = ub_max (ul_buffer s) \<and>
            length (ub_rows (ul_buffer t)) \<le> Suc (length (ub_rows (ul_buffer s))) \<and> out \<in> {On_bus, Posted, Queued} \<and>
            (\<forall>r\<in>set (ub_rows (ul_buffer s)). r \<in> set (ub_rows (ul_buffer t)) \<or> covered [(v, out)] r) \<and>
            (out = Queued \<longrightarrow> (\<exists>i. (i, ''event'', v) \<in> set (ub_rows (ul_buffer t))))"
          by (rule upload_event_row [OF Cons.prems(1) _ u]) (use Cons.prems(2) in simp)
        then have i: "kept_rows t os s'" "queued_rows os s'" "r = Inr () \<longrightarrow> list_all2 (answers_for enf cx) es os"
          using Cons.IH [OF _ _ o(1)] Cons.prems(2) by auto
        have "kept_rows s outs s'" using k i(1) unfolding kept_rows_def o(2) by (metis covered_Cons)
        moreover have "queued_rows outs s'"
        proof -
          have "\<exists>i. (i, ''event'', v) \<in> set (ub_rows (ul_buffer s')) \<or> covered outs (i, ''event'', v)" if "out = Queued"
            using k i(1) that unfolding kept_rows_def o(2) by (metis covered_Cons)
          moreover have "\<forall>(v', out')\<in>set os. out' = Queued \<longrightarrow>
              (\<exists>i. (i, ''event'', v') \<in> set (ub_rows (ul_buffer s')) \<or> covered outs (i, ''event'', v'))"
            using i(2) covered_Cons [of "(v, out)" os] unfolding queued_rows_def o(2) by fastforce
          ultimately show ?thesis by (simp add: queued_rows_def o(2))
        qed
        moreover have "answers_for enf cx e (v, out)" using k Inr False v by (auto simp: answers_for_def)
        ultimately show ?thesis using i(3) by (simp add: o(2))
      qed
    qed
  qed
qed

text \<open>
  No event is lost: when the buffer has room and the loop ends without an exception, each pending event
  was exempt by the managed lists, or its enriched form was published, posted or queued; a queued one is
  in the buffer, or an event with the same id was delivered after it; and no older entry disappears
  without such a delivery.
\<close>

theorem events_accounted:
  assumes "upload_wf (ul_buffer s)" and "length (ub_rows (ul_buffer s)) + length (fst (pending_events decode file t)) \<le> ub_max (ul_buffer s)"
    and "upload_pending_events ws now f cx decode file (t, enf, s) = (outs, Inr (), t', enf', s')"
  shows "list_all2 (answers_for enf' cx) (fst (pending_events decode file t)) outs \<and>
    (\<forall>(v, out)\<in>set outs. out = Queued \<longrightarrow> (\<exists>i. (i, ''event'', v) \<in> set (ub_rows (ul_buffer s')) \<or> covered outs (i, ''event'', v))) \<and>
    (\<forall>r\<in>set (ub_rows (ul_buffer s)). r \<in> set (ub_rows (ul_buffer s')) \<or> covered outs r)"
proof -
  have "upload_events ws enf' cx 0 (fst (pending_events decode file t)) s = (outs, Inr (), s')"
    using assms(3) by (auto simp: upload_pending_events_def split: prod.splits sum.splits)
  from upload_events_accounted [OF assms(1,2) this] show ?thesis by (simp add: kept_rows_def queued_rows_def)
qed

lemma bad_event_raises:
  assumes "\<not> is_obj bad" and "upload_events ws enf cx n (good @ bad # rest) s = (outs, r, s')"
  shows "(\<exists>x. r = Inl x) \<and> length outs \<le> length good"
  using assms(2)
proof (induction good arbitrary: s n outs)
  case Nil
  have "enriched cx bad = Inl TypeError" using assms(1) by (cases bad) (simp_all add: enriched_def)
  then show ?case using Nil assms(1) by (auto simp: exempts_def split: option.splits if_splits)
next
  case (Cons e good)
  show ?case
    using Cons.prems Cons.IH by (fastforce split: sum.splits bool.splits prod.splits)
qed

text \<open>
  A line of the event file that is JSON but no object stops the agent: the exception leaves the loop
  when the tailer's offset is already saved, so the events of the same batch behind it are lost.
\<close>

theorem poison_line_ends_agent:
  assumes "pending_events decode file t = (good @ bad # rest, t')" and "\<not> is_obj bad"
    and "upload_pending_events ws now f cx decode file (t, enf, s) = (outs, r, t'', enf', s')"
    and "fst (reload_enforcer now f enf) = Inr ()"
  shows "(\<exists>x. r = Inl x) \<and> t'' = t' \<and> length outs \<le> length good"
proof -
  have "upload_events ws enf' cx 0 (good @ bad # rest) s = (outs, r, s')" "t'' = t'"
    using assms(1,3,4) by (auto simp: upload_pending_events_def split: prod.splits sum.splits)
  then show ?thesis using bad_event_raises [OF assms(2)] by blast
qed

section \<open>Examples\<close>

text \<open>An agent whose bus is off, with one health report in the buffer, and a portal that answers or not.\<close>

definition demo_uplink :: uplink where
  "demo_uplink = \<lparr>ul_agent = demo_agent\<lparr>ag_heap := (\<lambda>_. demo_bus\<lparr>nb_on := False\<rparr>)\<rparr>,
     ul_buffer = upload_enqueue (''health'', JObj []) (upload_init 10)\<rparr>"

definition demo_entry :: "bool \<Rightarrow> nat \<Rightarrow> entry_world" where
  "demo_entry up i = \<lparr>ew_bus = demo_bus_world 5, ew_post = (\<lambda>_ _. up)\<rparr>"

definition demo_context :: context_files where
  "demo_context = \<lparr>cx_mode = Absent, cx_policy = Absent, cx_profile = Absent\<rparr>"

definition no_lists :: allow_files where
  "no_lists = \<lparr>af_cache = Absent, af_mtime = None\<rparr>"

lemma demo_uplink_wf: "upload_wf (ul_buffer demo_uplink)"
  using upload_enqueue_rows [OF upload_wf_init] by (simp add: demo_uplink_def)

lemma demo_pending: "upload_pending (ul_buffer demo_uplink) = [(1, ''health'', JObj [])]"
  by code_simp

lemma demo_flush: "\<exists>outs enf s. flush_buffer ws now no_lists cx (None, demo_uplink) = (Inr outs, enf, s)"
  by (simp add: flush_buffer_def reload_enforcer_def split: prod.split)

theorem flush_takes_prefix_witness:
  "\<exists>n (s::uplink). upload_pending (ul_buffer s) = drop n [(1, ''health'', JObj [])]"
proof -
  obtain outs enf s where f: "flush_buffer (demo_entry True) 5 no_lists demo_context (None, demo_uplink) = (Inr outs, enf, s)"
    using demo_flush by blast
  have "upload_pending (ul_buffer s) = drop (length outs) (upload_pending (ul_buffer demo_uplink))"
    using flush_takes_prefix [OF demo_uplink_wf f] by blast
  then show ?thesis unfolding demo_pending by blast
qed

theorem refused_entry_blocks_witness:
  "snd (snd (flush_buffer (demo_entry False) 5 no_lists demo_context (None, demo_uplink))) = demo_uplink"
proof -
  obtain outs enf s where f: "flush_buffer (demo_entry False) 5 no_lists demo_context (None, demo_uplink) = (Inr outs, enf, s)"
    using demo_flush by blast
  have "\<not> ew_post (demo_entry False 1) ''health'' (JObj [])" by (simp add: demo_entry_def)
  then show ?thesis using refused_entry_blocks [OF demo_uplink_wf demo_pending _ f] f by simp
qed

text \<open>Two lines, an event and a number.\<close>

definition demo_line :: "bytes \<Rightarrow> line_text" where
  "demo_line l = (if l = [49] then Value (JInt 1) else Value (JObj [(''event_id'', JStr ''e1'')]))"

lemma demo_events:
  "pending_events demo_line (Some [65, 10]) \<lparr>tl_offset = 0, tl_saved = None\<rparr>
     = ([JObj [(''event_id'', JStr ''e1'')]], \<lparr>tl_offset = 2, tl_saved = Some ''2''\<rparr>)"
  "pending_events demo_line (Some [49, 10, 65, 10]) \<lparr>tl_offset = 0, tl_saved = None\<rparr>
     = ([] @ JInt 1 # [JObj [(''event_id'', JStr ''e1'')]], \<lparr>tl_offset = 4, tl_saved = Some ''4''\<rparr>)"
  by code_simp+

definition demo_upload :: "bytes \<Rightarrow> (json \<times> outcome) list \<times> unit res \<times> event_tailer \<times> enforcer option \<times> uplink" where
  "demo_upload data = upload_pending_events (demo_entry False) 5 no_lists demo_context demo_line (Some data)
     (\<lparr>tl_offset = 0, tl_saved = None\<rparr>, None, demo_uplink)"

theorem events_accounted_witness:
  "\<exists>outs. list_all2 (answers_for None demo_context) [JObj [(''event_id'', JStr ''e1'')]] outs"
proof -
  obtain outs r t enf s where u: "demo_upload [65, 10] = (outs, r, t, enf, s)" by (rule prod_cases5)
  have "fst (snd (demo_upload [65, 10])) = Inr ()" "fst (snd (snd (snd (demo_upload [65, 10])))) = None"
    by (simp_all add: demo_upload_def upload_pending_events_def reload_enforcer_def demo_events exempts_def enriched_def split: prod.split)
  then have r: "r = Inr ()" "enf = None" using u by simp_all
  have "length (ub_rows (ul_buffer demo_uplink)) + 1 \<le> ub_max (ul_buffer demo_uplink)" by code_simp
  then show ?thesis
    using events_accounted [OF demo_uplink_wf _ u [unfolded r demo_upload_def]] by (auto simp: demo_events)
qed

theorem poison_line_ends_agent_witness: "\<exists>x. fst (snd (demo_upload [49, 10, 65, 10])) = Inl x"
proof -
  obtain outs r t enf s where u: "demo_upload [49, 10, 65, 10] = (outs, r, t, enf, s)" by (rule prod_cases5)
  have "fst (reload_enforcer 5 no_lists None) = Inr ()" by (simp add: reload_enforcer_def)
  from poison_line_ends_agent [OF demo_events(2) _ u [unfolded demo_upload_def] this] show ?thesis by (simp add: u)
qed

end
