(* ===== verification/Vpn.thy ===== *)
theory Vpn
  imports Jsontext
begin

text \<open>
  The VPN sidecar (\<open>services/vpn-client/supervisor.py\<close>): it reads the desired state the console writes
  and starts, stops and restarts one OpenVPN child to match. The state is the \<open>Supervisor\<close> object with
  the child behind its handle; children that are still running when the handle is dropped are kept
  apart, so that "at most one tunnel" can be stated. The host is a parameter of a pass: the files, the
  clock (read once in a pass), the answers of the management socket and of the interface probe, and
  whether a launch or a signal fails. The fixed texts of the errors are constructors.
\<close>

section \<open>State\<close>

datatype vpn_error = Profile_missing string | No_profile | Launch_failed string | Ended_for_good
  | Ended int | Shutting_down | Supervisor_error py_error

text \<open>A child of \<open>Popen\<close>: the command line it was started with, and its exit code once it has ended.\<close>

record child =
  ch_argv :: "string list"
  ch_exit :: "int option"

record vpn_status =
  st_state :: string
  st_desired_connect :: bool
  st_profile :: json
  st_ip :: "string option"
  st_tun :: "string option"
  st_server :: "string option"
  st_since :: "string option"
  st_in :: "nat option"
  st_out :: "nat option"
  st_error :: "vpn_error option"
  st_updated :: string

record supervisor =
  sv_proc :: "child option"
  sv_profile :: "string option"
  sv_epoch :: json
  sv_since :: "string option"
  sv_error :: "vpn_error option"
  sv_backoff :: pyfloat
  sv_next :: pyfloat
  sv_tun :: "string option"
  sv_gave_up :: json
  sv_left :: "child list"
  sv_status :: "vpn_status option"

definition init_supervisor :: supervisor where
  "init_supervisor = \<lparr>sv_proc = None, sv_profile = None, sv_epoch = JNull, sv_since = None, sv_error = None,
     sv_backoff = 0, sv_next = 0, sv_tun = None, sv_gave_up = JNull, sv_left = [], sv_status = None\<rparr>"

record vpn_world =
  vw_desired :: jfile
  vw_dir :: string
  vw_root :: string
  vw_port :: nat
  vw_resolve :: "string \<Rightarrow> string \<times> bool"
  vw_is_file :: "string \<Rightarrow> bool"
  vw_time :: pyfloat
  vw_iso :: string
  vw_spawn :: "string list \<Rightarrow> string option"
  vw_signal_fails :: bool
  vw_mgmt :: "string \<Rightarrow> string option"
  vw_log :: tfile
  vw_ipv4 :: "string \<Rightarrow> string option"
  vw_net :: "string list option"
  vw_disk :: bool

definition backoff_base :: pyfloat where "backoff_base = 3"
definition backoff_max :: pyfloat where "backoff_max = 60"

definition profiles_dir :: "vpn_world \<Rightarrow> string" where
  "profiles_dir w = vw_dir w @ ''/profiles''"

definition run_dir :: "vpn_world \<Rightarrow> string" where
  "run_dir w = vw_dir w @ ''/run''"

section \<open>Profiles\<close>

text \<open>\<open>^[A-Za-z0-9._-]{1,64}$\<close>: the dollar also matches before a last newline.\<close>

definition profile_char :: "char \<Rightarrow> bool" where
  "profile_char c = (let n = chr_code c in (65 \<le> n \<and> n \<le> 90) \<or> (97 \<le> n \<and> n \<le> 122) \<or> (48 \<le> n \<and> n \<le> 57)
     \<or> n = 46 \<or> n = 95 \<or> n = 45)"

definition profile_re :: "string \<Rightarrow> bool" where
  "profile_re s = (let m = (if s \<noteq> [] \<and> last s = CHR 0x0A then butlast s else s) in
     1 \<le> length m \<and> length m \<le> 64 \<and> (\<forall>c\<in>set m. profile_char c))"

text \<open>\<open>p.relative_to(root)\<close> on resolved paths.\<close>

definition inside :: "string \<Rightarrow> string \<Rightarrow> bool" where
  "inside base p = (p = base \<or> starts_with (base @ ''/'') p)"

definition profile_path :: "vpn_world \<Rightarrow> string \<Rightarrow> string option" where
  "profile_path w name =
     (if name = [] \<or> \<not> profile_re name then None
      else (case vw_resolve w name of (p, there) \<Rightarrow>
        if \<not> inside (vw_root w) p then None else if there then Some p else None))"

text \<open>\<open>path.with_suffix(ext)\<close>: the last dot of the file name starts its suffix, unless it is its first or last character.\<close>

fun last_dot :: "string \<Rightarrow> string \<Rightarrow> (string \<times> string) option" where
  "last_dot acc [] = None"
| "last_dot acc (c # cs) = (if c = CHR ''.'' then Some (cs, acc) else last_dot (c # acc) cs)"

definition base_name :: "string \<Rightarrow> string" where
  "base_name p = rev (takeWhile (\<lambda>c. c \<noteq> CHR ''/'') (rev p))"

definition with_suffix :: "string \<Rightarrow> string \<Rightarrow> string" where
  "with_suffix p ext = (let name = base_name p; dir = take (length p - length name) p in
     dir @ (case last_dot [] (rev name) of
         Some (stem, tail) \<Rightarrow> if stem \<noteq> [] \<and> tail \<noteq> [] then rev stem else name
       | None \<Rightarrow> name) @ ext)"

section \<open>The command line\<close>

definition hijack_options :: "string list" where
  "hijack_options = [''redirect-gateway'', ''route 0.0.0.0 0.0.0.0'', ''route 0.0.0.0 128.0.0.0'', ''route 128.0.0.0 128.0.0.0'']"

definition auto_reconnect :: "json \<Rightarrow> bool" where
  "auto_reconnect d = truthy (jget_default d ''auto_reconnect'' (JBool True))"

definition build_argv :: "vpn_world \<Rightarrow> string \<Rightarrow> json \<Rightarrow> string list" where
  "build_argv w path d =
     [''openvpn'', ''--config'', path, ''--cd'', profiles_dir w, ''--management'', ''127.0.0.1'', dec (vw_port w),
      ''--verb'', ''3'', ''--ping'', ''10'', ''--persist-tun'', ''--persist-key'', ''--connect-retry'', ''5'',
      ''--log'', run_dir w @ ''/openvpn.log'', ''--writepid'', run_dir w @ ''/openvpn.pid'',
      ''--status'', run_dir w @ ''/openvpn-status.log'', ''5'', ''--script-security'', ''1''] @
     (if auto_reconnect d then [''--ping-restart'', ''60'', ''--connect-retry-max'', ''0'']
      else [''--ping-exit'', ''60'', ''--connect-retry-max'', ''2'']) @
     (if truthy (jget d ''redirect_gateway'') then []
      else concat (map (\<lambda>opt. [''--pull-filter'', ''ignore'', opt]) hijack_options)) @
     (if truthy (jget d ''auth'') \<and> vw_is_file w (with_suffix path ''.auth'') then [''--auth-user-pass'', with_suffix path ''.auth''] else [])"

section \<open>The child\<close>

definition proc_running :: "supervisor \<Rightarrow> bool" where
  "proc_running s = (case sv_proc s of None \<Rightarrow> False | Some c \<Rightarrow> ch_exit c = None)"

text \<open>Dropping the handle of a child that still runs leaves the child behind.\<close>

definition drop_handle :: "supervisor \<Rightarrow> supervisor" where
  "drop_handle s = s\<lparr>sv_proc := None, sv_left := (case sv_proc s of
       Some c \<Rightarrow> if ch_exit c = None then c # sv_left s else sv_left s | None \<Rightarrow> sv_left s)\<rparr>"

definition end_child :: "int \<Rightarrow> supervisor \<Rightarrow> supervisor" where
  "end_child code s = s\<lparr>sv_proc := map_option (\<lambda>c. if ch_exit c = None then c\<lparr>ch_exit := Some code\<rparr> else c) (sv_proc s)\<rparr>"

definition bump_backoff :: "vpn_world \<Rightarrow> supervisor \<Rightarrow> supervisor" where
  "bump_backoff w s = (let b = min backoff_max (max backoff_base (if sv_backoff s * 2 \<noteq> 0 then sv_backoff s * 2 else backoff_base)) in
     s\<lparr>sv_backoff := b, sv_next := vw_time w + b\<rparr>)"

definition start_proc :: "vpn_world \<Rightarrow> string \<Rightarrow> string \<Rightarrow> json \<Rightarrow> supervisor \<Rightarrow> supervisor" where
  "start_proc w profile path d s =
     (let argv = build_argv w path d in
      case vw_spawn w argv of
        Some exc \<Rightarrow> bump_backoff w (drop_handle (s\<lparr>sv_error := Some (Launch_failed exc)\<rparr>))
      | None \<Rightarrow> (drop_handle s)\<lparr>sv_proc := Some \<lparr>ch_argv = argv, ch_exit = None\<rparr>, sv_profile := Some profile,
          sv_epoch := jget d ''epoch'', sv_since := None, sv_tun := None, sv_error := None\<rparr>)"

text \<open>A child that gets the signal ends (of itself, or killed three seconds later).\<close>

definition stop_proc :: "vpn_world \<Rightarrow> vpn_error option \<Rightarrow> supervisor \<Rightarrow> supervisor" where
  "stop_proc w reason s =
     (let s = (if proc_running s \<and> \<not> vw_signal_fails w then end_child (- 15) s else s);
          s = (drop_handle s)\<lparr>sv_profile := None, sv_epoch := JNull, sv_since := None, sv_tun := None\<rparr> in
      if reason = None then s else s\<lparr>sv_error := reason\<rparr>)"

section \<open>The management socket\<close>

record mgmt_state =
  mg_name :: string
  mg_detail :: string
  mg_tun_ip :: "string option"
  mg_server :: "string option"

definition nth_text :: "string list \<Rightarrow> nat \<Rightarrow> string option" where
  "nth_text ps i = (if i < length ps \<and> ps ! i \<noteq> [] then Some (ps ! i) else None)"

fun state_of_lines :: "string list \<Rightarrow> mgmt_state option" where
  "state_of_lines [] = None"
| "state_of_lines (l # ls) = (let line = strip l in
     if line = [] \<or> starts_with ''>'' line \<or> line = ''END'' \<or> starts_with ''SUCCESS'' line then state_of_lines ls
     else let parts = split_on (CHR '','') line in
       (case nth_text parts 1 of
          Some name \<Rightarrow> Some \<lparr>mg_name = name, mg_detail = (if 2 < length parts then parts ! 2 else []), mg_tun_ip = nth_text parts 3, mg_server = nth_text parts 4\<rparr>
        | None \<Rightarrow> state_of_lines ls))"

definition mgmt_state_of :: "string option \<Rightarrow> mgmt_state option" where
  "mgmt_state_of raw = (case raw of None \<Rightarrow> None | Some t \<Rightarrow> state_of_lines (text_lines t))"

text \<open>The last run of digits of a line.\<close>

definition last_int :: "string \<Rightarrow> nat option" where
  "last_int line = (let tail = dropWhile (\<lambda>c. \<not> is_digit c) (rev line) in
     if tail = [] then None else Some (dec_val (rev (takeWhile is_digit tail))))"

definition stats_line :: "string \<Rightarrow> nat option \<times> nat option \<Rightarrow> nat option \<times> nat option" where
  "stats_line line st = (let low = lower line in
     if is_infix ''read bytes'' low \<or> is_infix ''bytes received'' low then (last_int line, snd st)
     else if is_infix ''write bytes'' low \<or> is_infix ''bytes sent'' low then (fst st, last_int line)
     else st)"

definition mgmt_stats_of :: "string option \<Rightarrow> nat option \<times> nat option" where
  "mgmt_stats_of raw = (case raw of None \<Rightarrow> (None, None) | Some t \<Rightarrow> fold stats_line (text_lines t) (None, None))"

section \<open>The tunnel device\<close>

text \<open>\<open>re.search\<close>: the match that starts first. A matcher gets the character before the position.\<close>

fun search_from :: "(char option \<Rightarrow> string \<Rightarrow> 'a option) \<Rightarrow> char option \<Rightarrow> string \<Rightarrow> 'a option" where
  "search_from f prev [] = f prev []"
| "search_from f prev (c # cs) = (case f prev (c # cs) of Some r \<Rightarrow> Some r | None \<Rightarrow> search_from f (Some c) cs)"

definition after_text :: "string \<Rightarrow> string \<Rightarrow> string option" where
  "after_text word s = (if starts_with word s then Some (drop (length word) s) else None)"

definition is_lower_az :: "char \<Rightarrow> bool" where
  "is_lower_az c = (97 \<le> chr_code c \<and> chr_code c \<le> 122)"

text \<open>\<open>\\w\<close> below U+0100.\<close>

definition word_char :: "char \<Rightarrow> bool" where
  "word_char c = (let n = chr_code c in (48 \<le> n \<and> n \<le> 57) \<or> (65 \<le> n \<and> n \<le> 90) \<or> (97 \<le> n \<and> n \<le> 122) \<or> n = 95
     \<or> n \<in> {170, 178, 179, 181, 185, 186, 188, 189, 190} \<or> (192 \<le> n \<and> n \<noteq> 215 \<and> n \<noteq> 247))"

text \<open>\<open>\\s+([a-z]+\\d+)\<close> after one of the phrases OpenVPN logs.\<close>

definition device_after :: "string \<Rightarrow> string option" where
  "device_after s = (let t = lstrip s; name = takeWhile is_lower_az t; digits = takeWhile is_digit (dropWhile is_lower_az t) in
     if t \<noteq> s \<and> name \<noteq> [] \<and> digits \<noteq> [] then Some (name @ digits) else None)"

definition mtu_phrase :: "string \<Rightarrow> string option" where
  "mtu_phrase s = (case after_text ''net_iface_mtu_set:'' s of None \<Rightarrow> None
     | Some r \<Rightarrow> (case after_text ''mtu '' (lstrip r) of None \<Rightarrow> None
         | Some q \<Rightarrow> if takeWhile is_digit q = [] then None else after_text '' for'' (dropWhile is_digit q)))"

definition tun_open_re :: "char option \<Rightarrow> string \<Rightarrow> string option" where
  "tun_open_re prev s = (case after_text ''TUN/TAP device'' s of Some r \<Rightarrow> device_after r
     | None \<Rightarrow> (case after_text ''Opened utun device'' s of Some r \<Rightarrow> device_after r
        | None \<Rightarrow> (case mtu_phrase s of Some r \<Rightarrow> device_after r | None \<Rightarrow> None)))"

definition numbered_device :: "string \<Rightarrow> string \<Rightarrow> string option" where
  "numbered_device word s = (case after_text word s of None \<Rightarrow> None
     | Some r \<Rightarrow> let digits = takeWhile is_digit r; rest = dropWhile is_digit r in
         if digits \<noteq> [] \<and> (rest = [] \<or> \<not> word_char (hd rest)) then Some (word @ digits) else None)"

definition tun_dev_re :: "char option \<Rightarrow> string \<Rightarrow> string option" where
  "tun_dev_re prev s = (if (case prev of None \<Rightarrow> False | Some c \<Rightarrow> word_char c) then None
     else (case numbered_device ''tun'' s of Some d \<Rightarrow> Some d
       | None \<Rightarrow> (case numbered_device ''tap'' s of Some d \<Rightarrow> Some d | None \<Rightarrow> numbered_device ''utun'' s)))"

definition log_device :: "string \<Rightarrow> string option" where
  "log_device t = (case search_from tun_open_re None t of Some d \<Rightarrow> Some d | None \<Rightarrow> search_from tun_dev_re None t)"

definition discover_tun :: "vpn_world \<Rightarrow> supervisor \<Rightarrow> string option \<times> supervisor" where
  "discover_tun w s =
     (if (case sv_tun s of None \<Rightarrow> False | Some d \<Rightarrow> d \<noteq> [] \<and> vw_ipv4 w d \<noteq> None) then (sv_tun s, s)
      else (case log_device (case vw_log w of Text t \<Rightarrow> t | _ \<Rightarrow> []) of
          Some d \<Rightarrow> (Some d, s\<lparr>sv_tun := Some d\<rparr>)
        | None \<Rightarrow> (case find (\<lambda>n. (starts_with ''tun'' n \<or> starts_with ''tap'' n \<or> starts_with ''utun'' n) \<and> vw_ipv4 w n \<noteq> None)
              (case vw_net w of None \<Rightarrow> [] | Some ns \<Rightarrow> ns) of
            Some d \<Rightarrow> (Some d, s\<lparr>sv_tun := Some d\<rparr>)
          | None \<Rightarrow> (None, s))))"

section \<open>The status file\<close>

definition transient_states :: "string list" where
  "transient_states = [''CONNECTING'', ''WAIT'', ''AUTH'', ''GET_CONFIG'', ''ASSIGN_IP'', ''ADD_ROUTES'', ''RECONNECTING'', ''RESOLVE'']"

definition link_name :: "string \<Rightarrow> string" where
  "link_name raw = (let name = upper raw in
     if name = ''CONNECTED'' then ''connected''
     else if name \<in> set transient_states then ''connecting''
     else if lower name \<noteq> [] then lower name else ''connecting'')"

text \<open>What a running child looks like: state, address, server and counters.\<close>

definition probe_link :: "vpn_world \<Rightarrow> supervisor \<Rightarrow> (string \<times> string option \<times> string option \<times> nat option \<times> nat option) \<times> supervisor" where
  "probe_link w s =
     (let (name, ip, server, stats) = (case mgmt_state_of (vw_mgmt w ''state'') of
           Some m \<Rightarrow> (link_name (mg_name m), mg_tun_ip m, mg_server m, mgmt_stats_of (vw_mgmt w ''status''))
         | None \<Rightarrow> (''connecting'', None, None, (None, None)));
          (dev, s) = discover_tun w s;
          found = (case dev of None \<Rightarrow> None | Some d \<Rightarrow> if d = [] then None else vw_ipv4 w d);
          ip = (if found \<noteq> None then found else ip);
          name = (if found \<noteq> None \<and> name = ''connecting'' then ''connected'' else name);
          s = s\<lparr>sv_since := (if name = ''connected'' then (if sv_since s \<noteq> None then sv_since s else Some (vw_iso w)) else None)\<rparr> in
      ((name, ip, server, stats), s))"

definition gave_up :: "json \<Rightarrow> supervisor \<Rightarrow> bool" where
  "gave_up d s = (\<not> auto_reconnect d \<and> py_eq (sv_gave_up s) (jget d ''epoch''))"

definition opt_text :: "string option \<Rightarrow> json" where
  "opt_text v = (case v of None \<Rightarrow> JNull | Some t \<Rightarrow> JStr t)"

definition write_vpn_status :: "vpn_world \<Rightarrow> json \<Rightarrow> supervisor \<Rightarrow> supervisor" where
  "write_vpn_status w d s =
     (let ((name, ip, server, bin, bout), s) = (if proc_running s then probe_link w s else ((''disconnected'', None, None, None, None), s));
          wanted = truthy (jget d ''connect'');
          name = (if \<not> proc_running s \<and> wanted \<and> \<not> gave_up d s then (if sv_error s \<noteq> None then ''reconnecting'' else ''connecting'') else name) in
      if \<not> vw_disk w then s
      else s\<lparr>sv_status := Some \<lparr>st_state = name, st_desired_connect = wanted,
        st_profile = py_or (opt_text (sv_profile s)) (if wanted then jget d ''profile'' else JNull), st_ip = ip, st_tun = sv_tun s,
        st_server = server, st_since = sv_since s, st_in = bin, st_out = bout, st_error = sv_error s, st_updated = vw_iso w\<rparr>\<rparr>)"

section \<open>Reconciling\<close>

definition wanted_profile :: "json \<Rightarrow> string" where
  "wanted_profile d = (if truthy (jget d ''connect'') then str_or_empty (jget d ''profile'') else [])"

definition target_path :: "vpn_world \<Rightarrow> json \<Rightarrow> string option" where
  "target_path w d = (if wanted_profile d = [] then None else profile_path w (wanted_profile d))"

text \<open>The child has ended, or there was none: the latch, or the delay before the next start.\<close>

definition note_exit :: "vpn_world \<Rightarrow> json \<Rightarrow> supervisor \<Rightarrow> supervisor" where
  "note_exit w d s = (case sv_proc s of None \<Rightarrow> s
     | Some c \<Rightarrow> (case ch_exit c of None \<Rightarrow> s
        | Some code \<Rightarrow> let s = s\<lparr>sv_proc := None, sv_profile := None\<rparr> in
            if \<not> auto_reconnect d then s\<lparr>sv_gave_up := jget d ''epoch'', sv_error := Some Ended_for_good\<rparr>
            else bump_backoff w (s\<lparr>sv_error := Some (Ended code)\<rparr>)))"

definition start_if_due :: "vpn_world \<Rightarrow> string \<Rightarrow> json \<Rightarrow> supervisor \<Rightarrow> supervisor" where
  "start_if_due w path d s =
     (if gave_up d s then s
      else if sv_next s \<le> vw_time w then (start_proc w (wanted_profile d) path d s)\<lparr>sv_backoff := 0\<rparr>
      else s)"

definition restart_wanted :: "json \<Rightarrow> supervisor \<Rightarrow> bool" where
  "restart_wanted d s = ((sv_profile s \<noteq> None \<and> sv_profile s \<noteq> Some (wanted_profile d)) \<or> \<not> py_eq (jget d ''epoch'') (sv_epoch s))"

definition clear_latch :: "json \<Rightarrow> supervisor \<Rightarrow> supervisor" where
  "clear_latch d s = (if sv_gave_up s \<noteq> JNull \<and> \<not> py_eq (sv_gave_up s) (jget d ''epoch'') then s\<lparr>sv_gave_up := JNull\<rparr> else s)"

definition keep_connected :: "vpn_world \<Rightarrow> string \<Rightarrow> json \<Rightarrow> supervisor \<Rightarrow> supervisor" where
  "keep_connected w path d s0 =
     (let s = clear_latch d s0;
          s = (if proc_running s \<and> restart_wanted d s then (stop_proc w None s)\<lparr>sv_backoff := 0, sv_next := 0\<rparr> else s) in
      if proc_running s then s else start_if_due w path d (note_exit w d s))"

definition reconcile :: "vpn_world \<Rightarrow> json \<Rightarrow> supervisor \<Rightarrow> supervisor" where
  "reconcile w d s =
     (case target_path w d of
        Some path \<Rightarrow> write_vpn_status w d (keep_connected w path d s)
      | None \<Rightarrow>
          if truthy (jget d ''connect'')
          then write_vpn_status w d ((stop_proc w None s)\<lparr>sv_error := Some (if wanted_profile d = [] then No_profile else Profile_missing (wanted_profile d))\<rparr>)
          else write_vpn_status w d ((if proc_running s \<or> sv_profile s \<noteq> None then stop_proc w None s else s)\<lparr>sv_error := None, sv_backoff := 0\<rparr>))"

text \<open>\<open>reconcile_once\<close>: only an object has \<open>get\<close>; the caller keeps any exception as the last error.\<close>

definition read_desired :: "jfile \<Rightarrow> json res" where
  "read_desired f = (case f of Doc v \<Rightarrow> if is_obj v then Inr v else Inl AttributeError | _ \<Rightarrow> Inr (JObj []))"

definition run_pass :: "vpn_world \<Rightarrow> supervisor \<Rightarrow> supervisor" where
  "run_pass w s = (case read_desired (vw_desired w) of
     Inl e \<Rightarrow> s\<lparr>sv_error := Some (Supervisor_error e)\<rparr> | Inr d \<Rightarrow> reconcile w d s)"

definition shut_down :: "vpn_world \<Rightarrow> supervisor \<Rightarrow> supervisor" where
  "shut_down w s = stop_proc w (Some Shutting_down) s"


section \<open>What an operation leaves unchanged\<close>

lemma discover_tun_keeps [simp]:
  "sv_proc (snd (discover_tun w s)) = sv_proc s"
  "sv_profile (snd (discover_tun w s)) = sv_profile s"
  "sv_epoch (snd (discover_tun w s)) = sv_epoch s"
  "sv_error (snd (discover_tun w s)) = sv_error s"
  "sv_backoff (snd (discover_tun w s)) = sv_backoff s"
  "sv_next (snd (discover_tun w s)) = sv_next s"
  "sv_gave_up (snd (discover_tun w s)) = sv_gave_up s"
  "sv_left (snd (discover_tun w s)) = sv_left s"
  by (simp_all add: discover_tun_def split: option.splits)

lemma probe_link_keeps [simp]:
  "sv_proc (snd (probe_link w s)) = sv_proc s"
  "sv_profile (snd (probe_link w s)) = sv_profile s"
  "sv_epoch (snd (probe_link w s)) = sv_epoch s"
  "sv_error (snd (probe_link w s)) = sv_error s"
  "sv_backoff (snd (probe_link w s)) = sv_backoff s"
  "sv_next (snd (probe_link w s)) = sv_next s"
  "sv_gave_up (snd (probe_link w s)) = sv_gave_up s"
  "sv_left (snd (probe_link w s)) = sv_left s"
  by (simp_all add: probe_link_def Let_def split_def)

lemma write_vpn_status_keeps [simp]:
  "sv_proc (write_vpn_status w d s) = sv_proc s"
  "sv_profile (write_vpn_status w d s) = sv_profile s"
  "sv_epoch (write_vpn_status w d s) = sv_epoch s"
  "sv_error (write_vpn_status w d s) = sv_error s"
  "sv_backoff (write_vpn_status w d s) = sv_backoff s"
  "sv_next (write_vpn_status w d s) = sv_next s"
  "sv_gave_up (write_vpn_status w d s) = sv_gave_up s"
  "sv_left (write_vpn_status w d s) = sv_left s"
  by (simp_all add: write_vpn_status_def Let_def split_def)

lemma write_vpn_status_running [simp]: "proc_running (write_vpn_status w d s) = proc_running s"
  by (simp add: proc_running_def)

lemma clear_latch_keeps [simp]:
  "sv_proc (clear_latch d s) = sv_proc s" "sv_profile (clear_latch d s) = sv_profile s"
  "sv_epoch (clear_latch d s) = sv_epoch s" "sv_backoff (clear_latch d s) = sv_backoff s"
  "sv_next (clear_latch d s) = sv_next s" "sv_left (clear_latch d s) = sv_left s"
  "proc_running (clear_latch d s) = proc_running s"
  by (simp_all add: clear_latch_def proc_running_def)

lemma stop_proc_handle [simp]: "sv_proc (stop_proc w r s) = None" "\<not> proc_running (stop_proc w r s)"
  "sv_profile (stop_proc w r s) = None" "sv_backoff (stop_proc w r s) = sv_backoff s" "sv_next (stop_proc w r s) = sv_next s"
  "sv_gave_up (stop_proc w r s) = sv_gave_up s"
  by (simp_all add: stop_proc_def drop_handle_def end_child_def Let_def proc_running_def)

lemma stop_proc_left [simp]: "\<not> vw_signal_fails w \<Longrightarrow> sv_left (stop_proc w r s) = sv_left s"
  by (auto simp: stop_proc_def drop_handle_def end_child_def Let_def proc_running_def split: option.splits)

lemma drop_idle_handle: "\<not> proc_running s \<Longrightarrow> drop_handle s = s\<lparr>sv_proc := None\<rparr>"
  by (auto simp: drop_handle_def proc_running_def split: option.splits)

section \<open>The shape of the state\<close>

text \<open>
  A handle comes with a profile and with no delay pending from an earlier failure; no delay reaches further
  than six seconds, for every start forgets what was accumulated.
\<close>

definition sup_ok :: "pyfloat \<Rightarrow> supervisor \<Rightarrow> bool" where
  "sup_ok t s = (0 \<le> t \<and> (sv_proc s \<noteq> None \<longrightarrow> sv_profile s \<noteq> None \<and> sv_backoff s = 0) \<and> sv_backoff s \<in> {0, 3} \<and> sv_next s \<le> t + 6)"

lemma bump_backoff_small: "sv_backoff s \<in> {0, 3} \<Longrightarrow>
    bump_backoff w s = s\<lparr>sv_backoff := (if sv_backoff s = 0 then 3 else 6), sv_next := vw_time w + (if sv_backoff s = 0 then 3 else 6)\<rparr>"
  by (auto simp: bump_backoff_def Let_def backoff_base_def backoff_max_def min_def max_def)

lemma sup_ok_time: "sup_ok t s \<Longrightarrow> t \<le> t' \<Longrightarrow> sup_ok t' s"
  by (auto simp: sup_ok_def)

lemma sup_ok_note_exit:
  assumes "sup_ok (vw_time w) s"
  shows "sup_ok (vw_time w) (note_exit w d s)"
  using assms by (auto simp: note_exit_def sup_ok_def bump_backoff_small Let_def split: option.splits)

lemma sup_ok_start:
  assumes s: "sup_ok (vw_time w) s"
  shows "sup_ok (vw_time w) (start_if_due w path d s)"
proof -
  have b: "sv_backoff s \<in> {0, 3}" using s by (simp add: sup_ok_def)
  have f: "bump_backoff w (drop_handle (s\<lparr>sv_error := e\<rparr>)) = (drop_handle (s\<lparr>sv_error := e\<rparr>))
      \<lparr>sv_backoff := (if sv_backoff s = 0 then 3 else 6), sv_next := vw_time w + (if sv_backoff s = 0 then 3 else 6)\<rparr>" for e
    using bump_backoff_small [of "drop_handle (s\<lparr>sv_error := e\<rparr>)" w] b by (simp add: drop_handle_def)
  have g: "sup_ok (vw_time w) ((bump_backoff w (drop_handle (s\<lparr>sv_error := e\<rparr>)))\<lparr>sv_backoff := 0\<rparr>)" for e
    unfolding f using s by (simp add: sup_ok_def drop_handle_def)
  show ?thesis
  proof (cases "vw_spawn w (build_argv w path d)")
    case None
    then show ?thesis using s by (auto simp: start_if_due_def start_proc_def sup_ok_def drop_handle_def Let_def)
  next
    case (Some e)
    then show ?thesis using s g by (auto simp: start_if_due_def start_proc_def Let_def)
  qed
qed

text \<open>Within a pass: after the latch and the restart of a running child.\<close>

definition settle :: "vpn_world \<Rightarrow> json \<Rightarrow> supervisor \<Rightarrow> supervisor" where
  "settle w d s0 = (let s = clear_latch d s0 in
     if proc_running s \<and> restart_wanted d s then (stop_proc w None s)\<lparr>sv_backoff := 0, sv_next := 0\<rparr> else s)"

lemma keep_connected_eq: "keep_connected w path d s =
    (let s' = settle w d s in if proc_running s' then s' else start_if_due w path d (note_exit w d s'))"
  by (simp add: keep_connected_def settle_def Let_def)

lemma sup_ok_settle: "sup_ok (vw_time w) s \<Longrightarrow> sup_ok (vw_time w) (settle w d s)"
  by (auto simp: settle_def sup_ok_def Let_def)

lemma sup_ok_keep: "sup_ok (vw_time w) s \<Longrightarrow> sup_ok (vw_time w) (keep_connected w path d s)"
  by (auto simp: keep_connected_eq Let_def intro: sup_ok_settle sup_ok_start sup_ok_note_exit)

lemma sup_ok_write_status [simp]: "sup_ok t (write_vpn_status w d s) = sup_ok t s"
  by (simp add: sup_ok_def)

lemma sup_ok_pass:
  assumes "sup_ok t s" "t \<le> vw_time w"
  shows "sup_ok (vw_time w) (run_pass w s)"
proof (cases "read_desired (vw_desired w)")
  case (Inl e)
  then show ?thesis using sup_ok_time [OF assms] by (simp add: run_pass_def sup_ok_def)
next
  case (Inr d)
  have s: "sup_ok (vw_time w) s" using sup_ok_time [OF assms] .
  show ?thesis
  proof (cases "target_path w d")
    case None
    then show ?thesis using s Inr by (auto simp: run_pass_def reconcile_def sup_ok_def)
  next
    case (Some path)
    then show ?thesis using Inr sup_ok_keep [OF s] by (simp add: run_pass_def reconcile_def)
  qed
qed

text \<open>The supervisor as it runs: passes on a clock that does not go back, and children that end by themselves.\<close>

inductive supervised :: "(vpn_world \<Rightarrow> bool) \<Rightarrow> pyfloat \<Rightarrow> supervisor \<Rightarrow> bool" for hosts where
  boot: "0 \<le> t \<Longrightarrow> supervised hosts t init_supervisor"
| pass: "supervised hosts t s \<Longrightarrow> hosts w \<Longrightarrow> t \<le> vw_time w \<Longrightarrow> supervised hosts (vw_time w) (run_pass w s)"
| ends: "supervised hosts t s \<Longrightarrow> supervised hosts t (end_child code s)"

lemma sup_ok_reached: "supervised hosts t s \<Longrightarrow> sup_ok t s"
proof (induction rule: supervised.induct)
  case (boot t)
  then show ?case by (simp add: sup_ok_def init_supervisor_def)
next
  case (pass t s w)
  then show ?case by (blast intro: sup_ok_pass)
next
  case (ends t s code)
  then show ?case by (auto simp: sup_ok_def end_child_def)
qed

text \<open>
  However often OpenVPN has crashed, the supervisor is never more than six seconds away from the next attempt:
  the delay it keeps is zero or three seconds, the doubling up to the maximum of sixty is never reached.
\<close>

theorem restart_within_seconds:
  assumes "supervised hosts t s"
  shows "sv_next s \<le> t + 6 \<and> sv_backoff s \<le> backoff_base"
  using sup_ok_reached [OF assms] by (auto simp: sup_ok_def backoff_base_def)

section \<open>One tunnel\<close>

lemma note_exit_left [simp]: "sv_left (note_exit w d s) = sv_left s"
  by (auto simp: note_exit_def bump_backoff_def Let_def split: option.splits)

lemma note_exit_running: "\<not> proc_running s \<Longrightarrow> \<not> proc_running (note_exit w d s) \<and> sv_proc (note_exit w d s) = None"
  by (auto simp: note_exit_def bump_backoff_def Let_def proc_running_def split: option.splits)

lemma start_if_due_left: "\<not> proc_running s \<Longrightarrow> sv_left (start_if_due w path d s) = sv_left s"
proof -
  assume r: "\<not> proc_running s"
  then have "\<not> proc_running (s\<lparr>sv_error := e\<rparr>)" for e by (simp add: proc_running_def)
  with r show ?thesis
    by (auto simp: start_if_due_def start_proc_def Let_def bump_backoff_def drop_idle_handle split: option.splits)
qed

lemma settle_left [simp]: "\<not> vw_signal_fails w \<Longrightarrow> sv_left (settle w d s) = sv_left s"
  by (auto simp: settle_def Let_def)

lemma pass_left:
  assumes "\<not> vw_signal_fails w"
  shows "sv_left (run_pass w s) = sv_left s"
proof (cases "read_desired (vw_desired w)")
  case (Inr d)
  have k: "sv_left (keep_connected w path d s) = sv_left s" for path
    using assms note_exit_running [of "settle w d s" w d]
    by (simp add: keep_connected_eq Let_def start_if_due_left)
  show ?thesis using Inr assms k by (auto simp: run_pass_def reconcile_def split: option.splits)
qed (simp add: run_pass_def)

text \<open>
  C40. There is never a second tunnel: while signals reach the children, no OpenVPN is ever left running behind the handle,
  in any sequence of passes, restarts, crashes and profile changes.
\<close>

theorem one_tunnel:
  assumes "supervised (\<lambda>w. \<not> vw_signal_fails w) t s"
  shows "sv_left s = []"
  using assms
proof (induction rule: supervised.induct)
  case (boot t)
  then show ?case by (simp add: init_supervisor_def)
next
  case (pass t s w)
  then show ?case by (simp add: pass_left)
next
  case (ends t s code)
  then show ?case by (simp add: end_child_def)
qed

section \<open>Reaching the desired state\<close>

text \<open>The child runs for the profile and the request that are wanted.\<close>

definition serving :: "json \<Rightarrow> supervisor \<Rightarrow> bool" where
  "serving d s = (proc_running s \<and> sv_profile s = Some (wanted_profile d) \<and> py_eq (jget d ''epoch'') (sv_epoch s))"

lemma serving_write_vpn_status [simp]: "serving d (write_vpn_status w e s) = serving d s"
  by (simp add: serving_def)

lemma proc_running_delays [simp]: "proc_running (s\<lparr>sv_backoff := b, sv_next := n\<rparr>) = proc_running s"
  by (simp add: proc_running_def)

lemma settle_not_running: "\<not> proc_running s \<Longrightarrow> settle w d s = clear_latch d s"
  by (simp add: settle_def Let_def)

lemma settle_serving: "serving d s \<Longrightarrow> serving d (settle w d s)"
  by (simp add: settle_def Let_def serving_def restart_wanted_def)

lemma settle_running:
  assumes "sup_ok t s" "proc_running (settle w d s)"
  shows "serving d (settle w d s)"
proof -
  have "sv_profile s \<noteq> None" if "proc_running s" using assms(1) that by (auto simp: sup_ok_def proc_running_def split: option.splits)
  then show ?thesis using assms(2) by (auto simp: settle_def serving_def restart_wanted_def Let_def split: if_splits)
qed

lemma keep_serving: "serving d s \<Longrightarrow> serving d (keep_connected w path d s)"
  using settle_serving [of d s w] by (simp add: keep_connected_eq Let_def serving_def)

lemma start_serves:
  assumes "\<not> gave_up d s" "sv_next s \<le> vw_time w" "vw_spawn w (build_argv w path d) = None"
  shows "serving d (start_if_due w path d s)"
  using assms by (simp add: start_if_due_def start_proc_def Let_def serving_def proc_running_def)

lemma start_if_due_handle: "sv_proc s = None \<Longrightarrow> sv_proc (start_if_due w path d s) = None \<or> serving d (start_if_due w path d s)"
  by (auto simp: start_if_due_def start_proc_def Let_def bump_backoff_def drop_handle_def serving_def proc_running_def split: option.splits)

lemma keep_connected_outcome:
  assumes s: "sup_ok t s"
  shows "sv_proc (keep_connected w path d s) = None \<or> serving d (keep_connected w path d s)"
proof (cases "proc_running (settle w d s)")
  case True
  then show ?thesis using settle_running [OF s True] by (simp add: keep_connected_eq Let_def)
next
  case False
  then show ?thesis using note_exit_running [OF False, of w d] start_if_due_handle [of "note_exit w d (settle w d s)" w path d]
    by (simp add: keep_connected_eq Let_def)
qed

lemma idle_keep_connected:
  assumes "sv_proc s = None"
  shows "keep_connected w path d s = start_if_due w path d (clear_latch d s)"
  using assms settle_not_running [of s w d]
  by (simp add: keep_connected_eq Let_def proc_running_def note_exit_def)

lemma run_pass_target:
  "read_desired (vw_desired w) = Inr d \<Longrightarrow> target_path w d = Some path \<Longrightarrow> run_pass w s = write_vpn_status w d (keep_connected w path d s)"
  by (simp add: run_pass_def reconcile_def)

lemma comes_up:
  assumes r: "sup_ok t s" and t: "t \<le> vw_time v" "vw_time v + 6 \<le> vw_time w"
    and d: "read_desired (vw_desired v) = Inr d" "read_desired (vw_desired w) = Inr d"
    and p: "target_path v d = Some path" "target_path w d = Some path'"
    and a: "auto_reconnect d" and ok: "vw_spawn w (build_argv w path' d) = None"
  shows "serving d (run_pass w (run_pass v s))"
proof -
  have s: "sup_ok (vw_time v) s" using sup_ok_time [OF r t(1)] .
  let ?k = "run_pass v s"
  have k: "?k = write_vpn_status v d (keep_connected v path d s)" using run_pass_target [OF d(1) p(1)] .
  have n: "sv_next ?k \<le> vw_time v + 6" using sup_ok_pass [OF s, of v] by (auto simp: sup_ok_def)
  have w: "run_pass w ?k = write_vpn_status w d (keep_connected w path' d ?k)" using run_pass_target [OF d(2) p(2)] .
  consider "sv_proc ?k = None" | "serving d ?k" using keep_connected_outcome [OF s, of v path d] k by auto
  then show ?thesis
  proof cases
    case 1
    have "serving d (start_if_due w path' d (clear_latch d ?k))"
      using n t(2) a ok by (intro start_serves) (simp_all add: gave_up_def)
    then show ?thesis using w idle_keep_connected [OF 1, of w path' d] by simp
  next
    case 2
    then show ?thesis using keep_serving w by simp
  qed
qed

text \<open>
  A tunnel that is wanted comes up: from every state the supervisor can be in, two passes six seconds apart with the same
  desired state, its profile in place and reconnecting on, end with OpenVPN running for that profile and that request.
\<close>

theorem tunnel_comes_up:
  assumes r: "supervised hosts t s" and t: "t \<le> vw_time v" "vw_time v + 6 \<le> vw_time w"
    and d: "read_desired (vw_desired v) = Inr d" "read_desired (vw_desired w) = Inr d"
    and p: "target_path v d = Some path" "target_path w d = Some path'"
    and a: "auto_reconnect d" and ok: "vw_spawn w (build_argv w path' d) = None"
  shows "serving d (run_pass w (run_pass v s))"
  using comes_up [OF sup_ok_reached [OF r] t d p a ok] .

text \<open>
  A pass that finds the operator wanting no tunnel ends with no OpenVPN running and nothing left over from the
  last failure, whatever the state was.
\<close>

theorem disconnect_obeyed:
  assumes "read_desired (vw_desired w) = Inr d" "\<not> truthy (jget d ''connect'')"
  shows "\<not> proc_running (run_pass w s) \<and> sv_profile (run_pass w s) = None \<and> sv_error (run_pass w s) = None"
  using assms by (auto simp: run_pass_def reconcile_def target_path_def wanted_profile_def proc_running_def)

section \<open>Giving up\<close>

text \<open>With reconnecting off, the latch holds the supervisor down for one request.\<close>

definition latched :: "json \<Rightarrow> supervisor \<Rightarrow> bool" where
  "latched d s = (gave_up d s \<and> \<not> proc_running s)"

lemma latched_clear: "latched d s \<Longrightarrow> clear_latch d s = s"
  by (simp add: latched_def clear_latch_def gave_up_def)

lemma latched_note_exit: "latched d s \<Longrightarrow> latched d (note_exit w d s)"
  using note_exit_running [of s w d]
  by (auto simp: latched_def gave_up_def note_exit_def Let_def split: option.splits)

lemma latched_start: "latched d s \<Longrightarrow> start_if_due w path d s = s"
  by (simp add: latched_def start_if_due_def)

lemma latched_keep:
  assumes "latched d s"
  shows "latched d (keep_connected w path d s)"
proof -
  have n: "\<not> proc_running s" using assms by (simp add: latched_def)
  then have "settle w d s = s" using settle_not_running [OF n] latched_clear [OF assms] by simp
  then show ?thesis using n latched_note_exit [OF assms] latched_start by (simp add: keep_connected_eq)
qed

lemma exit_latches:
  assumes "sv_proc s = Some c" "ch_exit c = Some code" "\<not> auto_reconnect d"
  shows "latched d (keep_connected w path d s)"
proof -
  have n: "\<not> proc_running s" using assms by (simp add: proc_running_def)
  have l: "latched d (note_exit w d (clear_latch d s))"
    using assms by (simp add: note_exit_def Let_def latched_def gave_up_def proc_running_def)
  show ?thesis using n latched_start [OF l] l settle_not_running [OF n] by (simp add: keep_connected_eq)
qed

lemma latched_write_status [simp]: "latched d (write_vpn_status w e s) = latched d s"
  by (simp add: latched_def gave_up_def)

lemma latched_passes:
  assumes "latched d s" "\<forall>w\<in>set ws. read_desired (vw_desired w) = Inr d \<and> target_path w d \<noteq> None"
  shows "latched d (fold run_pass ws s)"
  using assms
proof (induction ws arbitrary: s)
  case (Cons w ws)
  obtain path where p: "read_desired (vw_desired w) = Inr d" "target_path w d = Some path" using Cons.prems(2) by auto
  have "latched d (run_pass w s)" using latched_keep [OF Cons.prems(1)] run_pass_target [OF p] by simp
  then show ?case using Cons.IH Cons.prems(2) by simp
qed simp

text \<open>
  With reconnecting off, an OpenVPN that has ended is not started again, in however many passes over whatever time,
  as long as the desired state stays the one the first of these passes read.
\<close>

theorem ended_stays_down:
  assumes c: "sv_proc s = Some c" "ch_exit c = Some code" and a: "\<not> auto_reconnect d"
    and ws: "\<forall>w\<in>set (v # ws). read_desired (vw_desired w) = Inr d \<and> target_path w d \<noteq> None"
  shows "\<not> proc_running (fold run_pass (v # ws) s)"
proof -
  obtain path where p: "read_desired (vw_desired v) = Inr d" "target_path v d = Some path" using ws by auto
  have "latched d (run_pass v s)" using exit_latches [OF c a] run_pass_target [OF p] by simp
  then have "latched d (fold run_pass ws (run_pass v s))" by (rule latched_passes) (use ws in simp)
  then show ?thesis by (simp add: latched_def)
qed

text \<open>
  The operator's reconnect revives it: a request with another number, read once the latch is set and the delay is over,
  starts OpenVPN in that pass although reconnecting is off.
\<close>

theorem reconnect_revives:
  assumes l: "latched d s" "sv_proc s = None" "jget d ''epoch'' \<noteq> JNull" "sv_gave_up s = jget d ''epoch''"
    and e: "read_desired (vw_desired w) = Inr e" "target_path w e = Some path" "\<not> py_eq (jget d ''epoch'') (jget e ''epoch'')"
    and n: "sv_next s \<le> vw_time w" "vw_spawn w (build_argv w path e) = None" "jget e ''epoch'' \<noteq> JNull"
  shows "serving e (run_pass w s)"
proof -
  have c: "clear_latch e s = s\<lparr>sv_gave_up := JNull\<rparr>" using l e(3) by (simp add: clear_latch_def)
  have "\<not> py_eq JNull (jget e ''epoch'')" using n(3) by (cases "jget e ''epoch''") (auto simp: py_eq_def)
  then have "serving e (start_if_due w path e (clear_latch e s))"
    using n unfolding c by (intro start_serves) (simp_all add: gave_up_def)
  then show ?thesis using run_pass_target [OF e(1,2)] idle_keep_connected [OF l(2), of w path e] by simp
qed

section \<open>Split tunnel\<close>

text \<open>A command line that runs no scripts of the profile and refuses every route that would take over the default gateway.\<close>

definition guarded :: "string list \<Rightarrow> bool" where
  "guarded argv = (is_infix [''--script-security'', ''1''] argv
     \<and> (\<forall>opt\<in>{''redirect-gateway'', ''route 0.0.0.0 0.0.0.0'', ''route 0.0.0.0 128.0.0.0'', ''route 128.0.0.0 128.0.0.0''}. is_infix [''--pull-filter'', ''ignore'', opt] argv))"

definition command_lines :: "supervisor \<Rightarrow> string list set" where
  "command_lines s = ch_argv ` (set_option (sv_proc s) \<union> set (sv_left s))"

lemma infix_append: "is_infix xs ys \<Longrightarrow> is_infix xs (ys @ zs)" "is_infix xs zs \<Longrightarrow> is_infix xs (ys @ zs)"
  by (auto simp: is_infix_iff) (metis append.assoc)+

lemma guarded_build: "\<not> truthy (jget d ''redirect_gateway'') \<Longrightarrow> guarded (build_argv w path d)"
proof -
  assume n: "\<not> truthy (jget d ''redirect_gateway'')"
  define tail where "tail = (if truthy (jget d ''auth'') \<and> vw_is_file w (with_suffix path ''.auth'')
      then [''--auth-user-pass'', with_suffix path ''.auth''] else [])"
  have f: "is_infix [''--pull-filter'', ''ignore'', opt] (concat (map (\<lambda>opt. [''--pull-filter'', ''ignore'', opt]) hijack_options))"
    if "opt \<in> set hijack_options" for opt
    using that by (auto simp: hijack_options_def)
  show ?thesis unfolding guarded_def
  proof (intro conjI ballI)
    show "is_infix [''--script-security'', ''1''] (build_argv w path d)"
      by (simp add: build_argv_def)
    fix opt :: string assume "opt \<in> {''redirect-gateway'', ''route 0.0.0.0 0.0.0.0'', ''route 0.0.0.0 128.0.0.0'', ''route 128.0.0.0 128.0.0.0''}"
    then have "opt \<in> set hijack_options" by (elim insertE emptyE) (simp_all add: hijack_options_def)
    then show "is_infix [''--pull-filter'', ''ignore'', opt] (build_argv w path d)"
      unfolding build_argv_def tail_def [symmetric] using n f by (simp only: if_False infix_append append.assoc)
  qed
qed

lemma lines_drop [simp]: "command_lines (drop_handle s) \<subseteq> command_lines s"
  by (auto simp: command_lines_def drop_handle_def split: option.splits)

lemma lines_end [simp]: "command_lines (end_child code s) = command_lines s"
  by (cases "sv_proc s") (auto simp: command_lines_def end_child_def)

lemma lines_stop: "command_lines (stop_proc w r s) \<subseteq> command_lines s"
proof -
  let ?m = "if proc_running s \<and> \<not> vw_signal_fails w then end_child (- 15) s else s"
  have "command_lines (stop_proc w r s) = command_lines (drop_handle ?m)"
    by (simp add: stop_proc_def command_lines_def Let_def)
  also have "\<dots> \<subseteq> command_lines ?m" by (rule lines_drop)
  also have "command_lines ?m = command_lines s" by simp
  finally show ?thesis .
qed

lemma lines_bump [simp]: "command_lines (bump_backoff w s) = command_lines s"
  by (simp add: command_lines_def bump_backoff_def Let_def)

lemma lines_note_exit: "command_lines (note_exit w d s) \<subseteq> command_lines s"
  by (auto simp: note_exit_def Let_def command_lines_def bump_backoff_def split: option.splits)

lemma lines_start: "command_lines (start_if_due w path d s) \<subseteq> insert (build_argv w path d) (command_lines s)"
proof -
  have e: "command_lines (drop_handle (s\<lparr>sv_error := x\<rparr>)) \<subseteq> command_lines s" for x
    using lines_drop [of "s\<lparr>sv_error := x\<rparr>"] by (simp add: command_lines_def)
  have b: "command_lines (x\<lparr>sv_backoff := 0\<rparr>) = command_lines x" for x by (simp add: command_lines_def)
  have n: "command_lines ((drop_handle s)\<lparr>sv_proc := Some \<lparr>ch_argv = build_argv w path d, ch_exit = None\<rparr>, sv_profile := p,
      sv_epoch := q, sv_since := None, sv_tun := None, sv_error := None\<rparr>) \<subseteq> insert (build_argv w path d) (command_lines s)" for p q
    using lines_drop [of s] by (auto simp: command_lines_def drop_handle_def split: option.splits)
  show ?thesis using e n by (auto simp: start_if_due_def start_proc_def Let_def b split: option.splits)
qed

lemma lines_settle: "command_lines (settle w d s) \<subseteq> command_lines s"
proof -
  have c: "command_lines (clear_latch d s) = command_lines s" by (simp add: command_lines_def)
  have b: "command_lines (x\<lparr>sv_backoff := 0, sv_next := 0\<rparr>) = command_lines x" for x by (simp add: command_lines_def)
  show ?thesis using lines_stop [of w None "clear_latch d s"] c by (simp add: settle_def Let_def b)
qed

lemma lines_keep: "command_lines (keep_connected w path d s) \<subseteq> insert (build_argv w path d) (command_lines s)"
  unfolding keep_connected_eq Let_def
  using lines_settle [of w d s] lines_note_exit [of w d "settle w d s"] lines_start [of w path d "note_exit w d (settle w d s)"]
  by (auto split: if_splits)

lemma lines_pass:
  assumes "argv \<in> command_lines (run_pass w s)"
  shows "argv \<in> command_lines s \<or> (\<exists>d path. read_desired (vw_desired w) = Inr d \<and> argv = build_argv w path d)"
proof (cases "read_desired (vw_desired w)")
  case (Inl e)
  then show ?thesis using assms by (simp add: run_pass_def command_lines_def)
next
  case (Inr d)
  have f: "command_lines (write_vpn_status w d x) = command_lines x" for x by (simp add: command_lines_def)
  have g: "command_lines (x\<lparr>sv_error := e\<rparr>) = command_lines x" "command_lines (x\<lparr>sv_error := e, sv_backoff := b\<rparr>) = command_lines x" for x e b
    by (simp_all add: command_lines_def)
  show ?thesis
  proof (cases "target_path w d")
    case None
    then show ?thesis using assms Inr lines_stop [of w None s] by (auto simp: run_pass_def reconcile_def f g split: if_splits)
  next
    case (Some path)
    then show ?thesis using assms Inr lines_keep [of w path d s] by (auto simp: run_pass_def reconcile_def f)
  qed
qed

text \<open>
  As long as the operator never asks for the full tunnel, no OpenVPN was ever started without the filters that keep the
  server from taking the default route, nor with the right to run the profile's scripts.
\<close>

theorem split_tunnel_kept:
  assumes "supervised (\<lambda>w. \<forall>d. read_desired (vw_desired w) = Inr d \<longrightarrow> \<not> truthy (jget d ''redirect_gateway'')) t s"
    and "argv \<in> command_lines s"
  shows "guarded argv"
  using assms
proof (induction arbitrary: argv rule: supervised.induct)
  case (boot t)
  then show ?case by (simp add: init_supervisor_def command_lines_def)
next
  case (pass t s w)
  from lines_pass [OF pass.prems] show ?case using pass.IH pass.hyps(2) guarded_build by blast
next
  case (ends t s code)
  then show ?case by simp
qed

section \<open>What the status file says\<close>

lemma upper_lower_upper: "upper_char (lower_char (upper_char c)) = upper_char c"
  by (auto simp: upper_char_def lower_char_def chr_code_def Let_def of_char_of)

lemma link_connected: "link_name raw = ''connected'' \<longleftrightarrow> upper raw = ''CONNECTED''"
proof
  assume l: "link_name raw = ''connected''"
  show "upper raw = ''CONNECTED''"
  proof (rule ccontr)
    assume n: "upper raw \<noteq> ''CONNECTED''"
    then have "lower (upper raw) = ''connected''" using l by (auto simp: link_name_def Let_def split: if_splits)
    then have "upper (lower (upper raw)) = upper ''connected''" by simp
    moreover have "upper (lower (upper raw)) = upper raw" by (simp add: upper_def lower_def upper_lower_upper)
    moreover have "upper ''connected'' = ''CONNECTED''" by code_simp
    ultimately show False using n by simp
  qed
qed (simp add: link_name_def)

lemma probe_connected:
  assumes "fst (fst (probe_link w s)) = ''connected''"
  shows "(\<exists>m. mgmt_state_of (vw_mgmt w ''state'') = Some m \<and> upper (mg_name m) = ''CONNECTED'') \<or> (\<exists>dev ip. vw_ipv4 w dev = Some ip)"
  using assms link_connected
  by (auto simp: probe_link_def Let_def split_def split: option.splits if_splits)

text \<open>
  The status file never claims a tunnel that is not there: when a pass writes "connected", OpenVPN is running, and either it
  says so itself or a tunnel device has an address.
\<close>

theorem connected_is_true:
  assumes w: "vw_disk w" "read_desired (vw_desired w) = Inr d" and st: "sv_status (run_pass w s) = Some st" "st_state st = ''connected''"
  shows "proc_running (run_pass w s) \<and>
    ((\<exists>m. mgmt_state_of (vw_mgmt w ''state'') = Some m \<and> upper (mg_name m) = ''CONNECTED'') \<or> (\<exists>dev ip. vw_ipv4 w dev = Some ip))"
proof -
  obtain s' where r: "run_pass w s = write_vpn_status w d s'"
  proof (cases "target_path w d")
    case None
    then show ?thesis using w(2) that by (cases "truthy (jget d ''connect'')") (simp_all add: run_pass_def reconcile_def)
  next
    case (Some path)
    then show ?thesis using run_pass_target [OF w(2)] that by blast
  qed
  have p: "proc_running s'"
    using st r w(1) by (auto simp: write_vpn_status_def Let_def split_def split: if_splits)
  then have "proc_running (snd (probe_link w s'))" by (simp add: proc_running_def)
  then have "fst (fst (probe_link w s')) = ''connected''"
    using st p r w(1) by (auto simp: write_vpn_status_def Let_def split_def)
  then show ?thesis using probe_connected p r by simp
qed

section \<open>A host\<close>

definition demo_desired :: "bool \<Rightarrow> bool \<Rightarrow> int \<Rightarrow> json" where
  "demo_desired connect auto epoch = JObj [(''connect'', JBool connect), (''profile'', JStr ''lab''), (''auto_reconnect'', JBool auto), (''epoch'', JInt epoch)]"

definition demo_vpn_host :: "json \<Rightarrow> pyfloat \<Rightarrow> vpn_world" where
  "demo_vpn_host d t = \<lparr>vw_desired = Doc d, vw_dir = ''/vpn'', vw_root = ''/vpn/profiles'', vw_port = 7505,
     vw_resolve = (\<lambda>n. (''/vpn/profiles/'' @ n @ ''.ovpn'', n = ''lab'')), vw_is_file = (\<lambda>_. False), vw_time = t, vw_iso = ''now'',
     vw_spawn = (\<lambda>_. None), vw_signal_fails = False, vw_mgmt = (\<lambda>c. if c = ''state'' then Some ''1,CONNECTED,SUCCESS,10.8.0.2,1.2.3.4'' else None),
     vw_log = NoFile, vw_ipv4 = (\<lambda>_. None), vw_net = None, vw_disk = True\<rparr>"

definition demo_crashed :: supervisor where
  "demo_crashed = end_child 1 (run_pass (demo_vpn_host (demo_desired True True 1) 10) init_supervisor)"

lemma demo_host_fields:
  "read_desired (vw_desired (demo_vpn_host (demo_desired c a e) t)) = Inr (demo_desired c a e)"
  "vw_time (demo_vpn_host d t) = t" "\<not> vw_signal_fails (demo_vpn_host d t)" "vw_disk (demo_vpn_host d t)"
  "vw_spawn (demo_vpn_host d t) argv = None"
  by (simp_all add: demo_vpn_host_def demo_desired_def read_desired_def)

lemma demo_target: "target_path (demo_vpn_host (demo_desired True a e) t) (demo_desired True a e) = Some ''/vpn/profiles/lab.ovpn''"
  by (simp add: target_path_def wanted_profile_def demo_desired_def jget_def str_or_empty_def profile_path_def profile_re_def
      profile_char_def chr_code_def demo_vpn_host_def inside_def)

lemma demo_desired_fields: "\<not> truthy (jget (demo_desired c a e) ''redirect_gateway'')" "auto_reconnect (demo_desired c a e) = a"
  "jget (demo_desired c a e) ''epoch'' = JInt e" "truthy (jget (demo_desired c a e) ''connect'') = c" "wanted_profile (demo_desired True a e) = ''lab''"
  by (simp_all add: demo_desired_def jget_def jget_default_def auto_reconnect_def wanted_profile_def str_or_empty_def)

lemma demo_run: "supervised (\<lambda>w. \<not> vw_signal_fails w \<and> (\<forall>d. read_desired (vw_desired w) = Inr d \<longrightarrow> \<not> truthy (jget d ''redirect_gateway''))) 10 demo_crashed"
  unfolding demo_crashed_def
  by (intro supervised.ends supervised.pass [where w = "demo_vpn_host (demo_desired True True 1) 10" and t = 0, unfolded demo_host_fields] supervised.boot)
     (auto simp: demo_host_fields demo_desired_fields)

lemma supervised_mono: "supervised P t s \<Longrightarrow> (\<And>w. P w \<Longrightarrow> Q w) \<Longrightarrow> supervised Q t s"
  by (induction rule: supervised.induct) (auto intro: supervised.intros)

lemma demo_run_signals: "supervised (\<lambda>w. \<not> vw_signal_fails w) 10 demo_crashed"
  using demo_run by (rule supervised_mono) simp

lemma demo_run_split: "supervised (\<lambda>w. \<forall>d. read_desired (vw_desired w) = Inr d \<longrightarrow> \<not> truthy (jget d ''redirect_gateway'')) 10 demo_crashed"
  using demo_run by (rule supervised_mono) simp

theorem restart_within_seconds_witness: "sv_next demo_crashed \<le> 10 + 6 \<and> sv_backoff demo_crashed \<le> backoff_base"
  by (rule restart_within_seconds [OF demo_run])

theorem one_tunnel_witness: "sv_left demo_crashed = []"
  by (rule one_tunnel [OF demo_run_signals])

theorem tunnel_comes_up_witness:
  "serving (demo_desired True True 1) (run_pass (demo_vpn_host (demo_desired True True 1) 18) (run_pass (demo_vpn_host (demo_desired True True 1) 12) demo_crashed))"
  by (rule tunnel_comes_up [OF demo_run _ _ demo_host_fields(1) demo_host_fields(1) demo_target demo_target])
     (simp_all add: demo_host_fields demo_desired_fields)

theorem disconnect_obeyed_witness:
  "\<not> proc_running (run_pass (demo_vpn_host (demo_desired False True 2) 12) (run_pass (demo_vpn_host (demo_desired True True 1) 10) init_supervisor))"
  using disconnect_obeyed [OF demo_host_fields(1), of False True 2 12] by (simp add: demo_desired_fields)

lemma demo_child: "sv_proc demo_crashed = Some \<lparr>ch_argv = build_argv (demo_vpn_host (demo_desired True True 1) 10) ''/vpn/profiles/lab.ovpn'' (demo_desired True True 1), ch_exit = Some 1\<rparr>"
  by (simp add: demo_crashed_def end_child_def run_pass_target [OF demo_host_fields(1) demo_target] idle_keep_connected start_if_due_def start_proc_def
      init_supervisor_def clear_latch_def demo_host_fields gave_up_def demo_desired_fields Let_def)

theorem ended_stays_down_witness:
  "\<not> proc_running (fold run_pass [demo_vpn_host (demo_desired True False 2) 12, demo_vpn_host (demo_desired True False 2) 500] demo_crashed)"
  by (rule ended_stays_down [OF demo_child, where d = "demo_desired True False 2"]) (simp_all add: demo_desired_fields demo_host_fields demo_target)

definition demo_latched :: supervisor where
  "demo_latched = run_pass (demo_vpn_host (demo_desired True False 1) 12) demo_crashed"

lemma demo_latched_fields: "latched (demo_desired True False 1) demo_latched" "sv_proc demo_latched = None" "sv_gave_up demo_latched = JInt 1" "sv_next demo_latched = 0"
proof -
  have c: "clear_latch (demo_desired True False 1) demo_crashed = demo_crashed"
    by (simp add: demo_crashed_def end_child_def clear_latch_def run_pass_target [OF demo_host_fields(1) demo_target] idle_keep_connected start_if_due_def start_proc_def
      init_supervisor_def demo_host_fields gave_up_def demo_desired_fields Let_def drop_handle_def)
  have n: "\<not> proc_running demo_crashed" by (simp add: proc_running_def demo_child)
  have x: "sv_next demo_crashed = 0"
    by (simp add: demo_crashed_def end_child_def clear_latch_def run_pass_target [OF demo_host_fields(1) demo_target] idle_keep_connected start_if_due_def start_proc_def
      init_supervisor_def demo_host_fields gave_up_def demo_desired_fields Let_def drop_handle_def)
  show "latched (demo_desired True False 1) demo_latched" "sv_proc demo_latched = None" "sv_gave_up demo_latched = JInt 1" "sv_next demo_latched = 0"
    unfolding demo_latched_def run_pass_target [OF demo_host_fields(1) demo_target] keep_connected_eq settle_not_running [OF n] c
    by (simp_all add: n note_exit_def demo_child demo_desired_fields Let_def start_if_due_def gave_up_def latched_def proc_running_def x)
qed

theorem reconnect_revives_witness:
  "serving (demo_desired True False 2) (run_pass (demo_vpn_host (demo_desired True False 2) 14) demo_latched)"
  by (rule reconnect_revives [OF demo_latched_fields(1,2) _ _ demo_host_fields(1) demo_target])
     (simp_all add: demo_latched_fields demo_desired_fields demo_host_fields py_eq_def)

theorem split_tunnel_kept_witness: "guarded (ch_argv (the (sv_proc demo_crashed)))"
  by (rule split_tunnel_kept [OF demo_run_split]) (simp add: command_lines_def demo_child)

lemma demo_no_tun: "discover_tun (demo_vpn_host d t) s = (None, s)"
  by (simp add: discover_tun_def demo_vpn_host_def log_device_def tun_open_re_def after_text_def mtu_phrase_def tun_dev_re_def numbered_device_def split: option.splits)

theorem connected_is_true_witness:
  "proc_running (run_pass (demo_vpn_host (demo_desired True True 1) 10) init_supervisor)"
proof -
  have s: "mgmt_state_of (vw_mgmt (demo_vpn_host (demo_desired True True 1) 10) ''state'') = Some \<lparr>mg_name = ''CONNECTED'', mg_detail = ''SUCCESS'', mg_tun_ip = Some ''10.8.0.2'', mg_server = Some ''1.2.3.4''\<rparr>"
    by (simp add: demo_vpn_host_def) code_simp
  have e: "\<exists>st. sv_status (run_pass (demo_vpn_host (demo_desired True True 1) 10) init_supervisor) = Some st \<and> st_state st = ''connected''"
    by (simp add: run_pass_target [OF demo_host_fields(1) demo_target] idle_keep_connected start_if_due_def start_proc_def init_supervisor_def
      clear_latch_def demo_host_fields gave_up_def demo_desired_fields Let_def write_vpn_status_def split_def probe_link_def s link_connected
      proc_running_def upper_def upper_char_def chr_code_def demo_no_tun drop_handle_def)
  then obtain st where "sv_status (run_pass (demo_vpn_host (demo_desired True True 1) 10) init_supervisor) = Some st" "st_state st = ''connected''" by blast
  from connected_is_true [OF demo_host_fields(4,1) this] show ?thesis by simp
qed

end
