(* ===== verification/Vpnconsole.thy ===== *)
theory Vpnconsole
  imports Vpn Isotime
begin

text \<open>
  The console's side of the VPN (\<open>edge-console/vpn_service.py\<close>): uploading, viewing and deleting profiles,
  and the desired state it leaves for the sidecar of theory \<open>Vpn\<close>. The shared volume is the files by
  path, \<open>desired.json\<close> and \<open>status.json\<close>; the resolution of a profile's path, the clock and whether
  a write fails are parameters. An upload is its size and its UTF-8 text, if it has one. The fixed
  Chinese texts of replies and of the mask are given in English or as constructors.
\<close>

section \<open>State\<close>

record vpn_console =
  vc_admin :: string
  vc_base :: string
  vc_resolve :: "string \<Rightarrow> string"
  vc_now :: string
  vc_micros :: int
  vc_file_ok :: bool
  vc_auth_ok :: bool
  vc_desired_ok :: bool

record vpn_volume =
  vv_files :: "(string, string) dict"
  vv_desired :: jfile
  vv_status :: jfile

datatype vpn_warning = Scripts_ignored | Credentials_needed

datatype vpn_reply = Denied nat
  | Saved string "string option" bool "vpn_warning list"
  | Deleted string
  | Viewed string string "string option" bool "vpn_warning list"
  | Connecting string int
  | Auto_set bool
  | Disconnecting

definition vpn_admin_enabled :: "vpn_console \<Rightarrow> bool" where
  "vpn_admin_enabled c = (lower (strip (vc_admin c)) \<in> {''1'', ''true'', ''yes''})"

definition valid_name :: "string \<Rightarrow> bool" where
  "valid_name name = (name \<noteq> [] \<and> profile_re name \<and> \<not> is_infix ''..'' name)"

definition profile_file :: "vpn_console \<Rightarrow> string \<Rightarrow> string option" where
  "profile_file c name = (if \<not> valid_name name then None
     else if inside (vc_base c) (vc_resolve c name) then Some (vc_resolve c name) else None)"

definition is_file_at :: "vpn_volume \<Rightarrow> string \<Rightarrow> bool" where
  "is_file_at v p = (dict_get (vv_files v) p \<noteq> None)"

definition put_file :: "string \<Rightarrow> string \<Rightarrow> vpn_volume \<Rightarrow> vpn_volume" where
  "put_file p t v = v\<lparr>vv_files := dict_put p t (vv_files v)\<rparr>"

definition read_json :: "jfile \<Rightarrow> json" where
  "read_json f = (case f of Doc v \<Rightarrow> v | _ \<Rightarrow> JObj [])"

section \<open>Reading a profile\<close>

datatype upload = Upload nat "string option"

datatype upload_error = Empty_upload | Too_large | Not_text | No_remote | Not_client

definition max_ovpn_bytes :: nat where "max_ovpn_bytes = 512 * 1024"

definition validate_ovpn :: "upload \<Rightarrow> upload_error option" where
  "validate_ovpn u = (case u of Upload n t \<Rightarrow>
     if n = 0 then Some Empty_upload
     else if max_ovpn_bytes < n then Some Too_large
     else (case t of None \<Rightarrow> Some Not_text
       | Some text \<Rightarrow> let low = lower text in
           if \<not> is_infix ''remote '' low \<and> \<not> is_infix ''<connection>'' low then Some No_remote
           else if \<not> is_infix ''client'' low \<and> \<not> is_infix ''tls-client'' low then Some Not_client
           else None))"

text \<open>The positions where \<open>^\<close> matches in multi-line mode, each with what follows.\<close>

fun line_starts_from :: "bool \<Rightarrow> string \<Rightarrow> string list" where
  "line_starts_from here [] = (if here then [[]] else [])"
| "line_starts_from here (c # cs) = (if here then [c # cs] else []) @ line_starts_from (c = CHR 0x0A) cs"

definition line_starts :: "string \<Rightarrow> string list" where
  "line_starts t = line_starts_from True t"

text \<open>A word without regard to case, and what follows it.\<close>

definition after_word :: "string \<Rightarrow> string \<Rightarrow> string option" where
  "after_word word s = after_text word (lower (take (length word) s) @ drop (length word) s)"

definition first_some :: "('a \<Rightarrow> 'b option) \<Rightarrow> 'a list \<Rightarrow> 'b option" where
  "first_some f xs = foldr (\<lambda>x rest. case f x of Some r \<Rightarrow> Some r | None \<Rightarrow> rest) xs None"

definition script_line :: "string \<Rightarrow> bool" where
  "script_line s = (\<exists>word\<in>set [''up'', ''down'', ''route-up'', ''tls-verify''].
     (case after_word word (lstrip s) of Some (c # _) \<Rightarrow> is_space c | _ \<Rightarrow> False))"

text \<open>\<open>auth-user-pass\\s+\\S\<close>: the blanks may be line ends.\<close>

definition auth_with_argument :: "char option \<Rightarrow> string \<Rightarrow> unit option" where
  "auth_with_argument prev s = (case after_text ''auth-user-pass'' s of
     Some r \<Rightarrow> if lstrip r \<noteq> r \<and> lstrip r \<noteq> [] then Some () else None | None \<Rightarrow> None)"

definition profile_warnings :: "string \<Rightarrow> vpn_warning list" where
  "profile_warnings t =
     (if \<exists>s\<in>set (line_starts t). script_line s then [Scripts_ignored] else []) @
     (if is_infix ''auth-user-pass'' (lower t) \<and> search_from auth_with_argument None (lower t) = None then [Credentials_needed] else [])"

definition auth_line :: "string \<Rightarrow> bool" where
  "auth_line s = (case after_word ''auth-user-pass'' (lstrip s) of None \<Rightarrow> False
     | Some r \<Rightarrow> CHR 0x0A \<in> set (takeWhile is_space r) \<or> lstrip r = [])"

definition needs_auth :: "string \<Rightarrow> bool" where
  "needs_auth t = (\<exists>s\<in>set (line_starts t). auth_line s)"

definition remote_line :: "string \<Rightarrow> string option" where
  "remote_line s = (case after_word ''remote'' (lstrip s) of None \<Rightarrow> None
     | Some r \<Rightarrow> let u = lstrip r; host = takeWhile (\<lambda>c. \<not> is_space c) u; q = dropWhile (\<lambda>c. \<not> is_space c) u;
           port = takeWhile is_digit (lstrip q) in
         if u = r \<or> host = [] then None
         else if lstrip q \<noteq> q \<and> port \<noteq> [] then Some (host @ '':'' @ port) else Some host)"

definition extract_remote :: "string \<Rightarrow> string option" where
  "extract_remote t = first_some remote_line (line_starts t)"

section \<open>Masking secrets\<close>

definition secret_tags :: "string list" where
  "secret_tags = [''key'', ''tls-auth'', ''tls-crypt'', ''tls-crypt-v2'', ''secret'']"

text \<open>An opening tag of a secret block: the tag as written, and what follows it.\<close>

definition open_tag :: "string \<Rightarrow> (string \<times> string) option" where
  "open_tag s = (case s of c # r \<Rightarrow> if c = CHR ''<'' then
       first_some (\<lambda>tag. case after_word (tag @ ''>'') r of Some q \<Rightarrow> Some (take (length tag) r, q) | None \<Rightarrow> None) secret_tags
       else None
     | [] \<Rightarrow> None)"

fun after_close :: "string \<Rightarrow> string \<Rightarrow> string option" where
  "after_close tag [] = None"
| "after_close tag (c # cs) = (case after_word (''</'' @ lower tag @ ''>'') (c # cs) of Some r \<Rightarrow> Some r | None \<Rightarrow> after_close tag cs)"

definition secret_block :: "string \<Rightarrow> (string \<times> string) option" where
  "secret_block s = (case open_tag s of None \<Rightarrow> None
     | Some (tag, r) \<Rightarrow> (case after_close tag r of None \<Rightarrow> None | Some rest \<Rightarrow> Some (tag, rest)))"

definition mask_note :: string where "mask_note = ''*** masked (secret content) ***''"

definition masked_block :: "string \<Rightarrow> string" where
  "masked_block tag = ''<'' @ tag @ ''>'' @ [CHR 0x0A] @ mask_note @ [CHR 0x0A] @ ''</'' @ tag @ ''>''"

lemma after_word_shorter: "after_word word s = Some r \<Longrightarrow> length r \<le> length s"
  by (auto simp: after_word_def after_text_def lower_def split: if_splits)

lemma after_close_shorter: "after_close tag s = Some r \<Longrightarrow> length r \<le> length s"
  by (induction tag s rule: after_close.induct) (auto dest: after_word_shorter split: option.splits)

lemma first_some_D: "first_some f xs = Some r \<Longrightarrow> \<exists>x\<in>set xs. f x = Some r"
  by (induction xs) (auto simp: first_some_def split: option.splits)

lemma secret_block_shorter: "secret_block s = Some (tag, r) \<Longrightarrow> length r < length s"
proof -
  assume s: "secret_block s = Some (tag, r)"
  then obtain q where o: "open_tag s = Some (tag, q)" and c: "after_close tag q = Some r"
    by (auto simp: secret_block_def split: option.splits)
  from o obtain c0 r0 where s0: "s = c0 # r0" by (cases s) (auto simp: open_tag_def)
  then have "length q \<le> length r0" using o
    by (auto simp: open_tag_def dest!: first_some_D after_word_shorter split: if_splits option.splits)
  then show ?thesis using after_close_shorter [OF c] s0 by simp
qed

function mask_blocks :: "string \<Rightarrow> string" where
  "mask_blocks [] = []"
| "mask_blocks (c # cs) = (case secret_block (c # cs) of
       Some (tag, rest) \<Rightarrow> masked_block tag @ mask_blocks rest
     | None \<Rightarrow> c # mask_blocks cs)"
  by pat_completeness auto
termination
  by (relation "measure length") (auto dest: secret_block_shorter)

text \<open>\<open>^\\s*(askpass|auth-user-pass)\\s+\\S.*$\<close>: the word as written, and the rest from the end of the line.\<close>

definition secret_line :: "string \<Rightarrow> (string \<times> string) option" where
  "secret_line s = first_some (\<lambda>word. case after_word word (lstrip s) of None \<Rightarrow> None
     | Some r \<Rightarrow> if lstrip r \<noteq> r \<and> lstrip r \<noteq> [] then Some (take (length word) (lstrip s), dropWhile (\<lambda>c. c \<noteq> CHR 0x0A) (lstrip r)) else None)
     [''askpass'', ''auth-user-pass'']"

lemma lstrip_shorter: "length (lstrip s) \<le> length s"
  by (simp add: lstrip_def length_dropWhile_le)

lemma lstrip_shorter': "lstrip s \<noteq> s \<Longrightarrow> length (lstrip s) < length s"
  by (cases s) (auto simp: lstrip_def less_Suc_eq_le length_dropWhile_le split: if_splits)

lemma secret_line_shorter: "secret_line s = Some (word, r) \<Longrightarrow> length r < length s"
proof -
  assume "secret_line s = Some (word, r)"
  then obtain w q where q: "after_word w (lstrip s) = Some q" "lstrip q \<noteq> q" and r: "r = dropWhile (\<lambda>c. c \<noteq> CHR 0x0A) (lstrip q)"
    by (auto simp: secret_line_def dest!: first_some_D split: option.splits if_splits)
  have "length r \<le> length (lstrip q)" using r by (simp add: length_dropWhile_le)
  also have "\<dots> < length q" using lstrip_shorter' [OF q(2)] .
  also have "\<dots> \<le> length (lstrip s)" using after_word_shorter [OF q(1)] .
  finally show ?thesis using lstrip_shorter [of s] by simp
qed

function mask_lines :: "bool \<Rightarrow> string \<Rightarrow> string" where
  "mask_lines here [] = []"
| "mask_lines here (c # cs) = (case (if here then secret_line (c # cs) else None) of
       Some (word, rest) \<Rightarrow> word @ '' *** masked ***'' @ mask_lines False rest
     | None \<Rightarrow> c # mask_lines (c = CHR 0x0A) cs)"
  by pat_completeness auto
termination
  by (relation "measure (\<lambda>(here, s). length s)") (auto dest: secret_line_shorter split: if_splits)

definition masked_text :: "string \<Rightarrow> string" where
  "masked_text t = mask_lines True (mask_blocks t)"

section \<open>Operations\<close>

definition save_profile :: "vpn_console \<Rightarrow> string \<Rightarrow> upload \<Rightarrow> vpn_volume \<Rightarrow> vpn_reply \<times> vpn_volume" where
  "save_profile c name u v =
     (if \<not> vpn_admin_enabled c then (Denied 403, v)
      else if \<not> valid_name name \<or> validate_ovpn u \<noteq> None then (Denied 400, v)
      else (case profile_file c name of None \<Rightarrow> (Denied 400, v)
        | Some p \<Rightarrow> (case u of
             Upload n None \<Rightarrow> (Denied 400, v)
           | Upload n (Some text) \<Rightarrow>
               if \<not> vc_file_ok c then (Denied 500, v)
               else (Saved name (extract_remote text) (needs_auth text) (profile_warnings text), put_file p text v))))"

text \<open>A profile that is the desired one stays.\<close>

definition in_use :: "json \<Rightarrow> string \<Rightarrow> bool" where
  "in_use d name = (truthy (jget d ''connect'') \<and> py_eq (jget d ''profile'') (JStr name))"

definition drop_file :: "string \<Rightarrow> vpn_volume \<Rightarrow> vpn_volume" where
  "drop_file p v = v\<lparr>vv_files := dict_del p (vv_files v)\<rparr>"

definition delete_profile :: "vpn_console \<Rightarrow> string \<Rightarrow> vpn_volume \<Rightarrow> vpn_reply res \<times> vpn_volume" where
  "delete_profile c name v =
     (if \<not> vpn_admin_enabled c then (Inr (Denied 403), v)
      else (case profile_file c name of None \<Rightarrow> (Inr (Denied 400), v)
        | Some p \<Rightarrow>
            if \<not> is_file_at v p then (Inr (Denied 404), v)
            else (case read_desired (vv_desired v) of Inl e \<Rightarrow> (Inl e, v)
              | Inr d \<Rightarrow>
                  if in_use d name then (Inr (Denied 409), v)
                  else if \<not> vc_file_ok c then (Inr (Denied 500), v)
                  else (Inr (Deleted name), drop_file (with_suffix p ''.auth'') (drop_file p v)))))"

definition view_profile :: "vpn_console \<Rightarrow> string \<Rightarrow> vpn_volume \<Rightarrow> vpn_reply" where
  "view_profile c name v = (case profile_file c name of None \<Rightarrow> Denied 400
     | Some p \<Rightarrow> (case dict_get (vv_files v) p of None \<Rightarrow> Denied 404
        | Some text \<Rightarrow> if \<not> vc_file_ok c then Denied 500
            else Viewed name (masked_text text) (extract_remote text) (needs_auth text) (profile_warnings text)))"

text \<open>\<open>[\\x00-\\x08\\x0b\\x0c\\x0e-\\x1f\\x7f]\<close>: tab, newline and carriage return pass.\<close>

definition ctrl_char :: "char \<Rightarrow> bool" where
  "ctrl_char c = (let n = chr_code c in n \<le> 8 \<or> n = 11 \<or> n = 12 \<or> (14 \<le> n \<and> n \<le> 31) \<or> n = 127)"

definition bad_credential :: "string \<Rightarrow> bool" where
  "bad_credential s = ((\<exists>c\<in>set s. ctrl_char c) \<or> 256 < length s)"

definition auth_text :: "string \<Rightarrow> string \<Rightarrow> string" where
  "auth_text username password = username @ [CHR 0x0A] @ password @ [CHR 0x0A]"

definition next_epoch :: "json \<Rightarrow> int res" where
  "next_epoch d = bind_res (py_int (py_or (jget d ''epoch'') (JInt 0))) (\<lambda>e. Inr (e + 1))"

definition desired_connect :: "vpn_console \<Rightarrow> string \<Rightarrow> bool \<Rightarrow> bool \<Rightarrow> bool \<Rightarrow> int \<Rightarrow> json" where
  "desired_connect c profile redirect use_auth auto epoch = JObj
     [(''connect'', JBool True), (''profile'', JStr profile), (''redirect_gateway'', JBool redirect), (''auth'', JBool use_auth),
      (''auto_reconnect'', JBool auto), (''epoch'', JInt epoch), (''updated_at'', JStr (vc_now c))]"

text \<open>The desired state is only read, and can only fail to be read, once the credentials are on disk.\<close>

definition request_tunnel :: "vpn_console \<Rightarrow> string \<Rightarrow> bool \<Rightarrow> bool \<Rightarrow> bool \<Rightarrow> vpn_volume \<Rightarrow> vpn_reply res \<times> vpn_volume" where
  "request_tunnel c profile redirect use_auth auto v =
     (case bind_res (read_desired (vv_desired v)) next_epoch of Inl e \<Rightarrow> (Inl e, v)
      | Inr epoch \<Rightarrow>
          if \<not> vc_desired_ok c then (Inr (Denied 500), v)
          else (Inr (Connecting profile epoch), v\<lparr>vv_desired := Doc (desired_connect c profile redirect use_auth auto epoch)\<rparr>))"

definition connect_vpn :: "vpn_console \<Rightarrow> string \<Rightarrow> bool \<Rightarrow> string \<Rightarrow> string \<Rightarrow> bool \<Rightarrow> vpn_volume \<Rightarrow> vpn_reply res \<times> vpn_volume" where
  "connect_vpn c profile redirect username password auto v =
     (if \<not> vpn_admin_enabled c then (Inr (Denied 403), v)
      else (case profile_file c profile of None \<Rightarrow> (Inr (Denied 400), v)
        | Some p \<Rightarrow>
            if \<not> is_file_at v p then (Inr (Denied 404), v)
            else if username \<noteq> [] \<or> password \<noteq> [] then
              (if bad_credential username \<or> bad_credential password then (Inr (Denied 400), v)
               else if \<not> vc_auth_ok c then (Inr (Denied 500), v)
               else request_tunnel c profile redirect True auto (put_file (with_suffix p ''.auth'') (auth_text username password) v))
            else request_tunnel c profile redirect (is_file_at v (with_suffix p ''.auth'')) auto v))"

text \<open>Only a dict takes the assignment of a key.\<close>

definition set_auto_reconnect :: "vpn_console \<Rightarrow> bool \<Rightarrow> vpn_volume \<Rightarrow> vpn_reply res \<times> vpn_volume" where
  "set_auto_reconnect c on v =
     (if \<not> vpn_admin_enabled c then (Inr (Denied 403), v)
      else let d = read_json (vv_desired v) in
        if \<not> is_obj d then (Inl TypeError, v)
        else if \<not> vc_desired_ok c then (Inr (Denied 500), v)
        else (Inr (Auto_set on), v\<lparr>vv_desired := Doc (JObj (dict_put ''updated_at'' (JStr (vc_now c))
               (dict_put ''auto_reconnect'' (JBool on) (obj_items d))))\<rparr>))"

definition disconnect_vpn :: "vpn_console \<Rightarrow> vpn_volume \<Rightarrow> vpn_reply res \<times> vpn_volume" where
  "disconnect_vpn c v =
     (if \<not> vpn_admin_enabled c then (Inr (Denied 403), v)
      else (case read_desired (vv_desired v) of Inl e \<Rightarrow> (Inl e, v)
        | Inr prev \<Rightarrow> (case next_epoch prev of Inl e \<Rightarrow> (Inl e, v)
           | Inr epoch \<Rightarrow>
               if \<not> vc_desired_ok c then (Inr (Denied 500), v)
               else (Inr Disconnecting, v\<lparr>vv_desired := Doc (JObj [(''connect'', JBool False), (''profile'', jget prev ''profile''),
                      (''epoch'', JInt epoch), (''updated_at'', JStr (vc_now c))])\<rparr>))))"

section \<open>Status\<close>

text \<open>Fresh: updated within thirty seconds; a time without offset counts as UTC.\<close>

definition supervisor_fresh :: "vpn_console \<Rightarrow> json \<Rightarrow> bool res" where
  "supervisor_fresh c status = (let raw = jget status ''updated_at'' in
     if \<not> truthy raw then Inr False
     else (case raw of
         JStr t \<Rightarrow> (case fromisoformat t of None \<Rightarrow> Inr False
           | Some d \<Rightarrow> Inr (vc_micros c - (case instant d of Naive m \<Rightarrow> m | Aware m \<Rightarrow> m) < 30 * 1000000))
       | _ \<Rightarrow> Inl TypeError))"

record vpn_view =
  ww_admin :: bool
  ww_alive :: bool
  ww_connect :: bool
  ww_profile :: json
  ww_auto :: bool
  ww_state :: json
  ww_data :: json

definition get_vpn_status :: "vpn_console \<Rightarrow> vpn_volume \<Rightarrow> vpn_view res" where
  "get_vpn_status c v =
     (let status = read_json (vv_status v) in
      bind_res (if truthy status then (if is_obj status then supervisor_fresh c status else Inl AttributeError) else Inr False) (\<lambda>fresh.
      bind_res (read_desired (vv_desired v)) (\<lambda>d.
        Inr \<lparr>ww_admin = vpn_admin_enabled c, ww_alive = fresh, ww_connect = truthy (jget d ''connect''), ww_profile = jget d ''profile'',
          ww_auto = auto_reconnect d,
          ww_state = (if \<not> truthy status then JStr ''unknown'' else if \<not> fresh then JStr ''stale'' else jget status ''state''),
          ww_data = (if truthy status then status else JNull)\<rparr>)))"

section \<open>Diagnosis\<close>

datatype diag_run = Diag_no_cli | Diag_timeout | Diag_exit int string string

datatype diag_reply = Diag_denied nat | Diagnosed string int bool json

text \<open>\<open>probe.get("tcp_target") or {}\<close> and then \<open>get("ok")\<close>.\<close>

definition probe_reachable :: "json \<Rightarrow> bool res" where
  "probe_reachable probe = bind_res (jget_res probe ''tcp_target'') (\<lambda>t.
     bind_res (jget_res (py_or t (JObj [])) ''ok'') (\<lambda>ok. Inr (truthy ok)))"

definition diagnose :: "vpn_console \<Rightarrow> bool \<Rightarrow> (string \<Rightarrow> int \<Rightarrow> diag_run) \<Rightarrow> string \<Rightarrow> int \<Rightarrow> diag_reply res" where
  "diagnose c docker run host port =
     (if \<not> vpn_admin_enabled c then Inr (Diag_denied 403)
      else if (\<exists>x\<in>set host. ctrl_char x) \<or> \<not> (0 < port \<and> port \<le> 65535) then Inr (Diag_denied 400)
      else if \<not> docker then Inr (Diag_denied 503)
      else (case run host port of Diag_no_cli \<Rightarrow> Inr (Diag_denied 503) | Diag_timeout \<Rightarrow> Inr (Diag_denied 504)
        | Diag_exit code out err \<Rightarrow>
            if code \<noteq> 0 \<or> strip out = [] then Inr (Diag_denied 502)
            else (case loads out of None \<Rightarrow> Inr (Diag_denied 502)
              | Some probe \<Rightarrow> bind_res (probe_reachable probe) (\<lambda>ok. Inr (Diagnosed host port ok probe)))))"

section \<open>What the view shows\<close>

text \<open>A profile as text and inline blocks; a block's tag has no bracket and its body no tag.\<close>

datatype segment = Plain string | Inline string string

fun render :: "segment \<Rightarrow> string" where
  "render (Plain t) = t"
| "render (Inline tag body) = ''<'' @ tag @ ''>'' @ body @ ''</'' @ tag @ ''>''"

fun segment_ok :: "segment \<Rightarrow> bool" where
  "segment_ok (Plain t) = (CHR ''<'' \<notin> set t)"
| "segment_ok (Inline tag body) = (CHR ''<'' \<notin> set tag \<and> CHR ''>'' \<notin> set tag \<and> CHR ''<'' \<notin> set body)"

fun shown_segment :: "segment \<Rightarrow> string" where
  "shown_segment (Plain t) = t"
| "shown_segment (Inline tag body) = (if lower tag \<in> {''key'', ''tls-auth'', ''tls-crypt'', ''tls-crypt-v2'', ''secret''} then masked_block tag else render (Inline tag body))"

lemma set_secret_tags: "{''key'', ''tls-auth'', ''tls-crypt'', ''tls-crypt-v2'', ''secret''} = set secret_tags"
  by (simp add: secret_tags_def)

lemma shown_inline: "shown_segment (Inline tag body) = (if lower tag \<in> set secret_tags then masked_block tag else render (Inline tag body))"
  by (simp only: shown_segment.simps set_secret_tags)

lemma lower_char_bracket [simp]: "lower_char c = CHR ''>'' \<longleftrightarrow> c = CHR ''>''" "lower_char c = CHR ''<'' \<longleftrightarrow> c = CHR ''<''"
  by (auto simp: lower_char_def chr_code_def Let_def of_char_of dest!: arg_cong [where f = "of_char :: char \<Rightarrow> nat"])

lemma lower_append [simp]: "lower (a @ b) = lower a @ lower b" and lower_Cons [simp]: "lower (c # b) = lower_char c # lower b"
  and lower_Nil [simp]: "lower [] = []" and length_lower [simp]: "length (lower a) = length a"
  by (simp_all add: lower_def)

lemma after_word_eq: "after_word w s = (if lower (take (length w) s) = w then Some (drop (length w) s) else None)"
proof -
  have "starts_with w (lower (take (length w) s) @ drop (length w) s) \<longleftrightarrow> lower (take (length w) s) = w"
  proof (cases "length w \<le> length s")
    case True
    then show ?thesis by (auto simp: starts_with_iff append_eq_append_conv)
  next
    case False
    then have "length (lower s) \<noteq> length w" and "\<not> starts_with w (lower s)" by (auto simp: starts_with_iff dest: arg_cong [where f = length])
    then show ?thesis using False by auto
  qed
  then show ?thesis by (auto simp: after_word_def after_text_def dest: arg_cong [where f = length])
qed

lemma take_bracket:
  assumes "CHR ''>'' \<notin> set tag" "CHR ''>'' \<notin> set w"
  shows "lower (take (Suc (length w)) (tag @ CHR ''>'' # r)) = w @ ''>'' \<longleftrightarrow> lower tag = w"
proof
  assume l: "lower (take (Suc (length w)) (tag @ CHR ''>'' # r)) = w @ ''>''"
  let ?x = "tag @ CHR ''>'' # r" and ?p = "\<lambda>c. c \<noteq> CHR ''>''"
  have "lower ?x = (w @ ''>'') @ lower (drop (Suc (length w)) ?x)"
    using l by (metis append_take_drop_id lower_append)
  then have "takeWhile ?p (lower ?x) = takeWhile ?p (w @ CHR ''>'' # lower (drop (Suc (length w)) ?x))" by simp
  moreover have "takeWhile ?p (w @ CHR ''>'' # y) = w" for y
    using assms(2) by (subst takeWhile_append2) auto
  moreover have "takeWhile ?p (lower ?x) = lower tag"
    using assms(1) by (simp add: lower_def) (subst takeWhile_append2, auto)
  ultimately show "lower tag = w" by simp
qed auto

lemma first_some_one:
  "(\<And>x. x \<in> set xs \<Longrightarrow> f x = (if x = a then Some b else None)) \<Longrightarrow> first_some f xs = (if a \<in> set xs then Some b else None)"
  by (induction xs) (auto simp: first_some_def)

lemma no_bracket_in_tags: "w \<in> set secret_tags \<Longrightarrow> CHR ''>'' \<notin> set w"
  by (auto simp: secret_tags_def)

lemma open_tag_block:
  assumes "CHR ''>'' \<notin> set tag"
  shows "open_tag (CHR ''<'' # tag @ CHR ''>'' # r) = (if lower tag \<in> set secret_tags then Some (tag, r) else None)"
proof -
  let ?f = "\<lambda>w. case after_word (w @ ''>'') (tag @ CHR ''>'' # r) of Some q \<Rightarrow> Some (take (length w) (tag @ CHR ''>'' # r), q) | None \<Rightarrow> None"
  have "?f w = (if w = lower tag then Some (tag, r) else None)" if w: "w \<in> set secret_tags" for w
  proof (cases "w = lower tag")
    case True
    then show ?thesis by (simp add: after_word_eq)
  next
    case False
    then have "after_word (w @ ''>'') (tag @ CHR ''>'' # r) = None"
      using take_bracket [OF assms no_bracket_in_tags [OF w], of r] by (simp add: after_word_eq)
    then show ?thesis using False by simp
  qed
  then have "first_some ?f secret_tags = (if lower tag \<in> set secret_tags then Some (tag, r) else None)"
    by (rule first_some_one)
  then show ?thesis by (simp add: open_tag_def)
qed

lemma mask_blocks_plain: "CHR ''<'' \<notin> set t \<Longrightarrow> mask_blocks (t @ s) = t @ mask_blocks s"
  by (induction t) (auto simp: secret_block_def open_tag_def)

lemma after_close_body:
  assumes "CHR ''<'' \<notin> set body"
  shows "after_close tag (body @ ''</'' @ tag @ ''>'' @ rest) = Some rest"
  using assms
proof (induction body)
  case Nil
  then show ?case by (simp add: after_word_eq lower_char_def chr_code_def Let_def)
next
  case (Cons c body)
  then have "after_word (''</'' @ lower tag @ ''>'') (c # body @ ''</'' @ tag @ ''>'' @ rest) = None"
    by (auto simp: after_word_eq)
  then show ?case using Cons by simp
qed

lemma mask_blocks_open:
  assumes "open_tag (CHR ''<'' # s) = None"
  shows "mask_blocks (CHR ''<'' # s) = CHR ''<'' # mask_blocks s"
  using assms by (simp add: secret_block_def)

lemma mask_blocks_segment:
  assumes ok: "segment_ok seg"
  shows "mask_blocks (render seg @ rest) = shown_segment seg @ mask_blocks rest"
proof (cases seg)
  case (Plain t)
  then show ?thesis using ok mask_blocks_plain by simp
next
  case (Inline tag body)
  have g: "CHR ''>'' \<notin> set tag" "CHR ''<'' \<notin> set tag" "CHR ''<'' \<notin> set body" using ok Inline by auto
  show ?thesis
  proof (cases "lower tag \<in> set secret_tags")
    case True
    have "secret_block (CHR ''<'' # tag @ CHR ''>'' # body @ ''</'' @ tag @ ''>'' @ rest) = Some (tag, rest)"
      using open_tag_block [OF g(1)] True after_close_body [OF g(3)] by (simp add: secret_block_def)
    then show ?thesis using Inline True by (simp add: shown_inline del: shown_segment.simps)
  next
    case False
    have s: "CHR ''>'' \<notin> set (CHR ''/'' # tag)" using g(1) by simp
    have n: "lower (CHR ''/'' # tag) \<notin> set secret_tags" by (simp add: secret_tags_def lower_char_def chr_code_def Let_def)
    have "mask_blocks (CHR ''<'' # (CHR ''/'' # tag) @ CHR ''>'' # rest) = CHR ''<'' # mask_blocks ((CHR ''/'' # tag @ ''>'') @ rest)"
      using mask_blocks_open open_tag_block [OF s] n by (simp only: if_False append_Cons append_assoc append_Nil)
    also have "\<dots> = ''</'' @ tag @ ''>'' @ mask_blocks rest"
      using g by (subst mask_blocks_plain) auto
    finally have close: "mask_blocks (''</'' @ tag @ ''>'' @ rest) = ''</'' @ tag @ ''>'' @ mask_blocks rest" by simp
    have "mask_blocks (CHR ''<'' # tag @ CHR ''>'' # body @ ''</'' @ tag @ ''>'' @ rest)
        = CHR ''<'' # mask_blocks ((tag @ ''>'' @ body) @ ''</'' @ tag @ ''>'' @ rest)"
      using mask_blocks_open open_tag_block [OF g(1)] False by simp
    also have "\<dots> = CHR ''<'' # (tag @ ''>'' @ body) @ mask_blocks (''</'' @ tag @ ''>'' @ rest)"
      using g by (subst mask_blocks_plain) auto
    finally show ?thesis using Inline False close by (simp add: shown_inline del: shown_segment.simps)
  qed
qed

text \<open>
  The view of a profile keeps everything but the secrets: in a profile made of text and inline blocks, each block of a
  secret kind, in any spelling of its tag, is replaced by the note and nothing of its body is left; all else stays as it is.
\<close>

theorem blocks_masked:
  assumes "\<forall>seg\<in>set segs. segment_ok seg"
  shows "mask_blocks (concat (map render segs)) = concat (map shown_segment segs)"
  using assms
proof (induction segs)
  case (Cons seg segs)
  then show ?case using mask_blocks_segment [of seg "concat (map render segs)"] by simp
qed simp

section \<open>The credentials file\<close>

lemma split_on_word: "c \<notin> set w \<Longrightarrow> split_on c (w @ c # s) = w # split_on c s"
  by (induction w) auto

lemma split_on_last: "c \<notin> set w \<Longrightarrow> split_on c w = [w]"
  by (induction w) auto

text \<open>
  Without a newline in them, the credentials OpenVPN reads line by line are the ones the operator gave; the console's
  check lets a newline through, and then the second line is a part of the user name.
\<close>

theorem auth_text_lines:
  "CHR 0x0A \<notin> set username \<Longrightarrow> CHR 0x0A \<notin> set password \<Longrightarrow> split_on (CHR 0x0A) (auth_text username password) = [username, password, []]"
  by (simp add: auth_text_def split_on_word)

theorem auth_text_lines_witness: "split_on (CHR 0x0A) (auth_text ''ops'' ''secret'') = [''ops'', ''secret'', []]"
  by (rule auth_text_lines) simp_all

lemma auth_newline_passes:
  "\<not> bad_credential (''ops'' @ [CHR 0x0A] @ ''guess'') \<and> split_on (CHR 0x0A) (auth_text (''ops'' @ [CHR 0x0A] @ ''guess'') ''secret'') = [''ops'', ''guess'', ''secret'', []]"
  by (simp add: bad_credential_def ctrl_char_def chr_code_def auth_text_def)

section \<open>The profile of the desired tunnel\<close>

definition plain_paths :: "string \<Rightarrow> vpn_console \<Rightarrow> bool" where
  "plain_paths base c = (vc_base c = base \<and> (\<forall>n. vc_resolve c n = base @ ''/'' @ n @ ''.ovpn''))"

definition desired_profile_there :: "string \<Rightarrow> vpn_volume \<Rightarrow> bool" where
  "desired_profile_there base v = (\<forall>d. read_desired (vv_desired v) = Inr d \<longrightarrow> truthy (jget d ''connect'') \<longrightarrow>
     (\<exists>name. jget d ''profile'' = JStr name \<and> valid_name name \<and> is_file_at v (base @ ''/'' @ name @ ''.ovpn'')))"

datatype vpn_op = SaveOp string upload | DeleteOp string | ConnectOp string bool string string bool | AutoOp bool | DisconnectOp

definition vpn_operate :: "vpn_console \<Rightarrow> vpn_op \<Rightarrow> vpn_volume \<Rightarrow> vpn_volume" where
  "vpn_operate c x v = (case x of SaveOp n u \<Rightarrow> snd (save_profile c n u v) | DeleteOp n \<Rightarrow> snd (delete_profile c n v)
     | ConnectOp p g user pw auto \<Rightarrow> snd (connect_vpn c p g user pw auto v) | AutoOp b \<Rightarrow> snd (set_auto_reconnect c b v)
     | DisconnectOp \<Rightarrow> snd (disconnect_vpn c v))"

lemma profile_file_plain:
  "plain_paths base c \<Longrightarrow> profile_file c name = Some p \<longleftrightarrow> valid_name name \<and> p = base @ ''/'' @ name @ ''.ovpn''"
  by (auto simp: profile_file_def plain_paths_def inside_def starts_with_iff)

lemma is_file_put [simp]: "is_file_at (put_file p t v) q = (q = p \<or> is_file_at v q)"
  by (simp add: is_file_at_def put_file_def)

lemma dict_get_del: "dict_get (dict_del k d) k' = (if k' = k then None else dict_get d k')"
  by (induction d) (auto simp: dict_del_def)

lemma is_file_drop [simp]: "is_file_at (drop_file p v) q = (q \<noteq> p \<and> is_file_at v q)"
  by (simp add: is_file_at_def drop_file_def dict_get_del)

lemma desired_put_drop [simp]: "vv_desired (put_file p t v) = vv_desired v" "vv_desired (drop_file p v) = vv_desired v"
  by (simp_all add: put_file_def drop_file_def)

lemma auth_is_no_profile: "with_suffix p ''.auth'' \<noteq> q @ ''.ovpn''"
  by (simp add: with_suffix_def Let_def)

lemma there_if_files_grow:
  "desired_profile_there base v \<Longrightarrow> vv_desired v' = vv_desired v \<Longrightarrow> (\<And>p. is_file_at v p \<Longrightarrow> is_file_at v' p) \<Longrightarrow> desired_profile_there base v'"
  by (fastforce simp: desired_profile_there_def)

lemma there_save: "desired_profile_there base v \<Longrightarrow> desired_profile_there base (snd (save_profile c n u v))"
  by (auto simp: save_profile_def intro: there_if_files_grow split: option.splits upload.splits)

lemma there_delete:
  assumes t: "desired_profile_there base v" and c: "plain_paths base c"
  shows "desired_profile_there base (snd (delete_profile c n v))"
proof (cases "vv_files (snd (delete_profile c n v)) = vv_files v \<and> vv_desired (snd (delete_profile c n v)) = vv_desired v")
  case True
  then show ?thesis using t by (simp add: desired_profile_there_def is_file_at_def)
next
  case False
  then obtain p d where p: "profile_file c n = Some p" and d: "read_desired (vv_desired v) = Inr d" and u: "\<not> in_use d n"
    and v': "snd (delete_profile c n v) = drop_file (with_suffix p ''.auth'') (drop_file p v)"
    by (auto simp: delete_profile_def split: option.splits sum.splits if_splits)
  have pn: "p = base @ ''/'' @ n @ ''.ovpn''" using p profile_file_plain [OF c] by simp
  show ?thesis unfolding desired_profile_there_def v'
  proof (intro allI impI)
    fix e assume e: "read_desired (vv_desired (drop_file (with_suffix p ''.auth'') (drop_file p v))) = Inr e" "truthy (jget e ''connect'')"
    then obtain name where m: "jget e ''profile'' = JStr name" "valid_name name" "is_file_at v (base @ ''/'' @ name @ ''.ovpn'')"
      using t by (auto simp: desired_profile_there_def)
    have "e = d" using e(1) d by simp
    then have "name \<noteq> n" using u e(2) m(1) by (auto simp: in_use_def)
    moreover have "with_suffix p ''.auth'' \<noteq> (base @ ''/'' @ name) @ ''.ovpn''" by (rule auth_is_no_profile)
    ultimately show "\<exists>name. jget e ''profile'' = JStr name \<and> valid_name name
        \<and> is_file_at (drop_file (with_suffix p ''.auth'') (drop_file p v)) (base @ ''/'' @ name @ ''.ovpn'')"
      using m pn by (intro exI [of _ name]) auto
  qed
qed

lemma there_request:
  assumes "desired_profile_there base v" "valid_name profile" "is_file_at v (base @ ''/'' @ profile @ ''.ovpn'')"
  shows "desired_profile_there base (snd (request_tunnel c profile g a auto v))"
  using assms
  by (auto simp: request_tunnel_def desired_profile_there_def desired_connect_def read_desired_def jget_def is_file_at_def split: sum.splits)

lemma there_connect:
  assumes t: "desired_profile_there base v" and c: "plain_paths base c"
  shows "desired_profile_there base (snd (connect_vpn c profile g user pw auto v))"
proof -
  have k: "desired_profile_there base (put_file p x v)" for p x using t by (rule there_if_files_grow) auto
  show ?thesis
  proof (cases "profile_file c profile")
    case None
    then show ?thesis using t by (simp add: connect_vpn_def)
  next
    case (Some p)
    then have p: "valid_name profile" "p = base @ ''/'' @ profile @ ''.ovpn''" using profile_file_plain [OF c] by auto
    show ?thesis using t Some p k there_request [OF k] there_request [OF t] by (simp add: connect_vpn_def)
  qed
qed

lemma there_auto: "desired_profile_there base v \<Longrightarrow> desired_profile_there base (snd (set_auto_reconnect c b v))"
  by (cases "vv_desired v")
     (auto simp: set_auto_reconnect_def desired_profile_there_def read_desired_def read_json_def jget_def is_file_at_def Let_def split: if_splits)

lemma there_disconnect: "desired_profile_there base v \<Longrightarrow> desired_profile_there base (snd (disconnect_vpn c v))"
  by (auto simp: disconnect_vpn_def desired_profile_there_def read_desired_def jget_def is_file_at_def split: sum.splits)

text \<open>
  The profile of the wanted tunnel is always there: in whatever order profiles are saved and deleted and tunnels are asked
  for, switched and dropped, a desired state that asks for a tunnel names a valid profile whose file exists.
\<close>

theorem desired_profile_kept:
  assumes "desired_profile_there base v" "\<forall>(c, x)\<in>set steps. plain_paths base c"
  shows "desired_profile_there base (fold (\<lambda>(c, x). vpn_operate c x) steps v)"
  using assms
proof (induction steps arbitrary: v)
  case (Cons step steps)
  obtain c x where s: "step = (c, x)" by (cases step)
  have c: "plain_paths base c" using Cons.prems(2) s by simp
  have "desired_profile_there base (vpn_operate c x v)"
    using Cons.prems(1) c by (cases x) (simp_all add: vpn_operate_def there_save there_delete there_connect there_auto there_disconnect)
  then show ?case using Cons.IH Cons.prems(2) s by simp
qed simp

section \<open>From the operator to the tunnel\<close>

lemma request_tunnel_ok:
  assumes "request_tunnel c profile g a auto v = (Inr (Connecting name epoch), v')"
  shows "name = profile \<and> v' = v\<lparr>vv_desired := Doc (desired_connect c profile g a auto epoch)\<rparr>"
  using assms by (auto simp: request_tunnel_def split: sum.splits if_splits)

lemma connect_ok:
  assumes "connect_vpn c profile g user pw auto v = (Inr (Connecting name epoch), v')"
  shows "\<exists>a p. name = profile \<and> vv_desired v' = Doc (desired_connect c profile g a auto epoch)
     \<and> profile_file c profile = Some p \<and> is_file_at v' p"
proof -
  obtain p where p: "profile_file c profile = Some p" "is_file_at v p"
    using assms by (auto simp: connect_vpn_def split: if_splits option.splits)
  obtain a u where u: "request_tunnel c profile g a auto u = (Inr (Connecting name epoch), v')" "is_file_at u p"
    using assms p by (auto simp: connect_vpn_def split: if_splits)
  from request_tunnel_ok [OF u(1)] u(2) p show ?thesis by (auto simp: is_file_at_def)
qed

text \<open>The console's request, as the sidecar reads it.\<close>

lemma request_fields:
  "auto_reconnect (desired_connect c profile g a auto epoch) = auto" "jget (desired_connect c profile g a auto epoch) ''epoch'' = JInt epoch"
  "profile \<noteq> [] \<Longrightarrow> wanted_profile (desired_connect c profile g a auto epoch) = profile"
  "read_desired (Doc (desired_connect c profile g a auto epoch)) = Inr (desired_connect c profile g a auto epoch)"
  by (simp_all add: desired_connect_def auto_reconnect_def jget_default_def jget_def wanted_profile_def str_or_empty_def read_desired_def)

lemma request_auth_inj [simp]: "desired_connect c profile g a auto epoch = desired_connect c profile g b auto epoch \<longleftrightarrow> a = b"
  by (simp add: desired_connect_def)

text \<open>Both services see the same volume.\<close>

definition same_volume :: "vpn_console \<Rightarrow> vpn_volume \<Rightarrow> vpn_world \<Rightarrow> bool" where
  "same_volume c v w = (vw_desired w = vv_desired v \<and> vw_root w = vc_base c
     \<and> (\<forall>n. vw_resolve w n = (vc_resolve c n, is_file_at v (vc_resolve c n))))"

lemma request_target:
  assumes k: "connect_vpn c profile g user pw auto v = (Inr (Connecting name epoch), v')" and w: "same_volume c v' w"
  shows "\<exists>a path. vw_desired w = Doc (desired_connect c profile g a auto epoch)
    \<and> target_path w (desired_connect c profile g a auto epoch) = Some path \<and> profile \<noteq> []"
proof -
  obtain a p where a: "vv_desired v' = Doc (desired_connect c profile g a auto epoch)"
      and p: "profile_file c profile = Some p" "is_file_at v' p"
    using connect_ok [OF k] by blast
  have n: "valid_name profile" "p = vc_resolve c profile" "inside (vc_base c) p" using p(1) by (auto simp: profile_file_def split: if_splits)
  then have "profile \<noteq> []" "profile_re profile" by (auto simp: valid_name_def)
  then have "target_path w (desired_connect c profile g a auto epoch) = Some p"
    using w n p(2) by (simp add: target_path_def request_fields profile_path_def same_volume_def)
  then show ?thesis using a w \<open>profile \<noteq> []\<close> by (auto simp: same_volume_def)
qed



text \<open>
  A reconnect asked for at the wrong moment is lost: when OpenVPN has ended and the supervisor has not looked yet, a request
  that the console accepts with reconnecting off, whatever its number, is taken for the one that ended, and in no pass
  from then on is OpenVPN started.
\<close>

theorem late_reconnect_lost:
  assumes c: "sv_proc s = Some ch" "ch_exit ch = Some code"
    and k: "connect_vpn c profile g user pw False v = (Inr (Connecting name epoch), v')"
    and w: "\<forall>w\<in>set (w1 # ws). same_volume c v' w"
  shows "\<not> proc_running (fold run_pass (w1 # ws) s)"
proof -
  obtain a path where p: "vw_desired w1 = Doc (desired_connect c profile g a False epoch)"
      "target_path w1 (desired_connect c profile g a False epoch) = Some path"
    using request_target [OF k, of w1] w by (meson list.set_intros(1))
  let ?d = "desired_connect c profile g a False epoch"
  have all: "read_desired (vw_desired w') = Inr ?d \<and> target_path w' ?d \<noteq> None" if "w' \<in> set (w1 # ws)" for w'
  proof -
    have v: "same_volume c v' w'" using w that by blast
    then have d: "vw_desired w' = Doc ?d" using p(1) w by (simp add: same_volume_def)
    obtain b q where "vw_desired w' = Doc (desired_connect c profile g b False epoch)"
        "target_path w' (desired_connect c profile g b False epoch) = Some q"
      using request_target [OF k v] by blast
    with d show ?thesis by (simp add: request_fields)
  qed
  have "latched ?d (run_pass w1 s)"
    using exit_latches [OF c] run_pass_target [OF _ p(2)] all by (simp add: request_fields)
  then have "latched ?d (fold run_pass ws (run_pass w1 s))" by (rule latched_passes) (use all in simp)
  then show ?thesis by (simp add: latched_def)
qed

section \<open>A console\<close>

definition demo_vpn_console :: vpn_console where
  "demo_vpn_console = \<lparr>vc_admin = ''true'', vc_base = ''/vpn/profiles'', vc_resolve = (\<lambda>n. ''/vpn/profiles/'' @ n @ ''.ovpn''),
     vc_now = ''now'', vc_micros = 0, vc_file_ok = True, vc_auth_ok = True, vc_desired_ok = True\<rparr>"

definition demo_volume :: vpn_volume where
  "demo_volume = \<lparr>vv_files = [(''/vpn/profiles/lab.ovpn'', ''client'')], vv_desired = Doc (demo_desired True True 1), vv_status = Absent\<rparr>"

definition demo_requested :: "bool \<Rightarrow> vpn_volume" where
  "demo_requested auto = demo_volume\<lparr>vv_desired := Doc (desired_connect demo_vpn_console ''lab'' False False auto 2)\<rparr>"

definition demo_sidecar :: "bool \<Rightarrow> pyfloat \<Rightarrow> vpn_world" where
  "demo_sidecar auto t = (demo_vpn_host JNull t)\<lparr>vw_desired := vv_desired (demo_requested auto),
     vw_resolve := (\<lambda>n. (''/vpn/profiles/'' @ n @ ''.ovpn'', is_file_at (demo_requested auto) (''/vpn/profiles/'' @ n @ ''.ovpn'')))\<rparr>"

lemma demo_profile_file: "profile_file demo_vpn_console ''lab'' = Some ''/vpn/profiles/lab.ovpn''"
  by (simp add: profile_file_def valid_name_def profile_re_def profile_char_def chr_code_def inside_def demo_vpn_console_def)

lemma demo_admin: "vpn_admin_enabled demo_vpn_console"
  by (simp add: vpn_admin_enabled_def demo_vpn_console_def) code_simp

lemma demo_console_fields: "vc_desired_ok demo_vpn_console" "vv_desired demo_volume = Doc (demo_desired True True 1)"
  "vv_files demo_volume = [(''/vpn/profiles/lab.ovpn'', ''client'')]"
  by (simp_all add: demo_vpn_console_def demo_volume_def)

lemma demo_next_epoch: "bind_res (read_desired (Doc (demo_desired True True 1))) next_epoch = Inr 2"
  by (simp add: read_desired_def demo_desired_def next_epoch_def jget_def py_or_def)

lemma demo_connect: "connect_vpn demo_vpn_console ''lab'' False [] [] auto demo_volume = (Inr (Connecting ''lab'' 2), demo_requested auto)"
  by (simp add: connect_vpn_def demo_admin demo_profile_file is_file_at_def demo_console_fields demo_requested_def request_tunnel_def
      demo_next_epoch with_suffix_def base_name_def Let_def)

lemma demo_same: "same_volume demo_vpn_console (demo_requested auto) (demo_sidecar auto t)"
  by (simp add: same_volume_def demo_sidecar_def demo_vpn_host_def demo_vpn_console_def demo_requested_def)

lemma demo_sidecar_fields: "vw_time (demo_sidecar auto t) = t" "vw_spawn (demo_sidecar auto t) argv = None"
  by (simp_all add: demo_sidecar_def demo_vpn_host_def)


theorem late_reconnect_lost_witness:
  "\<not> proc_running (fold run_pass [demo_sidecar False 12, demo_sidecar False 500] demo_crashed)"
  by (rule late_reconnect_lost [OF demo_child _ demo_connect]) (simp_all add: demo_same)

theorem blocks_masked_witness:
  "mask_blocks (''client'' @ ''<key>MIIEvQ</key>'' @ ''<ca>abc</ca>'') = ''client'' @ masked_block ''key'' @ ''<ca>abc</ca>''"
  using blocks_masked [of "[Plain ''client'', Inline ''key'' ''MIIEvQ'', Inline ''ca'' ''abc'']"]
  by (simp add: secret_tags_def lower_char_def chr_code_def Let_def)

lemma demo_there: "desired_profile_there ''/vpn/profiles'' demo_volume"
  by (auto simp: desired_profile_there_def demo_volume_def read_desired_def demo_desired_def jget_def is_file_at_def valid_name_def
      profile_re_def profile_char_def chr_code_def)

theorem desired_profile_kept_witness:
  "desired_profile_there ''/vpn/profiles'' (fold (\<lambda>(c, x). vpn_operate c x) [(demo_vpn_console, DeleteOp ''lab''), (demo_vpn_console, DisconnectOp)] demo_volume)"
  by (rule desired_profile_kept [OF demo_there]) (simp add: plain_paths_def demo_vpn_console_def)

text \<open>A directive followed by any further line passes for one with an argument, and the operator is not told to give credentials.\<close>

lemma auth_warning_lost:
  "needs_auth (''client'' @ [CHR 0x0A] @ ''auth-user-pass'' @ [CHR 0x0A] @ ''verb 3'')
   \<and> profile_warnings (''client'' @ [CHR 0x0A] @ ''auth-user-pass'' @ [CHR 0x0A] @ ''verb 3'') = []"
  by code_simp

end
