(* ===== verification/Sessions.thy ===== *)
theory Sessions
  imports PyValue
begin

text \<open>
  Login of the edge console (\<open>edge-console/auth.py\<close>): the password, which is also the key that signs
  sessions, the session token with its expiry, and the guard of every protected route. The keyed hash
  is a parameter; that it prints as hexadecimal digits, and that two keys give a payload two signatures,
  are hypotheses of the theorems that need them. An environment variable that is not set is the empty text,
  as the code makes no difference.
\<close>

section \<open>The password\<close>

record auth_host =
  au_file :: tfile
  au_secret :: string
  au_password :: string
  au_mac :: "string \<Rightarrow> string \<Rightarrow> string"

definition default_secret :: string where
  "default_secret = ''sensel-edge-console-dev-change-me''"

definition session_ttl :: int where "session_ttl = 60 * 60 * 12"

definition has_password_file :: "auth_host \<Rightarrow> bool" where
  "has_password_file h = (au_file h \<noteq> NoFile)"

definition signing_secret :: "auth_host \<Rightarrow> string" where
  "signing_secret h =
     (let fallback = (if au_secret h \<noteq> [] then au_secret h else if au_password h \<noteq> [] then au_password h else default_secret) in
      case au_file h of Text t \<Rightarrow> if strip t \<noteq> [] then strip t else fallback | _ \<Rightarrow> fallback)"

definition password_required :: "auth_host \<Rightarrow> bool" where
  "password_required h = (has_password_file h \<or> strip (au_password h) \<noteq> [])"

text \<open>\<open>hmac.compare_digest\<close> takes only ASCII text.\<close>

definition ascii :: "string \<Rightarrow> bool" where
  "ascii s = (\<forall>c\<in>set s. chr_code c < 128)"

definition compare_digest :: "string \<Rightarrow> string \<Rightarrow> bool res" where
  "compare_digest a b = (if ascii a \<and> ascii b then Inr (a = b) else Inl TypeError)"

definition verify_password :: "auth_host \<Rightarrow> string \<Rightarrow> bool res" where
  "verify_password h password =
     (if strip (au_password h) = [] \<and> \<not> has_password_file h then Inr True
      else compare_digest password (signing_secret h))"

definition set_password :: "bool \<Rightarrow> string \<Rightarrow> auth_host \<Rightarrow> unit res \<times> auth_host" where
  "set_password writes password h =
     (if length (strip password) < 8 then (Inl ValueError, h)
      else if \<not> writes then (Inl OSError, h)
      else (Inr (), h\<lparr>au_file := Text (strip password)\<rparr>))"

section \<open>Sessions\<close>

definition sign :: "auth_host \<Rightarrow> string \<Rightarrow> string" where
  "sign h payload = au_mac h (signing_secret h) payload"

definition session_payload :: "string \<Rightarrow> string \<Rightarrow> string" where
  "session_payload expiry nonce = expiry @ ''.'' @ nonce"

definition create_session :: "auth_host \<Rightarrow> int \<Rightarrow> string \<Rightarrow> string" where
  "create_session h now nonce = (let payload = session_payload (dec_int (now + session_ttl)) nonce in
     payload @ ''.'' @ sign h payload)"

definition valid_token :: "auth_host \<Rightarrow> int \<Rightarrow> string option \<Rightarrow> bool res" where
  "valid_token h now token = (case token of None \<Rightarrow> Inr False | Some t \<Rightarrow>
     if t = [] then Inr False
     else (case split_on (CHR ''.'') t of
         [expiry, nonce, sig] \<Rightarrow>
           bind_res (compare_digest sig (sign h (session_payload expiry nonce))) (\<lambda>same.
             if \<not> same then Inr False
             else (case parse_int expiry of Inl _ \<Rightarrow> Inr False | Inr e \<Rightarrow> Inr (now \<le> e)))
       | _ \<Rightarrow> Inr False))"

datatype access = Granted | Login_required

definition require_session :: "auth_host \<Rightarrow> int \<Rightarrow> string option \<Rightarrow> access res" where
  "require_session h now token =
     (if \<not> password_required h then Inr Granted
      else bind_res (valid_token h now token) (\<lambda>ok. Inr (if ok then Granted else Login_required)))"

section \<open>Lifetime of a session\<close>

definition dotless :: "string \<Rightarrow> bool" where
  "dotless s = (\<forall>c\<in>set s. chr_code c < 128 \<and> c \<noteq> CHR ''.'')"

lemma no_dot_in_dec: "CHR ''.'' \<notin> set (dec n)"
  using dec_digits [of "CHR ''.''" n] by (auto simp: is_digit_def chr_code_def)

lemma split_token:
  assumes "CHR ''.'' \<notin> set a" "CHR ''.'' \<notin> set b" "CHR ''.'' \<notin> set c"
  shows "split_on (CHR ''.'') (a @ ''.'' @ b @ ''.'' @ c) = [a, b, c]"
proof -
  have word: "split_on (CHR ''.'') (w @ CHR ''.'' # s) = w # split_on (CHR ''.'') s" if "CHR ''.'' \<notin> set w" for w s
    using that by (induction w) auto
  have end_word: "split_on (CHR ''.'') w = [w]" if "CHR ''.'' \<notin> set w" for w
    using that by (induction w) auto
  show ?thesis using assms by (simp add: word end_word)
qed

lemma valid_token_of:
  assumes e: "CHR ''.'' \<notin> set expiry" "parse_int expiry = Inr x" and n: "dotless nonce" and s: "dotless sig" "ascii (sign h (session_payload expiry nonce))"
  shows "valid_token h now (Some (session_payload expiry nonce @ ''.'' @ sig))
     = Inr (sig = sign h (session_payload expiry nonce) \<and> now \<le> x)"
proof -
  have "CHR ''.'' \<notin> set nonce" "CHR ''.'' \<notin> set sig" using n s(1) by (auto simp: dotless_def)
  then have "split_on (CHR ''.'') (session_payload expiry nonce @ ''.'' @ sig) = [expiry, nonce, sig]"
    using split_token [OF e(1)] by (simp add: session_payload_def)
  moreover have "ascii sig" using s(1) by (auto simp: dotless_def ascii_def)
  moreover have "session_payload expiry nonce @ ''.'' @ sig \<noteq> []" by simp
  ultimately show ?thesis using e(2) s(2) by (simp add: valid_token_def compare_digest_def)
qed

lemma hex_ascii: "dotless s \<Longrightarrow> ascii s"
  by (auto simp: dotless_def ascii_def)

lemma parse_expiry: "0 \<le> e \<Longrightarrow> parse_int (dec_int e) = Inr e \<and> CHR ''.'' \<notin> set (dec_int e)"
  by (simp add: dec_int_def no_dot_in_dec)

text \<open>
  A session lasts twelve hours: the token the console made is accepted exactly until its expiry, as long as the
  password stays, and with a password in force nothing else opens a protected route at that time than a token whose
  signature is right.
\<close>

theorem session_lasts:
  assumes mac: "\<forall>k p. dotless (au_mac h k p)" and n: "dotless nonce" and t: "0 \<le> made" and p: "password_required h"
  shows "require_session h now (Some (create_session h made nonce)) = Inr (if now \<le> made + session_ttl then Granted else Login_required)"
proof -
  have e: "parse_int (dec_int (made + session_ttl)) = Inr (made + session_ttl)" "CHR ''.'' \<notin> set (dec_int (made + session_ttl))"
    using parse_expiry [of "made + session_ttl"] t by (simp_all add: session_ttl_def)
  have s: "dotless (sign h q)" for q using mac by (simp add: sign_def)
  show ?thesis using valid_token_of [OF e(2,1) n s hex_ascii [OF s]] p
    by (simp add: require_session_def create_session_def Let_def)
qed

text \<open>
  A new password ends every session: the tokens made under the old one are refused from then on, because the password
  is the signing key.
\<close>

theorem new_password_ends_sessions:
  assumes mac: "\<forall>k p. dotless (au_mac h k p)" and n: "dotless nonce" and t: "0 \<le> made"
    and w: "set_password True password h = (Inr (), h')"
    and d: "\<forall>p. au_mac h (signing_secret h) p \<noteq> au_mac h (strip password) p"
  shows "require_session h' now (Some (create_session h made nonce)) = Inr Login_required"
proof -
  have h': "h' = h\<lparr>au_file := Text (strip password)\<rparr>" "strip password \<noteq> []"
    using w by (auto simp: set_password_def split: if_splits)
  then have k: "signing_secret h' = strip password" "au_mac h' = au_mac h" "password_required h'"
    by (simp_all add: strip_idem signing_secret_def password_required_def has_password_file_def)
  have e: "parse_int (dec_int (made + session_ttl)) = Inr (made + session_ttl)" "CHR ''.'' \<notin> set (dec_int (made + session_ttl))"
    using parse_expiry [of "made + session_ttl"] t by (simp_all add: session_ttl_def)
  have s: "dotless (sign h q)" "ascii (sign h' q)" "sign h q \<noteq> sign h' q" for q
    using mac d k hex_ascii by (auto simp: sign_def)
  show ?thesis using valid_token_of [OF e(2,1) n s(1,2)] s(3) k(3)
    by (simp add: require_session_def create_session_def Let_def)
qed

text \<open>
  With both the secret and the password of the console in its environment and no password file, the configured password is
  refused and the secret, which only signs sessions, is the password.
\<close>

theorem configured_password_refused:
  assumes "au_file h = NoFile" "au_secret h \<noteq> []" "strip (au_password h) \<noteq> []" "ascii (au_secret h)" "ascii password"
  shows "verify_password h password = Inr (password = au_secret h)"
  using assms by (simp add: verify_password_def signing_secret_def compare_digest_def)

text \<open>
  A password file that is blank or cannot be read, with nothing in the environment, does not lock the console: a login is asked
  for, and the password is the one printed in the source.
\<close>

theorem blank_file_default_password:
  assumes "au_file h \<noteq> NoFile" "\<forall>t. au_file h = Text t \<longrightarrow> strip t = []" "au_secret h = []" "au_password h = []"
  shows "password_required h \<and> verify_password h ''sensel-edge-console-dev-change-me'' = Inr True"
proof -
  have a: "ascii default_secret" by (simp add: ascii_def default_secret_def chr_code_def)
  have s: "signing_secret h = default_secret" using assms by (cases "au_file h") (auto simp: signing_secret_def)
  have f: "has_password_file h" using assms(1) by (simp add: has_password_file_def)
  have v: "verify_password h default_secret = Inr True" using a s f by (simp add: verify_password_def compare_digest_def)
  show ?thesis using f v by (simp add: password_required_def default_secret_def)
qed

section \<open>A console\<close>

definition demo_auth :: auth_host where
  "demo_auth = \<lparr>au_file = Text ''plant-2024'', au_secret = ''k'', au_password = ''plant-2023'', au_mac = (\<lambda>k p. map (\<lambda>c. if c = CHR ''.'' \<or> \<not> chr_code c < 128 then CHR ''x'' else c) k)\<rparr>"

lemma demo_mac: "\<forall>k p. dotless (au_mac demo_auth k p)"
  by (auto simp: dotless_def demo_auth_def chr_code_def)

theorem session_lasts_witness:
  "require_session demo_auth 43300 (Some (create_session demo_auth 100 ''ab'')) = Inr Granted"
  using session_lasts [OF demo_mac, of "''ab''" 100 43300]
  by (simp add: dotless_def chr_code_def password_required_def has_password_file_def demo_auth_def session_ttl_def)

theorem new_password_ends_sessions_witness:
  "require_session (snd (set_password True ''substation'' demo_auth)) 200 (Some (create_session demo_auth 100 ''ab'')) = Inr Login_required"
proof -
  have s: "strip ''substation'' = ''substation''" "strip ''plant-2024'' = ''plant-2024''" by code_simp+
  have d: "\<forall>p. au_mac demo_auth (signing_secret demo_auth) p \<noteq> au_mac demo_auth (strip ''substation'') p"
    by (simp add: s signing_secret_def demo_auth_def chr_code_def)
  have w: "set_password True ''substation'' demo_auth = (Inr (), snd (set_password True ''substation'' demo_auth))"
    by (simp add: set_password_def s)
  show ?thesis by (rule new_password_ends_sessions [OF demo_mac _ _ w d]) (simp_all add: dotless_def chr_code_def)
qed

theorem configured_password_refused_witness:
  "verify_password (demo_auth\<lparr>au_file := NoFile\<rparr>) ''plant-2023'' = Inr False"
proof -
  have "strip ''plant-2023'' = ''plant-2023''" by code_simp
  then show ?thesis
    using configured_password_refused [of "demo_auth\<lparr>au_file := NoFile\<rparr>" "''plant-2023''"] by (simp add: demo_auth_def ascii_def chr_code_def)
qed

theorem blank_file_default_password_witness:
  "verify_password (demo_auth\<lparr>au_file := ReadError, au_secret := [], au_password := []\<rparr>) ''sensel-edge-console-dev-change-me'' = Inr True"
  using blank_file_default_password [of "demo_auth\<lparr>au_file := ReadError, au_secret := [], au_password := []\<rparr>"] by (simp add: demo_auth_def)

end
