(* ===== verification/Eventsindex.thy ===== *)
theory Eventsindex
  imports Jsontext Isotime
begin

text \<open>
  The console's reads of the event files (\<open>edge-console/events_index.py\<close>): the tail of a JSON-lines file,
  the counts of the last day, the newest events, the cache in front of them and the merge of several
  files. A file is its modification time and its bytes; the clocks, the local time zone and the decoding of
  bytes are parameters. Times are in microseconds.
\<close>

section \<open>Files and times\<close>

record event_file =
  ef_mtime :: int
  ef_bytes :: bytes

record index_world =
  iw_now :: int
  iw_mono :: pyfloat
  iw_zone :: int
  iw_decode :: "bytes \<Rightarrow> string"

definition tail_recent_bytes :: nat where "tail_recent_bytes = 256 * 1024"
definition stats_max_bytes :: nat where "stats_max_bytes = 2 * 1024 * 1024"
definition cache_ttl :: pyfloat where "cache_ttl = 30"
definition day_micros :: int where "day_micros = 86400 * 1000000"

text \<open>\<open>timestamp()\<close> of a naive time is in the local zone.\<close>

definition parse_event_ts :: "index_world \<Rightarrow> json \<Rightarrow> int option" where
  "parse_event_ts w ev =
     (let ts = py_or (jget ev ''timestamp'') (py_or (jget ev ''detected_at'') (JStr [])) in
      if \<not> truthy ts then None
      else let t = py_str ts; t = (if t \<noteq> [] \<and> last t = CHR ''Z'' then concat (map (\<lambda>c. if c = CHR ''Z'' then ''+00:00'' else [c]) t) else t) in
        map_option (\<lambda>d. case instant d of Aware m \<Rightarrow> m | Naive m \<Rightarrow> m - iw_zone w) (fromisoformat t))"

definition read_tail_lines :: "index_world \<Rightarrow> event_file option \<Rightarrow> nat \<Rightarrow> string list" where
  "read_tail_lines w f limit = (case f of None \<Rightarrow> []
     | Some x \<Rightarrow> let n = length (ef_bytes x) in
         if n = 0 then []
         else let ls = filter (\<lambda>l. strip l \<noteq> []) (text_lines (iw_decode w (drop (n - limit) (ef_bytes x)))) in
           if limit < n then tl ls else ls)"

section \<open>Scanning\<close>

record events_stats =
  es_day :: nat
  es_rules :: "(string, nat) dict"
  es_recent :: "json list"

definition event_of_line :: "string \<Rightarrow> json option" where
  "event_of_line l = (case loads l of Some v \<Rightarrow> if is_obj v then Some v else None | None \<Rightarrow> None)"

definition rule_name :: "json \<Rightarrow> string" where
  "rule_name ev = upper (py_str (py_or (jget ev ''rule_id'') (py_or (jget ev ''event_class'') (JStr ''unknown''))))"

definition stale_limit :: nat where "stale_limit = 500"

text \<open>The loop over the lines from the oldest on, with the run of old events it has seen.\<close>

fun count_events :: "index_world \<Rightarrow> int \<Rightarrow> nat \<Rightarrow> string list \<Rightarrow> nat \<times> (string, nat) dict \<Rightarrow> nat \<times> (string, nat) dict" where
  "count_events w cutoff streak [] acc = acc"
| "count_events w cutoff streak (l # ls) acc =
     (case event_of_line l of None \<Rightarrow> count_events w cutoff streak ls acc
      | Some ev \<Rightarrow> (case parse_event_ts w ev of None \<Rightarrow> count_events w cutoff streak ls acc
         | Some ts \<Rightarrow>
             if cutoff \<le> ts then count_events w cutoff 0 ls (Suc (fst acc), dict_bump (rule_name ev) (snd acc))
             else if stale_limit \<le> Suc streak then acc
             else count_events w cutoff (Suc streak) ls acc))"

text \<open>The limit is looked at after a line that is JSON, whether or not it was an event.\<close>

fun newest_events :: "int \<Rightarrow> string list \<Rightarrow> json list \<Rightarrow> json list" where
  "newest_events limit [] acc = acc"
| "newest_events limit (l # ls) acc = (case loads l of None \<Rightarrow> newest_events limit ls acc
     | Some v \<Rightarrow> let acc = (if is_obj v then acc @ [v] else acc) in
         if limit \<le> int (length acc) then acc else newest_events limit ls acc)"

definition scan_file :: "index_world \<Rightarrow> event_file \<Rightarrow> int \<Rightarrow> events_stats" where
  "scan_file w f limit =
     (case count_events w (iw_now w - day_micros) 0 (read_tail_lines w (Some f) stats_max_bytes) (0, []) of
       (n, rules) \<Rightarrow> \<lparr>es_day = n, es_rules = rules, es_recent = newest_events limit (rev (read_tail_lines w (Some f) tail_recent_bytes)) []\<rparr>)"

section \<open>The cache\<close>

text \<open>One entry for all files: its key is a modification time and a size.\<close>

record stats_cache =
  sc_key :: "(int \<times> nat) option"
  sc_stats :: "events_stats option"
  sc_at :: pyfloat

definition empty_cache :: stats_cache where
  "empty_cache = \<lparr>sc_key = None, sc_stats = None, sc_at = 0\<rparr>"

definition file_key :: "event_file \<Rightarrow> int \<times> nat" where
  "file_key f = (ef_mtime f, length (ef_bytes f))"

definition stats_cache_valid :: "index_world \<Rightarrow> event_file \<Rightarrow> stats_cache \<Rightarrow> bool" where
  "stats_cache_valid w f k = (sc_stats k \<noteq> None \<and> iw_mono w - sc_at k \<le> cache_ttl \<and> sc_key k = Some (file_key f))"

definition scan_events_stats :: "index_world \<Rightarrow> event_file option \<Rightarrow> int \<Rightarrow> stats_cache \<Rightarrow> events_stats \<times> stats_cache" where
  "scan_events_stats w f limit k = (case f of None \<Rightarrow> (\<lparr>es_day = 0, es_rules = [], es_recent = []\<rparr>, k)
     | Some x \<Rightarrow>
         if stats_cache_valid w x k then (the (sc_stats k), k)
         else let st = scan_file w x limit in (st, \<lparr>sc_key = Some (file_key x), sc_stats = Some st, sc_at = iw_mono w\<rparr>))"

definition read_jsonl_tail :: "index_world \<Rightarrow> event_file option \<Rightarrow> int \<Rightarrow> stats_cache \<Rightarrow> json list \<times> stats_cache" where
  "read_jsonl_tail w f limit k = (case scan_events_stats w f limit k of (st, k) \<Rightarrow> (es_recent st, k))"

section \<open>Merging\<close>

fun collect_recent :: "index_world \<Rightarrow> int \<Rightarrow> event_file option list \<Rightarrow> stats_cache \<Rightarrow> json list \<times> stats_cache" where
  "collect_recent w limit [] k = ([], k)"
| "collect_recent w limit (f # fs) k = (case scan_events_stats w f limit k of (st, k) \<Rightarrow>
     (case collect_recent w limit fs k of (rest, k) \<Rightarrow> (es_recent st @ rest, k)))"

definition recent_key :: "json \<Rightarrow> string" where
  "recent_key ev = strip (str_or_empty (jget ev ''event_id''))"

fun unique_events :: "int \<Rightarrow> json list \<Rightarrow> string list \<Rightarrow> json list \<Rightarrow> json list" where
  "unique_events limit [] seen out = out"
| "unique_events limit (ev # evs) seen out =
     (let eid = recent_key ev in
      if eid \<noteq> [] \<and> eid \<in> set seen then unique_events limit evs seen out
      else let seen = (if eid = [] then seen else eid # seen); out = out @ [ev] in
        if limit \<le> int (length out) then out else unique_events limit evs seen out)"

definition event_time :: "index_world \<Rightarrow> json \<Rightarrow> int" where
  "event_time w ev = (case parse_event_ts w ev of None \<Rightarrow> 0 | Some t \<Rightarrow> t)"

definition read_merged_jsonl_tail :: "index_world \<Rightarrow> event_file option list \<Rightarrow> int \<Rightarrow> stats_cache \<Rightarrow> json list \<times> stats_cache" where
  "read_merged_jsonl_tail w fs limit k =
     (if limit \<le> 0 then ([], k)
      else case collect_recent w (min (max (limit * 3) limit) 200) fs k of (evs, k) \<Rightarrow>
        (unique_events limit (sort_key (\<lambda>ev. - event_time w ev) evs) [] [], k))"

section \<open>What is counted_line\<close>

definition line_time :: "index_world \<Rightarrow> string \<Rightarrow> int option" where
  "line_time w l = (case event_of_line l of None \<Rightarrow> None | Some ev \<Rightarrow> parse_event_ts w ev)"

definition counted_line :: "index_world \<Rightarrow> int \<Rightarrow> string \<Rightarrow> bool" where
  "counted_line w cutoff l = (case line_time w l of None \<Rightarrow> False | Some t \<Rightarrow> cutoff \<le> t)"

definition stale :: "index_world \<Rightarrow> int \<Rightarrow> string \<Rightarrow> bool" where
  "stale w cutoff l = (case line_time w l of None \<Rightarrow> False | Some t \<Rightarrow> t < cutoff)"

lemma count_events_all:
  assumes "streak + length (filter (stale w cutoff) ls) < stale_limit"
  shows "fst (count_events w cutoff streak ls acc) = fst acc + length (filter (counted_line w cutoff) ls)
    \<and> dict_total (snd (count_events w cutoff streak ls acc)) = dict_total (snd acc) + length (filter (counted_line w cutoff) ls)"
  using assms
proof (induction ls arbitrary: streak acc)
  case (Cons l ls)
  have step: "streak' + length (filter (stale w cutoff) ls) < stale_limit \<Longrightarrow> fst (count_events w cutoff streak' ls acc') = fst acc' + length (filter (counted_line w cutoff) ls)
      \<and> dict_total (snd (count_events w cutoff streak' ls acc')) = dict_total (snd acc') + length (filter (counted_line w cutoff) ls)" for streak' acc'
    by (rule Cons.IH)
  show ?case
  proof (cases "line_time w l")
    case None
    then have "count_events w cutoff streak (l # ls) acc = count_events w cutoff streak ls acc" "\<not> counted_line w cutoff l" "\<not> stale w cutoff l"
      by (auto simp: line_time_def counted_line_def stale_def split: option.splits)
    then show ?thesis using step [of streak acc] Cons.prems by simp
  next
    case (Some ts)
    then obtain ev where ev: "event_of_line l = Some ev" "parse_event_ts w ev = Some ts" by (auto simp: line_time_def split: option.splits)
    show ?thesis
    proof (cases "cutoff \<le> ts")
      case True
      then have "counted_line w cutoff l" "\<not> stale w cutoff l" using Some by (auto simp: counted_line_def stale_def)
      then show ?thesis using ev True step [of 0 "(Suc (fst acc), dict_bump (rule_name ev) (snd acc))"] Cons.prems by simp
    next
      case False
      then have "\<not> counted_line w cutoff l" "stale w cutoff l" using Some by (auto simp: counted_line_def stale_def)
      then show ?thesis using ev False step [of "Suc streak" acc] Cons.prems by simp
    qed
  qed
qed simp

text \<open>
  With fewer than five hundred old events in the window, the console's number of the last day is exact: it is the number of
  lines of the window that hold an event of the last day, and the counts by rule add up to it.
\<close>

theorem day_count_exact:
  assumes "length (filter (stale w (iw_now w - day_micros)) (read_tail_lines w (Some f) stats_max_bytes)) < stale_limit"
  shows "es_day (scan_file w f limit) = length (filter (counted_line w (iw_now w - day_micros)) (read_tail_lines w (Some f) stats_max_bytes))
    \<and> dict_total (es_rules (scan_file w f limit)) = es_day (scan_file w f limit)"
  using count_events_all [of 0 w "iw_now w - day_micros" "read_tail_lines w (Some f) stats_max_bytes" "(0, [])"] assms
  by (simp add: scan_file_def split_def)

lemma count_events_stale:
  assumes "\<forall>l\<in>set old. stale w cutoff l" "streak < stale_limit" "stale_limit \<le> streak + length old"
  shows "count_events w cutoff streak (old @ ls) acc = acc"
  using assms
proof (induction old arbitrary: streak)
  case (Cons l old)
  obtain ts where "line_time w l = Some ts" "ts < cutoff" using Cons.prems(1) by (auto simp: stale_def split: option.splits)
  then obtain ev where "event_of_line l = Some ev" "parse_event_ts w ev = Some ts" by (auto simp: line_time_def split: option.splits)
  then show ?case using Cons.IH [of "Suc streak"] Cons.prems \<open>ts < cutoff\<close> by (auto simp: not_le)
qed simp

text \<open>
  Five hundred old events at the head of the window end the count before it has reached a new one: the console then
  shows no event for the last day, however many came in after them.
\<close>

theorem old_events_hide_new:
  assumes "read_tail_lines w (Some f) stats_max_bytes = old @ new" "stale_limit \<le> length old" "\<forall>l\<in>set old. stale w (iw_now w - day_micros) l"
  shows "es_day (scan_file w f limit) = 0 \<and> es_rules (scan_file w f limit) = []"
  using count_events_stale [OF assms(3), of 0 new "(0, [])"] assms(1,2) by (simp add: scan_file_def stale_limit_def)

section \<open>What the cache answers\<close>

text \<open>
  The cache does not know which file or how many events were asked for: within thirty seconds of a read, any file of the
  same size and modification time gets the first one's counts and events, with the first one's limit.
\<close>

theorem cache_answers_for_another:
  assumes "\<not> stats_cache_valid w f k" "file_key g = file_key f" "iw_mono w' - iw_mono w \<le> cache_ttl"
  shows "read_jsonl_tail w' (Some g) limit' (snd (scan_events_stats w (Some f) limit k)) =
    (es_recent (scan_file w f limit), snd (scan_events_stats w (Some f) limit k))"
proof -
  have c: "snd (scan_events_stats w (Some f) limit k) = \<lparr>sc_key = Some (file_key f), sc_stats = Some (scan_file w f limit), sc_at = iw_mono w\<rparr>"
    using assms(1) by (simp add: scan_events_stats_def Let_def)
  show ?thesis unfolding c using assms(2,3) by (simp add: read_jsonl_tail_def scan_events_stats_def stats_cache_valid_def)
qed

section \<open>What the merge shows\<close>

definition ids :: "json list \<Rightarrow> string list" where
  "ids evs = filter (\<lambda>i. i \<noteq> []) (map recent_key evs)"

lemma ids_snoc [simp]: "ids (out @ [ev]) = ids out @ (if recent_key ev = [] then [] else [recent_key ev])"
  by (simp add: ids_def)

lemma unique_events_ok:
  assumes "set (ids out) \<subseteq> set seen" "distinct (ids out)" "int (length out) < limit" "sorted_wrt R (out @ evs)"
  shows "int (length (unique_events limit evs seen out)) \<le> limit \<and> distinct (ids (unique_events limit evs seen out))
    \<and> sorted_wrt R (unique_events limit evs seen out) \<and> set (unique_events limit evs seen out) \<subseteq> set out \<union> set evs"
  using assms
proof (induction evs arbitrary: seen out)
  case (Cons ev evs)
  show ?case
  proof (cases "recent_key ev \<noteq> [] \<and> recent_key ev \<in> set seen")
    case True
    then show ?thesis using Cons.IH [of out seen] Cons.prems by (auto simp: Let_def sorted_wrt_append)
  next
    case False
    let ?seen = "if recent_key ev = [] then seen else recent_key ev # seen"
    have g: "set (ids (out @ [ev])) \<subseteq> set ?seen" "distinct (ids (out @ [ev]))" "sorted_wrt R ((out @ [ev]) @ evs)"
      using Cons.prems False by auto
    have u: "unique_events limit (ev # evs) seen out = (if limit \<le> int (length (out @ [ev])) then out @ [ev] else unique_events limit evs ?seen (out @ [ev]))"
      using False by (simp only: unique_events.simps Let_def if_False)
    show ?thesis
    proof (cases "limit \<le> int (length (out @ [ev]))")
      case True
      then show ?thesis unfolding u using g(2,3) Cons.prems(3) by (auto simp: sorted_wrt_append)
    next
      case False
      then show ?thesis unfolding u using Cons.IH [OF g(1,2) _ g(3)] by auto
    qed
  qed
qed auto

lemma sorted_wrt_sort_key: "sorted_wrt (\<lambda>a b. f a \<le> f b) (sort_key f xs)"
  using sorted_sort_key [of f xs] by (simp add: sorted_map)

text \<open>
  The merged view of several event files has at most the asked number of events, the newest first, no event identifier twice
  and only events that one of the files gave.
\<close>

theorem merged_newest_first:
  assumes "0 < limit"
  shows "let evs = fst (read_merged_jsonl_tail w fs limit k) in
    int (length evs) \<le> limit \<and> distinct (ids evs) \<and> sorted_wrt (\<lambda>a b. event_time w b \<le> event_time w a) evs
    \<and> set evs \<subseteq> set (fst (collect_recent w (min (max (limit * 3) limit) 200) fs k))"
proof -
  have "int (length (unique_events limit (sort_key (\<lambda>ev. - event_time w ev) evs) [] [])) \<le> limit
     \<and> distinct (ids (unique_events limit (sort_key (\<lambda>ev. - event_time w ev) evs) [] []))
     \<and> sorted_wrt (\<lambda>a b. event_time w b \<le> event_time w a) (unique_events limit (sort_key (\<lambda>ev. - event_time w ev) evs) [] [])
     \<and> set (unique_events limit (sort_key (\<lambda>ev. - event_time w ev) evs) [] []) \<subseteq> set evs" for evs
    using unique_events_ok [of "[]" "[]" limit "\<lambda>a b. event_time w b \<le> event_time w a" "sort_key (\<lambda>ev. - event_time w ev) evs"]
      sorted_wrt_sort_key [of "\<lambda>ev. - event_time w ev" evs] assms by (simp add: ids_def)
  then show ?thesis using assms by (auto simp: read_merged_jsonl_tail_def split_def Let_def)
qed

section \<open>A file of events\<close>

definition demo_index :: index_world where
  "demo_index = \<lparr>iw_now = day_micros, iw_mono = 5, iw_zone = 0, iw_decode = map (\<lambda>b. char_of (unat b))\<rparr>"

definition demo_events :: "string \<Rightarrow> event_file" where
  "demo_events t = \<lparr>ef_mtime = 7, ef_bytes = map (\<lambda>c. of_nat (chr_code c)) t\<rparr>"

theorem merged_newest_first_witness:
  "int (length (fst (read_merged_jsonl_tail demo_index [Some (demo_events ''{}''), None] 3 empty_cache))) \<le> 3"
  using merged_newest_first [of 3 demo_index "[Some (demo_events ''{}''), None]" empty_cache] by (simp add: Let_def)

theorem cache_answers_for_another_witness:
  "read_jsonl_tail demo_index (Some (demo_events ''[]'')) 9 (snd (scan_events_stats demo_index (Some (demo_events ''{}'')) 1 empty_cache)) =
    (es_recent (scan_file demo_index (demo_events ''{}'') 1), snd (scan_events_stats demo_index (Some (demo_events ''{}'')) 1 empty_cache))"
  by (rule cache_answers_for_another) (simp_all add: stats_cache_valid_def empty_cache_def file_key_def demo_events_def cache_ttl_def)

lemma demo_no_lines: "read_tail_lines demo_index (Some (demo_events [])) n = []"
  by (simp add: read_tail_lines_def demo_events_def)

theorem day_count_exact_witness: "es_day (scan_file demo_index (demo_events []) 3) = 0"
  using day_count_exact [of demo_index "demo_events []" 3] by (simp add: demo_no_lines stale_limit_def)

end
