(* ===== verification/Hostnet.thy ===== *)
theory Hostnet
  imports PyValue
begin

text \<open>
  The console's page of host interfaces (\<open>edge-console/network_service.py\<close>): what it derives from the rows of the
  probe, the listing, and the switch that takes an interface up or down with its guards against lockout. The two probes'
  answers (rows of the probe script, \<open>None\<close> where a row is no object) and docker's answer to the switch are
  parameters; what is run in the container is recorded. The Chinese labels are constructors.
\<close>

section \<open>Rows\<close>

record iface =
  if_name :: string
  if_operstate :: string
  if_carrier :: string
  if_speed :: string
  if_wireless :: bool
  if_device :: bool
  if_ipv4 :: string
  if_ipv6 :: "string list"
  if_default_route :: bool

definition virtual_prefixes :: "string list" where
  "virtual_prefixes = [''lo'', ''docker'', ''br-'', ''veth'', ''virbr'', ''cni'', ''flannel'', ''tap'', ''tun'', ''kube'', ''cali'', ''vxlan'']"

definition is_virtual :: "iface \<Rightarrow> bool" where
  "is_virtual r = (if_name r = ''lo'' \<or> (\<not> if_device r \<and> (\<exists>p\<in>set virtual_prefixes. starts_with p (if_name r))))"

definition routable_ipv6 :: "string list \<Rightarrow> string list" where
  "routable_ipv6 addrs = filter (\<lambda>a. \<not> starts_with ''fe80'' (lower a)) addrs"

definition link_up :: "iface \<Rightarrow> bool" where
  "link_up r = (if lower (if_operstate r) = ''up'' then True
     else if lower (if_operstate r) = ''down'' then False
     else if_carrier r = ''1'')"

datatype link_state = Up_ip | Up_no_ip | Link_down

definition derive_state :: "iface \<Rightarrow> link_state" where
  "derive_state r = (if if_ipv4 r \<noteq> [] \<or> routable_ipv6 (if_ipv6 r) \<noteq> [] then Up_ip
     else if link_up r then Up_no_ip else Link_down)"

fun state_dot :: "link_state \<Rightarrow> string" where
  "state_dot Up_ip = ''ok''"
| "state_dot Up_no_ip = ''unk''"
| "state_dot Link_down = ''bad''"

datatype block_reason = Is_virtual | Is_default_route | Is_capture

definition toggle_block_reason :: "iface \<Rightarrow> string \<Rightarrow> block_reason option" where
  "toggle_block_reason r capture = (if is_virtual r then Some Is_virtual
     else if if_default_route r then Some Is_default_route
     else if capture \<noteq> [] \<and> if_name r = capture then Some Is_capture
     else None)"

section \<open>The listing\<close>

record iface_view =
  iv_name :: string
  iv_wireless :: bool
  iv_virtual :: bool
  iv_operstate :: string
  iv_carrier :: string
  iv_link_up :: bool
  iv_default_route :: bool
  iv_ipv4 :: string
  iv_ipv6 :: "string list"
  iv_ipv6_all :: "string list"
  iv_speed :: "int option"
  iv_state :: link_state
  iv_dot :: string
  iv_can_toggle :: bool
  iv_reason :: "block_reason option"

definition speed_value :: "string \<Rightarrow> int option" where
  "speed_value s = (if s = [] \<or> s = ''-1'' then None else case parse_int s of Inl _ \<Rightarrow> None | Inr n \<Rightarrow> Some n)"

definition shape :: "string \<Rightarrow> iface \<Rightarrow> iface_view" where
  "shape capture r = \<lparr>iv_name = if_name r, iv_wireless = if_wireless r, iv_virtual = is_virtual r, iv_operstate = if_operstate r,
     iv_carrier = if_carrier r, iv_link_up = link_up r, iv_default_route = if_default_route r, iv_ipv4 = if_ipv4 r,
     iv_ipv6 = routable_ipv6 (if_ipv6 r), iv_ipv6_all = if_ipv6 r, iv_speed = speed_value (if_speed r),
     iv_state = derive_state r, iv_dot = state_dot (derive_state r), iv_can_toggle = (toggle_block_reason r capture = None), iv_reason = toggle_block_reason r capture\<rparr>"

datatype probe_source = Packet_sensor | Console_local

datatype exec_reply = Exec_fails | Exec_done int string string

record net_world =
  nw_admin :: string
  nw_capture_env :: string
  nw_remote :: "iface option list option"
  nw_local :: "iface option list option"
  nw_exec :: "string \<Rightarrow> bool \<Rightarrow> exec_reply"

definition net_admin_enabled :: "net_world \<Rightarrow> bool" where
  "net_admin_enabled w = (lower (strip (nw_admin w)) \<in> {''1'', ''true'', ''yes''})"

definition capture_interface :: "net_world \<Rightarrow> string \<Rightarrow> string" where
  "capture_interface w explicit = strip (if explicit \<noteq> [] then explicit else nw_capture_env w)"

definition gather_raw :: "net_world \<Rightarrow> iface option list option \<times> probe_source" where
  "gather_raw w = (if nw_remote w \<noteq> None then (nw_remote w, Packet_sensor) else (nw_local w, Console_local))"

definition named_rows :: "iface option list \<Rightarrow> iface list" where
  "named_rows rows = filter (\<lambda>r. if_name r \<noteq> []) (List.map_filter (\<lambda>r. r) rows)"

text \<open>Sorting by the triple is sorting by its last part first, as every sort is stable.\<close>

definition ordered_views :: "iface_view list \<Rightarrow> iface_view list" where
  "ordered_views vs = sort_key iv_virtual (sort_key (\<lambda>v. \<not> iv_wireless v) (sort_key iv_name vs))"

record net_listing =
  nl_source :: probe_source
  nl_admin :: bool
  nl_total :: nat
  nl_up_ip :: nat
  nl_up_no_ip :: nat
  nl_down :: nat
  nl_interfaces :: "iface_view list"

definition state_count :: "link_state \<Rightarrow> iface_view list \<Rightarrow> nat" where
  "state_count st vs = length (filter (\<lambda>v. iv_state v = st) vs)"

definition collect_interfaces :: "net_world \<Rightarrow> string \<Rightarrow> net_listing option" where
  "collect_interfaces w explicit = (case gather_raw w of (None, _) \<Rightarrow> None
     | (Some rows, source) \<Rightarrow>
        let vs = ordered_views (map (shape (capture_interface w explicit)) (named_rows rows)); physical = filter (\<lambda>v. \<not> iv_virtual v) vs in
        Some \<lparr>nl_source = source, nl_admin = net_admin_enabled w, nl_total = length physical, nl_up_ip = state_count Up_ip physical,
          nl_up_no_ip = state_count Up_no_ip physical, nl_down = state_count Link_down physical, nl_interfaces = vs\<rparr>)"

section \<open>The switch\<close>

text \<open>\<open>^[A-Za-z0-9][A-Za-z0-9_.@:-]{0,14}$\<close>: the dollar also matches before a last newline.\<close>

definition ifname_head :: "char \<Rightarrow> bool" where
  "ifname_head c = (let n = chr_code c in (65 \<le> n \<and> n \<le> 90) \<or> (97 \<le> n \<and> n \<le> 122) \<or> (48 \<le> n \<and> n \<le> 57))"

definition ifname_re :: "string \<Rightarrow> bool" where
  "ifname_re s = (let m = (if s \<noteq> [] \<and> last s = CHR 0x0A then butlast s else s) in
     m \<noteq> [] \<and> length m \<le> 15 \<and> ifname_head (hd m) \<and> (\<forall>c\<in>set (tl m). ifname_head c \<or> c \<in> set ''_.@:-''))"

datatype switch_reply = Net_refused nat | Switched string bool

definition exec_result :: "string \<Rightarrow> bool \<Rightarrow> exec_reply \<Rightarrow> switch_reply" where
  "exec_result name up e = (case e of Exec_fails \<Rightarrow> Net_refused 503
     | Exec_done code out err \<Rightarrow>
        if code \<noteq> 0 \<or> \<not> is_infix ''ok'' out then
          (let detail = strip (if err \<noteq> [] then err else if out \<noteq> [] then out else ''unknown'') in
           if is_infix ''RF-kill'' detail \<or> is_infix ''rfkill'' (lower detail) then Net_refused 409 else Net_refused 502)
        else Switched name up)"

definition find_row :: "string \<Rightarrow> iface option list \<Rightarrow> iface option" where
  "find_row name rows = find (\<lambda>r. if_name r = name) (List.map_filter (\<lambda>r. r) rows)"

text \<open>The answer, and what was run in the container.\<close>

definition set_interface_state :: "net_world \<Rightarrow> string \<Rightarrow> bool \<Rightarrow> string \<Rightarrow> switch_reply \<times> (string \<times> bool) list" where
  "set_interface_state w name up explicit =
     (if \<not> ifname_re name then (Net_refused 400, [])
      else if \<not> net_admin_enabled w then (Net_refused 403, [])
      else (case gather_raw w of (None, _) \<Rightarrow> (Net_refused 503, [])
        | (Some rows, source) \<Rightarrow> (case find_row name rows of None \<Rightarrow> (Net_refused 404, [])
           | Some r \<Rightarrow>
              if \<not> up \<and> toggle_block_reason r (capture_interface w explicit) \<noteq> None then (Net_refused 409, [])
              else if source \<noteq> Packet_sensor then (Net_refused 503, [])
              else (exec_result name up (nw_exec w name up), [(name, up)]))))"

section \<open>No lockout\<close>

lemma find_row_D: "find_row name rows = Some r \<Longrightarrow> if_name r = name \<and> Some r \<in> set rows"
  by (induction rows) (auto simp: find_row_def List.map_filter_def split: if_splits option.splits)

text \<open>
  The console cannot lock its operator out: whatever it is asked, it takes down no interface that carries the default
  route, none it knows to feed the capture and no virtual one, and nothing at all without the administrator's switch or on any
  other network than the host's.
\<close>

theorem no_lockout:
  assumes "(iface_name, False) \<in> set (snd (set_interface_state w name up explicit))"
  shows "iface_name = name \<and> net_admin_enabled w \<and> (\<exists>rows r. nw_remote w = Some rows \<and> Some r \<in> set rows \<and> if_name r = name
    \<and> \<not> is_virtual r \<and> \<not> if_default_route r \<and> (capture_interface w explicit = [] \<or> capture_interface w explicit \<noteq> name))"
proof -
  from assms obtain rows r where g: "gather_raw w = (Some rows, Packet_sensor)" and r: "find_row name rows = Some r"
      and n: "iface_name = name" "net_admin_enabled w" "toggle_block_reason r (capture_interface w explicit) = None"
    by (auto simp: set_interface_state_def split: if_splits option.splits prod.splits)
  have "nw_remote w = Some rows" using g by (auto simp: gather_raw_def split: if_splits)
  moreover have "\<not> is_virtual r \<and> \<not> if_default_route r \<and> (capture_interface w explicit = [] \<or> capture_interface w explicit \<noteq> if_name r)"
    using n(3) by (auto simp: toggle_block_reason_def split: if_splits)
  ultimately show ?thesis using n find_row_D [OF r] by auto
qed

lemma find_row_named: "name \<noteq> [] \<Longrightarrow> find_row name rows = find (\<lambda>r. if_name r = name) (named_rows rows)"
  by (induction rows) (auto simp: find_row_def named_rows_def List.map_filter_def)

lemma find_unique:
  assumes "distinct (map if_name rs)" "r \<in> set rs"
  shows "find (\<lambda>x. if_name x = if_name r) rs = Some r"
  using assms by (induction rs) (auto simp: image_iff)

lemma listed_views:
  "gather_raw w = (Some rows, src) \<Longrightarrow> collect_interfaces w explicit = Some l \<Longrightarrow>
    set (nl_interfaces l) = shape (capture_interface w explicit) ` set (named_rows rows)"
  by (auto simp: collect_interfaces_def ordered_views_def Let_def)

lemma listed: "gather_raw w = (Some rows, src) \<Longrightarrow> \<exists>l. collect_interfaces w explicit = Some l"
  by (simp add: collect_interfaces_def Let_def)

text \<open>
  The page and the switch agree: of the interfaces listed, exactly those shown as fixed are refused when they are to be taken
  down, before anything is run.
\<close>

theorem listing_agrees_with_switch:
  assumes l: "collect_interfaces w explicit = Some listing" and v: "v \<in> set (nl_interfaces listing)"
    and d: "\<And>rows. fst (gather_raw w) = Some rows \<Longrightarrow> distinct (map if_name (named_rows rows))"
    and a: "net_admin_enabled w" "ifname_re (iv_name v)"
  shows "iv_can_toggle v \<longleftrightarrow> set_interface_state w (iv_name v) False explicit \<noteq> (Net_refused 409, [])"
proof -
  obtain rows src where g: "gather_raw w = (Some rows, src)" using l by (auto simp: collect_interfaces_def split: prod.splits option.splits)
  obtain r where r: "r \<in> set (named_rows rows)" "v = shape (capture_interface w explicit) r" using v listed_views [OF g l] by auto
  have n: "iv_name v = if_name r" "if_name r \<noteq> []" using r by (auto simp: shape_def named_rows_def)
  have "find_row (if_name r) rows = Some r" using find_row_named [OF n(2)] find_unique [OF d r(1)] g by simp
  then show ?thesis using a g r(2) n(1)
    by (auto simp: set_interface_state_def shape_def)
qed

text \<open>
  The summary adds up: every physical interface is counted under exactly one of the three states.
\<close>

theorem summary_adds_up:
  "collect_interfaces w explicit = Some l \<Longrightarrow> nl_up_ip l + nl_up_no_ip l + nl_down l = nl_total l"
proof -
  have s: "state_count Up_ip vs + state_count Up_no_ip vs + state_count Link_down vs = length vs" for vs
  proof (induction vs)
    case (Cons v vs)
    then show ?case by (cases "iv_state v") (simp_all add: state_count_def)
  qed (simp add: state_count_def)
  assume "collect_interfaces w explicit = Some l"
  then show ?thesis using s by (auto simp: collect_interfaces_def Let_def split: prod.splits option.splits)
qed

section \<open>A host\<close>

definition demo_iface :: "string \<Rightarrow> bool \<Rightarrow> iface" where
  "demo_iface n route = \<lparr>if_name = n, if_operstate = ''up'', if_carrier = ''1'', if_speed = ''1000'', if_wireless = False, if_device = True,
     if_ipv4 = ''10.0.0.2'', if_ipv6 = [], if_default_route = route\<rparr>"

definition demo_net :: net_world where
  "demo_net = \<lparr>nw_admin = ''1'', nw_capture_env = ''eth1'', nw_remote = Some [Some (demo_iface ''eth0'' True), Some (demo_iface ''eth1'' False), Some (demo_iface ''eth2'' False)],
     nw_local = None, nw_exec = (\<lambda>n up. Exec_done 0 ''ok'' [])\<rparr>"

lemma demo_net_admin: "net_admin_enabled demo_net"
  by (simp add: net_admin_enabled_def demo_net_def) code_simp

lemma demo_capture: "capture_interface demo_net [] = ''eth1''"
  by (simp add: capture_interface_def demo_net_def) code_simp

lemma demo_switch: "set_interface_state demo_net ''eth2'' False [] = (Switched ''eth2'' False, [(''eth2'', False)])"
proof -
  have g: "gather_raw demo_net = (Some [Some (demo_iface ''eth0'' True), Some (demo_iface ''eth1'' False), Some (demo_iface ''eth2'' False)], Packet_sensor)"
    by (simp add: gather_raw_def demo_net_def)
  have b: "toggle_block_reason (demo_iface ''eth2'' False) ''eth1'' = None"
    by (simp add: toggle_block_reason_def is_virtual_def demo_iface_def)
  have e: "nw_exec demo_net ''eth2'' False = Exec_done 0 ''ok'' []" by (simp add: demo_net_def)
  have i: "ifname_re ''eth2''" by (simp add: ifname_re_def ifname_head_def chr_code_def)
  show ?thesis using b by (simp add: set_interface_state_def demo_net_admin demo_capture i g find_row_def List.map_filter_def demo_iface_def e exec_result_def)
qed

theorem no_lockout_witness: "\<exists>rows r. nw_remote demo_net = Some rows \<and> Some r \<in> set rows \<and> if_name r = ''eth2'' \<and> \<not> if_default_route r"
  using no_lockout [of "''eth2''" demo_net "''eth2''" False "[]"] by (auto simp: demo_switch)

lemma demo_listing: "\<exists>l. collect_interfaces demo_net [] = Some l \<and> shape ''eth1'' (demo_iface ''eth0'' True) \<in> set (nl_interfaces l)"
proof -
  have g: "gather_raw demo_net = (Some [Some (demo_iface ''eth0'' True), Some (demo_iface ''eth1'' False), Some (demo_iface ''eth2'' False)], Packet_sensor)"
    by (simp add: gather_raw_def demo_net_def)
  obtain l where l: "collect_interfaces demo_net [] = Some l" using listed [OF g] by blast
  have "demo_iface ''eth0'' True \<in> set (named_rows [Some (demo_iface ''eth0'' True), Some (demo_iface ''eth1'' False), Some (demo_iface ''eth2'' False)])"
    by (simp add: named_rows_def List.map_filter_def demo_iface_def)
  then show ?thesis using l listed_views [OF g l] by (auto simp: demo_capture)
qed

theorem listing_agrees_with_switch_witness: "set_interface_state demo_net ''eth0'' False [] = (Net_refused 409, [])"
proof -
  obtain l where l: "collect_interfaces demo_net [] = Some l" "shape ''eth1'' (demo_iface ''eth0'' True) \<in> set (nl_interfaces l)"
    using demo_listing by blast
  have d: "fst (gather_raw demo_net) = Some rows \<Longrightarrow> distinct (map if_name (named_rows rows))" for rows
    by (auto simp: gather_raw_def demo_net_def named_rows_def List.map_filter_def demo_iface_def)
  have n: "iv_name (shape ''eth1'' (demo_iface ''eth0'' True)) = ''eth0''" "\<not> iv_can_toggle (shape ''eth1'' (demo_iface ''eth0'' True))"
    by (simp_all add: shape_def demo_iface_def toggle_block_reason_def)
  have i: "ifname_re (iv_name (shape ''eth1'' (demo_iface ''eth0'' True)))" by (simp add: n ifname_re_def ifname_head_def chr_code_def)
  show ?thesis using listing_agrees_with_switch [OF l d demo_net_admin i] n by simp
qed

theorem summary_adds_up_witness: "\<exists>l. collect_interfaces demo_net [] = Some l \<and> nl_up_ip l + nl_up_no_ip l + nl_down l = nl_total l"
  using demo_listing summary_adds_up by blast

end
