(* ===== verification/Wifi.thy ===== *)
theory Wifi
  imports Jsontext
begin

text \<open>
  Wi-Fi on the console (\<open>edge-console/wifi_service.py\<close>): reading nmcli's terse output, remembered and pinned networks with
  their priorities, scanning, connecting and choosing the uplink. NetworkManager is a parameter: a state of any type
  and what a call of nmcli answers and does to it. The calls made are recorded in order. The page \<open>status\<close>, which
  only puts these answers together, is left out; replies keep their status number and drop their Chinese text.
\<close>

section \<open>Calls of nmcli\<close>

datatype nm_reply = Nm_raises | Nm_exit int string string

record 'n wifi =
  wf_nm :: 'n
  wf_log :: "string list list"
  wf_pins :: jfile

record 'n wifi_world =
  wi_admin :: string
  wi_present :: bool
  wi_run :: "string list \<Rightarrow> 'n \<Rightarrow> nm_reply \<times> 'n"
  wi_writable :: bool

definition wifi_admin_enabled :: "'n wifi_world \<Rightarrow> bool" where
  "wifi_admin_enabled w = (lower (strip (wi_admin w)) \<in> {''1'', ''true'', ''yes''})"

definition wifi_enabled :: "'n wifi_world \<Rightarrow> bool" where
  "wifi_enabled w = (wifi_admin_enabled w \<and> wi_present w)"

definition nmcli :: "'n wifi_world \<Rightarrow> string list \<Rightarrow> 'n wifi \<Rightarrow> nm_reply \<times> 'n wifi" where
  "nmcli w args s = (case wi_run w args (wf_nm s) of (r, n) \<Rightarrow> (r, s\<lparr>wf_nm := n, wf_log := wf_log s @ [args]\<rparr>))"

definition nm_ok :: "nm_reply \<Rightarrow> bool" where
  "nm_ok r = (case r of Nm_exit c _ _ \<Rightarrow> c = 0 | Nm_raises \<Rightarrow> False)"

text \<open>The lines of a successful call; a call that fails has none.\<close>

definition nm_lines :: "nm_reply \<Rightarrow> string list" where
  "nm_lines r = (case r of Nm_exit c out _ \<Rightarrow> if c = 0 then text_lines out else [] | Nm_raises \<Rightarrow> [])"

fun split_terse_from :: "string \<Rightarrow> bool \<Rightarrow> string \<Rightarrow> string list" where
  "split_terse_from cur esc [] = [cur]"
| "split_terse_from cur esc (c # cs) =
     (if esc then split_terse_from (cur @ [c]) False cs
      else if c = CHR 0x5C then split_terse_from cur True cs
      else if c = CHR '':'' then cur # split_terse_from [] False cs
      else split_terse_from (cur @ [c]) False cs)"

definition split_terse :: "string \<Rightarrow> string list" where
  "split_terse line = split_terse_from [] False line"

section \<open>Devices\<close>

record wifi_dev =
  wd_device :: string
  wd_state :: string
  wd_connection :: string

definition device_of_line :: "string \<Rightarrow> wifi_dev option" where
  "device_of_line line = (let f = split_terse line in
     if 4 \<le> length f \<and> f ! 1 = ''wifi'' then Some \<lparr>wd_device = f ! 0, wd_state = f ! 2, wd_connection = f ! 3\<rparr> else None)"

definition wifi_devices :: "'n wifi_world \<Rightarrow> 'n wifi \<Rightarrow> wifi_dev list \<times> 'n wifi" where
  "wifi_devices w s = apfst (\<lambda>r. List.map_filter device_of_line (nm_lines r))
     (nmcli w [''-t'', ''-f'', ''DEVICE,TYPE,STATE,CONNECTION'', ''dev'', ''status''] s)"

definition device_connected :: "wifi_dev \<Rightarrow> bool" where
  "device_connected d = (starts_with ''connected'' (wd_state d) \<and> wd_connection d \<notin> {[], ''--''})"

definition active_connection_for :: "'n wifi_world \<Rightarrow> string \<Rightarrow> 'n wifi \<Rightarrow> string option \<times> 'n wifi" where
  "active_connection_for w device s = apfst (\<lambda>r. map_option hd (find (\<lambda>f. 2 \<le> length f \<and> f ! 1 = device) (map split_terse (nm_lines r))))
     (nmcli w [''-t'', ''-f'', ''NAME,DEVICE'', ''connection'', ''show'', ''--active''] s)"

definition connection_never_default :: "'n wifi_world \<Rightarrow> string \<Rightarrow> 'n wifi \<Rightarrow> bool \<times> 'n wifi" where
  "connection_never_default w conn s = apfst (\<lambda>r. case r of
       Nm_exit c out _ \<Rightarrow> c = 0 \<and> lower (strip (last (split_terse (strip out)))) = ''yes'' | Nm_raises \<Rightarrow> False)
     (nmcli w [''-t'', ''-f'', ''ipv4.never-default'', ''connection'', ''show'', conn] s)"

definition set_device_never_default :: "'n wifi_world \<Rightarrow> string \<Rightarrow> bool \<Rightarrow> 'n wifi \<Rightarrow> bool \<times> 'n wifi" where
  "set_device_never_default w device never s = (case active_connection_for w device s of
       (None, s) \<Rightarrow> (False, s)
     | (Some conn, s) \<Rightarrow>
         if conn = [] then (False, s)
         else let val = (if never then ''yes'' else ''no'') in
           (case nmcli w [''connection'', ''modify'', conn, ''ipv4.never-default'', val, ''ipv6.never-default'', val] s of (r, s) \<Rightarrow>
             if \<not> nm_ok r then (False, s)
             else (case nmcli w [''connection'', ''up'', conn] s of (r, s) \<Rightarrow> (r \<noteq> Nm_raises, s))))"

fun other_primary :: "'n wifi_world \<Rightarrow> string \<Rightarrow> wifi_dev list \<Rightarrow> 'n wifi \<Rightarrow> bool \<times> 'n wifi" where
  "other_primary w exclude [] s = (False, s)"
| "other_primary w exclude (d # ds) s =
     (if wd_device d = exclude \<or> \<not> device_connected d then other_primary w exclude ds s
      else (case active_connection_for w (wd_device d) s of
          (None, s) \<Rightarrow> other_primary w exclude ds s
        | (Some conn, s) \<Rightarrow>
            if conn = [] then other_primary w exclude ds s
            else (case connection_never_default w conn s of
                (True, s) \<Rightarrow> other_primary w exclude ds s | (False, s) \<Rightarrow> (True, s))))"

definition has_other_primary :: "'n wifi_world \<Rightarrow> string \<Rightarrow> 'n wifi \<Rightarrow> bool \<times> 'n wifi" where
  "has_other_primary w exclude s = (case wifi_devices w s of (ds, s) \<Rightarrow> other_primary w exclude ds s)"

section \<open>Remembered networks\<close>

record saved_wifi =
  sw_name :: string
  sw_uuid :: string
  sw_time :: int

definition saved_of_line :: "string \<Rightarrow> saved_wifi option" where
  "saved_of_line line = (let f = split_terse line in
     if 4 \<le> length f \<and> f ! 2 = ''802-11-wireless'' then
       Some \<lparr>sw_name = f ! 0, sw_uuid = f ! 1, sw_time = (case parse_int (f ! 3) of Inr n \<Rightarrow> n | Inl _ \<Rightarrow> 0)\<rparr> else None)"

definition show_saved :: "string list" where
  "show_saved = [''-t'', ''-f'', ''NAME,UUID,TYPE,TIMESTAMP'', ''connection'', ''show'']"

definition saved_wifi_connections :: "'n wifi_world \<Rightarrow> 'n wifi \<Rightarrow> saved_wifi list \<times> 'n wifi" where
  "saved_wifi_connections w s = apfst (\<lambda>r. List.map_filter saved_of_line (nm_lines r)) (nmcli w show_saved s)"

definition load_pinned :: "jfile \<Rightarrow> string list" where
  "load_pinned f = (case f of Doc d \<Rightarrow>
       List.map_filter (\<lambda>x. case x of JStr t \<Rightarrow> if t \<noteq> [] then Some t else None | _ \<Rightarrow> None)
         (list_items (if is_obj d then jget d ''order'' else d))
     | _ \<Rightarrow> [])"

definition save_pinned :: "'n wifi_world \<Rightarrow> string list \<Rightarrow> 'n wifi \<Rightarrow> 'n wifi" where
  "save_pinned w order s = (if wi_writable w then s\<lparr>wf_pins := Doc (JObj [(''order'', JList (map JStr order))])\<rparr> else s)"

definition history_keep :: int where "history_keep = 3"
definition priority_base :: int where "priority_base = 100"
definition pinned_base :: int where "pinned_base = 200"
definition pinned_max :: nat where "pinned_max = 10"

definition promote_call :: "int \<Rightarrow> string \<Rightarrow> string list" where
  "promote_call prio uuid = [''connection'', ''modify'', uuid, ''connection.autoconnect'', ''yes'', ''connection.autoconnect-priority'', dec_int prio]"

definition demote_call :: "string \<Rightarrow> string list" where
  "demote_call uuid = [''connection'', ''modify'', uuid, ''connection.autoconnect-priority'', ''0'']"

definition delete_call :: "string \<Rightarrow> string list" where
  "delete_call uuid = [''connection'', ''delete'', ''uuid'', uuid]"

fun call_all :: "'n wifi_world \<Rightarrow> string list list \<Rightarrow> 'n wifi \<Rightarrow> 'n wifi" where
  "call_all w [] s = s"
| "call_all w (c # cs) s = call_all w cs (snd (nmcli w c s))"

text \<open>Falling priorities from a base, in the order of the list.\<close>

fun promote_calls :: "int \<Rightarrow> string list \<Rightarrow> string list list" where
  "promote_calls prio [] = []"
| "promote_calls prio (u # us) = promote_call prio u # promote_calls (prio - 1) us"

fun delete_all :: "'n wifi_world \<Rightarrow> saved_wifi list \<Rightarrow> 'n wifi \<Rightarrow> string list \<times> 'n wifi" where
  "delete_all w [] s = ([], s)"
| "delete_all w (c # cs) s = (case nmcli w (delete_call (sw_uuid c)) s of (r, s) \<Rightarrow>
     (case delete_all w cs s of (names, s) \<Rightarrow> (if nm_ok r then sw_name c # names else names, s)))"

record pruned =
  pn_kept :: "string list"
  pn_deleted :: "string list"
  pn_pinned :: "string list"

definition by_recency :: "string \<Rightarrow> saved_wifi list \<Rightarrow> saved_wifi list" where
  "by_recency active cs = sort_key (\<lambda>c. sw_name c \<noteq> active) (sort_key (\<lambda>c. - sw_time c) cs)"

definition prunable :: "string list \<Rightarrow> saved_wifi list \<Rightarrow> saved_wifi list" where
  "prunable pins conns = filter (\<lambda>c. sw_name c \<notin> set pins) conns"

definition promote_and_prune_wifi :: "'n wifi_world \<Rightarrow> string \<Rightarrow> int \<Rightarrow> 'n wifi \<Rightarrow> pruned \<times> 'n wifi" where
  "promote_and_prune_wifi w active keep s =
     (if keep \<le> 0 then (\<lparr>pn_kept = [], pn_deleted = [], pn_pinned = []\<rparr>, s)
      else (case saved_wifi_connections w s of (conns, s) \<Rightarrow>
        if conns = [] then (\<lparr>pn_kept = [], pn_deleted = [], pn_pinned = []\<rparr>, s)
        else let pins = load_pinned (wf_pins s); order = by_recency active (prunable pins conns);
                 kept = take (nat keep) order;
                 s = call_all w (promote_calls priority_base (map sw_uuid kept)) s in
          (case delete_all w (drop (nat keep) order) s of (deleted, s) \<Rightarrow>
            (\<lparr>pn_kept = map sw_name kept, pn_deleted = deleted,
               pn_pinned = map sw_name (filter (\<lambda>c. sw_name c \<in> set pins) conns)\<rparr>, s))))"

text \<open>\<open>{c["name"]: c for c in saved}\<close>\<close>

definition by_name :: "saved_wifi list \<Rightarrow> (string, saved_wifi) dict" where
  "by_name cs = fold (\<lambda>c. dict_put (sw_name c) c) cs []"

record pinned_row =
  pr_ssid :: string
  pr_order :: nat
  pr_time :: "int option"

definition time_or_none :: "int \<Rightarrow> int option" where
  "time_or_none t = (if t = 0 then None else Some t)"

definition pinned_networks :: "'n wifi_world \<Rightarrow> 'n wifi \<Rightarrow> pinned_row list \<times> 'n wifi" where
  "pinned_networks w s = (case saved_wifi_connections w s of (conns, s) \<Rightarrow>
     (List.map_filter (\<lambda>(i, ssid). map_option (\<lambda>c. \<lparr>pr_ssid = ssid, pr_order = Suc i, pr_time = time_or_none (sw_time c)\<rparr>) (dict_get (by_name conns) ssid))
       (enumerate 0 (load_pinned (wf_pins s))), s))"

definition wifi_ctrl :: "string \<Rightarrow> bool" where
  "wifi_ctrl t = (\<exists>c\<in>set t. chr_code c < 32 \<or> chr_code c = 127)"

definition clean_ssid :: "json \<Rightarrow> string option" where
  "clean_ssid v = (case v of JStr t \<Rightarrow> let u = strip t in if u = [] \<or> 64 < length u \<or> wifi_ctrl u then None else Some u | _ \<Rightarrow> None)"

datatype wifi_reply = Wifi_refused nat | Pinned "pinned_row list" | Radio bool | Wifi_connected string pruned
  | Uplink string | Wifi_gone string

definition set_wifi_priority :: "'n wifi_world \<Rightarrow> json \<Rightarrow> 'n wifi \<Rightarrow> wifi_reply \<times> 'n wifi" where
  "set_wifi_priority w order s =
     (if \<not> wifi_enabled w then (Wifi_refused 403, s)
      else if \<not> is_list order then (Wifi_refused 400, s)
      else let cleaned = dedup (List.map_filter clean_ssid (list_items order)) in
        if pinned_max < length cleaned then (Wifi_refused 400, s)
        else (case saved_wifi_connections w s of (conns, s) \<Rightarrow>
          let saved = by_name conns; new_order = filter (\<lambda>n. dict_get saved n \<noteq> None) cleaned;
              uuid = (\<lambda>n. sw_uuid (the (dict_get saved n)));
              unpinned = filter (\<lambda>n. n \<notin> set new_order \<and> dict_get saved n \<noteq> None) (load_pinned (wf_pins s));
              s = call_all w (promote_calls pinned_base (map uuid new_order)) s;
              s = call_all w (map (\<lambda>n. demote_call (uuid n)) unpinned) s;
              s = save_pinned w new_order s in
          (case pinned_networks w s of (rows, s) \<Rightarrow> (Pinned rows, s))))"

record known_row =
  kn_ssid :: string
  kn_order :: nat
  kn_time :: "int option"
  kn_never :: bool
  kn_pinned :: bool

definition known_networks :: "'n wifi_world \<Rightarrow> nat option \<Rightarrow> 'n wifi \<Rightarrow> known_row list \<times> 'n wifi" where
  "known_networks w keep s = (case saved_wifi_connections w s of (conns, s1) \<Rightarrow>
     let rows = sort_key (\<lambda>c. - sw_time c) conns; rows = (case keep of None \<Rightarrow> rows | Some k \<Rightarrow> take k rows) in
     (map (\<lambda>(i, c). \<lparr>kn_ssid = sw_name c, kn_order = Suc i, kn_time = time_or_none (sw_time c), kn_never = (sw_time c = 0),
        kn_pinned = (sw_name c \<in> set (load_pinned (wf_pins s)))\<rparr>) (enumerate 0 rows), s1))"

section \<open>Radio and scanning\<close>

definition radio_on :: "'n wifi_world \<Rightarrow> 'n wifi \<Rightarrow> bool option \<times> 'n wifi" where
  "radio_on w s = apfst (\<lambda>r. case r of Nm_exit c out _ \<Rightarrow> if c = 0 then Some (lower (strip out) = ''enabled'') else None | Nm_raises \<Rightarrow> None)
     (nmcli w [''radio'', ''wifi''] s)"

definition call_reply :: "nat \<Rightarrow> wifi_reply \<Rightarrow> nm_reply \<Rightarrow> wifi_reply" where
  "call_reply raised done_reply r = (case r of Nm_raises \<Rightarrow> Wifi_refused raised | Nm_exit c _ _ \<Rightarrow> if c = 0 then done_reply else Wifi_refused 502)"

definition set_radio :: "'n wifi_world \<Rightarrow> bool \<Rightarrow> 'n wifi \<Rightarrow> wifi_reply \<times> 'n wifi" where
  "set_radio w on s = (if \<not> wifi_enabled w then (Wifi_refused 403, s)
     else apfst (call_reply 503 (Radio on)) (nmcli w [''radio'', ''wifi'', if on then ''on'' else ''off''] s))"

record scan_row =
  sn_ssid :: string
  sn_signal :: int
  sn_security :: string
  sn_freq :: "nat option"
  sn_band :: string
  sn_in_use :: bool

definition leading_nat :: "string \<Rightarrow> nat" where
  "leading_nat t = (let d = takeWhile is_digit (lstrip t) in if d = [] then 0 else dec_val d)"

definition scan_row_of :: "string list \<Rightarrow> scan_row" where
  "scan_row_of f = (let mhz = leading_nat (f ! 4) in
     \<lparr>sn_ssid = f ! 1, sn_signal = (case parse_int (f ! 2) of Inr n \<Rightarrow> n | Inl _ \<Rightarrow> 0),
       sn_security = (if strip (f ! 3) = [] then ''open'' else strip (f ! 3)), sn_freq = (if mhz = 0 then None else Some mhz),
       sn_band = (if 4000 \<le> mhz then ''5G'' else ''2.4G''), sn_in_use = (strip (f ! 0) = ''*'')\<rparr>)"

text \<open>Of the rows of one network the stronger replaces the weaker, and one in use replaces any.\<close>

definition keep_best :: "scan_row \<Rightarrow> (string, scan_row) dict \<Rightarrow> (string, scan_row) dict" where
  "keep_best row best = (case dict_get best (sn_ssid row) of None \<Rightarrow> dict_put (sn_ssid row) row best
     | Some prev \<Rightarrow> if sn_signal prev < sn_signal row \<or> sn_in_use row then dict_put (sn_ssid row) row best else best)"

definition scan_rows :: "string list \<Rightarrow> scan_row list" where
  "scan_rows lines = map scan_row_of (filter (\<lambda>f. 5 \<le> length f \<and> f ! 1 \<noteq> []) (map split_terse lines))"

definition shown_rows :: "scan_row list \<Rightarrow> scan_row list" where
  "shown_rows rows = sort_key (\<lambda>r. \<not> sn_in_use r) (sort_key (\<lambda>r. - sn_signal r) (map snd (fold keep_best rows [])))"

definition scan_networks :: "'n wifi_world \<Rightarrow> bool \<Rightarrow> string \<Rightarrow> 'n wifi \<Rightarrow> scan_row list \<times> 'n wifi" where
  "scan_networks w rescan face s = apfst (\<lambda>r. shown_rows (scan_rows (nm_lines r)))
     (nmcli w ([''-t'', ''-f'', ''IN-USE,SSID,SIGNAL,SECURITY,FREQ'', ''dev'', ''wifi'', ''list''] @
        (if face = [] then [] else [''ifname'', face]) @ (if rescan then [''--rescan'', ''yes''] else [])) s)"

section \<open>Connecting\<close>

definition bad_ssid :: "string \<Rightarrow> bool" where
  "bad_ssid ssid = (strip ssid = [] \<or> 64 < length ssid \<or> wifi_ctrl ssid)"

text \<open>\<open>^[A-Za-z0-9][A-Za-z0-9_.@:-]{0,14}$\<close>\<close>

definition wifi_alnum :: "char \<Rightarrow> bool" where
  "wifi_alnum c = (let n = chr_code c in (65 \<le> n \<and> n \<le> 90) \<or> (97 \<le> n \<and> n \<le> 122) \<or> (48 \<le> n \<and> n \<le> 57))"

definition wifi_face :: "string \<Rightarrow> bool" where
  "wifi_face t = (let m = (if t \<noteq> [] \<and> last t = CHR 0x0A then butlast t else t) in
     m \<noteq> [] \<and> length m \<le> 15 \<and> wifi_alnum (hd m) \<and> (\<forall>c\<in>set (tl m). wifi_alnum c \<or> c \<in> set ''_.@:-''))"

definition settle_uplink :: "'n wifi_world \<Rightarrow> string option \<Rightarrow> 'n wifi \<Rightarrow> 'n wifi" where
  "settle_uplink w face s = (case face of None \<Rightarrow> s
     | Some f \<Rightarrow> if f = [] then s else (case has_other_primary w f s of (other, s) \<Rightarrow> snd (set_device_never_default w f other s)))"

definition join_network :: "'n wifi_world \<Rightarrow> string \<Rightarrow> string option \<Rightarrow> string option \<Rightarrow> 'n wifi \<Rightarrow> wifi_reply \<times> 'n wifi" where
  "join_network w ssid password face s =
     (case nmcli w ([''dev'', ''wifi'', ''connect'', ssid] @
          (case password of Some p \<Rightarrow> if p = [] then [] else [''password'', p] | None \<Rightarrow> []) @
          (case face of Some f \<Rightarrow> if f = [] then [] else [''ifname'', f] | None \<Rightarrow> [])) s of (r, s) \<Rightarrow>
        if r = Nm_raises then (Wifi_refused 504, s)
        else if \<not> nm_ok r then (Wifi_refused 502, s)
        else (case promote_and_prune_wifi w ssid history_keep (settle_uplink w face s) of (h, s) \<Rightarrow> (Wifi_connected ssid h, s)))"

definition connect_wifi :: "'n wifi_world \<Rightarrow> string \<Rightarrow> string option \<Rightarrow> string option \<Rightarrow> 'n wifi \<Rightarrow> wifi_reply \<times> 'n wifi" where
  "connect_wifi w ssid password face s =
     (if \<not> wifi_enabled w then (Wifi_refused 403, s)
      else if bad_ssid ssid then (Wifi_refused 400, s)
      else if (case password of Some p \<Rightarrow> 128 < length p \<or> wifi_ctrl p | None \<Rightarrow> False) then (Wifi_refused 400, s)
      else if (case face of Some f \<Rightarrow> \<not> wifi_face f | None \<Rightarrow> False) then (Wifi_refused 400, s)
      else (case radio_on w s of (on, s) \<Rightarrow>
        if on = Some False then
          (case set_radio w True s of
             (Radio b, s) \<Rightarrow> join_network w ssid password face s
           | (r, s) \<Rightarrow> (r, s))
        else join_network w ssid password face s))"

fun demote_others :: "'n wifi_world \<Rightarrow> string \<Rightarrow> wifi_dev list \<Rightarrow> 'n wifi \<Rightarrow> 'n wifi" where
  "demote_others w face [] s = s"
| "demote_others w face (d # ds) s =
     (if wd_device d = face \<or> \<not> device_connected d then demote_others w face ds s
      else demote_others w face ds (snd (set_device_never_default w (wd_device d) True s)))"

definition set_primary :: "'n wifi_world \<Rightarrow> string \<Rightarrow> 'n wifi \<Rightarrow> wifi_reply \<times> 'n wifi" where
  "set_primary w face s =
     (if \<not> wifi_enabled w then (Wifi_refused 403, s)
      else if face = [] \<or> \<not> wifi_face face then (Wifi_refused 400, s)
      else (case wifi_devices w s of (ds, s) \<Rightarrow>
        (case find (\<lambda>d. wd_device d = face) ds of None \<Rightarrow> (Wifi_refused 404, s)
         | Some d \<Rightarrow>
            if \<not> device_connected d then (Wifi_refused 409, s)
            else (case set_device_never_default w face False s of
                (False, s) \<Rightarrow> (Wifi_refused 502, s)
              | (True, s) \<Rightarrow> (Uplink face, demote_others w face ds s)))))"

definition disconnect_wifi :: "'n wifi_world \<Rightarrow> string \<Rightarrow> 'n wifi \<Rightarrow> wifi_reply \<times> 'n wifi" where
  "disconnect_wifi w face s =
     (if \<not> wifi_enabled w then (Wifi_refused 403, s)
      else (case (if face = [] then apfst (\<lambda>ds. case ds of [] \<Rightarrow> [] | d # _ \<Rightarrow> wd_device d) (wifi_devices w s) else (face, s)) of (dev, s) \<Rightarrow>
        if dev = [] \<or> \<not> wifi_face dev then (Wifi_refused 400, s)
        else apfst (call_reply 503 (Wifi_gone dev)) (nmcli w [''dev'', ''disconnect'', dev] s)))"

section \<open>Reading what nmcli escapes\<close>

definition terse_escape :: "string \<Rightarrow> string" where
  "terse_escape t = concat (map (\<lambda>c. if c = CHR '':'' \<or> c = CHR 0x5C then [CHR 0x5C, c] else [c]) t)"

lemma terse_escape_simps [simp]: "terse_escape [] = []"
  "terse_escape (c # t) = (if c = CHR '':'' \<or> c = CHR 0x5C then [CHR 0x5C, c] else [c]) @ terse_escape t"
  by (simp_all add: terse_escape_def)

lemma split_terse_field: "split_terse_from cur False (terse_escape t @ rest) = split_terse_from (cur @ t) False rest"
  by (induction t arbitrary: cur) auto

text \<open>
  Whatever the names of networks hold, colons and backslashes included, the fields nmcli escapes and joins are the fields the
  console reads.
\<close>

theorem terse_fields_read_back:
  "fs \<noteq> [] \<Longrightarrow> split_terse (join_with '':'' (map terse_escape fs)) = fs"
proof -
  have "fs \<noteq> [] \<Longrightarrow> split_terse_from [] False (join_with '':'' (map terse_escape fs)) = fs"
  proof (induction fs)
    case (Cons f fs)
    show ?case
    proof (cases fs)
      case Nil
      then show ?thesis using split_terse_field [of "[]" f "[]"] by simp
    next
      case (Cons g gs)
      then have "join_with '':'' (map terse_escape (f # fs)) = terse_escape f @ CHR '':'' # join_with '':'' (map terse_escape fs)" by simp
      then show ?thesis using Cons.IH Cons split_terse_field [of "[]" f] by simp
    qed
  qed simp
  then show "fs \<noteq> [] \<Longrightarrow> ?thesis" by (simp add: split_terse_def)
qed

section \<open>What is pruned\<close>

lemma nmcli_log [simp]: "wf_log (snd (nmcli w args s)) = wf_log s @ [args]" "wf_pins (snd (nmcli w args s)) = wf_pins s"
  by (simp_all add: nmcli_def split_def)

lemma call_all_log [simp]: "wf_log (call_all w cs s) = wf_log s @ cs" "wf_pins (call_all w cs s) = wf_pins s"
  by (induction cs arbitrary: s) simp_all

lemma delete_all_log: "wf_log (snd (delete_all w cs s)) = wf_log s @ map (\<lambda>c. delete_call (sw_uuid c)) cs"
  and delete_all_names: "set (fst (delete_all w cs s)) \<subseteq> sw_name ` set cs"
  by (induction cs arbitrary: s) (auto simp: split_def)

text \<open>The calls that connecting makes once it knows the remembered networks.\<close>

definition prune_calls :: "string \<Rightarrow> int \<Rightarrow> string list \<Rightarrow> saved_wifi list \<Rightarrow> string list list" where
  "prune_calls active keep pins conns = (let order = by_recency active (prunable pins conns) in
     promote_calls priority_base (map sw_uuid (take (nat keep) order)) @ map (\<lambda>c. delete_call (sw_uuid c)) (drop (nat keep) order))"

lemma saved_connections_state: "snd (saved_wifi_connections w s) = snd (nmcli w show_saved s)"
  by (simp add: saved_wifi_connections_def)

lemma promote_log:
  assumes "0 < keep"
  shows "wf_log (snd (promote_and_prune_wifi w active keep s)) = wf_log s @ [show_saved] @
    prune_calls active keep (load_pinned (wf_pins s)) (fst (saved_wifi_connections w s))"
proof (cases "fst (saved_wifi_connections w s) = []")
  case True
  then show ?thesis using assms
    by (simp add: promote_and_prune_wifi_def split_def saved_connections_state prune_calls_def by_recency_def prunable_def)
next
  case False
  then show ?thesis using assms
    by (simp add: promote_and_prune_wifi_def split_def Let_def saved_connections_state prune_calls_def delete_all_log)
qed

lemma promote_call_no_delete: "delete_call u \<notin> set (promote_calls p us)"
  by (induction us arbitrary: p) (simp_all add: delete_call_def promote_call_def)

lemma by_recency_active:
  assumes "distinct (map sw_name cs)" "c \<in> set cs" "sw_name c = active"
  shows "\<exists>rest. by_recency active cs = c # rest"
proof -
  let ?xs = "sort_key (\<lambda>c. - sw_time c) cs"
  have d: "distinct (map sw_name ?xs)" "c \<in> set ?xs"
    using assms by (simp_all add: distinct_map) 
  have s: "sorted (map (\<lambda>c. sw_name c \<noteq> active) (by_recency active cs))" by (simp add: by_recency_def)
  have m: "c \<in> set (by_recency active cs)" "distinct (map sw_name (by_recency active cs))"
    using assms by (auto simp: by_recency_def distinct_map)
  then obtain e rest where e: "by_recency active cs = e # rest" by (cases "by_recency active cs") auto
  have "\<not> (sw_name e \<noteq> active)"
  proof
    assume n: "sw_name e \<noteq> active"
    then have "c \<in> set rest" using m(1) e assms(3) by auto
    then show False using s e n assms(3) by fastforce
  qed
  then have "e = c" using m e assms(3) by (auto simp: image_iff)
  then show ?thesis using e by simp
qed

text \<open>
  Remembering a network never forgets one the operator relies on: of the saved networks only those are deleted that are
  neither pinned nor the one just joined, and never so many that fewer than the number to keep are left.
\<close>

theorem pruning_spares:
  assumes k: "0 < keep" and d: "distinct (map sw_name conns)" and c: "conns = fst (saved_wifi_connections w s)"
    and x: "delete_call u \<in> set (drop (length (wf_log s)) (wf_log (snd (promote_and_prune_wifi w active keep s))))"
  shows "(\<exists>e\<in>set conns. sw_uuid e = u \<and> sw_name e \<notin> set (load_pinned (wf_pins s)) \<and> sw_name e \<noteq> active)
    \<and> nat keep < length (prunable (load_pinned (wf_pins s)) conns)"
proof -
  let ?order = "by_recency active (prunable (load_pinned (wf_pins s)) conns)"
  have "delete_call u \<in> set (map (\<lambda>c. delete_call (sw_uuid c)) (drop (nat keep) ?order))"
    using x promote_log [OF k, of w active s] promote_call_no_delete c
    by (auto simp: prune_calls_def Let_def show_saved_def delete_call_def)
  then obtain e where e: "e \<in> set (drop (nat keep) ?order)" "sw_uuid e = u" by (auto simp: delete_call_def)
  have p: "e \<in> set (prunable (load_pinned (wf_pins s)) conns)"
    using in_set_dropD [OF e(1)] by (simp add: by_recency_def)
  have n: "sw_name e \<noteq> active"
  proof
    assume a: "sw_name e = active"
    have "distinct (map sw_name (prunable (load_pinned (wf_pins s)) conns))"
      using d by (simp add: prunable_def distinct_map_filter)
    from by_recency_active [OF this p a] obtain rest where r: "?order = e # rest" by blast
    have "distinct (map sw_name ?order)" using d by (simp add: by_recency_def prunable_def distinct_map) (auto simp: inj_on_def)
    then have "e \<notin> set rest" using r by auto
    moreover have "e \<in> set rest" using e(1) r k by (cases "nat keep") (auto dest: in_set_dropD)
    ultimately show False by simp
  qed
  have "nat keep < length ?order" using e(1) by (cases "nat keep < length ?order") auto
  then have "nat keep < length (prunable (load_pinned (wf_pins s)) conns)" by (simp add: by_recency_def)
  then show ?thesis using p n e(2) by (auto simp: prunable_def)
qed

section \<open>What a scan shows\<close>

lemma keep_best_keys: "dict_wf best \<Longrightarrow> \<forall>p\<in>set best. sn_ssid (snd p) = fst p \<Longrightarrow>
    dict_wf (fold keep_best rows best) \<and> (\<forall>p\<in>set (fold keep_best rows best). sn_ssid (snd p) = fst p)
    \<and> set (dict_keys (fold keep_best rows best)) = sn_ssid ` set rows \<union> set (dict_keys best)"
proof (induction rows arbitrary: best)
  case (Cons r rows)
  have put: "\<forall>p\<in>set (dict_put (sn_ssid r) r best). sn_ssid (snd p) = fst p"
    by (rule dict_put_Ball [OF Cons.prems(2)]) simp
  have k: "keep_best r best = best \<or> keep_best r best = dict_put (sn_ssid r) r best"
    by (simp add: keep_best_def split: option.split)
  have s: "dict_wf (keep_best r best)" "\<forall>p\<in>set (keep_best r best). sn_ssid (snd p) = fst p"
    using k put Cons.prems by (metis dict_wf_put, metis)
  have "set (dict_keys (keep_best r best)) = insert (sn_ssid r) (set (dict_keys best))"
    by (auto simp: keep_best_def split: option.splits dest: dict_get_in_keys)
  then show ?case using Cons.IH [OF s] by auto
qed simp

text \<open>
  A scan shows every visible network once, whatever number of access points it has, those in use first.
\<close>

theorem scan_shows_each_once:
  "distinct (map sn_ssid (shown_rows rows)) \<and> sn_ssid ` set (shown_rows rows) = sn_ssid ` set rows
    \<and> sorted (map (\<lambda>r. \<not> sn_in_use r) (shown_rows rows))"
proof -
  let ?best = "fold keep_best rows []"
  have b: "dict_wf ?best" "\<forall>p\<in>set ?best. sn_ssid (snd p) = fst p" "set (dict_keys ?best) = sn_ssid ` set rows"
    using keep_best_keys [of "[]" rows] by auto
  have m: "map sn_ssid (map snd ?best) = dict_keys ?best" using b(2) by (simp add: dict_keys_def)
  then have "distinct (map sn_ssid (map snd ?best))" using b(1) by (simp add: dict_wf_def)
  moreover have "distinct (map f (sort_key k ys)) = distinct (map f ys)" for f :: "scan_row \<Rightarrow> string" and k :: "scan_row \<Rightarrow> int" and ys
    by (simp add: distinct_map)
  moreover have "distinct (map f (sort_key k ys)) = distinct (map f ys)" for f :: "scan_row \<Rightarrow> string" and k :: "scan_row \<Rightarrow> bool" and ys
    by (simp add: distinct_map)
  ultimately have "distinct (map sn_ssid (shown_rows rows))" unfolding shown_rows_def by metis
  moreover have "sn_ssid ` set (shown_rows rows) = set (dict_keys ?best)"
    unfolding m [symmetric] by (simp add: shown_rows_def image_image)
  ultimately show ?thesis using b(3) by (simp add: shown_rows_def)
qed

text \<open>
  But the mark of the network in use is lost when a stronger access point of the same network comes after the one in use.
\<close>

lemma scan_loses_in_use:
  assumes "sn_ssid a = sn_ssid b" "sn_in_use a" "\<not> sn_in_use b" "sn_signal a < sn_signal b"
  shows "shown_rows [a, b] = [b]"
  using assms by (simp add: shown_rows_def keep_best_def)

section \<open>A host\<close>

definition demo_wifi_world :: "unit wifi_world" where
  "demo_wifi_world = \<lparr>wi_admin = ''1'', wi_present = True,
     wi_run = (\<lambda>args n. (Nm_exit 0 (if args = show_saved then ''lab:u1:802-11-wireless:5'' @ [CHR 0x0A] @ ''old:u2:802-11-wireless:3'' @ [CHR 0x0A] else []) [], n)),
     wi_writable = True\<rparr>"

definition demo_wifi :: "unit wifi" where
  "demo_wifi = \<lparr>wf_nm = (), wf_log = [], wf_pins = Absent\<rparr>"

lemma demo_saved: "fst (saved_wifi_connections demo_wifi_world demo_wifi) =
    [\<lparr>sw_name = ''lab'', sw_uuid = ''u1'', sw_time = 5\<rparr>, \<lparr>sw_name = ''old'', sw_uuid = ''u2'', sw_time = 3\<rparr>]"
proof -
  have t: "text_lines (''lab:u1:802-11-wireless:5'' @ [CHR 0x0A] @ ''old:u2:802-11-wireless:3'' @ [CHR 0x0A]) = [''lab:u1:802-11-wireless:5'', ''old:u2:802-11-wireless:3'']"
    by code_simp
  have l: "saved_of_line ''lab:u1:802-11-wireless:5'' = Some \<lparr>sw_name = ''lab'', sw_uuid = ''u1'', sw_time = 5\<rparr>"
    "saved_of_line ''old:u2:802-11-wireless:3'' = Some \<lparr>sw_name = ''old'', sw_uuid = ''u2'', sw_time = 3\<rparr>" by code_simp+
  have r: "fst (nmcli demo_wifi_world show_saved demo_wifi) = Nm_exit 0 (''lab:u1:802-11-wireless:5'' @ [CHR 0x0A] @ ''old:u2:802-11-wireless:3'' @ [CHR 0x0A]) []"
    by (simp add: nmcli_def demo_wifi_world_def)
  show ?thesis using t by (simp add: saved_wifi_connections_def r nm_lines_def List.map_filter_def l)
qed

theorem pruning_spares_witness:
  "nat 1 < length (prunable [] [\<lparr>sw_name = ''lab'', sw_uuid = ''u1'', sw_time = 5\<rparr>, \<lparr>sw_name = ''old'', sw_uuid = ''u2'', sw_time = 3\<rparr>])"
proof -
  have p: "load_pinned (wf_pins demo_wifi) = []" by (simp add: load_pinned_def demo_wifi_def)
  have "delete_call ''u2'' \<in> set (drop (length (wf_log demo_wifi)) (wf_log (snd (promote_and_prune_wifi demo_wifi_world ''lab'' 1 demo_wifi))))"
    by (simp add: promote_log demo_saved p prune_calls_def prunable_def by_recency_def)
  from pruning_spares [OF _ _ demo_saved [symmetric] this] show ?thesis by (simp add: p)
qed

theorem terse_fields_read_back_witness: "split_terse (join_with '':'' (map terse_escape [''a:b'', [], ''c''])) = [''a:b'', [], ''c'']"
  by (rule terse_fields_read_back) simp

end
