(* ===== verification/Platformcfg.thy ===== *)
theory Platformcfg
  imports PyValue
begin

text \<open>
  The console's platform settings: the sensor identifier derived from the host's name (\<open>edge-console/sensor_id_resolve.py\<close>) and
  the settings file (\<open>edge-console/config_store.py\<close>). Settings are the dict the schema library makes of the class; its
  validation, which may refuse, is a parameter, as are the host name, the environment and the clock. The dots and
  bullets of a preview are ASCII.
\<close>

section \<open>The identifier of a sensor\<close>

text \<open>Every run of the characters is one dash: \<open>re.sub("[...]+", "-", s)\<close>.\<close>

function dash_runs :: "(char \<Rightarrow> bool) \<Rightarrow> string \<Rightarrow> string" where
  "dash_runs P [] = []"
| "dash_runs P (c # cs) = (if P c then CHR ''-'' # dash_runs P (dropWhile P cs) else c # dash_runs P cs)"
  by pat_completeness auto
termination
  by (relation "measure (\<lambda>(P, s). length s)") (simp_all add: le_imp_less_Suc length_dropWhile_le)

definition id_char :: "char \<Rightarrow> bool" where
  "id_char c = (let n = chr_code c in (97 \<le> n \<and> n \<le> 122) \<or> (48 \<le> n \<and> n \<le> 57) \<or> c = CHR ''_'' \<or> c = CHR ''-'')"

definition strip_dashes :: "string \<Rightarrow> string" where
  "strip_dashes s = (let P = (\<lambda>c. c = CHR ''-'' \<or> c = CHR ''_'') in rev (dropWhile P (rev (dropWhile P s))))"

definition sanitize_sensor_token :: "string \<Rightarrow> string" where
  "sanitize_sensor_token v =
     (let s = map (\<lambda>c. if c = CHR ''.'' \<or> c = CHR '' '' then CHR ''-'' else c) (lower (strip v)) in
      take 64 (strip_dashes (dash_runs (\<lambda>c. c = CHR ''-'') (dash_runs (\<lambda>c. \<not> id_char c) s))))"

definition short_host :: "string \<Rightarrow> string \<Rightarrow> string" where
  "short_host file_text host =
     (let text = strip file_text; first = (if text \<noteq> [] then hd (split_on (CHR ''.'') text) else []);
          name = strip (if first \<noteq> [] then first else host) in
      if name \<noteq> [] then hd (split_on (CHR ''.'') name) else [])"

definition sensor_id_from_hostname :: "string \<Rightarrow> string \<Rightarrow> string" where
  "sensor_id_from_hostname hostname prefix =
     (let host = (if sanitize_sensor_token hostname \<noteq> [] then sanitize_sensor_token hostname else ''unknown'');
          pref = (if sanitize_sensor_token prefix \<noteq> [] then sanitize_sensor_token prefix else ''ot-edge'') in
      take 64 (if starts_with (pref @ ''-'') host \<or> host = pref then host else pref @ ''-'' @ host))"

definition is_placeholder_sensor_id :: "string option \<Rightarrow> bool" where
  "is_placeholder_sensor_id v = (case v of None \<Rightarrow> True | Some s \<Rightarrow> lower (strip s) \<in> {[], ''ot-edge-001''})"

definition should_auto_assign :: "string \<Rightarrow> bool \<Rightarrow> bool \<Rightarrow> bool" where
  "should_auto_assign sensor configured registered = (is_placeholder_sensor_id (Some sensor) \<and> \<not> (configured \<and> registered))"

datatype id_source = From_env | From_platform | From_yaml | From_hostname | From_fallback

definition resolve_sensor_id_with_source :: "string \<Rightarrow> string \<Rightarrow> string \<Rightarrow> string \<Rightarrow> bool \<Rightarrow> string \<times> id_source" where
  "resolve_sensor_id_with_source hostname env_id yaml_id platform_id allow =
     (case find (\<lambda>(src, v). v \<noteq> [] \<and> \<not> is_placeholder_sensor_id (Some v)) [(From_env, env_id), (From_platform, platform_id), (From_yaml, yaml_id)] of
        Some (src, v) \<Rightarrow> (strip v, src)
      | None \<Rightarrow>
          let derived = sensor_id_from_hostname hostname ''ot-edge'' in
          if allow \<and> derived \<noteq> [] then (derived, From_hostname) else (''ot-edge-001'', From_fallback))"

definition hostname_enabled :: "string option \<Rightarrow> bool" where
  "hostname_enabled env = (lower (case env of None \<Rightarrow> ''1'' | Some v \<Rightarrow> v) \<notin> {''0'', ''false'', ''no''})"

section \<open>The settings file\<close>

record cfg_world =
  cw_validate :: "json \<Rightarrow> json option"
  cw_hostname :: string
  cw_sensor_env :: string
  cw_allow :: bool
  cw_profile_env :: string
  cw_key_env :: string
  cw_now :: string

definition jput :: "string \<Rightarrow> json \<Rightarrow> json \<Rightarrow> json" where
  "jput k v d = JObj (dict_put k v (obj_items d))"

definition profile_locked :: "cfg_world \<Rightarrow> bool" where
  "profile_locked w = (lower (strip (cw_profile_env w)) \<in> {''it'', ''it_ndr''})"

definition apply_sensor_id_defaults :: "cfg_world \<Rightarrow> json \<Rightarrow> json" where
  "apply_sensor_id_defaults w c =
     (let c = (if should_auto_assign (py_str (jget c ''sensor_id'')) (truthy (jget c ''configured'')) (truthy (jget c ''last_register_ok''))
            then jput ''sensor_id'' (JStr (fst (resolve_sensor_id_with_source (cw_hostname w) (cw_sensor_env w) [] (py_str (jget c ''sensor_id'')) (cw_allow w)))) c else c) in
      if profile_locked w
      then (let c = jput ''ndr_profile'' (JStr ''it_ndr'') c in
        if jget c ''sensor_type'' = JStr ''ot-edge-sensor'' then jput ''sensor_type'' (JStr ''it-ndr-edge'') c else c)
      else c)"

text \<open>\<open>None\<close>: the validation of the class refused.\<close>

definition load_config :: "cfg_world \<Rightarrow> jfile \<Rightarrow> json option" where
  "load_config w f = map_option (apply_sensor_id_defaults w) (case f of
       Absent \<Rightarrow> cw_validate w (JObj [(''sensel_api_key'', JStr (cw_key_env w))])
     | Doc raw \<Rightarrow> cw_validate w raw
     | _ \<Rightarrow> cw_validate w (JObj []))"

definition save_config :: "cfg_world \<Rightarrow> json \<Rightarrow> json" where
  "save_config w c = jput ''updated_at'' (JStr (cw_now w)) c"

definition secret_fields :: "string list" where
  "secret_fields = [''registration_token'', ''sensel_api_key'', ''smb_intel_api_key'']"

definition preview :: "nat \<Rightarrow> nat \<Rightarrow> nat \<Rightarrow> string \<Rightarrow> string" where
  "preview limit front back s = (if limit < length s then take front s @ ''...'' @ drop (length s - back) s else if s \<noteq> [] then ''****'' else [])"

definition public_view :: "cfg_world \<Rightarrow> json \<Rightarrow> json" where
  "public_view w c =
     (let token = str_or_empty (jget c ''registration_token''); key = str_or_empty (jget c ''sensel_api_key''); intel = str_or_empty (jget c ''smb_intel_api_key'') in
      JObj (fold (\<lambda>(k, v). dict_put k v)
        [(''registration_token_set'', JBool (strip token \<noteq> [])), (''registration_token_preview'', JStr (preview 6 4 2 token)),
         (''sensel_api_key_set'', JBool (strip key \<noteq> [])), (''sensel_api_key_preview'', JStr (preview 8 6 0 key)),
         (''smb_intel_api_key_set'', JBool (strip intel \<noteq> [])), (''smb_intel_api_key_preview'', JStr (preview 8 6 0 intel)),
         (''hostname'', JStr (cw_hostname w)), (''sensor_id_suggested'', JStr (sensor_id_from_hostname (cw_hostname w) ''ot-edge'')),
         (''sensor_id_source'', JStr (case snd (resolve_sensor_id_with_source (cw_hostname w) (cw_sensor_env w) [] (py_str (jget c ''sensor_id'')) (cw_allow w)) of
             From_env \<Rightarrow> ''env'' | From_platform \<Rightarrow> ''platform'' | From_yaml \<Rightarrow> ''yaml'' | From_hostname \<Rightarrow> ''hostname'' | From_fallback \<Rightarrow> ''fallback'')),
         (''ndr_profile_locked'', JBool (profile_locked w)),
         (''ndr_profile_label'', JStr (if jget c ''ndr_profile'' = JStr ''it_ndr'' then ''IT NDR'' else ''OT IDS''))]
        (filter (\<lambda>p. fst p \<notin> set secret_fields) (obj_items c))))"

definition env_lines :: "json \<Rightarrow> string list" where
  "env_lines c =
     [''CAPTURE_INTERFACE='' @ py_str (jget c ''capture_interface''), ''CAPTURE_BPF_FILTER='' @ py_str (jget c ''capture_bpf_filter''),
      ''MQTT_TENANT_ID='' @ py_str (py_or (jget c ''mqtt_tenant_id'') (py_or (jget c ''last_register_tenant_id'') (JStr ''default''))),
      ''SENSOR_ID='' @ py_str (jget c ''sensor_id'')]"

definition patch_field :: "cfg_world \<Rightarrow> string \<times> json \<Rightarrow> json \<Rightarrow> json" where
  "patch_field w kv m = (case kv of (k, v) \<Rightarrow>
     if v = JNull then m
     else if k = ''ndr_profile'' \<and> profile_locked w then m
     else if k \<in> set secret_fields \<and> v = JStr [] then m
     else if jhas m k then jput k v m else m)"

text \<open>The new file and the lines of \<open>capture.env\<close>.\<close>

definition merge_update :: "cfg_world \<Rightarrow> (string \<times> json) list \<Rightarrow> jfile \<Rightarrow> (json \<times> string list) option" where
  "merge_update w patch f = (case load_config w f of None \<Rightarrow> None
     | Some current \<Rightarrow> (case cw_validate w (jput ''configured'' (JBool True) (fold (patch_field w) patch current)) of
          None \<Rightarrow> None
        | Some c \<Rightarrow> Some (save_config w c, env_lines (save_config w c))))"

definition record_register_result :: "cfg_world \<Rightarrow> bool \<Rightarrow> string option \<Rightarrow> string option \<Rightarrow> jfile \<Rightarrow> json option" where
  "record_register_result w ok tenant error f = (case load_config w f of None \<Rightarrow> None
     | Some c \<Rightarrow>
        let text = (\<lambda>t. case t of None \<Rightarrow> JNull | Some s \<Rightarrow> JStr s);
            c = jput ''last_register_error'' (text error) (jput ''last_register_tenant_id'' (text tenant)
                 (jput ''last_register_ok'' (JBool ok) (jput ''last_register_at'' (JStr (cw_now w)) c))) in
        Some (save_config w (if ok \<and> tenant \<noteq> None \<and> tenant \<noteq> Some []
          then jput ''configured'' (JBool True) (jput ''mqtt_tenant_id'' (text tenant) c) else c)))"

section \<open>Identifiers\<close>

lemma dash_runs_chars: "c \<in> set (dash_runs P s) \<Longrightarrow> c = CHR ''-'' \<or> (c \<in> set s \<and> \<not> P c)"
  by (induction P s rule: dash_runs.induct) (auto split: if_splits dest: set_dropWhileD)

lemma strip_dashes_subset: "set (strip_dashes s) \<subseteq> set s"
  by (auto simp: strip_dashes_def Let_def dest!: set_dropWhileD)

lemma id_char_dash [simp]: "id_char (CHR ''-'')"
  by (simp add: id_char_def)

lemma token_chars: "c \<in> set (sanitize_sensor_token v) \<Longrightarrow> id_char c"
proof -
  assume "c \<in> set (sanitize_sensor_token v)"
  then have "c \<in> set (strip_dashes (dash_runs (\<lambda>c. c = CHR ''-'') (dash_runs (\<lambda>c. \<not> id_char c)
      (map (\<lambda>c. if c = CHR ''.'' \<or> c = CHR '' '' then CHR ''-'' else c) (lower (strip v))))))"
    by (auto simp: sanitize_sensor_token_def Let_def dest!: in_set_takeD)
  then show ?thesis using strip_dashes_subset by (blast dest: dash_runs_chars intro: id_char_dash)
qed

text \<open>
  Whatever the host is called, the identifier it gets is one the control plane takes: not empty, at most sixty-four
  characters, all of them small letters, digits, dashes and underscores.
\<close>

theorem derived_id_wellformed:
  "sensor_id_from_hostname hostname prefix \<noteq> [] \<and> length (sensor_id_from_hostname hostname prefix) \<le> 64
    \<and> (\<forall>c\<in>set (sensor_id_from_hostname hostname prefix). id_char c)"
proof -
  define host where "host = (if sanitize_sensor_token hostname \<noteq> [] then sanitize_sensor_token hostname else ''unknown'')"
  define pref where "pref = (if sanitize_sensor_token prefix \<noteq> [] then sanitize_sensor_token prefix else ''ot-edge'')"
  have n: "host \<noteq> []" by (simp add: host_def)
  have u: "\<forall>c\<in>set ''unknown''. id_char c" "\<forall>c\<in>set ''ot-edge''. id_char c" by (simp_all add: id_char_def chr_code_def)
  have h: "\<forall>c\<in>set host. id_char c" "\<forall>c\<in>set pref. id_char c"
    using token_chars u by (auto simp: host_def pref_def split: if_splits)
  have e: "sensor_id_from_hostname hostname prefix = take 64 (if starts_with (pref @ ''-'') host \<or> host = pref then host else pref @ ''-'' @ host)"
    by (simp only: sensor_id_from_hostname_def host_def pref_def Let_def)
  let ?full = "if starts_with (pref @ ''-'') host \<or> host = pref then host else pref @ ''-'' @ host"
  have f: "?full \<noteq> []" "\<forall>c\<in>set ?full. id_char c" using n h by auto
  have "\<forall>c\<in>set (take 64 ?full). id_char c" using f(2) by (blast dest: in_set_takeD)
  then show ?thesis unfolding e using f(1) by simp
qed

text \<open>
  An identifier the operator chose is never replaced: the one in the environment wins, then the one saved, and the host name is
  only asked when both are placeholders.
\<close>

theorem chosen_id_wins:
  "(\<not> is_placeholder_sensor_id (Some env_id) \<longrightarrow> resolve_sensor_id_with_source h env_id y p a = (strip env_id, From_env))
   \<and> (is_placeholder_sensor_id (Some env_id) \<longrightarrow> \<not> is_placeholder_sensor_id (Some p) \<longrightarrow>
     resolve_sensor_id_with_source h env_id y p a = (strip p, From_platform))"
  by (auto simp: resolve_sensor_id_with_source_def is_placeholder_sensor_id_def strip_def lstrip_def rstrip_def lower_def)

section \<open>Secrets\<close>

lemma jget_jput [simp]: "jget (jput k v d) k' = (if k' = k then v else jget d k')" "is_obj (jput k v d)"
  by (simp_all add: jput_def jget_def)

lemma patch_keeps_secret:
  assumes "k \<in> set secret_fields" "\<forall>v. (k, v) \<in> set patch \<longrightarrow> v = JNull \<or> v = JStr []"
  shows "jget (fold (patch_field w) patch m) k = jget m k"
  using assms(2)
proof (induction patch arbitrary: m)
  case (Cons kv patch)
  obtain k' v where kv: "kv = (k', v)" by (cases kv)
  have "jget (patch_field w kv m) k = jget m k"
  proof (cases "k' = k")
    case True
    then have "v = JNull \<or> v = JStr []" using Cons.prems kv by simp
    then show ?thesis using True assms(1) kv by (elim disjE) (simp_all add: patch_field_def)
  next
    case False
    then show ?thesis using kv by (simp add: patch_field_def)
  qed
  then show ?case using Cons by simp
qed simp

text \<open>
  Saving the settings page does not lose a secret: a field that comes back empty, as the page shows it, or not at all
  keeps the secret that was stored, provided the validation keeps what it is given.
\<close>

theorem blank_keeps_secret:
  assumes k: "k \<in> set secret_fields" and p: "\<forall>v. (k, v) \<in> set patch \<longrightarrow> v = JNull \<or> v = JStr []"
    and v: "\<forall>d c. cw_validate w d = Some c \<longrightarrow> jget c k = jget d k"
    and m: "merge_update w patch f = Some (c, env)" and l: "load_config w f = Some old"
  shows "jget c k = jget old k"
proof -
  obtain c0 where c: "cw_validate w (jput ''configured'' (JBool True) (fold (patch_field w) patch old)) = Some c0" "c = save_config w c0"
    using m l by (simp add: merge_update_def split: option.splits)
  have n: "k \<noteq> ''configured''" "k \<noteq> ''updated_at''" using k by (auto simp: secret_fields_def)
  have "jget c k = jget c0 k" using c(2) n by (simp add: save_config_def)
  also have "\<dots> = jget (jput ''configured'' (JBool True) (fold (patch_field w) patch old)) k" using v c(1) by blast
  also have "\<dots> = jget (fold (patch_field w) patch old) k" using n by simp
  also have "\<dots> = jget old k" by (rule patch_keeps_secret [OF k p])
  finally show ?thesis .
qed

lemma filter_put_secret: "k \<in> set secret_fields \<Longrightarrow>
    filter (\<lambda>p. fst p \<notin> set secret_fields) (dict_put k v d) = filter (\<lambda>p. fst p \<notin> set secret_fields) d"
  by (induction d) auto

text \<open>
  What the page is shown of a registration token is its first four and its last two characters and nothing else: two settings
  that differ in a longer token of the same ends look the same. The number of characters left hidden is all but six, so of
  a token of seven characters one.
\<close>

theorem view_hides_token:
  assumes "6 < length a" "6 < length b" "take 4 a = take 4 b" "drop (length a - 2) a = drop (length b - 2) b" "strip a \<noteq> []" "strip b \<noteq> []"
  shows "public_view w (jput ''registration_token'' (JStr a) c) = public_view w (jput ''registration_token'' (JStr b) c)"
proof -
  have t: "str_or_empty (JStr a) = a" "str_or_empty (JStr b) = b" using assms(1,2) by (auto simp: str_or_empty_def)
  have v: "preview 6 4 2 a = preview 6 4 2 b" using assms(1-4) by (simp add: preview_def)
  have f: "filter (\<lambda>p. fst p \<notin> set secret_fields) (obj_items (jput ''registration_token'' (JStr x) c)) = filter (\<lambda>p. fst p \<notin> set secret_fields) (obj_items c)" for x
    unfolding jput_def obj_items.simps by (rule filter_put_secret) (simp add: secret_fields_def)
  show ?thesis using assms(5,6) by (simp only: public_view_def f jget_jput t v Let_def) (simp add: v)
qed

theorem view_hides_token_witness:
  "public_view w (jput ''registration_token'' (JStr ''abcd1234yz'') c) = public_view w (jput ''registration_token'' (JStr ''abcdefyz'') c)"
proof -
  have "strip ''abcd1234yz'' = ''abcd1234yz''" "strip ''abcdefyz'' = ''abcdefyz''" by code_simp+
  then show ?thesis by (intro view_hides_token) simp_all
qed

section \<open>A console\<close>

definition demo_cfg_world :: cfg_world where
  "demo_cfg_world = \<lparr>cw_validate = Some, cw_hostname = ''plc-gw'', cw_sensor_env = [], cw_allow = True, cw_profile_env = [], cw_key_env = [], cw_now = ''now''\<rparr>"

theorem blank_keeps_secret_witness:
  "\<exists>c env. merge_update demo_cfg_world [(''registration_token'', JStr [])] (Doc (JObj [(''registration_token'', JStr ''abc'')])) = Some (c, env)
    \<and> jget c ''registration_token'' = jget (the (load_config demo_cfg_world (Doc (JObj [(''registration_token'', JStr ''abc'')])))) ''registration_token''"
proof -
  let ?f = "Doc (JObj [(''registration_token'', JStr ''abc'')])" and ?p = "[(''registration_token'', JStr [])]"
  have l: "\<exists>old. load_config demo_cfg_world ?f = Some old" by (simp add: load_config_def demo_cfg_world_def)
  then obtain old where old: "load_config demo_cfg_world ?f = Some old" by blast
  then obtain c env where m: "merge_update demo_cfg_world ?p ?f = Some (c, env)"
    by (simp add: merge_update_def) (simp add: demo_cfg_world_def)
  have "jget c ''registration_token'' = jget old ''registration_token''"
    by (rule blank_keeps_secret [OF _ _ _ m old]) (simp_all add: secret_fields_def demo_cfg_world_def)
  then show ?thesis using m old by auto
qed

end
