(* ===== verification/Spec2Isabelle.thy ===== *)
theory Spec2Isabelle
  imports Pipeline Lifecycle Agentloop Vpnconsole Sessions Eventsindex Hostnet Wifi Platformcfg
begin

text \<open>
  A model of the OT edge sensor and the theorems that make it correct.

  THE PROGRAM. Four services run on one appliance and share a volume of files. The packet sensor
  (\<open>services/packet-sensor\<close>) reads frames from a mirror port, parses them, learns a baseline or detects against
  it, and writes security events. The edge agent (\<open>services/sensel-edge-agent\<close>) talks to the control plane: it
  uploads the events, reports sightings and topology, and turns what it pulls or is sent over MQTT (rules, lists, IoCs,
  operational mode, policies, profiles) into the files the sensor hot-reloads. The edge console
  (\<open>services/edge-console\<close>) is the operator's web page: it approves baselines, shows events and interfaces and
  writes the desired VPN state, which the VPN sidecar (\<open>services/vpn-client\<close>) makes true. The theories follow
  these services; each opens with what it holds. A definition has the name of the function or class it models
  where that name is free.

  GROUND. \<open>Prelude\<close>: exceptions as values, dictionaries that keep their order (locale \<open>table\<close>), and the collections
  \<open>dict_laws\<close>, \<open>frame_rules\<close>, \<open>inv_rules\<close>. \<open>PyValue\<close>: text methods, decimal numbers, JSON values with Python's truth, equality
  and conversions, files as the code sees them. \<open>Jsontext\<close>: the writer and the reader of JSON text, with the round
  trip and the lines of a text. \<open>Isotime\<close>: the calendar, with the round trip of \<open>isoformat\<close> and
  \<open>fromisoformat\<close>. \<open>Ipaddr\<close>: addresses and networks. \<open>Tail\<close>: following a growing file (locale \<open>line_tail\<close>).

  PACKET SENSOR. Parsers: \<open>Ber\<close> (\<open>ber.py\<close>, bytes as 8-bit words), \<open>Packet\<close> (\<open>ethernet.py\<close>, \<open>ip.py\<close>, \<open>transport.py\<close>), \<open>Modbus\<close>,
  \<open>Goose\<close>, \<open>Mms\<close>; what a builder writes they read back, and every malformed input ends in a stated error. Detectors:
  \<open>Inventory\<close> and \<open>Mvp\<close> (OT-001 to OT-010), \<open>Iec61850\<close> (OT-011 to OT-018), \<open>Ioc\<close> (OT-019 and the hot-reloaded cache);
  the lemmas say when each rule fires and that a rule which is meant to fire once does. \<open>Events\<close>, \<open>Buffers\<close>, \<open>Coverage\<close>,
  \<open>Features\<close>: the event record, the bounded queues, the counters and the window summaries. \<open>Stores\<close>: the policy
  stores with their hot reload. \<open>Engines\<close>: the Snort and Suricata bridges, each line taken exactly once.
  \<open>Topology\<close> and \<open>Baseline\<close>: the classifier and the collector; building a candidate never fails, and a policy
  made of what was learned accepts that traffic again. \<open>Pipeline\<close>: the whole of \<open>processor.py\<close> over these parts, with
  exceptions as values, and the capture loop as far as it hands over frames.

  EDGE AGENT. \<open>Upload\<close> and \<open>Sightings\<close>: the event tail and the retry queue as the text of its file; the queue is a table
  (refinement), retries are bounded and end. \<open>Rulesync\<close>, \<open>Feedsync\<close>, \<open>Policysync\<close>: signed rule bundles, list and IoC feeds
  and pushed artifacts; a rules file is the body of a signed answer and passed its commands, unless one of them
  raised, and what is applied on the agent is what the sensor's store answers after its reload. \<open>Subscribe\<close>: the seven MQTT subscribers (locale \<open>message_channel\<close>, a step
  relation for each life cycle). \<open>Northbound\<close>: topics, the publishing client and registration, with the settings
  object that two owners share kept in a store. \<open>Ticks\<close>: observe ticks and topology snapshots. \<open>Agentloop\<close>: the
  upload part of the main loop; every event of a batch is accounted for unless a line that is no object ends it.

  EDGE CONSOLE AND SIDECAR. \<open>Lifecycle\<close>: candidate, approval, drift, history and rollback, composed with the sensor's store.
  \<open>Vpn\<close>: the supervisor as a function of a pass and the inductive predicate \<open>supervised\<close> of the states that passes and
  crashes reach; one tunnel at most, the filters of the split tunnel, the bound on the delay, the latch.
  \<open>Vpnconsole\<close>: profiles and the desired state, and the composition of both: a request that is accepted is the
  tunnel that runs, unless it comes in the moment between an exit and the next pass. \<open>Sessions\<close>: password and
  session tokens. \<open>Eventsindex\<close>: the event views and their cache. \<open>Hostnet\<close>: the interface page and its guards. \<open>Wifi\<close>:
  remembered and pinned networks, scanning and the choice of the uplink, over a NetworkManager with any state. \<open>Platformcfg\<close>:
  the settings file with its secrets and the identifier derived from the host name.

  INTERFACES. The locales are \<open>table\<close> (\<open>Prelude\<close>), \<open>line_tail\<close> (\<open>Tail\<close>), \<open>message_channel\<close> (\<open>Subscribe\<close>) and those declared
  beside the queues, stores and detectors that share a contract; each is interpreted on the definitions of the code.

  BOUNDS. Python's integers are \<open>int\<close> or \<open>nat\<close>; bytes of the parsers are 8-bit words. Floats are rationals, so rounding
  is not modelled; the code compares and adds them, apart from the rounding it asks for itself. Characters are those
  below U+0100, and fixed Chinese texts are constructors or English. The reader of JSON has the fuel \<open>2 * length + 2\<close>,
  two steps for each character, which the round trip shows to suffice for all that the writer writes. The calendar search
  runs over the years 1 to 9999 of \<open>datetime\<close>. Every other recursion is structural or has a measure.
  The clock is read once in a step of the VPN supervisor; between two polls of one pass its child does not end.

  CONCURRENCY. The services and their threads take turns: a step of the model is one call of a method, and what may happen
  between calls is any sequence of steps. Two places of the program are finer. \<open>flush_features\<close> of the sensor runs in the
  main thread while the capture thread runs \<open>process\<close>; it is modelled as two steps, and what falls between them is a theorem.
  The rule pulls of the agent come from the MQTT thread and the main loop without a lock; they are modelled one after the
  other, so that an overlap of two pulls, with one backup file for both, is outside the model.

  PARAMETERS. What is not in the repository is an argument: the keyed hash, the decoding of UTF-8, HTTP and MQTT
  answers, docker, the kernel's interface probes, OpenVPN, the rule engines' self tests, clocks and random
  identifiers. Where a theorem relies on one of them (a hash prints hexadecimal digits, a signal reaches a child), that is
  a hypothesis, and a witness shows that it can hold.

  NOT MODELLED. Settings and environment overlays (\<open>config/\<close> of the agent and the sensor), platform
  detection, the health collectors, start-up and shutdown of the services, the web routes of the
  console (\<open>main.py\<close>) and the services behind them that only call docker or other programs (EdgeX, status, traffic, lab,
  discovery, Suricata update), the XDP loader, Scapy's capture and the scripts that run inside other containers. They are
  input and output around the parts above; \<open>clear_session\<close>, \<open>list_profiles\<close> and the Wi-Fi \<open>status\<close> are left out of theories that
  model the rest of their files.
\<close>

end
